(* ===== verification/Prelude.thy ===== *)
theory Prelude
  imports Main "HOL-Library.Word" "HOL-Library.List_Lexorder" "HOL-Library.Char_ord"
begin

section \<open>What every component shares\<close>

text \<open>
  The exceptions of the program and the state-and-exception computations all its operations
  are written in, with their lemmas; the parts of a larger state; and machine integers with
  their wrap-around. A \<open>string\<close> is a list of bytes, as \<open>std::string\<close> is.
\<close>

named_theorems io_defs \<open>unfolding rules of the computation combinators\<close>
named_theorems msg_defs \<open>the texts of the messages, unfolded only to evaluate\<close>

subsection \<open>Exceptions and computations\<close>

text \<open>
  \<open>Terminate\<close> is \<open>std::terminate\<close>: an exception that leaves a destructor. Every other
  constructor derives from \<open>std::exception\<close>, so it is caught by a handler for it.
\<close>

datatype exn =
    RuntimeError string
  | MySQLException int string
  | MySQLDuplicateKeyException int string
  | MySQLBuildException string
  | MySQLResultException string
  | StdOutOfRange string
  | StdInvalidArgument string
  | RedisError string
  | Terminate

type_synonym ('w, 'a) io = "'w \<Rightarrow> (exn + 'a) \<times> 'w"

definition ret :: "'a \<Rightarrow> ('w, 'a) io" where
  "ret a = (\<lambda>w. (Inr a, w))"

definition throw :: "exn \<Rightarrow> ('w, 'a) io" where
  "throw e = (\<lambda>w. (Inl e, w))"

definition bindE :: "('w, 'a) io \<Rightarrow> ('a \<Rightarrow> ('w, 'b) io) \<Rightarrow> ('w, 'b) io" where
  "bindE m f = (\<lambda>w. case m w of (Inl e, w') \<Rightarrow> (Inl e, w') | (Inr a, w') \<Rightarrow> f a w')"

text \<open>\<open>lift r\<close> turns a pure result (an exception or a value) into a computation.\<close>

definition lift :: "exn + 'a \<Rightarrow> ('w, 'a) io" where
  "lift r = (\<lambda>w. (r, w))"

text \<open>\<open>try \<dots> catch (const std::exception& e)\<close>: the handler sees the exception, and what
  the body did to the state stays done.\<close>

definition try_catch :: "('w, 'a) io \<Rightarrow> (exn \<Rightarrow> ('w, 'a) io) \<Rightarrow> ('w, 'a) io" where
  "try_catch m h = (\<lambda>w. case m w of
       (Inl e, w') \<Rightarrow> if e = Terminate then (Inl e, w') else h e w'
     | (Inr a, w') \<Rightarrow> (Inr a, w'))"

declare ret_def [io_defs] throw_def [io_defs] bindE_def [io_defs] lift_def [io_defs]
  try_catch_def [io_defs]

lemma bindE_ret [simp]: "bindE (ret a) f = f a"
  by (simp add: io_defs)

lemma bindE_throw [simp]: "bindE (throw e) f = throw e"
  by (simp add: io_defs)

lemma bindE_assoc: "bindE (bindE m f) g = bindE m (\<lambda>a. bindE (f a) g)"
  by (rule ext) (simp add: io_defs split: prod.splits sum.splits)

lemma bindE_Inr: "m w = (Inr a, w') \<Longrightarrow> bindE m f w = f a w'"
  by (simp add: bindE_def)

lemma bindE_Inl: "m w = (Inl e, w') \<Longrightarrow> bindE m f w = (Inl e, w')"
  by (simp add: bindE_def)

lemma bindE_Inr_iff:
  "bindE m f w = (Inr b, w'') \<longleftrightarrow> (\<exists>a w'. m w = (Inr a, w') \<and> f a w' = (Inr b, w''))"
  by (auto simp: bindE_def split: prod.splits sum.splits)

lemma try_catch_Inr: "m w = (Inr a, w') \<Longrightarrow> try_catch m h w = (Inr a, w')"
  by (simp add: try_catch_def)

lemma try_catch_Inl:
  "m w = (Inl e, w') \<Longrightarrow> e \<noteq> Terminate \<Longrightarrow> try_catch m h w = h e w'"
  by (simp add: try_catch_def)

text \<open>A computation \<^emph>\<open>contains its exceptions\<close> when only \<open>Terminate\<close> can leave it.\<close>

definition contained :: "('w, 'a) io \<Rightarrow> bool" where
  "contained m \<longleftrightarrow> (\<forall>w e w'. m w = (Inl e, w') \<longrightarrow> e = Terminate)"

lemma contained_ret [simp, intro]: "contained (ret a)"
  by (simp add: contained_def ret_def)

lemma contained_bindE [intro]:
  assumes "contained m" and "\<And>a. contained (f a)"
  shows "contained (bindE m f)"
  using assms by (fastforce simp: contained_def bindE_def split: prod.splits sum.splits)

lemma contained_try_catch [intro]:
  assumes "\<And>e. contained (h e)"
  shows "contained (try_catch m h)"
  using assms by (fastforce simp: contained_def try_catch_def split: prod.splits sum.splits if_splits)

lemma contained_If [intro]: "contained m \<Longrightarrow> contained m' \<Longrightarrow> contained (if b then m else m')"
  by simp

subsection \<open>Parts of a state\<close>

text \<open>A method of a member object, run on the object inside a larger state.\<close>

definition zoom :: "('w \<Rightarrow> 'h) \<Rightarrow> ('h \<Rightarrow> 'w \<Rightarrow> 'w) \<Rightarrow> ('h, 'a) io \<Rightarrow> ('w, 'a) io" where
  "zoom g p m = (\<lambda>w. case m (g w) of (r, h) \<Rightarrow> (r, p h w))"

text \<open>Reading and updating the state.\<close>

definition asks :: "('w \<Rightarrow> 'a) \<Rightarrow> ('w, 'a) io" where
  "asks f = (\<lambda>w. (Inr (f w), w))"

definition modify :: "('w \<Rightarrow> 'w) \<Rightarrow> ('w, unit) io" where
  "modify f = (\<lambda>w. (Inr (), f w))"

declare asks_def [io_defs] modify_def [io_defs]

text \<open>The member an object is: what is put is what is got, and nothing else changes.\<close>

locale member_lens =
  fixes g :: "'w \<Rightarrow> 'h" and p :: "'h \<Rightarrow> 'w \<Rightarrow> 'w" and rest :: "'w \<Rightarrow> 'x"
  assumes get_put: "g (p h w) = h" and rest_put: "rest (p h w) = rest w"

subsection \<open>Machine integers\<close>

text \<open>Two's complement at 32 and 64 bits: the value an \<open>int\<close> or \<open>int64_t\<close> holds after a
  computation that would give \<open>x\<close> over the unbounded integers.\<close>

definition wrap32 :: "int \<Rightarrow> int" where
  "wrap32 x = (x + 2 ^ 31) mod 2 ^ 32 - 2 ^ 31"

definition wrap64 :: "int \<Rightarrow> int" where
  "wrap64 x = (x + 2 ^ 63) mod 2 ^ 64 - 2 ^ 63"

definition in_int32 :: "int \<Rightarrow> bool" where
  "in_int32 x \<longleftrightarrow> - (2 ^ 31) \<le> x \<and> x < 2 ^ 31"

definition in_int64 :: "int \<Rightarrow> bool" where
  "in_int64 x \<longleftrightarrow> - (2 ^ 63) \<le> x \<and> x < 2 ^ 63"

lemma wrap32_id [simp]: "in_int32 x \<Longrightarrow> wrap32 x = x"
  by (simp add: wrap32_def in_int32_def)

lemma wrap64_id [simp]: "in_int64 x \<Longrightarrow> wrap64 x = x"
  by (simp add: wrap64_def in_int64_def)

lemma wrap32_in [simp]: "in_int32 (wrap32 x)"
proof -
  have "0 \<le> (x + 2 ^ 31) mod 2 ^ 32" and "(x + 2 ^ 31) mod 2 ^ 32 < 2 ^ 32"
    by simp_all
  then show ?thesis by (simp add: wrap32_def in_int32_def)
qed

lemma wrap64_in [simp]: "in_int64 (wrap64 x)"
proof -
  have "0 \<le> (x + 2 ^ 63) mod 2 ^ 64" and "(x + 2 ^ 63) mod 2 ^ 64 < 2 ^ 64"
    by simp_all
  then show ?thesis by (simp add: wrap64_def in_int64_def)
qed

text \<open>Integer division of C++ truncates towards zero.\<close>

definition cdiv :: "int \<Rightarrow> int \<Rightarrow> int" where
  "cdiv a b = sgn a * sgn b * (\<bar>a\<bar> div \<bar>b\<bar>)"

lemma cdiv_pos: "0 \<le> a \<Longrightarrow> 0 < b \<Longrightarrow> cdiv a b = a div b"
  by (cases "a = 0") (simp_all add: cdiv_def)

lemma in_int64_seconds: "in_int64 x \<Longrightarrow> in_int64 (cdiv x 1000000000 * 1000000000)"
proof -
  assume x: "in_int64 x"
  have "\<bar>x\<bar> div 1000000000 * 1000000000 \<le> \<bar>x\<bar>" by simp
  then show ?thesis
    using x by (cases "0 \<le> x") (auto simp: cdiv_def in_int64_def sgn_if)
qed

lemma int_div_less_iff:
  fixes k x m :: int
  assumes k: "0 < k"
  shows "x div k < m \<longleftrightarrow> x < m * k"
proof
  assume "x div k < m"
  have "x < (x div k + 1) * k"
    using k pos_mod_bound [of k x] by (simp add: distrib_right minus_mod_eq_div_mult [symmetric])
  also have "\<dots> \<le> m * k" using \<open>x div k < m\<close> k by (intro mult_right_mono) auto
  finally show "x < m * k" .
next
  assume "x < m * k"
  show "x div k < m"
  proof (rule ccontr)
    assume "\<not> x div k < m"
    then have "m * k \<le> x div k * k" using k by (intro mult_right_mono) auto
    also have "\<dots> \<le> x" using k by (simp add: minus_mod_eq_div_mult [symmetric])
    finally show False using \<open>x < m * k\<close> by simp
  qed
qed

end
