(* ===== verification/Cpp_Strings.thy ===== *)
theory Cpp_Strings
  imports Prelude
begin

section \<open>The string functions of the C++ standard library\<close>

text \<open>
  What the sources use of \<open><cctype>\<close>, \<open>std::to_string\<close>, \<open>std::stoll\<close>, \<open>std::stoi\<close>,
  \<open>strtoll\<close>, \<open>atoi\<close>, \<open>std::string::find\<close>, \<open>rfind\<close> and of hexadecimal stream output,
  in the \<open>C\<close> locale, and the round trip between an integer and its decimal text.
\<close>

abbreviation ord :: "char \<Rightarrow> nat" where
  "ord c \<equiv> of_char c"

definition isdigit :: "char \<Rightarrow> bool" where
  "isdigit c \<longleftrightarrow> 48 \<le> ord c \<and> ord c \<le> 57"

definition isupper :: "char \<Rightarrow> bool" where
  "isupper c \<longleftrightarrow> 65 \<le> ord c \<and> ord c \<le> 90"

definition islower :: "char \<Rightarrow> bool" where
  "islower c \<longleftrightarrow> 97 \<le> ord c \<and> ord c \<le> 122"

definition isalpha :: "char \<Rightarrow> bool" where
  "isalpha c \<longleftrightarrow> isupper c \<or> islower c"

definition isalnum :: "char \<Rightarrow> bool" where
  "isalnum c \<longleftrightarrow> isalpha c \<or> isdigit c"

definition isspace :: "char \<Rightarrow> bool" where
  "isspace c \<longleftrightarrow> ord c = 32 \<or> 9 \<le> ord c \<and> ord c \<le> 13"

definition isxdigit :: "char \<Rightarrow> bool" where
  "isxdigit c \<longleftrightarrow> isdigit c \<or> 65 \<le> ord c \<and> ord c \<le> 70 \<or> 97 \<le> ord c \<and> ord c \<le> 102"

subsection \<open>Decimal text\<close>

definition digit_char :: "nat \<Rightarrow> char" where
  "digit_char d = char_of (48 + d)"

fun show_nat :: "nat \<Rightarrow> string" where
  "show_nat n = (if n < 10 then [digit_char n] else show_nat (n div 10) @ [digit_char (n mod 10)])"

declare show_nat.simps [simp del]

text \<open>\<open>std::to_string\<close>.\<close>

definition to_string :: "int \<Rightarrow> string" where
  "to_string x = (if x < 0 then CHR ''-'' # show_nat (nat (- x)) else show_nat (nat x))"

definition digits_val :: "string \<Rightarrow> nat" where
  "digits_val ds = foldl (\<lambda>a c. 10 * a + (ord c - 48)) 0 ds"

text \<open>The longest prefix \<open>strtol\<close> converts: white space, a sign, decimal digits;
  \<open>None\<close> where there is no digit to convert.\<close>

definition scan_int :: "string \<Rightarrow> int option" where
  "scan_int s =
     (let s1 = dropWhile isspace s;
          neg = (s1 \<noteq> [] \<and> hd s1 = CHR ''-'');
          s2 = (if s1 \<noteq> [] \<and> (hd s1 = CHR ''-'' \<or> hd s1 = CHR ''+'') then tl s1 else s1);
          ds = takeWhile isdigit s2
      in if ds = [] then None
         else Some (if neg then - int (digits_val ds) else int (digits_val ds)))"

definition stoll :: "string \<Rightarrow> exn + int" where
  "stoll s = (case scan_int s of
       None \<Rightarrow> Inl (StdInvalidArgument ''stoll'')
     | Some v \<Rightarrow> if in_int64 v then Inr v else Inl (StdOutOfRange ''stoll''))"

definition stoi :: "string \<Rightarrow> exn + int" where
  "stoi s = (case scan_int s of
       None \<Rightarrow> Inl (StdInvalidArgument ''stoi'')
     | Some v \<Rightarrow> if in_int32 v then Inr v else Inl (StdOutOfRange ''stoi''))"

text \<open>\<open>strtoll\<close> gives 0 where nothing converts and the nearest bound out of range.\<close>

definition strtoll :: "string \<Rightarrow> int" where
  "strtoll s = (case scan_int s of
       None \<Rightarrow> 0
     | Some v \<Rightarrow> if v < - (2 ^ 63) then - (2 ^ 63) else if 2 ^ 63 \<le> v then 2 ^ 63 - 1 else v)"

definition atoi :: "string \<Rightarrow> int" where
  "atoi s = wrap32 (strtoll s)"

subsection \<open>Searching and cutting\<close>

text \<open>\<open>s.find(c)\<close>: the first position of \<open>c\<close>, \<open>None\<close> for \<open>npos\<close>; \<open>find_from\<close> starts
  at a position; \<open>rfind\<close> gives the last.\<close>

fun find_char :: "char \<Rightarrow> string \<Rightarrow> nat option" where
  "find_char c [] = None"
| "find_char c (x # xs) = (if x = c then Some 0 else map_option Suc (find_char c xs))"

definition find_from :: "char \<Rightarrow> nat \<Rightarrow> string \<Rightarrow> nat option" where
  "find_from c i s = map_option (\<lambda>k. i + k) (find_char c (drop i s))"

definition rfind_char :: "char \<Rightarrow> string \<Rightarrow> nat option" where
  "rfind_char c s = map_option (\<lambda>k. length s - 1 - k) (find_char c (rev s))"

definition substr :: "string \<Rightarrow> nat \<Rightarrow> nat \<Rightarrow> string" where
  "substr s i n = take n (drop i s)"

subsection \<open>Hexadecimal text\<close>

definition hex_digit :: "nat \<Rightarrow> char" where
  "hex_digit d = (if d < 10 then char_of (48 + d) else char_of (87 + d))"

text \<open>\<open>std::hex << std::setw(2) << std::setfill('0') << (int) c\<close> for each byte.\<close>

definition hex_bytes :: "string \<Rightarrow> string" where
  "hex_bytes bs = concat (map (\<lambda>c. [hex_digit (ord c div 16), hex_digit (ord c mod 16)]) bs)"

subsection \<open>UTF-8\<close>

text \<open>Message texts are written as lists of Unicode code points; the program holds their
  UTF-8 bytes.\<close>

fun utf8_char :: "nat \<Rightarrow> string" where
  "utf8_char n =
     (if n < 0x80 then [char_of n]
      else if n < 0x800 then [char_of (0xC0 + n div 64), char_of (0x80 + n mod 64)]
      else if n < 0x10000 then
        [char_of (0xE0 + n div 4096), char_of (0x80 + n div 64 mod 64), char_of (0x80 + n mod 64)]
      else
        [char_of (0xF0 + n div 262144), char_of (0x80 + n div 4096 mod 64),
         char_of (0x80 + n div 64 mod 64), char_of (0x80 + n mod 64)])"

definition utf8 :: "nat list \<Rightarrow> string" where
  "utf8 ns = concat (map utf8_char ns)"

subsection \<open>\<open>std::map\<close> with string keys\<close>

text \<open>An association list in increasing order of the keys, which is the order of
  iteration; \<open>m[k] = v\<close> is \<open>map_put\<close> and \<open>m.find(k)\<close> is \<open>map_of\<close>.\<close>

type_synonym 'v cmap = "(string \<times> 'v) list"

fun map_put :: "string \<Rightarrow> 'v \<Rightarrow> 'v cmap \<Rightarrow> 'v cmap" where
  "map_put k v [] = [(k, v)]"
| "map_put k v ((k', v') # m) =
     (if k < k' then (k, v) # (k', v') # m
      else if k = k' then (k, v) # m
      else (k', v') # map_put k v m)"

definition cmap_wf :: "'v cmap \<Rightarrow> bool" where
  "cmap_wf m \<longleftrightarrow> sorted_wrt (<) (map fst m)"

subsection \<open>Lemmas on characters and decimal text\<close>

lemma ord_less [simp]: "ord c < 256"
  by (simp add: less_eq_char_def)

lemma ord_char_of [simp]: "n < 256 \<Longrightarrow> ord (char_of n) = n"
  by (simp add: of_char_of)

lemma ord_digit_char [simp]: "d < 10 \<Longrightarrow> ord (digit_char d) = 48 + d"
  by (simp add: digit_char_def)

lemma isdigit_digit_char [simp]: "d < 10 \<Longrightarrow> isdigit (digit_char d)"
  by (simp add: isdigit_def)

lemma isdigit_not_space: "isdigit c \<Longrightarrow> \<not> isspace c"
  by (auto simp: isdigit_def isspace_def)

lemma isdigit_neq:
  assumes "isdigit c" and "\<not> isdigit d"
  shows "c \<noteq> d"
  using assms by auto

lemma digits_val_snoc: "digits_val (ds @ [c]) = 10 * digits_val ds + (ord c - 48)"
  by (simp add: digits_val_def)

lemma show_nat_digits: "\<forall>c\<in>set (show_nat n). isdigit c"
proof (induction n rule: show_nat.induct)
  case (1 n)
  then show ?case by (subst show_nat.simps) auto
qed

lemma show_nat_nonempty [simp]: "show_nat n \<noteq> []"
  by (subst show_nat.simps) simp

lemma digits_val_show_nat [simp]: "digits_val (show_nat n) = n"
proof (induction n rule: show_nat.induct)
  case (1 n)
  show ?case
  proof (cases "n < 10")
    case True
    then show ?thesis by (subst show_nat.simps) (simp add: digits_val_def)
  next
    case False
    with 1 show ?thesis by (subst show_nat.simps) (simp add: digits_val_snoc)
  qed
qed

lemma takeWhile_show_nat [simp]: "takeWhile isdigit (show_nat n) = show_nat n"
  using show_nat_digits [of n] by (simp add: takeWhile_eq_all_conv)

lemma hd_show_nat: "isdigit (hd (show_nat n))"
  using show_nat_digits [of n] by simp

lemma dropWhile_show_nat [simp]: "dropWhile isspace (show_nat n) = show_nat n"
  using hd_show_nat [of n] by (cases "show_nat n") (auto dest: isdigit_not_space)

lemma hd_show_nat_sign [simp]: "hd (show_nat n) \<noteq> CHR ''-''" "hd (show_nat n) \<noteq> CHR ''+''"
  using hd_show_nat [of n] by (auto simp: isdigit_def)

lemma scan_int_to_string [simp]: "scan_int (to_string x) = Some x"
  by (simp add: scan_int_def to_string_def Let_def isspace_def)

lemma stoll_to_string [simp]: "in_int64 x \<Longrightarrow> stoll (to_string x) = Inr x"
  by (simp add: stoll_def)

lemma stoi_to_string [simp]: "in_int32 x \<Longrightarrow> stoi (to_string x) = Inr x"
  by (simp add: stoi_def)

lemma strtoll_to_string [simp]: "in_int64 x \<Longrightarrow> strtoll (to_string x) = x"
  by (simp add: strtoll_def in_int64_def)

lemma to_string_inj [simp]: "to_string x = to_string y \<longleftrightarrow> x = y"
  by (metis option.inject scan_int_to_string)

lemma to_string_nonempty [simp]: "to_string x \<noteq> []"
  by (simp add: to_string_def)

lemma to_string_chars: "c \<in> set (to_string x) \<Longrightarrow> isdigit c \<or> c = CHR ''-''"
  using show_nat_digits by (auto simp: to_string_def split: if_splits)

subsection \<open>Lemmas on searching\<close>

lemma find_char_None [simp]: "find_char c s = None \<longleftrightarrow> c \<notin> set s"
  by (induction s) auto

lemma find_char_append: "c \<notin> set xs \<Longrightarrow> find_char c (xs @ c # ys) = Some (length xs)"
  by (induction xs) auto

lemma find_char_Some:
  "find_char c s = Some n \<Longrightarrow> n < length s \<and> s ! n = c \<and> c \<notin> set (take n s)"
  by (induction s arbitrary: n) (auto split: if_splits)

lemma find_from_append:
  "c \<notin> set ys \<Longrightarrow> find_from c (length xs) (xs @ ys @ c # zs) = Some (length xs + length ys)"
  by (simp add: find_from_def find_char_append)

lemma rfind_char_append: "c \<notin> set ys \<Longrightarrow> rfind_char c (xs @ c # ys) = Some (length xs)"
  by (simp add: rfind_char_def find_char_append)

lemma rfind_char_None [simp]: "rfind_char c s = None \<longleftrightarrow> c \<notin> set s"
  by (simp add: rfind_char_def)

subsection \<open>Lemmas on hexadecimal text\<close>

lemma length_hex_bytes [simp]: "length (hex_bytes bs) = 2 * length bs"
  by (induction bs) (simp_all add: hex_bytes_def)

lemma hex_digit_isxdigit: "d < 16 \<Longrightarrow> isxdigit (hex_digit d) \<and> \<not> isupper (hex_digit d)"
  by (auto simp: hex_digit_def isxdigit_def isdigit_def isupper_def)

lemma hex_bytes_chars: "c \<in> set (hex_bytes bs) \<Longrightarrow> isxdigit c \<and> \<not> isupper c"
  by (auto simp: hex_bytes_def intro: hex_digit_isxdigit) (simp_all add: hex_digit_isxdigit less_mult_imp_div_less)

lemma hex_digit_inj: "a < 16 \<Longrightarrow> b < 16 \<Longrightarrow> hex_digit a = hex_digit b \<Longrightarrow> a = b"
proof -
  assume a: "a < 16" and b: "b < 16" and eq: "hex_digit a = hex_digit b"
  have "ord (hex_digit a) = ord (hex_digit b)" using eq by simp
  with a b show "a = b" by (auto simp: hex_digit_def split: if_splits)
qed

lemma hex_bytes_inj: "hex_bytes xs = hex_bytes ys \<Longrightarrow> xs = ys"
proof (induction xs arbitrary: ys)
  case Nil
  then show ?case by (cases ys) (simp_all add: hex_bytes_def)
next
  case (Cons x xs)
  then obtain y ys' where ys: "ys = y # ys'" by (cases ys) (auto simp: hex_bytes_def)
  have bounds: "ord x div 16 < 16" "ord y div 16 < 16"
    using ord_less [of x] ord_less [of y] by (simp_all add: less_mult_imp_div_less)
  from Cons.prems ys have "hex_digit (ord x div 16) = hex_digit (ord y div 16)"
    and "hex_digit (ord x mod 16) = hex_digit (ord y mod 16)"
    and rest: "hex_bytes xs = hex_bytes ys'" by (simp_all add: hex_bytes_def)
  then have "ord x div 16 = ord y div 16" and "ord x mod 16 = ord y mod 16"
    using bounds by (auto intro: hex_digit_inj)
  then have "ord x = ord y" by (metis div_mult_mod_eq)
  then have "x = y" by simp
  with Cons.IH [OF rest] ys show ?case by simp
qed

subsection \<open>Lemmas on maps\<close>

lemma map_of_map_put [simp]: "map_of (map_put k v m) = (map_of m)(k \<mapsto> v)"
  by (induction m) auto

lemma set_map_put: "set (map fst (map_put k v m)) = insert k (set (map fst m))"
  by (induction k v m rule: map_put.induct) (simp_all add: insert_commute)

lemma cmap_wf_Nil [simp]: "cmap_wf []"
  by (simp add: cmap_wf_def)

lemma cmap_wf_map_put [simp]: "cmap_wf m \<Longrightarrow> cmap_wf (map_put k v m)"
proof (induction m)
  case (Cons p m)
  obtain k' v' where p: "p = (k', v')" by (cases p)
  from Cons have "cmap_wf (map_put k v m)" by (simp add: cmap_wf_def)
  moreover have "\<forall>x\<in>set (map fst m). k' < x" using Cons.prems p by (simp add: cmap_wf_def)
  ultimately show ?case
    using p Cons.prems set_map_put [of k v m] by (auto simp: cmap_wf_def)
qed (simp add: cmap_wf_def)

lemma map_put_last: "\<forall>x\<in>set (map fst m). x < k \<Longrightarrow> map_put k v m = m @ [(k, v)]"
  by (induction m) auto

end
