(* ===== verification/Errors.thy ===== *)
theory Errors
  imports Cpp_Strings
begin

section \<open>Error codes and results\<close>

text \<open>
  \<open>include/common/error_codes.h\<close> and \<open>include/common/result.h\<close>: the error codes with
  their numbers, texts and their gRPC and HTTP statuses; the \<open>Result\<close> every operation
  returns, and the way the sources pass a failed result on to their caller. For the
  specialisation \<open>Result<void>\<close>, which has no \<open>data\<close>, the model uses \<open>unit Result\<close>
  with \<open>data = Some ()\<close> on success.
\<close>

subsection \<open>Error codes\<close>

text \<open>An \<open>enum class\<close> with underlying type \<open>int\<close> can hold a number that no enumerator has: a peer
  may send one. Those numbers are a type of their own.\<close>

definition enumerators :: "int list" where
  "enumerators = [0, 100, 101, 102, 103, 104, 200, 210, 211, 300, 301, 1000, 1001, 1002, 1003, 1004, 1010, 1011, 1012, 1021, 1022, 2000, 2001, 2010, 2013, 2020, 2021, 3000, 3001, 3002]"

typedef unlisted = "{n :: int. n \<notin> set enumerators}"
  by (rule exI [of _ "- 1"]) (simp add: enumerators_def)

setup_lifting type_definition_unlisted

instantiation unlisted :: equal
begin

lift_definition equal_unlisted :: "unlisted \<Rightarrow> unlisted \<Rightarrow> bool" is "(=)" .

instance
  by standard (transfer, simp)

end

lift_definition unlisted_int :: "unlisted \<Rightarrow> int" is "\<lambda>n. n" .

lift_definition to_unlisted :: "int \<Rightarrow> unlisted" is "\<lambda>n. if n \<in> set enumerators then - 1 else n"
  by (simp add: enumerators_def)

lemma unlisted_int_neq: "unlisted_int u \<notin> set enumerators"
  by transfer

lemma unlisted_int_inj: "unlisted_int u = unlisted_int v \<longleftrightarrow> u = v"
  by transfer simp

lemma to_unlisted_int [simp]: "to_unlisted (unlisted_int u) = u"
  by transfer simp

datatype ErrorCode =
    Ok
  | Unknown
  | Internal
  | NotImplemented
  | ServiceUnavailable
  | Timeout
  | InvalidArgument
  | InvalidPage
  | InvalidPageSize
  | RateLimited
  | QuotaExceeded
  | Unauthenticated
  | TokenMissing
  | TokenInvalid
  | TokenExpired
  | TokenRevoked
  | LoginFailed
  | WrongPassword
  | AccountLocked
  | CaptchaWrong
  | CaptchaExpired
  | UserNotFound
  | UserDeleted
  | UserAlreadyExists
  | MobileTaken
  | UserDisabled
  | UserNotVerified
  | PermissionDenied
  | AdminRequired
  | OwnerRequired
  | UnnamedCode unlisted

text \<open>The numbers of the enumerators.\<close>

fun ErrorCode_int :: "ErrorCode \<Rightarrow> int" where
  "ErrorCode_int Ok = 0"
| "ErrorCode_int Unknown = 100"
| "ErrorCode_int Internal = 101"
| "ErrorCode_int NotImplemented = 102"
| "ErrorCode_int ServiceUnavailable = 103"
| "ErrorCode_int Timeout = 104"
| "ErrorCode_int InvalidArgument = 200"
| "ErrorCode_int InvalidPage = 210"
| "ErrorCode_int InvalidPageSize = 211"
| "ErrorCode_int RateLimited = 300"
| "ErrorCode_int QuotaExceeded = 301"
| "ErrorCode_int Unauthenticated = 1000"
| "ErrorCode_int TokenMissing = 1001"
| "ErrorCode_int TokenInvalid = 1002"
| "ErrorCode_int TokenExpired = 1003"
| "ErrorCode_int TokenRevoked = 1004"
| "ErrorCode_int LoginFailed = 1010"
| "ErrorCode_int WrongPassword = 1011"
| "ErrorCode_int AccountLocked = 1012"
| "ErrorCode_int CaptchaWrong = 1021"
| "ErrorCode_int CaptchaExpired = 1022"
| "ErrorCode_int UserNotFound = 2000"
| "ErrorCode_int UserDeleted = 2001"
| "ErrorCode_int UserAlreadyExists = 2010"
| "ErrorCode_int MobileTaken = 2013"
| "ErrorCode_int UserDisabled = 2020"
| "ErrorCode_int UserNotVerified = 2021"
| "ErrorCode_int PermissionDenied = 3000"
| "ErrorCode_int AdminRequired = 3001"
| "ErrorCode_int OwnerRequired = 3002"
| "ErrorCode_int (UnnamedCode u) = unlisted_int u"

fun GetErrorMessage :: "ErrorCode \<Rightarrow> string" where
  "GetErrorMessage Ok =
     utf8 [0x6210, 0x529F]"
| "GetErrorMessage Unknown =
     utf8 [0x672A, 0x77E5, 0x9519, 0x8BEF]"
| "GetErrorMessage Internal =
     utf8 [0x670D, 0x52A1, 0x5668, 0x5185, 0x90E8, 0x9519, 0x8BEF]"
| "GetErrorMessage NotImplemented =
     utf8 [0x529F, 0x80FD, 0x6682, 0x672A, 0x5B9E, 0x73B0]"
| "GetErrorMessage ServiceUnavailable =
     utf8 [0x670D, 0x52A1, 0x6682, 0x4E0D, 0x53EF, 0x7528]"
| "GetErrorMessage Timeout =
     utf8 [0x8BF7, 0x6C42, 0x8D85, 0x65F6]"
| "GetErrorMessage InvalidArgument =
     utf8 [0x53C2, 0x6570, 0x65E0, 0x6548]"
| "GetErrorMessage InvalidPage =
     utf8 [0x65E0, 0x6548, 0x7684, 0x9875, 0x7801]"
| "GetErrorMessage InvalidPageSize =
     utf8 [0x65E0, 0x6548, 0x7684, 0x6BCF, 0x9875, 0x5927, 0x5C0F]"
| "GetErrorMessage RateLimited =
     utf8 [0x8BF7, 0x6C42, 0x8FC7, 0x4E8E, 0x9891, 0x7E41, 0xFF0C, 0x8BF7, 0x7A0D, 0x540E, 0x518D,
       0x8BD5]"
| "GetErrorMessage QuotaExceeded =
     utf8 [0x914D, 0x989D, 0x5DF2, 0x8D85, 0x9650]"
| "GetErrorMessage Unauthenticated =
     utf8 [0x8BF7, 0x5148, 0x767B, 0x5F55]"
| "GetErrorMessage TokenMissing =
     utf8 [0x7F3A, 0x5C11, 0x8BA4, 0x8BC1, 0x4FE1, 0x606F]"
| "GetErrorMessage TokenInvalid =
     utf8 [0x8BA4, 0x8BC1, 0x4FE1, 0x606F, 0x65E0, 0x6548]"
| "GetErrorMessage TokenExpired =
     utf8 [0x767B, 0x5F55, 0x5DF2, 0x8FC7, 0x671F, 0xFF0C, 0x8BF7, 0x91CD, 0x65B0, 0x767B, 0x5F55]"
| "GetErrorMessage TokenRevoked =
     utf8 [0x767B, 0x5F55, 0x5DF2, 0x5931, 0x6548]"
| "GetErrorMessage LoginFailed =
     utf8 [0x767B, 0x5F55, 0x5931, 0x8D25]"
| "GetErrorMessage WrongPassword =
     utf8 [0x7528, 0x6237, 0x540D, 0x6216, 0x5BC6, 0x7801, 0x9519, 0x8BEF]"
| "GetErrorMessage AccountLocked =
     utf8 [0x8D26, 0x53F7, 0x5DF2, 0x9501, 0x5B9A, 0xFF0C, 0x8BF7, 0x7A0D, 0x540E, 0x518D, 0x8BD5]"
| "GetErrorMessage CaptchaWrong =
     utf8 [0x9A8C, 0x8BC1, 0x7801, 0x9519, 0x8BEF]"
| "GetErrorMessage CaptchaExpired =
     utf8 [0x9A8C, 0x8BC1, 0x7801, 0x5DF2, 0x8FC7, 0x671F, 0xFF0C, 0x8BF7, 0x91CD, 0x65B0, 0x83B7,
       0x53D6]"
| "GetErrorMessage UserNotFound =
     utf8 [0x7528, 0x6237, 0x4E0D, 0x5B58, 0x5728]"
| "GetErrorMessage UserDeleted =
     utf8 [0x7528, 0x6237, 0x5DF2, 0x6CE8, 0x9500]"
| "GetErrorMessage UserAlreadyExists =
     utf8 [0x7528, 0x6237, 0x5DF2, 0x5B58, 0x5728]"
| "GetErrorMessage MobileTaken =
     utf8 [0x624B, 0x673A, 0x53F7, 0x5DF2, 0x88AB, 0x4F7F, 0x7528]"
| "GetErrorMessage UserDisabled =
     utf8 [0x8D26, 0x53F7, 0x5DF2, 0x88AB, 0x7981, 0x7528]"
| "GetErrorMessage UserNotVerified =
     utf8 [0x8D26, 0x53F7, 0x672A, 0x9A8C, 0x8BC1]"
| "GetErrorMessage PermissionDenied =
     utf8 [0x65E0, 0x6743, 0x9650, 0x6267, 0x884C, 0x6B64, 0x64CD, 0x4F5C]"
| "GetErrorMessage AdminRequired =
     utf8 [0x9700, 0x8981, 0x7BA1, 0x7406, 0x5458, 0x6743, 0x9650]"
| "GetErrorMessage OwnerRequired =
     utf8 [0x53EA, 0x6709, 0x6240, 0x6709, 0x8005, 0x53EF, 0x6267, 0x884C, 0x6B64, 0x64CD, 0x4F5C]"
| "GetErrorMessage (UnnamedCode _) =
     utf8 [0x672A, 0x77E5, 0x9519, 0x8BEF]"

datatype StatusCode =
    OK | INVALID_ARGUMENT | UNAUTHENTICATED | NOT_FOUND | ALREADY_EXISTS | PERMISSION_DENIED
  | RESOURCE_EXHAUSTED | UNIMPLEMENTED | UNAVAILABLE | INTERNAL

fun ToGrpcStatus :: "ErrorCode \<Rightarrow> StatusCode" where
  "ToGrpcStatus Ok = OK"
| "ToGrpcStatus InvalidArgument = INVALID_ARGUMENT"
| "ToGrpcStatus InvalidPage = INVALID_ARGUMENT"
| "ToGrpcStatus InvalidPageSize = INVALID_ARGUMENT"
| "ToGrpcStatus Unauthenticated = UNAUTHENTICATED"
| "ToGrpcStatus TokenMissing = UNAUTHENTICATED"
| "ToGrpcStatus TokenInvalid = UNAUTHENTICATED"
| "ToGrpcStatus TokenExpired = UNAUTHENTICATED"
| "ToGrpcStatus TokenRevoked = UNAUTHENTICATED"
| "ToGrpcStatus LoginFailed = UNAUTHENTICATED"
| "ToGrpcStatus WrongPassword = UNAUTHENTICATED"
| "ToGrpcStatus CaptchaWrong = UNAUTHENTICATED"
| "ToGrpcStatus CaptchaExpired = UNAUTHENTICATED"
| "ToGrpcStatus UserNotFound = NOT_FOUND"
| "ToGrpcStatus UserDeleted = NOT_FOUND"
| "ToGrpcStatus UserAlreadyExists = ALREADY_EXISTS"
| "ToGrpcStatus MobileTaken = ALREADY_EXISTS"
| "ToGrpcStatus PermissionDenied = PERMISSION_DENIED"
| "ToGrpcStatus AdminRequired = PERMISSION_DENIED"
| "ToGrpcStatus OwnerRequired = PERMISSION_DENIED"
| "ToGrpcStatus UserDisabled = PERMISSION_DENIED"
| "ToGrpcStatus AccountLocked = PERMISSION_DENIED"
| "ToGrpcStatus RateLimited = RESOURCE_EXHAUSTED"
| "ToGrpcStatus QuotaExceeded = RESOURCE_EXHAUSTED"
| "ToGrpcStatus NotImplemented = UNIMPLEMENTED"
| "ToGrpcStatus ServiceUnavailable = UNAVAILABLE"
| "ToGrpcStatus Timeout = UNAVAILABLE"
| "ToGrpcStatus _ = INTERNAL"

fun ToHttpStatus :: "ErrorCode \<Rightarrow> int" where
  "ToHttpStatus Ok = 200"
| "ToHttpStatus InvalidArgument = 400"
| "ToHttpStatus InvalidPage = 400"
| "ToHttpStatus InvalidPageSize = 400"
| "ToHttpStatus Unauthenticated = 401"
| "ToHttpStatus TokenMissing = 401"
| "ToHttpStatus TokenInvalid = 401"
| "ToHttpStatus TokenExpired = 401"
| "ToHttpStatus TokenRevoked = 401"
| "ToHttpStatus LoginFailed = 401"
| "ToHttpStatus WrongPassword = 401"
| "ToHttpStatus CaptchaWrong = 401"
| "ToHttpStatus CaptchaExpired = 401"
| "ToHttpStatus PermissionDenied = 403"
| "ToHttpStatus AdminRequired = 403"
| "ToHttpStatus OwnerRequired = 403"
| "ToHttpStatus UserDisabled = 403"
| "ToHttpStatus AccountLocked = 403"
| "ToHttpStatus UserNotFound = 404"
| "ToHttpStatus UserDeleted = 404"
| "ToHttpStatus UserAlreadyExists = 409"
| "ToHttpStatus MobileTaken = 409"
| "ToHttpStatus RateLimited = 429"
| "ToHttpStatus QuotaExceeded = 429"
| "ToHttpStatus NotImplemented = 501"
| "ToHttpStatus ServiceUnavailable = 503"
| "ToHttpStatus _ = 500"

subsection \<open>Results\<close>

record 'a Result =
  code :: ErrorCode
  message :: string
  data :: "'a option"

definition Result_Ok :: "'a \<Rightarrow> 'a Result" where
  "Result_Ok v = \<lparr>code = Ok, message = GetErrorMessage Ok, data = Some v\<rparr>"

definition Result_Fail :: "ErrorCode \<Rightarrow> string \<Rightarrow> 'a Result" where
  "Result_Fail c msg =
     \<lparr>code = c, message = (if msg = [] then GetErrorMessage c else msg), data = None\<rparr>"

definition IsOk :: "'a Result \<Rightarrow> bool" where
  "IsOk r \<longleftrightarrow> code r = Ok"

definition ValueOr :: "'a Result \<Rightarrow> 'a \<Rightarrow> 'a" where
  "ValueOr r d = (case data r of Some v \<Rightarrow> v | None \<Rightarrow> d)"

text \<open>\<open>Value()\<close> and \<open>data.value()\<close>: the data of a result. Where there is none the second throws
  and the first is undefined behaviour; both are an exception here, so that a proof that a
  caller returns shows that it never reads absent data.\<close>

definition Value :: "'a Result \<Rightarrow> ('w, 'a) io" where
  "Value r = (case data r of Some v \<Rightarrow> ret v | None \<Rightarrow> throw (RuntimeError ''bad optional access''))"

text \<open>
  \<open>auto r = m; if (!r.IsOk()) return Fail(r.code, r.message); \<dots> r.data.value() \<dots>\<close>:
  the idiom the services chain their calls with. \<open>value()\<close> of an empty optional throws.
\<close>

definition bindR :: "('w, 'a Result) io \<Rightarrow> ('a \<Rightarrow> ('w, 'b Result) io) \<Rightarrow> ('w, 'b Result) io" where
  "bindR m f = bindE m (\<lambda>r.
     if \<not> IsOk r then ret (Result_Fail (code r) (message r))
     else (case data r of
             Some v \<Rightarrow> f v
           | None \<Rightarrow> throw (RuntimeError ''bad optional access'')))"

text \<open>A result is well formed when it carries data exactly if it reports success.\<close>

definition Result_wf :: "'a Result \<Rightarrow> bool" where
  "Result_wf r \<longleftrightarrow> (code r = Ok \<longleftrightarrow> data r \<noteq> None)"

subsection \<open>Lemmas\<close>

lemma IsOk_Ok [simp]: "IsOk (Result_Ok v)"
  by (simp add: IsOk_def Result_Ok_def)

lemma IsOk_Fail [simp]: "IsOk (Result_Fail c m) \<longleftrightarrow> c = Ok"
  by (simp add: IsOk_def Result_Fail_def)

lemma Result_Ok_sel [simp]: "code (Result_Ok v) = Ok" "data (Result_Ok v) = Some v"
  by (simp_all add: Result_Ok_def)

lemma Result_Fail_sel [simp]: "code (Result_Fail c m) = c" "data (Result_Fail c m) = None"
  by (simp_all add: Result_Fail_def)

lemma Value_Ok [simp]: "Value (Result_Ok v) = ret v"
  by (simp add: Value_def)

lemma Value_data: "data r = Some v \<Longrightarrow> Value r w = (Inr v, w)"
  by (simp add: Value_def ret_def)

lemma wf_data: "Result_wf r \<Longrightarrow> IsOk r \<Longrightarrow> \<exists>v. data r = Some v"
  by (auto simp: Result_wf_def IsOk_def)

lemma Result_Ok_Fail [simp]: "Result_Ok v \<noteq> Result_Fail c m" "Result_Fail c m \<noteq> Result_Ok v"
  by (simp_all add: Result_Ok_def Result_Fail_def)

lemma Result_Ok_inj [simp]: "Result_Ok v = Result_Ok v' \<longleftrightarrow> v = v'"
  by (simp add: Result_Ok_def)

lemma Result_wf_Ok [simp]: "Result_wf (Result_Ok v)"
  by (simp add: Result_wf_def)

lemma Result_wf_Fail [simp]: "Result_wf (Result_Fail c m) \<longleftrightarrow> c \<noteq> Ok"
  by (simp add: Result_wf_def)

lemma GetErrorMessage_nonempty [simp]: "GetErrorMessage c \<noteq> []"
  by (cases c) (simp_all add: utf8_def)

declare GetErrorMessage.simps [simp del]

lemma Result_Fail_again [simp]:
  "Result_Fail c (message (Result_Fail c m)) = Result_Fail c m"
  by (simp add: Result_Fail_def)

lemma bindR_ret_Ok [simp]: "bindR (ret (Result_Ok v)) f = f v"
  by (simp add: bindR_def)

lemma bindR_ret_Fail: "c \<noteq> Ok \<Longrightarrow> bindR (ret (Result_Fail c m)) f = ret (Result_Fail c m)"
  by (simp add: bindR_def)

lemma bindR_Ok: "m w = (Inr (Result_Ok v), w') \<Longrightarrow> bindR m f w = f v w'"
  by (simp add: bindR_def bindE_def)

lemma bindR_Fail:
  "m w = (Inr (Result_Fail c msg), w') \<Longrightarrow> c \<noteq> Ok \<Longrightarrow> bindR m f w = (Inr (Result_Fail c msg), w')"
  by (simp add: bindR_def bindE_def ret_def)

lemma bindR_exn: "m w = (Inl e, w') \<Longrightarrow> bindR m f w = (Inl e, w')"
  by (simp add: bindR_def bindE_def)

text \<open>A computation whose chain of calls succeeds, read backwards.\<close>

lemma bindR_Ok_iff:
  "bindR m f w = (Inr (Result_Ok b), w'') \<longleftrightarrow>
     (\<exists>r v w'. m w = (Inr r, w') \<and> IsOk r \<and> data r = Some v \<and> f v w' = (Inr (Result_Ok b), w''))"
  by (auto simp: bindR_def bindE_def ret_def throw_def split: prod.splits sum.splits if_splits option.splits)

text \<open>The listed codes, and the code of a number.\<close>

definition named_codes :: "ErrorCode list" where
  "named_codes = [Ok, Unknown, Internal, NotImplemented, ServiceUnavailable, Timeout, InvalidArgument, InvalidPage,
     InvalidPageSize, RateLimited, QuotaExceeded, Unauthenticated, TokenMissing, TokenInvalid, TokenExpired,
     TokenRevoked, LoginFailed, WrongPassword, AccountLocked, CaptchaWrong, CaptchaExpired, UserNotFound,
     UserDeleted, UserAlreadyExists, MobileTaken, UserDisabled, UserNotVerified, PermissionDenied, AdminRequired,
     OwnerRequired]"

definition ErrorCode_of_int :: "int \<Rightarrow> ErrorCode" where
  "ErrorCode_of_int n = (case map_of (map (\<lambda>c. (ErrorCode_int c, c)) named_codes) n of
     Some c \<Rightarrow> c | None \<Rightarrow> UnnamedCode (to_unlisted n))"

lemma named_codes_enumerators: "map ErrorCode_int named_codes = enumerators"
  by (simp add: named_codes_def enumerators_def)

lemma ErrorCode_of_int_unlisted: "ErrorCode_of_int (unlisted_int u) = UnnamedCode u"
proof -
  have "fst ` set (map (\<lambda>c. (ErrorCode_int c, c)) named_codes) = set enumerators"
    unfolding named_codes_enumerators [symmetric] by (simp add: image_image)
  then have "unlisted_int u \<notin> fst ` set (map (\<lambda>c. (ErrorCode_int c, c)) named_codes)"
    using unlisted_int_neq [of u] by simp
  then have "map_of (map (\<lambda>c. (ErrorCode_int c, c)) named_codes) (unlisted_int u) = None"
    by (rule map_of_eq_None_iff [THEN iffD2])
  then show ?thesis by (simp add: ErrorCode_of_int_def)
qed

lemma ErrorCode_of_int_int [simp]: "ErrorCode_of_int (ErrorCode_int c) = c"
proof (cases c)
  case (UnnamedCode u)
  then show ?thesis by (simp add: ErrorCode_of_int_unlisted)
qed (simp_all add: ErrorCode_of_int_def named_codes_def)

lemma ErrorCode_int_inj: "ErrorCode_int a = ErrorCode_int b \<Longrightarrow> a = b"
  by (metis ErrorCode_of_int_int)

end
