(* ===== verification/Config.thy ===== *)
theory Config
  imports Cpp_Strings
begin

section \<open>Configuration\<close>

text \<open>
  \<open>include/config/config.h\<close> and \<open>src/config/config.cpp\<close>: the configuration records with
  their default member initialisers, \<open>ValidateConfig\<close>, \<open>LoadFromFile\<close>, \<open>LoadFromEnv\<close> and the
  \<open>ToString\<close> functions. The YAML library is a parameter: a record of the operations the
  source calls on a node, each of which may throw a \<open>YAML::Exception\<close> (given by its
  \<open>what()\<close>). The environment is the function \<open>getenv\<close>. A field whose name is shared by two
  of the source's structs carries the section's name in front.
\<close>

subsection \<open>The records\<close>

record ServerConfig =
  server_host :: string
  server_grpc_port :: int
  server_metrics_port :: int

record MySQLConfig =
  mysql_host :: string
  mysql_port :: int
  mysql_database :: string
  mysql_username :: string
  mysql_password :: string
  mysql_pool_size :: int
  mysql_connection_timeout_ms :: "int option"
  mysql_read_timeout_ms :: "int option"
  mysql_write_timeout_ms :: "int option"
  mysql_max_retries :: int
  mysql_retry_interval_ms :: int
  mysql_auto_reconnect :: "bool option"
  mysql_charset :: string

record RedisConfig =
  redis_host :: string
  redis_port :: int
  redis_password :: string
  redis_db :: int
  redis_pool_size :: int
  redis_connect_timeout_ms :: "int option"
  redis_socket_timeout_ms :: "int option"
  redis_wait_timeout_ms :: int

record LogConfig =
  log_level :: string
  log_path :: string
  log_filename :: string
  log_max_size :: int
  log_max_files :: int
  log_console_output :: bool

record ZooKeeperConfig =
  zk_hosts :: string
  zk_session_timeout_ms :: int
  zk_connect_timeout_ms :: int
  zk_root_path :: string
  zk_service_name :: string
  zk_enabled :: bool
  zk_register_self :: bool
  zk_weight :: int
  zk_region :: string
  zk_zone :: string
  zk_version :: string

record SecurityConfig =
  jwt_secret :: string
  jwt_issuer :: string
  access_token_ttl_seconds :: int
  refresh_token_ttl_seconds :: int

record SmsConfig =
  code_len :: int
  code_ttl_seconds :: int
  send_interval_seconds :: int
  max_retry_count :: int
  retry_ttl_seconds :: int
  lock_seconds :: int

record LoginConfig =
  max_failed_attempts :: int
  failed_attempts_window :: int
  lock_duration_seconds :: int
  max_sessions_per_user :: int
  kick_oldest_session :: bool
  enable_password_login :: bool
  enable_sms_login :: bool
  require_captcha :: bool
  captcha_after_failed_attempts :: int

record PasswordPolicyConfig =
  min_length :: int
  max_length :: int
  require_uppercase :: bool
  require_lowercase :: bool
  require_digit :: bool
  require_special_char :: bool
  expire_days :: int
  history_count :: int

record Config =
  cfg_server :: ServerConfig
  cfg_mysql :: MySQLConfig
  cfg_redis :: RedisConfig
  cfg_log :: LogConfig
  cfg_zookeeper :: ZooKeeperConfig
  cfg_security :: SecurityConfig
  cfg_sms :: SmsConfig
  cfg_login :: LoginConfig
  cfg_password :: PasswordPolicyConfig

text \<open>The default member initialisers.\<close>

definition ServerConfig_default :: ServerConfig where
  "ServerConfig_default = \<lparr>
     server_host = ''0.0.0.0'',
     server_grpc_port = 50051,
     server_metrics_port = 9090\<rparr>"

definition MySQLConfig_default :: MySQLConfig where
  "MySQLConfig_default = \<lparr>
     mysql_host = ''localhost'',
     mysql_port = 3306,
     mysql_database = ''user_service'',
     mysql_username = ''root'',
     mysql_password = [],
     mysql_pool_size = 10,
     mysql_connection_timeout_ms = None,
     mysql_read_timeout_ms = None,
     mysql_write_timeout_ms = None,
     mysql_max_retries = 3,
     mysql_retry_interval_ms = 1000,
     mysql_auto_reconnect = None,
     mysql_charset = ''utf8mb4''\<rparr>"

definition RedisConfig_default :: RedisConfig where
  "RedisConfig_default = \<lparr>
     redis_host = ''localhost'',
     redis_port = 6379,
     redis_password = [],
     redis_db = 0,
     redis_pool_size = 5,
     redis_connect_timeout_ms = None,
     redis_socket_timeout_ms = None,
     redis_wait_timeout_ms = 100\<rparr>"

definition LogConfig_default :: LogConfig where
  "LogConfig_default = \<lparr>
     log_level = ''info'',
     log_path = ''./logs'',
     log_filename = ''user-service.log'',
     log_max_size = 10485760,
     log_max_files = 5,
     log_console_output = True\<rparr>"

definition ZooKeeperConfig_default :: ZooKeeperConfig where
  "ZooKeeperConfig_default = \<lparr>
     zk_hosts = ''127.0.0.1:2181'',
     zk_session_timeout_ms = 15000,
     zk_connect_timeout_ms = 10000,
     zk_root_path = ''/services'',
     zk_service_name = ''user-service'',
     zk_enabled = True,
     zk_register_self = True,
     zk_weight = 100,
     zk_region = [],
     zk_zone = [],
     zk_version = ''1.0.0''\<rparr>"

definition SecurityConfig_default :: SecurityConfig where
  "SecurityConfig_default = \<lparr>
     jwt_secret = ''your-secret-key'',
     jwt_issuer = ''user-service'',
     access_token_ttl_seconds = 900,
     refresh_token_ttl_seconds = 604800\<rparr>"

definition SmsConfig_default :: SmsConfig where
  "SmsConfig_default = \<lparr>
     code_len = 6,
     code_ttl_seconds = 300,
     send_interval_seconds = 60,
     max_retry_count = 5,
     retry_ttl_seconds = 300,
     lock_seconds = 1800\<rparr>"

definition LoginConfig_default :: LoginConfig where
  "LoginConfig_default = \<lparr>
     max_failed_attempts = 5,
     failed_attempts_window = 900,
     lock_duration_seconds = 1800,
     max_sessions_per_user = 5,
     kick_oldest_session = True,
     enable_password_login = True,
     enable_sms_login = True,
     require_captcha = False,
     captcha_after_failed_attempts = 3\<rparr>"

definition PasswordPolicyConfig_default :: PasswordPolicyConfig where
  "PasswordPolicyConfig_default = \<lparr>
     min_length = 8,
     max_length = 32,
     require_uppercase = False,
     require_lowercase = False,
     require_digit = True,
     require_special_char = False,
     expire_days = 0,
     history_count = 0\<rparr>"

definition Config_default :: Config where
  "Config_default = \<lparr>
     cfg_server = ServerConfig_default,
     cfg_mysql = MySQLConfig_default,
     cfg_redis = RedisConfig_default,
     cfg_log = LogConfig_default,
     cfg_zookeeper = ZooKeeperConfig_default,
     cfg_security = SecurityConfig_default,
     cfg_sms = SmsConfig_default,
     cfg_login = LoginConfig_default,
     cfg_password = PasswordPolicyConfig_default\<rparr>"

definition GetServicePath :: "ZooKeeperConfig \<Rightarrow> string" where
  "GetServicePath c = zk_root_path c @ ''/'' @ zk_service_name c"

subsection \<open>Validation\<close>

text \<open>\<open>if (bad) throw std::runtime_error(msg);\<close> followed by the rest.\<close>

definition reject_if :: "bool \<Rightarrow> string \<Rightarrow> exn + unit \<Rightarrow> exn + unit" where
  "reject_if bad msg rest = (if bad then Inl (RuntimeError msg) else rest)"

definition validate_zookeeper :: "Config \<Rightarrow> exn + unit" where
  "validate_zookeeper config =
     reject_if (zk_hosts (cfg_zookeeper config) = [])
       (''ZooKeeper hosts is empty'') (
     reject_if (zk_session_timeout_ms (cfg_zookeeper config) \<le> 0)
       (''Invalid ZooKeeper session timeout: '' @ to_string (zk_session_timeout_ms (cfg_zookeeper config))) (
     reject_if (zk_connect_timeout_ms (cfg_zookeeper config) \<le> 0)
       (''Invalid ZooKeeper connect timeout: '' @ to_string (zk_connect_timeout_ms (cfg_zookeeper config))) (
     reject_if (zk_root_path (cfg_zookeeper config) = [])
       (''ZooKeeper root path is empty'') (
     reject_if (hd (zk_root_path (cfg_zookeeper config)) \<noteq> CHR ''/'')
       (''ZooKeeper root path must start with '' @ [CHR 0x27, CHR 0x2F, CHR 0x27]) (
     reject_if (zk_register_self (cfg_zookeeper config) \<and> zk_service_name (cfg_zookeeper config) = [])
       (''ZooKeeper service name is empty but register_self is true'') (
     reject_if (zk_weight (cfg_zookeeper config) \<le> 0)
       (''Invalid ZooKeeper service weight: '' @ to_string (zk_weight (cfg_zookeeper config))) (
     Inr ())))))))"

definition ValidateConfig :: "Config \<Rightarrow> exn + unit" where
  "ValidateConfig config =
     reject_if (server_grpc_port (cfg_server config) \<le> 0 \<or> server_grpc_port (cfg_server config) > 65535)
       (''Invalid gRPC port: '' @ to_string (server_grpc_port (cfg_server config))) (
     reject_if (server_metrics_port (cfg_server config) \<le> 0 \<or> server_metrics_port (cfg_server config) > 65535)
       (''Invalid metrics port: '' @ to_string (server_metrics_port (cfg_server config))) (
     reject_if (mysql_port (cfg_mysql config) \<le> 0 \<or> mysql_port (cfg_mysql config) > 65535)
       (''Invalid MySQL port: '' @ to_string (mysql_port (cfg_mysql config))) (
     reject_if (mysql_pool_size (cfg_mysql config) \<le> 0)
       (''Invalid MySQL pool size: '' @ to_string (mysql_pool_size (cfg_mysql config))) (
     reject_if (redis_pool_size (cfg_redis config) \<le> 0)
       (''Invalid Redis pool size: '' @ to_string (redis_pool_size (cfg_redis config))) (
     reject_if (mysql_host (cfg_mysql config) = [])
       (''MySQL host is empty'') (
     reject_if (mysql_database (cfg_mysql config) = [])
       (''MySQL database is empty'') (
     reject_if (jwt_secret (cfg_security config) = [])
       (''JWT secret is empty'') (
     reject_if (jwt_issuer (cfg_security config) = [])
       (''JWT issuer is empty'') (
     reject_if (access_token_ttl_seconds (cfg_security config) \<le> 0)
       (''Invalid access token TTL: '' @ to_string (access_token_ttl_seconds (cfg_security config))) (
     reject_if (refresh_token_ttl_seconds (cfg_security config) \<le> 0)
       (''Invalid refresh token TTL: '' @ to_string (refresh_token_ttl_seconds (cfg_security config))) (
     reject_if (refresh_token_ttl_seconds (cfg_security config) \<le> access_token_ttl_seconds (cfg_security config))
       (''Refresh token TTL should be greater than access token TTL'') (
     reject_if (code_len (cfg_sms config) \<le> 0 \<or> code_len (cfg_sms config) > 10)
       (''Invalid SMS code length: '' @ to_string (code_len (cfg_sms config))) (
     reject_if (code_ttl_seconds (cfg_sms config) \<le> 0)
       (''Invalid SMS code TTL: '' @ to_string (code_ttl_seconds (cfg_sms config))) (
     reject_if (send_interval_seconds (cfg_sms config) \<le> 0)
       (''Invalid SMS send interval: '' @ to_string (send_interval_seconds (cfg_sms config))) (
     reject_if (max_retry_count (cfg_sms config) \<le> 0)
       (''Invalid SMS max retry count: '' @ to_string (max_retry_count (cfg_sms config))) (
     reject_if (retry_ttl_seconds (cfg_sms config) \<le> 0)
       (''Invalid SMS retry TTL: '' @ to_string (retry_ttl_seconds (cfg_sms config))) (
     reject_if (lock_seconds (cfg_sms config) \<le> 0)
       (''Invalid SMS lock seconds: '' @ to_string (lock_seconds (cfg_sms config))) (
     reject_if (lock_seconds (cfg_sms config) < code_ttl_seconds (cfg_sms config))
       (''SMS lock seconds should be greater than or equal to code TTL'') (
     reject_if (max_failed_attempts (cfg_login config) \<le> 0)
       (''Invalid login max failed attempts: '' @ to_string (max_failed_attempts (cfg_login config))) (
     reject_if (failed_attempts_window (cfg_login config) \<le> 0)
       (''Invalid login failed attempts window: '' @ to_string (failed_attempts_window (cfg_login config))) (
     reject_if (lock_duration_seconds (cfg_login config) \<le> 0)
       (''Invalid login lock duration: '' @ to_string (lock_duration_seconds (cfg_login config))) (
     reject_if (max_sessions_per_user (cfg_login config) \<le> 0)
       (''Invalid max sessions per user: '' @ to_string (max_sessions_per_user (cfg_login config))) (
     reject_if (captcha_after_failed_attempts (cfg_login config) > max_failed_attempts (cfg_login config))
       (''Captcha trigger threshold should be <= max failed attempts'') (
     reject_if (min_length (cfg_password config) \<le> 0)
       (''Invalid password min length: '' @ to_string (min_length (cfg_password config))) (
     reject_if (max_length (cfg_password config) \<le> 0)
       (''Invalid password max length: '' @ to_string (max_length (cfg_password config))) (
     reject_if (min_length (cfg_password config) > max_length (cfg_password config))
       (''Password min length should be <= max length'') (
     reject_if (expire_days (cfg_password config) < 0)
       (''Invalid password expire days: '' @ to_string (expire_days (cfg_password config))) (
     reject_if (history_count (cfg_password config) < 0)
       (''Invalid password history count: '' @ to_string (history_count (cfg_password config))) (
     if zk_enabled (cfg_zookeeper config) then validate_zookeeper config else Inr ())))))))))))))))))))))))))))))"

subsection \<open>Loading from a YAML file\<close>

text \<open>What the source uses of yaml-cpp: \<open>LoadFile\<close>, \<open>operator[]\<close> (\<open>None\<close> where the node it
  gives tests false) and the conversions \<open>as<T>\<close>.\<close>

record 'n yaml =
  y_LoadFile :: "string \<Rightarrow> string + 'n"
  y_get :: "'n \<Rightarrow> string \<Rightarrow> string + 'n option"
  as_string :: "'n \<Rightarrow> string + string"
  as_int :: "'n \<Rightarrow> string + int"
  as_unsigned :: "'n \<Rightarrow> string + int"
  as_size_t :: "'n \<Rightarrow> string + int"
  as_bool :: "'n \<Rightarrow> string + bool"

text \<open>\<open>if (node[key]) set(node[key].as<T>())\<close> on a section that may have failed already.\<close>

definition y_set :: "'n yaml \<Rightarrow> 'n \<Rightarrow> string \<Rightarrow> ('n \<Rightarrow> string + 'v) \<Rightarrow> ('v \<Rightarrow> 'r \<Rightarrow> 'r)
    \<Rightarrow> string + 'r \<Rightarrow> string + 'r" where
  "y_set y node key conv upd r = (case r of Inl e \<Rightarrow> Inl e | Inr c \<Rightarrow>
     (case y_get y node key of Inl e \<Rightarrow> Inl e | Inr None \<Rightarrow> Inr c
      | Inr (Some n) \<Rightarrow> (case conv n of Inl e \<Rightarrow> Inl e | Inr v \<Rightarrow> Inr (upd v c))))"

text \<open>\<open>if (yaml[section]) { \<dots> }\<close>.\<close>

definition y_section :: "'n yaml \<Rightarrow> 'n \<Rightarrow> string \<Rightarrow> ('n \<Rightarrow> string + 'r \<Rightarrow> string + 'r)
    \<Rightarrow> string + 'r \<Rightarrow> string + 'r" where
  "y_section y node key body r = (case r of Inl e \<Rightarrow> Inl e | Inr c \<Rightarrow>
     (case y_get y node key of Inl e \<Rightarrow> Inl e | Inr None \<Rightarrow> Inr c
      | Inr (Some n) \<Rightarrow> body n (Inr c)))"

definition load_server :: "'n yaml \<Rightarrow> 'n \<Rightarrow> string + ServerConfig \<Rightarrow> string + ServerConfig" where
  "load_server y n r = foldl (\<lambda>r step. step r) r [
     y_set y n ''host'' (as_string y) (\<lambda>v. server_host_update (\<lambda>_. v)),
     y_set y n ''grpc_port'' (as_int y) (\<lambda>v. server_grpc_port_update (\<lambda>_. v)),
     y_set y n ''metrics_port'' (as_int y) (\<lambda>v. server_metrics_port_update (\<lambda>_. v))]"

definition load_mysql :: "'n yaml \<Rightarrow> 'n \<Rightarrow> string + MySQLConfig \<Rightarrow> string + MySQLConfig" where
  "load_mysql y n r = foldl (\<lambda>r step. step r) r [
     y_set y n ''host'' (as_string y) (\<lambda>v. mysql_host_update (\<lambda>_. v)),
     y_set y n ''port'' (as_int y) (\<lambda>v. mysql_port_update (\<lambda>_. v)),
     y_set y n ''database'' (as_string y) (\<lambda>v. mysql_database_update (\<lambda>_. v)),
     y_set y n ''username'' (as_string y) (\<lambda>v. mysql_username_update (\<lambda>_. v)),
     y_set y n ''password'' (as_string y) (\<lambda>v. mysql_password_update (\<lambda>_. v)),
     y_set y n ''pool_size'' (as_int y) (\<lambda>v. mysql_pool_size_update (\<lambda>_. v)),
     y_set y n ''connection_timeout_ms'' (as_unsigned y) (\<lambda>v. mysql_connection_timeout_ms_update (\<lambda>_. Some v)),
     y_set y n ''read_timeout_ms'' (as_unsigned y) (\<lambda>v. mysql_read_timeout_ms_update (\<lambda>_. Some v)),
     y_set y n ''write_timeout_ms'' (as_unsigned y) (\<lambda>v. mysql_write_timeout_ms_update (\<lambda>_. Some v)),
     y_set y n ''max_retries'' (as_unsigned y) (\<lambda>v. mysql_max_retries_update (\<lambda>_. v)),
     y_set y n ''retry_interval_ms'' (as_unsigned y) (\<lambda>v. mysql_retry_interval_ms_update (\<lambda>_. v)),
     y_set y n ''auto_reconnect'' (as_bool y) (\<lambda>v. mysql_auto_reconnect_update (\<lambda>_. Some v)),
     y_set y n ''charset'' (as_string y) (\<lambda>v. mysql_charset_update (\<lambda>_. v))]"

definition load_redis :: "'n yaml \<Rightarrow> 'n \<Rightarrow> string + RedisConfig \<Rightarrow> string + RedisConfig" where
  "load_redis y n r = foldl (\<lambda>r step. step r) r [
     y_set y n ''host'' (as_string y) (\<lambda>v. redis_host_update (\<lambda>_. v)),
     y_set y n ''port'' (as_int y) (\<lambda>v. redis_port_update (\<lambda>_. v)),
     y_set y n ''password'' (as_string y) (\<lambda>v. redis_password_update (\<lambda>_. v)),
     y_set y n ''db'' (as_int y) (\<lambda>v. redis_db_update (\<lambda>_. v)),
     y_set y n ''pool_size'' (as_int y) (\<lambda>v. redis_pool_size_update (\<lambda>_. v)),
     y_set y n ''wait_timeout_ms'' (as_unsigned y) (\<lambda>v. redis_wait_timeout_ms_update (\<lambda>_. v)),
     y_set y n ''connect_timeout_ms'' (as_unsigned y) (\<lambda>v. redis_connect_timeout_ms_update (\<lambda>_. Some v)),
     y_set y n ''socket_timeout_ms'' (as_unsigned y) (\<lambda>v. redis_socket_timeout_ms_update (\<lambda>_. Some v))]"

definition load_zookeeper :: "'n yaml \<Rightarrow> 'n \<Rightarrow> string + ZooKeeperConfig \<Rightarrow> string + ZooKeeperConfig" where
  "load_zookeeper y n r = foldl (\<lambda>r step. step r) r [
     y_set y n ''hosts'' (as_string y) (\<lambda>v. zk_hosts_update (\<lambda>_. v)),
     y_set y n ''session_timeout_ms'' (as_int y) (\<lambda>v. zk_session_timeout_ms_update (\<lambda>_. v)),
     y_set y n ''connect_timeout_ms'' (as_int y) (\<lambda>v. zk_connect_timeout_ms_update (\<lambda>_. v)),
     y_set y n ''root_path'' (as_string y) (\<lambda>v. zk_root_path_update (\<lambda>_. v)),
     y_set y n ''service_name'' (as_string y) (\<lambda>v. zk_service_name_update (\<lambda>_. v)),
     y_set y n ''enabled'' (as_bool y) (\<lambda>v. zk_enabled_update (\<lambda>_. v)),
     y_set y n ''register_self'' (as_bool y) (\<lambda>v. zk_register_self_update (\<lambda>_. v)),
     y_set y n ''weight'' (as_int y) (\<lambda>v. zk_weight_update (\<lambda>_. v)),
     y_set y n ''region'' (as_string y) (\<lambda>v. zk_region_update (\<lambda>_. v)),
     y_set y n ''zone'' (as_string y) (\<lambda>v. zk_zone_update (\<lambda>_. v)),
     y_set y n ''version'' (as_string y) (\<lambda>v. zk_version_update (\<lambda>_. v))]"

definition load_security :: "'n yaml \<Rightarrow> 'n \<Rightarrow> string + SecurityConfig \<Rightarrow> string + SecurityConfig" where
  "load_security y n r = foldl (\<lambda>r step. step r) r [
     y_set y n ''jwt_secret'' (as_string y) (\<lambda>v. jwt_secret_update (\<lambda>_. v)),
     y_set y n ''jwt_issuer'' (as_string y) (\<lambda>v. jwt_issuer_update (\<lambda>_. v)),
     y_set y n ''access_token_ttl_seconds'' (as_int y) (\<lambda>v. access_token_ttl_seconds_update (\<lambda>_. v)),
     y_set y n ''refresh_token_ttl_seconds'' (as_int y) (\<lambda>v. refresh_token_ttl_seconds_update (\<lambda>_. v))]"

definition load_sms :: "'n yaml \<Rightarrow> 'n \<Rightarrow> string + SmsConfig \<Rightarrow> string + SmsConfig" where
  "load_sms y n r = foldl (\<lambda>r step. step r) r [
     y_set y n ''code_len'' (as_int y) (\<lambda>v. code_len_update (\<lambda>_. v)),
     y_set y n ''code_ttl_seconds'' (as_int y) (\<lambda>v. code_ttl_seconds_update (\<lambda>_. v)),
     y_set y n ''send_interval_seconds'' (as_int y) (\<lambda>v. send_interval_seconds_update (\<lambda>_. v)),
     y_set y n ''max_retry_count'' (as_int y) (\<lambda>v. max_retry_count_update (\<lambda>_. v)),
     y_set y n ''retry_ttl_seconds'' (as_int y) (\<lambda>v. retry_ttl_seconds_update (\<lambda>_. v)),
     y_set y n ''lock_seconds'' (as_int y) (\<lambda>v. lock_seconds_update (\<lambda>_. v))]"

definition load_login :: "'n yaml \<Rightarrow> 'n \<Rightarrow> string + LoginConfig \<Rightarrow> string + LoginConfig" where
  "load_login y n r = foldl (\<lambda>r step. step r) r [
     y_set y n ''max_failed_attempts'' (as_int y) (\<lambda>v. max_failed_attempts_update (\<lambda>_. v)),
     y_set y n ''failed_attempts_window'' (as_int y) (\<lambda>v. failed_attempts_window_update (\<lambda>_. v)),
     y_set y n ''lock_duration_seconds'' (as_int y) (\<lambda>v. lock_duration_seconds_update (\<lambda>_. v)),
     y_set y n ''max_sessions_per_user'' (as_int y) (\<lambda>v. max_sessions_per_user_update (\<lambda>_. v)),
     y_set y n ''kick_oldest_session'' (as_bool y) (\<lambda>v. kick_oldest_session_update (\<lambda>_. v)),
     y_set y n ''enable_password_login'' (as_bool y) (\<lambda>v. enable_password_login_update (\<lambda>_. v)),
     y_set y n ''enable_sms_login'' (as_bool y) (\<lambda>v. enable_sms_login_update (\<lambda>_. v)),
     y_set y n ''require_captcha'' (as_bool y) (\<lambda>v. require_captcha_update (\<lambda>_. v)),
     y_set y n ''captcha_after_failed_attempts'' (as_int y) (\<lambda>v. captcha_after_failed_attempts_update (\<lambda>_. v))]"

definition load_password :: "'n yaml \<Rightarrow> 'n \<Rightarrow> string + PasswordPolicyConfig \<Rightarrow> string + PasswordPolicyConfig" where
  "load_password y n r = foldl (\<lambda>r step. step r) r [
     y_set y n ''min_length'' (as_int y) (\<lambda>v. min_length_update (\<lambda>_. v)),
     y_set y n ''max_length'' (as_int y) (\<lambda>v. max_length_update (\<lambda>_. v)),
     y_set y n ''require_uppercase'' (as_bool y) (\<lambda>v. require_uppercase_update (\<lambda>_. v)),
     y_set y n ''require_lowercase'' (as_bool y) (\<lambda>v. require_lowercase_update (\<lambda>_. v)),
     y_set y n ''require_digit'' (as_bool y) (\<lambda>v. require_digit_update (\<lambda>_. v)),
     y_set y n ''require_special_char'' (as_bool y) (\<lambda>v. require_special_char_update (\<lambda>_. v)),
     y_set y n ''expire_days'' (as_int y) (\<lambda>v. expire_days_update (\<lambda>_. v)),
     y_set y n ''history_count'' (as_int y) (\<lambda>v. history_count_update (\<lambda>_. v))]"

definition load_log :: "'n yaml \<Rightarrow> 'n \<Rightarrow> string + LogConfig \<Rightarrow> string + LogConfig" where
  "load_log y n r = foldl (\<lambda>r step. step r) r [
     y_set y n ''level'' (as_string y) (\<lambda>v. log_level_update (\<lambda>_. v)),
     y_set y n ''path'' (as_string y) (\<lambda>v. log_path_update (\<lambda>_. v)),
     y_set y n ''filename'' (as_string y) (\<lambda>v. log_filename_update (\<lambda>_. v)),
     y_set y n ''max_size'' (as_size_t y) (\<lambda>v. log_max_size_update (\<lambda>_. v)),
     y_set y n ''max_files'' (as_int y) (\<lambda>v. log_max_files_update (\<lambda>_. v)),
     y_set y n ''console_output'' (as_bool y) (\<lambda>v. log_console_output_update (\<lambda>_. v))]"

text \<open>A section is loaded into the configuration's member of that name.\<close>

definition load_into :: "('c \<Rightarrow> 'r) \<Rightarrow> ('r \<Rightarrow> 'c \<Rightarrow> 'c) \<Rightarrow> ('n \<Rightarrow> string + 'r \<Rightarrow> string + 'r)
    \<Rightarrow> 'n \<Rightarrow> string + 'c \<Rightarrow> string + 'c" where
  "load_into sel upd load n r = (case r of Inl e \<Rightarrow> Inl e | Inr c \<Rightarrow>
     (case load n (Inr (sel c)) of Inl e \<Rightarrow> Inl e | Inr s \<Rightarrow> Inr (upd s c)))"

definition load_sections :: "'n yaml \<Rightarrow> 'n \<Rightarrow> string + Config" where
  "load_sections y node = foldl (\<lambda>r step. step r) (Inr Config_default) [
     y_section y node ''server'' (load_into cfg_server (\<lambda>s. cfg_server_update (\<lambda>_. s)) (load_server y)),
     y_section y node ''mysql'' (load_into cfg_mysql (\<lambda>s. cfg_mysql_update (\<lambda>_. s)) (load_mysql y)),
     y_section y node ''redis'' (load_into cfg_redis (\<lambda>s. cfg_redis_update (\<lambda>_. s)) (load_redis y)),
     y_section y node ''zookeeper'' (load_into cfg_zookeeper (\<lambda>s. cfg_zookeeper_update (\<lambda>_. s)) (load_zookeeper y)),
     y_section y node ''security'' (load_into cfg_security (\<lambda>s. cfg_security_update (\<lambda>_. s)) (load_security y)),
     y_section y node ''sms'' (load_into cfg_sms (\<lambda>s. cfg_sms_update (\<lambda>_. s)) (load_sms y)),
     y_section y node ''login'' (load_into cfg_login (\<lambda>s. cfg_login_update (\<lambda>_. s)) (load_login y)),
     y_section y node ''password'' (load_into cfg_password (\<lambda>s. cfg_password_update (\<lambda>_. s)) (load_password y)),
     y_section y node ''log'' (load_into cfg_log (\<lambda>s. cfg_log_update (\<lambda>_. s)) (load_log y))]"

definition LoadFromFile :: "'n yaml \<Rightarrow> string \<Rightarrow> exn + Config" where
  "LoadFromFile y path =
     (case (case y_LoadFile y path of Inl e \<Rightarrow> Inl e | Inr node \<Rightarrow> load_sections y node) of
        Inl what \<Rightarrow> Inl (RuntimeError (''Failed to load config: '' @ what))
      | Inr config \<Rightarrow> (case ValidateConfig config of Inl e \<Rightarrow> Inl e | Inr _ \<Rightarrow> Inr config))"

subsection \<open>Overriding from the environment\<close>

definition env_set :: "(string \<Rightarrow> string option) \<Rightarrow> string \<Rightarrow> (string \<Rightarrow> 'c \<Rightarrow> 'c) \<Rightarrow> 'c \<Rightarrow> 'c" where
  "env_set getenv name upd c = (case getenv name of None \<Rightarrow> c | Some v \<Rightarrow> upd v c)"

definition env_true :: "string \<Rightarrow> bool" where
  "env_true s \<longleftrightarrow> s = ''true'' \<or> s = ''1''"

definition LoadFromEnv :: "(string \<Rightarrow> string option) \<Rightarrow> Config \<Rightarrow> Config" where
  "LoadFromEnv getenv config = foldl (\<lambda>c step. step c) config [
     env_set getenv ''MYSQL_HOST'' (\<lambda>v. cfg_mysql_update (mysql_host_update (\<lambda>_. v))),
     env_set getenv ''MYSQL_PASSWORD'' (\<lambda>v. cfg_mysql_update (mysql_password_update (\<lambda>_. v))),
     env_set getenv ''REDIS_HOST'' (\<lambda>v. cfg_redis_update (redis_host_update (\<lambda>_. v))),
     env_set getenv ''ZK_HOSTS'' (\<lambda>v. cfg_zookeeper_update (zk_hosts_update (\<lambda>_. v))),
     env_set getenv ''ZK_SESSION_TIMEOUT'' (\<lambda>v. cfg_zookeeper_update (zk_session_timeout_ms_update (\<lambda>_. atoi v))),
     env_set getenv ''ZK_CONNECT_TIMEOUT'' (\<lambda>v. cfg_zookeeper_update (zk_connect_timeout_ms_update (\<lambda>_. atoi v))),
     env_set getenv ''ZK_ROOT_PATH'' (\<lambda>v. cfg_zookeeper_update (zk_root_path_update (\<lambda>_. v))),
     env_set getenv ''ZK_SERVICE_NAME'' (\<lambda>v. cfg_zookeeper_update (zk_service_name_update (\<lambda>_. v))),
     env_set getenv ''ZK_ENABLED'' (\<lambda>v. cfg_zookeeper_update (zk_enabled_update (\<lambda>_. env_true v))),
     env_set getenv ''ZK_REGISTER_SELF'' (\<lambda>v. cfg_zookeeper_update (zk_register_self_update (\<lambda>_. env_true v))),
     env_set getenv ''ZK_WEIGHT'' (\<lambda>v. cfg_zookeeper_update (zk_weight_update (\<lambda>_. atoi v))),
     env_set getenv ''ZK_REGION'' (\<lambda>v. cfg_zookeeper_update (zk_region_update (\<lambda>_. v))),
     env_set getenv ''ZK_ZONE'' (\<lambda>v. cfg_zookeeper_update (zk_zone_update (\<lambda>_. v))),
     env_set getenv ''ZK_VERSION'' (\<lambda>v. cfg_zookeeper_update (zk_version_update (\<lambda>_. v))),
     env_set getenv ''JWT_SECRET'' (\<lambda>v. cfg_security_update (jwt_secret_update (\<lambda>_. v))),
     env_set getenv ''JWT_ISSUER'' (\<lambda>v. cfg_security_update (jwt_issuer_update (\<lambda>_. v))),
     env_set getenv ''ACCESS_TOKEN_TTL'' (\<lambda>v. cfg_security_update (access_token_ttl_seconds_update (\<lambda>_. atoi v))),
     env_set getenv ''REFRESH_TOKEN_TTL'' (\<lambda>v. cfg_security_update (refresh_token_ttl_seconds_update (\<lambda>_. atoi v))),
     env_set getenv ''SMS_CODE_LEN'' (\<lambda>v. cfg_sms_update (code_len_update (\<lambda>_. atoi v))),
     env_set getenv ''SMS_CODE_TTL'' (\<lambda>v. cfg_sms_update (code_ttl_seconds_update (\<lambda>_. atoi v))),
     env_set getenv ''SMS_SEND_INTERVAL'' (\<lambda>v. cfg_sms_update (send_interval_seconds_update (\<lambda>_. atoi v))),
     env_set getenv ''SMS_MAX_RETRY'' (\<lambda>v. cfg_sms_update (max_retry_count_update (\<lambda>_. atoi v))),
     env_set getenv ''SMS_RETRY_TTL'' (\<lambda>v. cfg_sms_update (retry_ttl_seconds_update (\<lambda>_. atoi v))),
     env_set getenv ''SMS_LOCK_SECONDS'' (\<lambda>v. cfg_sms_update (lock_seconds_update (\<lambda>_. atoi v))),
     env_set getenv ''LOGIN_MAX_FAILED_ATTEMPTS'' (\<lambda>v. cfg_login_update (max_failed_attempts_update (\<lambda>_. atoi v))),
     env_set getenv ''LOGIN_LOCK_DURATION'' (\<lambda>v. cfg_login_update (lock_duration_seconds_update (\<lambda>_. atoi v))),
     env_set getenv ''LOGIN_MAX_SESSIONS'' (\<lambda>v. cfg_login_update (max_sessions_per_user_update (\<lambda>_. atoi v))),
     env_set getenv ''PASSWORD_MIN_LENGTH'' (\<lambda>v. cfg_password_update (min_length_update (\<lambda>_. atoi v))),
     env_set getenv ''PASSWORD_MAX_LENGTH'' (\<lambda>v. cfg_password_update (max_length_update (\<lambda>_. atoi v)))]"

subsection \<open>Printing\<close>

definition endl :: string where "endl = [CHR 0x0A]"

text \<open>One \<open>oss << a << b << \<dots> << std::endl\<close>.\<close>

definition oline :: "string list \<Rightarrow> string" where
  "oline ss = concat ss @ endl"

definition mask_secret :: "string \<Rightarrow> string" where
  "mask_secret s = (if s = [] then ''(empty)'' else ''******'')"

definition show_opt :: "int option \<Rightarrow> string" where
  "show_opt x = (case x of None \<Rightarrow> ''(not set)'' | Some n \<Rightarrow> to_string n)"

definition show_opt_bool :: "bool option \<Rightarrow> string" where
  "show_opt_bool x = (case x of None \<Rightarrow> ''(not set)'' | Some b \<Rightarrow> if b then ''true'' else ''false'')"

definition yes_no :: "bool \<Rightarrow> string" where
  "yes_no b = (if b then ''Yes'' else ''No'')"

definition or_not_set :: "string \<Rightarrow> string" where
  "or_not_set s = (if s = [] then ''(not set)'' else s)"

definition ServerConfig_ToString :: "ServerConfig \<Rightarrow> string" where
  "ServerConfig_ToString c = concat [
       oline [''=== Server Config ===''],
       oline [''Host: '', server_host c],
       oline [''gRPC Port: '', to_string (server_grpc_port c)],
       oline [''Metrics Port: '', to_string (server_metrics_port c)]]"

definition MySQLConfig_ToString :: "MySQLConfig \<Rightarrow> string" where
  "MySQLConfig_ToString c = concat [
       oline [''=== MySQL Config ===''],
       oline [''Host: '', mysql_host c],
       oline [''Port: '', to_string (mysql_port c)],
       oline [''Database: '', mysql_database c],
       oline [''Username: '', mysql_username c],
       oline [''Password: '', mask_secret (mysql_password c)],
       oline [''Pool Size: '', to_string (mysql_pool_size c)],
       oline [''Connection Timeout(ms): '', show_opt (mysql_connection_timeout_ms c)],
       oline [''Read Timeout(ms): '', show_opt (mysql_read_timeout_ms c)],
       oline [''Write Timeout(ms): '', show_opt (mysql_write_timeout_ms c)],
       oline [''Max Retries: '', to_string (mysql_max_retries c)],
       oline [''Retry Interval(ms): '', to_string (mysql_retry_interval_ms c)],
       oline [''Auto Reconnect: '', show_opt_bool (mysql_auto_reconnect c)],
       oline [''Charset: '', mysql_charset c]]"

definition RedisConfig_ToString :: "RedisConfig \<Rightarrow> string" where
  "RedisConfig_ToString c = concat [
       oline [''=== Redis Config ===''],
       oline [''Host: '', redis_host c],
       oline [''Port: '', to_string (redis_port c)],
       oline [''Password: '', mask_secret (redis_password c)],
       oline [''DB Index: '', to_string (redis_db c)],
       oline [''Pool Size: '', to_string (redis_pool_size c)],
       oline [''Wait Timeout(ms): '', to_string (redis_wait_timeout_ms c)],
       oline [''Connect Timeout(ms): '', show_opt (redis_connect_timeout_ms c)],
       oline [''Socket Timeout(ms): '', show_opt (redis_socket_timeout_ms c)]]"

definition ZooKeeperConfig_ToString :: "ZooKeeperConfig \<Rightarrow> string" where
  "ZooKeeperConfig_ToString c = concat [
       oline [''=== ZooKeeper Config ===''],
       oline [''Enabled: '', yes_no (zk_enabled c)],
       oline [''Hosts: '', zk_hosts c],
       oline [''Session Timeout: '', to_string (zk_session_timeout_ms c), '' ms''],
       oline [''Connect Timeout: '', to_string (zk_connect_timeout_ms c), '' ms''],
       oline [''Root Path: '', zk_root_path c],
       oline [''Service Name: '', zk_service_name c],
       oline [''Register Self: '', yes_no (zk_register_self c)],
       oline [''Weight: '', to_string (zk_weight c)],
       oline [''Region: '', or_not_set (zk_region c)],
       oline [''Zone: '', or_not_set (zk_zone c)],
       oline [''Version: '', zk_version c]]"

definition SecurityConfig_ToString :: "SecurityConfig \<Rightarrow> string" where
  "SecurityConfig_ToString c = concat [
       oline [''=== Security Config ===''],
       oline [''JWT Secret: '', mask_secret (jwt_secret c)],
       oline [''JWT Issuer: '', jwt_issuer c],
       oline [''Access Token TTL: '', to_string (access_token_ttl_seconds c), '' seconds ('', to_string (cdiv (access_token_ttl_seconds c) 60), '' minutes)''],
       oline [''Refresh Token TTL: '', to_string (refresh_token_ttl_seconds c), '' seconds ('', to_string (cdiv (refresh_token_ttl_seconds c) 86400), '' days)'']]"

definition SmsConfig_ToString :: "SmsConfig \<Rightarrow> string" where
  "SmsConfig_ToString c = concat [
       oline [''=== SMS Config ===''],
       oline [''Code Length: '', to_string (code_len c)],
       oline [''Code TTL: '', to_string (code_ttl_seconds c), '' seconds ('', to_string (cdiv (code_ttl_seconds c) 60), '' minutes)''],
       oline [''Send Interval: '', to_string (send_interval_seconds c), '' seconds''],
       oline [''Max Retry Count: '', to_string (max_retry_count c)],
       oline [''Retry TTL: '', to_string (retry_ttl_seconds c), '' seconds ('', to_string (cdiv (retry_ttl_seconds c) 60), '' minutes)''],
       oline [''Lock Duration: '', to_string (lock_seconds c), '' seconds ('', to_string (cdiv (lock_seconds c) 60), '' minutes)'']]"

definition LoginConfig_ToString :: "LoginConfig \<Rightarrow> string" where
  "LoginConfig_ToString c = concat [
       oline [''=== Login Config ===''],
       oline [''Max Failed Attempts: '', to_string (max_failed_attempts c)],
       oline [''Failed Attempts Window: '', to_string (failed_attempts_window c), '' seconds ('', to_string (cdiv (failed_attempts_window c) 60), '' minutes)''],
       oline [''Lock Duration: '', to_string (lock_duration_seconds c), '' seconds ('', to_string (cdiv (lock_duration_seconds c) 60), '' minutes)''],
       oline [''Max Sessions Per User: '', to_string (max_sessions_per_user c)],
       oline [''Kick Oldest Session: '', yes_no (kick_oldest_session c)],
       oline [''Enable Password Login: '', yes_no (enable_password_login c)],
       oline [''Enable SMS Login: '', yes_no (enable_sms_login c)],
       oline [''Require Captcha: '', yes_no (require_captcha c)],
       oline [''Captcha After Failed: '', to_string (captcha_after_failed_attempts c), '' attempts'']]"

definition PasswordPolicyConfig_ToString :: "PasswordPolicyConfig \<Rightarrow> string" where
  "PasswordPolicyConfig_ToString c = concat [
       oline [''=== Password Policy ===''],
       oline [''Length: '', to_string (min_length c), '' - '', to_string (max_length c), '' chars''],
       oline [''Require Uppercase: '', yes_no (require_uppercase c)],
       oline [''Require Lowercase: '', yes_no (require_lowercase c)],
       oline [''Require Digit: '', yes_no (require_digit c)],
       oline [''Require Special Char: '', yes_no (require_special_char c)],
       oline [''Expire Days: '', if 0 < expire_days c then to_string (expire_days c) @ '' days'' else ''Never''],
       oline [''History Count: '', if 0 < history_count c then to_string (history_count c) else ''Not checked'']]"

definition LogConfig_ToString :: "LogConfig \<Rightarrow> string" where
  "LogConfig_ToString c = concat [
       oline [''=== Log Config ===''],
       oline [''Level: '', log_level c],
       oline [''Path: '', log_path c],
       oline [''Filename: '', log_filename c],
       oline [''Max Size: '', to_string (log_max_size c div 1024 div 1024), '' MB ('', to_string (log_max_size c), '' bytes)''],
       oline [''Max Files: '', to_string (log_max_files c)],
       oline [''Console Output: '', if log_console_output c then ''Enabled'' else ''Disabled'']]"

definition Config_ToString :: "Config \<Rightarrow> string" where
  "Config_ToString c = concat [
       oline [''==================== User Service Config ====================''],
       oline [ServerConfig_ToString (cfg_server c)],
       oline [MySQLConfig_ToString (cfg_mysql c)],
       oline [RedisConfig_ToString (cfg_redis c)],
       oline [ZooKeeperConfig_ToString (cfg_zookeeper c)],
       oline [SecurityConfig_ToString (cfg_security c)],
       oline [SmsConfig_ToString (cfg_sms c)],
       oline [LoginConfig_ToString (cfg_login c)],
       oline [PasswordPolicyConfig_ToString (cfg_password c)],
       LogConfig_ToString (cfg_log c),
       oline [''==============================================================''] ]"

subsection \<open>What a validated configuration guarantees\<close>

definition is_port :: "int \<Rightarrow> bool" where
  "is_port p \<longleftrightarrow> 1 \<le> p \<and> p \<le> 65535"

definition zookeeper_ok :: "ZooKeeperConfig \<Rightarrow> bool" where
  "zookeeper_ok z \<longleftrightarrow>
     zk_hosts z \<noteq> [] \<and> 0 < zk_session_timeout_ms z \<and> 0 < zk_connect_timeout_ms z \<and>
     (\<exists>p. zk_root_path z = CHR ''/'' # p) \<and>
     (zk_register_self z \<longrightarrow> zk_service_name z \<noteq> []) \<and> 0 < zk_weight z"

definition security_ok :: "SecurityConfig \<Rightarrow> bool" where
  "security_ok s \<longleftrightarrow>
     jwt_secret s \<noteq> [] \<and> jwt_issuer s \<noteq> [] \<and>
     0 < access_token_ttl_seconds s \<and> access_token_ttl_seconds s < refresh_token_ttl_seconds s"

definition sms_ok :: "SmsConfig \<Rightarrow> bool" where
  "sms_ok s \<longleftrightarrow>
     1 \<le> code_len s \<and> code_len s \<le> 10 \<and> 0 < code_ttl_seconds s \<and> 0 < send_interval_seconds s \<and>
     0 < max_retry_count s \<and> 0 < retry_ttl_seconds s \<and> code_ttl_seconds s \<le> lock_seconds s"

definition login_ok :: "LoginConfig \<Rightarrow> bool" where
  "login_ok l \<longleftrightarrow>
     0 < max_failed_attempts l \<and> 0 < failed_attempts_window l \<and> 0 < lock_duration_seconds l \<and>
     0 < max_sessions_per_user l \<and> captcha_after_failed_attempts l \<le> max_failed_attempts l"

definition password_policy_ok :: "PasswordPolicyConfig \<Rightarrow> bool" where
  "password_policy_ok p \<longleftrightarrow>
     0 < min_length p \<and> min_length p \<le> max_length p \<and> 0 \<le> expire_days p \<and> 0 \<le> history_count p"

definition config_ok :: "Config \<Rightarrow> bool" where
  "config_ok c \<longleftrightarrow>
     is_port (server_grpc_port (cfg_server c)) \<and> is_port (server_metrics_port (cfg_server c)) \<and>
     is_port (mysql_port (cfg_mysql c)) \<and>
     0 < mysql_pool_size (cfg_mysql c) \<and> 0 < redis_pool_size (cfg_redis c) \<and>
     mysql_host (cfg_mysql c) \<noteq> [] \<and> mysql_database (cfg_mysql c) \<noteq> [] \<and>
     security_ok (cfg_security c) \<and> sms_ok (cfg_sms c) \<and> login_ok (cfg_login c) \<and>
     password_policy_ok (cfg_password c) \<and>
     (zk_enabled (cfg_zookeeper c) \<longrightarrow> zookeeper_ok (cfg_zookeeper c))"

lemmas config_ok_defs = config_ok_def is_port_def zookeeper_ok_def security_ok_def sms_ok_def
  login_ok_def password_policy_ok_def

lemma reject_if_Inr [simp]: "reject_if bad msg rest = Inr u \<longleftrightarrow> \<not> bad \<and> rest = Inr u"
  by (simp add: reject_if_def)

lemma reject_if_Inl:
  "reject_if bad msg rest = Inl e \<Longrightarrow> msg \<noteq> [] \<Longrightarrow> (rest = Inl e \<Longrightarrow> \<exists>m. e = RuntimeError m \<and> m \<noteq> [])
    \<Longrightarrow> \<exists>m. e = RuntimeError m \<and> m \<noteq> []"
  by (auto simp: reject_if_def split: if_splits)

lemma root_path_slash: "(\<exists>p. s = CHR ''/'' # p) \<longleftrightarrow> s \<noteq> [] \<and> hd s = CHR ''/''"
  by (cases s) auto

lemma validate_zookeeper_ok: "validate_zookeeper c = Inr () \<longleftrightarrow> zookeeper_ok (cfg_zookeeper c)"
  by (simp add: validate_zookeeper_def zookeeper_ok_def root_path_slash not_le)

lemma ValidateConfig_ok: "ValidateConfig c = Inr () \<longleftrightarrow> config_ok c"
  by (simp add: ValidateConfig_def validate_zookeeper_ok config_ok_def is_port_def security_ok_def
      sms_ok_def login_ok_def password_policy_ok_def not_le not_less)
     linarith

lemma Config_default_ok: "config_ok Config_default"
  by (simp add: config_ok_defs Config_default_def ServerConfig_default_def MySQLConfig_default_def
      RedisConfig_default_def SecurityConfig_default_def SmsConfig_default_def LoginConfig_default_def
      PasswordPolicyConfig_default_def ZooKeeperConfig_default_def)

lemma LoadFromFile_ok: "LoadFromFile y path = Inr c \<Longrightarrow> config_ok c"
  by (auto simp: LoadFromFile_def ValidateConfig_ok [symmetric] split: sum.splits)

subsection \<open>Properties\<close>

text \<open>C31: A configuration that \<open>LoadFromFile\<close> returns has passed every check of
  \<open>ValidateConfig\<close>: ports in range, pools not empty, secrets and issuer present, the refresh
  token outliving the access token, SMS, login, password and ZooKeeper settings consistent.\<close>

theorem config_load_validated:
  assumes "LoadFromFile y path = Inr c"
  shows "ValidateConfig c = Inr () \<and> config_ok c"
  using assms LoadFromFile_ok ValidateConfig_ok by blast

theorem config_load_validated_witness:
  "ValidateConfig Config_default = Inr () \<and> config_ok Config_default"
proof -
  let ?y = "\<lparr>y_LoadFile = \<lambda>_. Inr (), y_get = \<lambda>_ _. Inr None, as_string = \<lambda>_. Inl [],
    as_int = \<lambda>_. Inl [], as_unsigned = \<lambda>_. Inl [], as_size_t = \<lambda>_. Inl [],
    as_bool = \<lambda>_. Inl []\<rparr> :: unit yaml"
  have "load_sections ?y () = Inr Config_default"
    by (simp add: load_sections_def y_section_def)
  then have "LoadFromFile ?y ''config.yaml'' = Inr Config_default"
    using Config_default_ok ValidateConfig_ok [of Config_default] by (simp add: LoadFromFile_def)
  then show ?thesis by (rule config_load_validated)
qed

text \<open>C0: The text \<open>Config::ToString\<close> prints, which the servers log, shows of the JWT secret
  and of the two passwords only whether they are set: another non-empty secret gives the same text.\<close>

lemma config_print_hides_secrets:
  assumes "jwt_secret (cfg_security c) \<noteq> []" and "mysql_password (cfg_mysql c) \<noteq> []"
    and "redis_password (cfg_redis c) \<noteq> []"
    and "s \<noteq> []" and "p \<noteq> []" and "q \<noteq> []"
  shows "Config_ToString (c\<lparr>cfg_security := (cfg_security c)\<lparr>jwt_secret := s\<rparr>,
      cfg_mysql := (cfg_mysql c)\<lparr>mysql_password := p\<rparr>,
      cfg_redis := (cfg_redis c)\<lparr>redis_password := q\<rparr>\<rparr>) = Config_ToString c"
  using assms
  by (simp add: Config_ToString_def SecurityConfig_ToString_def MySQLConfig_ToString_def
      RedisConfig_ToString_def mask_secret_def)

lemma config_print_hides_secrets_example:
  "Config_ToString (Config_default
      \<lparr>cfg_security := SecurityConfig_default\<lparr>jwt_secret := ''s3cret''\<rparr>,
       cfg_mysql := MySQLConfig_default\<lparr>mysql_password := ''b''\<rparr>,
       cfg_redis := RedisConfig_default\<lparr>redis_password := ''d''\<rparr>\<rparr>) =
   Config_ToString (Config_default
      \<lparr>cfg_mysql := MySQLConfig_default\<lparr>mysql_password := ''a''\<rparr>,
       cfg_redis := RedisConfig_default\<lparr>redis_password := ''c''\<rparr>\<rparr>)"
  using config_print_hides_secrets [of "Config_default
      \<lparr>cfg_mysql := MySQLConfig_default\<lparr>mysql_password := ''a''\<rparr>,
       cfg_redis := RedisConfig_default\<lparr>redis_password := ''c''\<rparr>\<rparr>" "''s3cret''" "''b''" "''d''"]
  by (simp add: Config_default_def SecurityConfig_default_def MySQLConfig_default_def
      RedisConfig_default_def)

end
