(* ===== verification/Entities.thy ===== *)
theory Entities
  imports Errors Config
begin

section \<open>Entities\<close>

text \<open>
  \<open>include/entity/\<close> (users, token sessions, pages) and \<open>include/common/auth_type.h\<close>
  (tokens, payloads, SMS scenes).
\<close>

subsection \<open>Users\<close>

text \<open>\<open>UserRole\<close> is an enumeration over \<open>int\<close>: \<open>static_cast\<close> makes a value of any number,
  here \<open>UnnamedRole\<close>.\<close>

datatype UserRole = User | Admin | SuperAdmin | UnnamedRole int

fun UserRoleToString :: "UserRole \<Rightarrow> string" where
  "UserRoleToString User = ''0''"
| "UserRoleToString Admin = ''1''"
| "UserRoleToString SuperAdmin = ''2''"
| "UserRoleToString (UnnamedRole _) = ''0''"

definition StringToUserRole :: "string \<Rightarrow> UserRole" where
  "StringToUserRole role =
     (if role = ''0'' then User else if role = ''1'' then Admin
      else if role = ''2'' then SuperAdmin else User)"

definition IntToUserRole :: "int \<Rightarrow> UserRole" where
  "IntToUserRole n =
     (if n = 0 then User else if n = 1 then Admin else if n = 2 then SuperAdmin else UnnamedRole n)"

fun UserRoleToInt :: "UserRole \<Rightarrow> int" where
  "UserRoleToInt User = 0"
| "UserRoleToInt Admin = 1"
| "UserRoleToInt SuperAdmin = 2"
| "UserRoleToInt (UnnamedRole n) = n"

definition IsAdmin :: "UserRole \<Rightarrow> bool" where
  "IsAdmin role \<longleftrightarrow> role = Admin \<or> role = SuperAdmin"

definition IsSuperAdmin :: "UserRole \<Rightarrow> bool" where
  "IsSuperAdmin role \<longleftrightarrow> role = SuperAdmin"

record UserEntity =
  u_id :: int
  u_uuid :: string
  u_mobile :: string
  u_display_name :: string
  u_password_hash :: string
  u_role :: UserRole
  u_disabled :: bool
  u_created_at :: string
  u_updated_at :: string

definition UserEntity_default :: UserEntity where
  "UserEntity_default = \<lparr>u_id = 0, u_uuid = [], u_mobile = [], u_display_name = [],
     u_password_hash = [], u_role = User, u_disabled = False, u_created_at = [], u_updated_at = []\<rparr>"

subsection \<open>Sessions and tokens\<close>

record TokenSession =
  s_id :: int
  s_user_id :: int
  s_token_hash :: string
  s_expires_at :: string
  s_created_at :: string

record TokenPair =
  access_token :: string
  refresh_token :: string
  expires_in :: int

text \<open>Time points are nanoseconds since the epoch.\<close>

record AccessTokenPayload =
  p_user_id :: int
  p_user_uuid :: string
  p_mobile :: string
  p_role :: UserRole
  p_expires_at :: int

record TokenValidationResult =
  v_user_id :: int
  v_user_uuid :: string
  v_mobile :: string
  v_role :: UserRole
  v_expires_at :: int

record AuthResult =
  auth_user :: UserEntity
  auth_tokens :: TokenPair

datatype SmsScene = UnKnow | Register | Login | ResetPassword | DeleteUser

subsection \<open>Pages\<close>

record PageParams =
  page :: int
  page_size :: int

text \<open>\<open>int\<close> arithmetic, with the wrap-around of the machine.\<close>

definition PageParams_Offset :: "PageParams \<Rightarrow> int" where
  "PageParams_Offset p = wrap32 (wrap32 (page p - 1) * page_size p)"

definition PageParams_Validate :: "PageParams \<Rightarrow> PageParams" where
  "PageParams_Validate p =
     (let p = (if page p < 1 then p\<lparr>page := 1\<rparr> else p);
          p = (if page_size p < 1 then p\<lparr>page_size := 20\<rparr> else p)
      in if page_size p > 100 then p\<lparr>page_size := 100\<rparr> else p)"

record PageResult =
  total_records :: int
  total_pages :: int
  pr_page :: int
  pr_page_size :: int

definition PageResult_Create :: "int \<Rightarrow> int \<Rightarrow> int \<Rightarrow> PageResult" where
  "PageResult_Create pg sz total_n =
     \<lparr>total_records = total_n,
      total_pages = wrap32 (cdiv (wrap32 (wrap32 (total_n + sz) - 1)) sz),
      pr_page = pg, pr_page_size = sz\<rparr>"

subsection \<open>Lemmas\<close>

lemma IntToUserRole_inverse [simp]: "UserRoleToInt (IntToUserRole n) = n"
  by (simp add: IntToUserRole_def)

lemma StringToUserRole_inverse: "StringToUserRole (UserRoleToString r) = r \<longleftrightarrow> r \<in> {User, Admin, SuperAdmin}"
  by (cases r) (simp_all add: StringToUserRole_def)

lemma UserRoleToString_cases: "UserRoleToString r \<in> {''0'', ''1'', ''2''}"
  by (cases r) simp_all

text \<open>A role read back from its text never gains a right.\<close>

lemma IsAdmin_roundtrip: "IsAdmin (StringToUserRole (UserRoleToString r)) \<longleftrightarrow> IsAdmin r"
  by (cases r) (simp_all add: StringToUserRole_def IsAdmin_def)

lemma PageParams_Validate_bounds:
  "1 \<le> page (PageParams_Validate p)" "1 \<le> page_size (PageParams_Validate p)"
  "page_size (PageParams_Validate p) \<le> 100"
  by (simp_all add: PageParams_Validate_def Let_def)

lemma PageParams_Validate_idem: "PageParams_Validate (PageParams_Validate p) = PageParams_Validate p"
  using PageParams_Validate_bounds [of p] by (subst PageParams_Validate_def) (simp add: Let_def)

lemma PageParams_Offset_exact:
  assumes "page p - 1 \<le> 21474836" and "1 \<le> page p" and "1 \<le> page_size p" and "page_size p \<le> 100"
  shows "PageParams_Offset p = (page p - 1) * page_size p"
proof -
  have "(page p - 1) * page_size p \<le> 21474836 * 100"
    using assms by (intro mult_mono) auto
  moreover have "0 \<le> (page p - 1) * page_size p" using assms by simp
  ultimately have "in_int32 ((page p - 1) * page_size p)" by (simp add: in_int32_def)
  moreover have "in_int32 (page p - 1)" using assms by (simp add: in_int32_def)
  ultimately show ?thesis by (simp add: PageParams_Offset_def)
qed

lemma PageResult_total_pages:
  assumes "0 \<le> total_n" and "total_n \<le> 2 ^ 31 - 101" and "1 \<le> sz" and "sz \<le> 100"
  shows "total_pages (PageResult_Create pg sz total_n) = (total_n + sz - 1) div sz"
proof -
  have "in_int32 (total_n + sz)" and "in_int32 (total_n + sz - 1)"
    using assms by (simp_all add: in_int32_def)
  moreover have "0 \<le> (total_n + sz - 1) div sz" "(total_n + sz - 1) div sz \<le> total_n + sz - 1"
    using assms zdiv_mono2 [of "total_n + sz - 1" 1 sz] by (simp_all add: pos_imp_zdiv_nonneg_iff)
  moreover from this have "in_int32 ((total_n + sz - 1) div sz)"
    using assms by (simp add: in_int32_def)
  ultimately show ?thesis using assms by (simp add: PageResult_Create_def cdiv_pos)
qed

subsection \<open>Properties\<close>

text \<open>For every validated page request whose page is at most 21474837 the offset is exact
  and not negative, and the pages it names are consecutive: the last row of a page comes
  right before the first of the next. The page count is the least number of pages that hold
  all records.\<close>

lemma pagination_partition:
  assumes "p = PageParams_Validate q" and "page q \<le> 21474836" and "0 \<le> total_n" and "total_n \<le> 2 ^ 31 - 101"
  shows "0 \<le> PageParams_Offset p
    \<and> PageParams_Offset (p\<lparr>page := page p + 1\<rparr>) = PageParams_Offset p + page_size p
    \<and> (\<forall>n. total_n \<le> n * page_size p \<longleftrightarrow>
         total_pages (PageResult_Create (page p) (page_size p) total_n) \<le> n)"
proof -
  note b = PageParams_Validate_bounds [of q, folded assms(1)]
  have pg: "page p \<le> 21474836" using assms(1,2) by (simp add: PageParams_Validate_def Let_def)
  have off: "PageParams_Offset p = (page p - 1) * page_size p"
    "PageParams_Offset (p\<lparr>page := page p + 1\<rparr>) = page p * page_size p"
    using PageParams_Offset_exact [of p] PageParams_Offset_exact [of "p\<lparr>page := page p + 1\<rparr>"] b pg
    by simp_all
  have ceil: "total_pages (PageResult_Create (page p) (page_size p) total_n)
      = (total_n + page_size p - 1) div page_size p"
    using PageResult_total_pages assms(3,4) b by simp
  have "total_n \<le> n * page_size p \<longleftrightarrow> (total_n + page_size p - 1) div page_size p \<le> n" for n
  proof -
    have "(total_n + page_size p - 1) div page_size p < n + 1
        \<longleftrightarrow> total_n + page_size p - 1 < (n + 1) * page_size p"
      using b by (intro int_div_less_iff) simp
    then show ?thesis by (simp add: distrib_right zless_add1_eq order.strict_iff_order) linarith
  qed
  with off ceil b show ?thesis by (simp add: left_diff_distrib)
qed

lemma pagination_partition_example:
  "0 \<le> PageParams_Offset \<lparr>page = 2, page_size = 100\<rparr>
    \<and> PageParams_Offset \<lparr>page = 3, page_size = 100\<rparr> = PageParams_Offset \<lparr>page = 2, page_size = 100\<rparr> + 100
    \<and> (\<forall>n. 250 \<le> n * 100 \<longleftrightarrow> total_pages (PageResult_Create 2 100 250) \<le> n)"
  using pagination_partition [of "\<lparr>page = 2, page_size = 100\<rparr>" "\<lparr>page = 2, page_size = 500\<rparr>" 250]
  by (simp add: PageParams_Validate_def)

end
