(* ===== verification/Validator.thy ===== *)
theory Validator
  imports Entities
begin

section \<open>Input validation\<close>

text \<open>
  \<open>include/common/validator.h\<close>. A validator gives \<open>None\<close> where the C++ function returns
  true and \<open>Some error\<close> where it returns false with the text \<open>error\<close>. The two formats that
  the source writes as regular expressions are regular expressions here, matched by
  derivatives; the lemmas relate the matcher to the language and the language to the format.
\<close>

subsection \<open>Regular expressions\<close>

datatype regex = Void | Eps | Cls "char \<Rightarrow> bool" | Seq regex regex | Alt regex regex | Star regex

text \<open>\<open>r+\<close>, \<open>r{n}\<close>, \<open>r{n,}\<close>, and a literal character.\<close>

definition Plus :: "regex \<Rightarrow> regex" where "Plus r = Seq r (Star r)"

fun Rep :: "nat \<Rightarrow> regex \<Rightarrow> regex" where
  "Rep 0 r = Eps"
| "Rep (Suc n) r = Seq r (Rep n r)"

definition AtLeast :: "nat \<Rightarrow> regex \<Rightarrow> regex" where "AtLeast n r = Seq (Rep n r) (Star r)"

definition Lit :: "char \<Rightarrow> regex" where "Lit c = Cls (\<lambda>x. x = c)"

fun nullable :: "regex \<Rightarrow> bool" where
  "nullable Void = False"
| "nullable Eps = True"
| "nullable (Cls P) = False"
| "nullable (Seq r s) = (nullable r \<and> nullable s)"
| "nullable (Alt r s) = (nullable r \<or> nullable s)"
| "nullable (Star r) = True"

fun deriv :: "char \<Rightarrow> regex \<Rightarrow> regex" where
  "deriv c Void = Void"
| "deriv c Eps = Void"
| "deriv c (Cls P) = (if P c then Eps else Void)"
| "deriv c (Seq r s) =
     (if nullable r then Alt (Seq (deriv c r) s) (deriv c s) else Seq (deriv c r) s)"
| "deriv c (Alt r s) = Alt (deriv c r) (deriv c s)"
| "deriv c (Star r) = Seq (deriv c r) (Star r)"

text \<open>\<open>std::regex_match\<close>: the whole text matches.\<close>

definition regex_match :: "string \<Rightarrow> regex \<Rightarrow> bool" where
  "regex_match s r = nullable (foldl (\<lambda>r c. deriv c r) r s)"

definition is_mobile_second :: "char \<Rightarrow> bool" where
  "is_mobile_second c \<longleftrightarrow> 51 \<le> ord c \<and> ord c \<le> 57"

definition mobile_pattern :: regex where
  "mobile_pattern = Seq (Lit (CHR ''1'')) (Seq (Cls is_mobile_second) (Rep 9 (Cls isdigit)))"

definition local_char :: "char \<Rightarrow> bool" where
  "local_char c \<longleftrightarrow> isalnum c \<or> c \<in> set ''._%+-''"

definition domain_char :: "char \<Rightarrow> bool" where
  "domain_char c \<longleftrightarrow> isalnum c \<or> c \<in> set ''.-''"

definition email_pattern :: regex where
  "email_pattern = Seq (Plus (Cls local_char)) (Seq (Lit (CHR ''@''))
     (Seq (Plus (Cls domain_char)) (Seq (Lit (CHR ''.'')) (AtLeast 2 (Cls isalpha)))))"

subsection \<open>The validators\<close>

definition IsValidMobile :: "string \<Rightarrow> string option" where
  "IsValidMobile mobile =
     (if length mobile \<noteq> 11 \<or> \<not> regex_match mobile mobile_pattern
      then Some (utf8 [0x624B, 0x673A, 0x53F7, 0x683C, 0x5F0F, 0x9519, 0x8BEF]) else None)"

definition IsValidEmail :: "string \<Rightarrow> string option" where
  "IsValidEmail email =
     (if email = [] \<or> length email > 128 \<or> \<not> regex_match email email_pattern
      then Some (utf8 [0x90AE, 0x7BB1, 0x683C, 0x5F0F, 0x9519, 0x8BEF]) else None)"

text \<open>The version without a policy: 8 to 32 characters with a letter and a digit.\<close>

definition IsValidPassword_default :: "string \<Rightarrow> string option" where
  "IsValidPassword_default password =
     (if length password < 8 then Some (utf8 [0x5BC6, 0x7801, 0x957F, 0x5EA6, 0x81F3, 0x5C11] @ ''8'' @ utf8 [0x4F4D])
      else if length password > 32 then Some (utf8 [0x5BC6, 0x7801, 0x957F, 0x5EA6, 0x4E0D, 0x80FD, 0x8D85, 0x8FC7] @ ''32'' @ utf8 [0x4F4D])
      else let has_digit = list_ex isdigit password; has_alpha = list_ex isalpha password
        in if \<not> has_digit \<or> \<not> has_alpha
           then Some (utf8 [0x5BC6, 0x7801, 0x5FC5, 0x987B, 0x5305, 0x542B, 0x5B57, 0x6BCD, 0x548C, 0x6570, 0x5B57]) else None)"

text \<open>\<open>static_cast<int>(s.length())\<close>.\<close>

definition int_length :: "string \<Rightarrow> int" where
  "int_length s = wrap32 (int (length s))"

definition IsValidPassword :: "string \<Rightarrow> PasswordPolicyConfig \<Rightarrow> string option" where
  "IsValidPassword password policy =
     (if int_length password < min_length policy
      then Some (utf8 [0x5BC6, 0x7801, 0x957F, 0x5EA6, 0x81F3, 0x5C11] @ to_string (min_length policy) @ utf8 [0x4F4D])
      else if int_length password > max_length policy
      then Some (utf8 [0x5BC6, 0x7801, 0x957F, 0x5EA6, 0x4E0D, 0x80FD, 0x8D85, 0x8FC7] @ to_string (max_length policy) @ utf8 [0x4F4D])
      else let has_uppercase = list_ex isupper password;
               has_lowercase = list_ex islower password;
               has_digit = list_ex isdigit password;
               has_special = list_ex (\<lambda>c. \<not> isalnum c) password
        in if require_uppercase policy \<and> \<not> has_uppercase then Some (utf8 [0x5BC6, 0x7801, 0x5FC5, 0x987B, 0x5305, 0x542B, 0x5927, 0x5199, 0x5B57, 0x6BCD])
           else if require_lowercase policy \<and> \<not> has_lowercase then Some (utf8 [0x5BC6, 0x7801, 0x5FC5, 0x987B, 0x5305, 0x542B, 0x5C0F, 0x5199, 0x5B57, 0x6BCD])
           else if require_digit policy \<and> \<not> has_digit then Some (utf8 [0x5BC6, 0x7801, 0x5FC5, 0x987B, 0x5305, 0x542B, 0x6570, 0x5B57])
           else if require_special_char policy \<and> \<not> has_special then Some (utf8 [0x5BC6, 0x7801, 0x5FC5, 0x987B, 0x5305, 0x542B, 0x7279, 0x6B8A, 0x5B57, 0x7B26])
           else None)"

definition IsValidVerifyCode_default :: "string \<Rightarrow> string option" where
  "IsValidVerifyCode_default c =
     (if length c \<noteq> 6 then Some (utf8 [0x9A8C, 0x8BC1, 0x7801, 0x683C, 0x5F0F, 0x9519, 0x8BEF])
      else if list_ex (\<lambda>x. \<not> isdigit x) c then Some (utf8 [0x9A8C, 0x8BC1, 0x7801, 0x683C, 0x5F0F, 0x9519, 0x8BEF])
      else None)"

definition IsValidVerifyCode :: "string \<Rightarrow> SmsConfig \<Rightarrow> string option" where
  "IsValidVerifyCode c config =
     (if int_length c \<noteq> code_len config
      then Some (utf8 [0x9A8C, 0x8BC1, 0x7801, 0x5E94, 0x4E3A] @ to_string (code_len config) @ utf8 [0x4F4D, 0x6570, 0x5B57])
      else if list_ex (\<lambda>x. \<not> isdigit x) c
      then Some (utf8 [0x9A8C, 0x8BC1, 0x7801, 0x5E94, 0x4E3A] @ to_string (code_len config) @ utf8 [0x4F4D, 0x6570, 0x5B57])
      else None)"

definition IsValidDisplayName :: "string \<Rightarrow> string option" where
  "IsValidDisplayName name =
     (if name = [] then Some (utf8 [0x6635, 0x79F0, 0x4E0D, 0x80FD, 0x4E3A, 0x7A7A])
      else if length name > 32 then Some (utf8 [0x6635, 0x79F0, 0x957F, 0x5EA6, 0x4E0D, 0x80FD, 0x8D85, 0x8FC7] @ ''32'' @ utf8 [0x4F4D])
      else None)"

definition IsValidUserId :: "string \<Rightarrow> string option" where
  "IsValidUserId user_id =
     (if user_id = [] then Some (utf8 [0x7528, 0x6237] @ ''ID'' @ utf8 [0x4E0D, 0x80FD, 0x4E3A, 0x7A7A])
      else if list_ex (\<lambda>c. \<not> isdigit c) user_id then Some (utf8 [0x7528, 0x6237] @ ''ID'' @ utf8 [0x683C, 0x5F0F, 0x9519, 0x8BEF])
      else None)"

subsection \<open>The language of a regular expression\<close>

definition seq_lang :: "string set \<Rightarrow> string set \<Rightarrow> string set" where
  "seq_lang A B = {x @ y |x y. x \<in> A \<and> y \<in> B}"

inductive_set star_lang :: "string set \<Rightarrow> string set" for A where
  star_Nil: "[] \<in> star_lang A"
| star_step: "x \<in> A \<Longrightarrow> y \<in> star_lang A \<Longrightarrow> x @ y \<in> star_lang A"

fun lang :: "regex \<Rightarrow> string set" where
  "lang Void = {}"
| "lang Eps = {[]}"
| "lang (Cls P) = {[c] |c. P c}"
| "lang (Seq r s) = seq_lang (lang r) (lang s)"
| "lang (Alt r s) = lang r \<union> lang s"
| "lang (Star r) = star_lang (lang r)"

lemma nullable_lang: "nullable r \<longleftrightarrow> [] \<in> lang r"
  by (induction r) (auto simp: seq_lang_def intro: star_Nil)

lemma seq_lang_Cons:
  "c # w \<in> seq_lang A B \<longleftrightarrow> ([] \<in> A \<and> c # w \<in> B) \<or> (\<exists>x y. w = x @ y \<and> c # x \<in> A \<and> y \<in> B)"
  by (auto simp: seq_lang_def Cons_eq_append_conv)

lemma star_lang_Cons_split:
  "z \<in> star_lang A \<Longrightarrow> z = c # w \<Longrightarrow> \<exists>x y. w = x @ y \<and> c # x \<in> A \<and> y \<in> star_lang A"
proof (induction arbitrary: w rule: star_lang.induct)
  case (star_step x y)
  then show ?case by (cases x) auto
qed simp

lemma star_lang_Cons:
  "c # w \<in> star_lang A \<longleftrightarrow> (\<exists>x y. w = x @ y \<and> c # x \<in> A \<and> y \<in> star_lang A)"
  using star_lang_Cons_split star_step [of "c # _" A] by fastforce

lemma deriv_lang: "w \<in> lang (deriv c r) \<longleftrightarrow> c # w \<in> lang r"
proof (induction r arbitrary: w)
  case (Seq r s)
  then show ?case by (auto simp: seq_lang_Cons nullable_lang) (auto simp: seq_lang_def)
next
  case (Star r)
  then show ?case by (auto simp: star_lang_Cons seq_lang_def)
qed auto

lemma regex_match_lang: "regex_match s r \<longleftrightarrow> s \<in> lang r"
  by (induction s arbitrary: r) (simp_all add: regex_match_def nullable_lang deriv_lang)

lemma lang_Seq: "s \<in> lang (Seq r1 r2) \<longleftrightarrow> (\<exists>x y. s = x @ y \<and> x \<in> lang r1 \<and> y \<in> lang r2)"
  by (auto simp: seq_lang_def)

lemma lang_Seq_Cls: "s \<in> lang (Seq (Cls P) r) \<longleftrightarrow> (\<exists>c t. s = c # t \<and> P c \<and> t \<in> lang r)"
proof
  assume "s \<in> lang (Seq (Cls P) r)"
  then obtain x y where "s = x @ y" "x \<in> lang (Cls P)" "y \<in> lang r" unfolding lang_Seq by blast
  then show "\<exists>c t. s = c # t \<and> P c \<and> t \<in> lang r" by auto
next
  assume "\<exists>c t. s = c # t \<and> P c \<and> t \<in> lang r"
  then obtain c t where "s = [c] @ t" "[c] \<in> lang (Cls P)" "t \<in> lang r" by auto
  then show "s \<in> lang (Seq (Cls P) r)" unfolding lang_Seq by blast
qed

lemma lang_Rep_Cls: "s \<in> lang (Rep n (Cls P)) \<longleftrightarrow> length s = n \<and> list_all P s"
proof (induction n arbitrary: s)
  case (Suc n)
  then show ?case
    unfolding Rep.simps lang_Seq_Cls by (cases s) auto
qed auto

lemma lang_Star_Cls: "s \<in> lang (Star (Cls P)) \<longleftrightarrow> list_all P s"
proof (induction s)
  case (Cons c s)
  then show ?case by (simp add: star_lang_Cons)
qed (simp add: star_Nil)

lemma lang_Plus_Cls: "s \<in> lang (Plus (Cls P)) \<longleftrightarrow> s \<noteq> [] \<and> list_all P s"
  unfolding Plus_def lang_Seq_Cls lang_Star_Cls by (cases s) auto

lemma lang_AtLeast_Cls: "s \<in> lang (AtLeast n (Cls P)) \<longleftrightarrow> n \<le> length s \<and> list_all P s"
proof
  assume "s \<in> lang (AtLeast n (Cls P))"
  then show "n \<le> length s \<and> list_all P s"
    unfolding AtLeast_def lang_Seq lang_Rep_Cls lang_Star_Cls by auto
next
  assume a: "n \<le> length s \<and> list_all P s"
  have s: "s = take n s @ drop n s" by simp
  have all: "list_all P (take n s)" "list_all P (drop n s)"
    using a by (metis s list_all_append)+
  with a s show "s \<in> lang (AtLeast n (Cls P))"
    using lang_Star_Cls [of "drop n s" P] lang_Rep_Cls [of "take n s" n P]
    unfolding AtLeast_def lang_Seq by (metis length_take min.absorb2)
qed

lemma lang_Lit: "s \<in> lang (Lit c) \<longleftrightarrow> s = [c]"
  by (auto simp: Lit_def)

subsection \<open>The formats\<close>

definition mobile_format :: "string \<Rightarrow> bool" where
  "mobile_format s \<longleftrightarrow> length s = 11 \<and> s ! 0 = CHR ''1'' \<and> 51 \<le> ord (s ! 1) \<and> list_all isdigit s"

lemma IsValidMobile_iff: "IsValidMobile m = None \<longleftrightarrow> mobile_format m"
proof -
  have "m \<in> lang mobile_pattern \<longleftrightarrow> (\<exists>c ds. m = CHR ''1'' # c # ds \<and> is_mobile_second c
      \<and> length ds = 9 \<and> list_all isdigit ds)"
    unfolding mobile_pattern_def Lit_def lang_Seq_Cls lang_Rep_Cls by auto
  also have "\<dots> \<longleftrightarrow> mobile_format m"
  proof (cases m)
    case (Cons a r)
    then show ?thesis
      by (cases r) (auto simp: mobile_format_def is_mobile_second_def isdigit_def)
  qed (simp add: mobile_format_def)
  finally show ?thesis by (auto simp: IsValidMobile_def regex_match_lang mobile_format_def)
qed

lemma IsValidEmail_iff:
  "IsValidEmail e = None \<longleftrightarrow> length e \<le> 128 \<and>
     (\<exists>l d t. e = l @ CHR ''@'' # d @ CHR ''.'' # t \<and> l \<noteq> [] \<and> list_all local_char l
        \<and> d \<noteq> [] \<and> list_all domain_char d \<and> 2 \<le> length t \<and> list_all isalpha t)"
proof -
  have "e \<in> lang email_pattern \<longleftrightarrow> (\<exists>l d t. e = l @ CHR ''@'' # d @ CHR ''.'' # t
      \<and> l \<noteq> [] \<and> list_all local_char l \<and> d \<noteq> [] \<and> list_all domain_char d
      \<and> 2 \<le> length t \<and> list_all isalpha t)"
    unfolding email_pattern_def lang_Seq lang_Lit lang_Plus_Cls lang_AtLeast_Cls
    by (simp only: ex_simps(1) [symmetric] ex_simps(2) [symmetric]) (auto, (metis append_Cons append_Nil)+)
  then show ?thesis by (auto simp: IsValidEmail_def regex_match_lang)
qed

definition policy_met :: "PasswordPolicyConfig \<Rightarrow> string \<Rightarrow> bool" where
  "policy_met p s \<longleftrightarrow>
     min_length p \<le> int (length s) \<and> int (length s) \<le> max_length p \<and>
     (require_uppercase p \<longrightarrow> (\<exists>c\<in>set s. isupper c)) \<and>
     (require_lowercase p \<longrightarrow> (\<exists>c\<in>set s. islower c)) \<and>
     (require_digit p \<longrightarrow> (\<exists>c\<in>set s. isdigit c)) \<and>
     (require_special_char p \<longrightarrow> (\<exists>c\<in>set s. \<not> isalnum c))"

lemma int_length_id: "length s < 2 ^ 31 \<Longrightarrow> int_length s = int (length s)"
  by (simp add: int_length_def in_int32_def)

lemma IsValidPassword_iff:
  assumes "length s < 2 ^ 31"
  shows "IsValidPassword s p = None \<longleftrightarrow> policy_met p s"
  by (auto simp: IsValidPassword_def policy_met_def int_length_id [OF assms] Let_def list_ex_iff)

lemma IsValidVerifyCode_iff:
  assumes "length c < 2 ^ 31"
  shows "IsValidVerifyCode c config = None \<longleftrightarrow> int (length c) = code_len config \<and> list_all isdigit c"
  by (auto simp: IsValidVerifyCode_def int_length_id [OF assms] list_ex_iff list_all_iff)

lemma IsValidUserId_scan:
  assumes "IsValidUserId s = None"
  shows "scan_int s = Some (int (digits_val s))"
proof -
  have all: "\<forall>c\<in>set s. isdigit c" and ne: "s \<noteq> []"
    using assms by (auto simp: IsValidUserId_def list_ex_iff split: if_splits)
  then have "dropWhile isspace s = s" by (cases s) (simp_all add: isdigit_not_space)
  moreover have "takeWhile isdigit s = s" using all takeWhile_eq_all_conv [of isdigit s] by blast
  moreover have "hd s \<noteq> CHR ''-''" "hd s \<noteq> CHR ''+''"
    using all ne by (cases s; auto simp: isdigit_def)+
  ultimately show ?thesis using ne unfolding scan_int_def Let_def by (simp del: takeWhile_eq_all_conv)
qed

subsection \<open>Properties\<close>

text \<open>C32: The validators accept exactly what they are for: \<open>IsValidMobile\<close> the mainland mobile
  numbers (eleven digits, the first 1 and the second from 3 to 9), whatever else the caller
  sends; the policy version of \<open>IsValidPassword\<close> the passwords that meet every requirement of the
  configured policy; its length is compared as an \<open>int\<close>, so this is stated below 2^31 characters.\<close>

theorem validators_exact:
  "(IsValidMobile m = None \<longleftrightarrow> mobile_format m)
    \<and> (length s < 2 ^ 31 \<longrightarrow> (IsValidPassword s p = None \<longleftrightarrow> policy_met p s))"
  using IsValidMobile_iff IsValidPassword_iff by blast

theorem validators_exact_witness:
  "(IsValidPassword ''passw0rd'' PasswordPolicyConfig_default = None
      \<longleftrightarrow> policy_met PasswordPolicyConfig_default ''passw0rd'')
    \<and> policy_met PasswordPolicyConfig_default ''passw0rd''"
  using validators_exact [of "[]" "''passw0rd''" PasswordPolicyConfig_default]
  by (simp add: policy_met_def PasswordPolicyConfig_default_def isdigit_def)

end
