(* ===== verification/Base64.thy ===== *)
theory Base64
  imports Errors
begin

unbundle bit_operations_syntax

section \<open>Base64URL\<close>

text \<open>
  \<open>JwtService::Base64UrlEncode\<close> and \<open>Base64UrlDecode\<close> of \<open>src/auth/jwt_service.cpp\<close>. The
  accumulator \<open>val\<close> is an \<open>int\<close> that overflows on every input longer than four bytes: it
  is a 32-bit word here, shifted with wrap-around and read back by an arithmetic shift.
  The lemmas show that only its low bits are ever read, which gives the equations of the
  textbook coding by groups of three bytes, and from them that decoding inverts encoding.
\<close>

subsection \<open>Encoding\<close>

definition enc_table :: string where
  "enc_table = ''ABCDEFGHIJKLMNOPQRSTUVWXYZabcdefghijklmnopqrstuvwxyz0123456789-_''"

definition enc_char :: "nat \<Rightarrow> char" where
  "enc_char i = enc_table ! i"

text \<open>\<open>(val >> n) & 0x3F\<close>, as an index of the table.\<close>

definition sextet :: "32 word \<Rightarrow> nat \<Rightarrow> nat" where
  "sextet val n = unat (signed_drop_bit n val AND 0x3F)"

text \<open>The inner loop \<open>while (valb >= 0)\<close>.\<close>

function enc_emit :: "32 word \<Rightarrow> int \<Rightarrow> string \<Rightarrow> int \<times> string" where
  "enc_emit val valb encoded =
     (if 0 \<le> valb then enc_emit val (valb - 6) (encoded @ [enc_char (sextet val (nat valb))])
      else (valb, encoded))"
  by pat_completeness auto
termination
  by (relation "measure (\<lambda>(val, valb, encoded). nat (valb + 1))") auto

declare enc_emit.simps [simp del]

fun enc_loop :: "32 word \<Rightarrow> int \<Rightarrow> string \<Rightarrow> string \<Rightarrow> 32 word \<times> int \<times> string" where
  "enc_loop val valb encoded [] = (val, valb, encoded)"
| "enc_loop val valb encoded (c # cs) =
     (let val = push_bit 8 val + of_nat (ord c);
          (valb, encoded) = enc_emit val (valb + 8) encoded
      in enc_loop val valb encoded cs)"

definition Base64UrlEncode :: "string \<Rightarrow> string" where
  "Base64UrlEncode input =
     (let (val, valb, encoded) = enc_loop 0 (- 6) [] input
      in if valb > - 6 then encoded @ [enc_char (sextet (push_bit 8 val) (nat (valb + 8)))]
         else encoded)"

subsection \<open>Decoding\<close>

definition dec_table :: "int list" where
  "dec_table =
    [-1, -1, -1, -1, -1, -1, -1, -1, -1, -1, -1, -1, -1, -1, -1, -1,
     -1, -1, -1, -1, -1, -1, -1, -1, -1, -1, -1, -1, -1, -1, -1, -1,
     -1, -1, -1, -1, -1, -1, -1, -1, -1, -1, -1, -1, -1, 62, -1, -1,
     52, 53, 54, 55, 56, 57, 58, 59, 60, 61, -1, -1, -1, -1, -1, -1,
     -1, 0, 1, 2, 3, 4, 5, 6, 7, 8, 9, 10, 11, 12, 13, 14,
     15, 16, 17, 18, 19, 20, 21, 22, 23, 24, 25, -1, -1, -1, -1, 63,
     -1, 26, 27, 28, 29, 30, 31, 32, 33, 34, 35, 36, 37, 38, 39, 40,
     41, 42, 43, 44, 45, 46, 47, 48, 49, 50, 51, -1, -1, -1, -1, -1,
     -1, -1, -1, -1, -1, -1, -1, -1, -1, -1, -1, -1, -1, -1, -1, -1,
     -1, -1, -1, -1, -1, -1, -1, -1, -1, -1, -1, -1, -1, -1, -1, -1,
     -1, -1, -1, -1, -1, -1, -1, -1, -1, -1, -1, -1, -1, -1, -1, -1,
     -1, -1, -1, -1, -1, -1, -1, -1, -1, -1, -1, -1, -1, -1, -1, -1,
     -1, -1, -1, -1, -1, -1, -1, -1, -1, -1, -1, -1, -1, -1, -1, -1,
     -1, -1, -1, -1, -1, -1, -1, -1, -1, -1, -1, -1, -1, -1, -1, -1,
     -1, -1, -1, -1, -1, -1, -1, -1, -1, -1, -1, -1, -1, -1, -1, -1,
     -1, -1, -1, -1, -1, -1, -1, -1, -1, -1, -1, -1, -1, -1, -1, -1]"

definition dec_char :: "char \<Rightarrow> int" where
  "dec_char c = dec_table ! ord c"

text \<open>\<open>char((val >> n) & 0xFF)\<close>.\<close>

definition octet :: "32 word \<Rightarrow> nat \<Rightarrow> char" where
  "octet val n = char_of (unat (signed_drop_bit n val AND 0xFF))"

fun dec_loop :: "32 word \<Rightarrow> int \<Rightarrow> string \<Rightarrow> string \<Rightarrow> string" where
  "dec_loop val valb decoded [] = decoded"
| "dec_loop val valb decoded (c # cs) =
     (if dec_char c = - 1 then decoded
      else let val = push_bit 6 val + of_int (dec_char c); valb = valb + 6
           in if 0 \<le> valb then dec_loop val (valb - 8) (decoded @ [octet val (nat valb)]) cs
              else dec_loop val valb decoded cs)"

definition Base64UrlDecode :: "string \<Rightarrow> string" where
  "Base64UrlDecode input = dec_loop 0 (- 8) [] input"

subsection \<open>The coding by groups of three bytes\<close>

text \<open>The textbook definition: three bytes are 24 bits, read as four sextets; one or two
  bytes at the end are padded with zero bits and no \<open>=\<close> is added.\<close>

fun b64_spec :: "string \<Rightarrow> string" where
  "b64_spec [] = []"
| "b64_spec [a] = [enc_char (ord a div 4), enc_char (ord a mod 4 * 16)]"
| "b64_spec [a, b] =
     [enc_char (ord a div 4), enc_char (ord a mod 4 * 16 + ord b div 16),
      enc_char (ord b mod 16 * 4)]"
| "b64_spec (a # b # c # cs) =
     [enc_char (ord a div 4), enc_char (ord a mod 4 * 16 + ord b div 16),
      enc_char (ord b mod 16 * 4 + ord c div 64), enc_char (ord c mod 64)] @ b64_spec cs"

subsection \<open>What is read of the accumulator\<close>

lemma unat_shift_mask:
  assumes "n + k \<le> 32"
  shows "unat (signed_drop_bit n (of_nat N :: 32 word) AND mask k) = N div 2 ^ n mod 2 ^ k"
proof -
  have "signed_drop_bit n (of_nat N :: 32 word) AND mask k = take_bit k (drop_bit n (of_nat N))"
    using assms by (intro bit_word_eqI) (auto simp: bit_simps)
  then have "unat (signed_drop_bit n (of_nat N :: 32 word) AND mask k)
      = take_bit k (drop_bit n (take_bit 32 N))"
    by (simp add: unsigned_take_bit_eq unsigned_drop_bit_eq unsigned_of_nat)
  also have "\<dots> = take_bit k (drop_bit n N)"
    using assms by (simp add: drop_bit_take_bit)
  finally show ?thesis by (simp add: take_bit_eq_mod drop_bit_eq_div)
qed

lemma sextet_of_nat: "n \<le> 26 \<Longrightarrow> sextet (of_nat N) n = N div 2 ^ n mod 64"
  using unat_shift_mask [of n 6 N] by (simp add: sextet_def mask_numeral)

lemma octet_of_nat: "n \<le> 24 \<Longrightarrow> octet (of_nat N) n = char_of (N div 2 ^ n mod 256)"
  using unat_shift_mask [of n 8 N] by (simp add: octet_def mask_numeral)

lemma push8_of_nat: "push_bit 8 (of_nat N) + of_nat a = (of_nat (256 * N + a) :: 32 word)"
  by (simp add: push_bit_eq_mult)

lemma push6_of_nat: "push_bit 6 (of_nat N) + of_nat a = (of_nat (64 * N + a) :: 32 word)"
  by (simp add: push_bit_eq_mult)

lemmas enc_emit_once = enc_emit.simps [of _ 2] enc_emit.simps [of _ 4] enc_emit.simps [of _ 6]
  enc_emit.simps [of _ 0] enc_emit.simps [of _ "- 4"] enc_emit.simps [of _ "- 2"]
  enc_emit.simps [of _ "- 6"]

text \<open>A field of \<open>d * k * N + a\<close>, where the fields of \<open>a\<close> are those below \<open>d * k\<close>.\<close>

lemma field_split:
  fixes N a :: nat
  assumes "a div d < k" and "0 < d"
  shows "(d * k * N + a) div d mod (k * m) = N mod m * k + a div d"
proof -
  have "(d * k * N + a) div d = k * N + a div d"
    using assms(2) by (metis add.commute div_mult_self4 less_numeral_extra(3) mult.assoc)
  then show ?thesis using assms(1) by (simp add: mod_mult2_eq)
qed

lemma enc_field2: "(256 * N + ord a) div 4 mod 64 = ord a div 4"
proof -
  have "ord a div 4 < 64" using ord_less [of a] by linarith
  from field_split [OF this, of N 1] show ?thesis by simp
qed

lemma enc_field4: "(256 * N + ord a) div 16 mod 64 = N mod 4 * 16 + ord a div 16"
proof -
  have "ord a div 16 < 16" using ord_less [of a] by linarith
  from field_split [OF this, of N 4] show ?thesis by simp
qed

lemma enc_field6: "(256 * N + ord a) div 64 mod 64 = N mod 16 * 4 + ord a div 64"
proof -
  have "ord a div 64 < 4" using ord_less [of a] by linarith
  from field_split [OF this, of N 16] show ?thesis by simp
qed

lemma mod_drop:
  fixes N a :: nat
  shows "(256 * N + a) mod 4 = a mod 4" "(256 * N + a) mod 16 = a mod 16"
    "(256 * N + a) mod 64 = a mod 64"
proof -
  have "(256 * N + a) mod 4 = (a + 4 * (64 * N)) mod 4" by (simp add: add.commute)
  then show "(256 * N + a) mod 4 = a mod 4" by (simp only: mod_mult_self2)
  have "(256 * N + a) mod 16 = (a + 16 * (16 * N)) mod 16" by (simp add: add.commute)
  then show "(256 * N + a) mod 16 = a mod 16" by (simp only: mod_mult_self2)
  have "(256 * N + a) mod 64 = (a + 64 * (4 * N)) mod 64" by (simp add: add.commute)
  then show "(256 * N + a) mod 64 = a mod 64" by (simp only: mod_mult_self2)
qed

lemma pad_field:
  "256 * N div 16 mod 64 = N mod 4 * (16 :: nat)" "256 * N div 64 mod 64 = N mod 16 * (4 :: nat)"
  using field_split [of 0 16 16 N 4] field_split [of 0 64 4 N 16] by simp_all

lemma sextet_pad:
  "sextet (push_bit 8 (of_nat N)) 4 = N mod 4 * 16" "sextet (push_bit 8 (of_nat N)) 6 = N mod 16 * 4"
proof -
  have "push_bit 8 (of_nat N) = (of_nat (256 * N) :: 32 word)" by (simp add: push_bit_eq_mult)
  then show "sextet (push_bit 8 (of_nat N)) 4 = N mod 4 * 16"
    and "sextet (push_bit 8 (of_nat N)) 6 = N mod 16 * 4"
    using pad_field [of N] by (simp_all add: sextet_of_nat del: of_nat_mult)
qed

lemma enc_step1:
  "enc_loop (of_nat N) (- 6) e (a # cs) =
     enc_loop (of_nat (256 * N + ord a)) (- 4) (e @ [enc_char (ord a div 4)]) cs"
  by (simp only: enc_loop.simps Let_def push8_of_nat)
     (simp add: enc_emit_once sextet_of_nat enc_field2 del: of_nat_add of_nat_mult)

lemma enc_step2:
  "enc_loop (of_nat N) (- 4) e (b # cs) =
     enc_loop (of_nat (256 * N + ord b)) (- 2) (e @ [enc_char (N mod 4 * 16 + ord b div 16)]) cs"
  by (simp only: enc_loop.simps Let_def push8_of_nat)
     (simp add: enc_emit_once sextet_of_nat enc_field4 del: of_nat_add of_nat_mult)

lemma enc_step3:
  "enc_loop (of_nat N) (- 2) e (c # cs) =
     enc_loop (of_nat (256 * N + ord c)) (- 6)
       (e @ [enc_char (N mod 16 * 4 + ord c div 64), enc_char (ord c mod 64)]) cs"
  by (simp only: enc_loop.simps Let_def push8_of_nat)
     (simp add: enc_emit_once sextet_of_nat enc_field6 mod_drop del: of_nat_add of_nat_mult)

text \<open>The state of the loop after whole groups, and after the rest.\<close>

lemma enc_loop_spec:
  "(let (val, valb, encoded) = enc_loop (of_nat N) (- 6) e input
    in if valb > - 6 then encoded @ [enc_char (sextet (push_bit 8 val) (nat (valb + 8)))]
       else encoded) = e @ b64_spec input"
proof (induction input arbitrary: N e rule: b64_spec.induct)
  case 1
  then show ?case by simp
next
  case (2 a)
  show ?case
    by (simp only: enc_step1 enc_loop.simps(1) Let_def prod.case)
       (simp add: sextet_pad mod_drop del: of_nat_add of_nat_mult)
next
  case (3 a b)
  show ?case
    by (simp only: enc_step1 enc_step2 enc_loop.simps(1) Let_def prod.case)
       (simp add: sextet_pad mod_drop del: of_nat_add of_nat_mult distrib_left_numeral)
next
  case (4 a b c cs)
  show ?case
    by (simp only: enc_step1 enc_step2 enc_step3 "4.IH")
       (simp add: mod_drop del: of_nat_add of_nat_mult distrib_left_numeral)
qed

lemma Base64UrlEncode_eq: "Base64UrlEncode input = b64_spec input"
  using enc_loop_spec [of 0 "[]" input] by (simp add: Base64UrlEncode_def)

subsection \<open>Decoding inverts encoding\<close>

lemma dec_enc_all: "map dec_char enc_table = map int [0..<64]"
  by (simp add: enc_table_def dec_char_def dec_table_def upt_rec)

lemma dec_enc:
  assumes "i < 64"
  shows "dec_char (enc_char i) = int i"
proof -
  have len: "length enc_table = 64" by (simp add: enc_table_def)
  have "map dec_char enc_table ! i = map int [0..<64] ! i" by (simp only: dec_enc_all)
  with assms len show ?thesis by (simp add: enc_char_def)
qed

lemma dec_step:
  assumes "i < 64"
  shows "dec_loop (of_nat N) valb d (enc_char i # cs) =
    (if - 6 \<le> valb
     then dec_loop (of_nat (64 * N + i)) (valb - 2) (d @ [octet (of_nat (64 * N + i)) (nat (valb + 6))]) cs
     else dec_loop (of_nat (64 * N + i)) (valb + 6) d cs)"
proof -
  have "dec_char (enc_char i) \<noteq> - 1" and "of_int (dec_char (enc_char i)) = (of_nat i :: 32 word)"
    using dec_enc [OF assms] by simp_all
  then show ?thesis
    by (simp only: dec_loop.simps Let_def push6_of_nat if_False) (auto simp: algebra_simps)
qed

lemma dec_field:
  fixes N i :: nat
  assumes "i < 64"
  shows "(64 * N + i) div 16 mod 256 = N mod 64 * 4 + i div 16"
    and "(64 * N + i) div 4 mod 256 = N mod 16 * 16 + i div 4"
    and "(64 * N + i) mod 256 = N mod 4 * 64 + i"
proof -
  have b: "i div 16 < 4" "i div 4 < 16" using assms by linarith+
  show "(64 * N + i) div 16 mod 256 = N mod 64 * 4 + i div 16"
    using field_split [OF b(1), of N 64] by simp
  show "(64 * N + i) div 4 mod 256 = N mod 16 * 16 + i div 4"
    using field_split [OF b(2), of N 16] by simp
  show "(64 * N + i) mod 256 = N mod 4 * 64 + i"
    using field_split [of i 1 64 N 4] assms by simp
qed

lemma mod_drop64:
  fixes N i :: nat
  shows "(64 * N + i) mod 4 = i mod 4" "(64 * N + i) mod 16 = i mod 16" "(64 * N + i) mod 64 = i mod 64"
proof -
  have "(64 * N + i) mod 4 = (i + 4 * (16 * N)) mod 4" by (simp add: add.commute)
  then show "(64 * N + i) mod 4 = i mod 4" by (simp only: mod_mult_self2)
  have "(64 * N + i) mod 16 = (i + 16 * (4 * N)) mod 16" by (simp add: add.commute)
  then show "(64 * N + i) mod 16 = i mod 16" by (simp only: mod_mult_self2)
  show "(64 * N + i) mod 64 = i mod 64" by simp
qed

text \<open>Two, three and four sextets from an empty buffer; the bits left over are dropped.\<close>

lemma dec2:
  assumes "i < 64" and "j < 64"
  shows "dec_loop (of_nat N) (- 8) d (enc_char i # enc_char j # cs) =
    dec_loop (of_nat (64 * (64 * N + i) + j)) (- 4) (d @ [char_of (i * 4 + j div 16)]) cs"
  using assms
  by (simp add: dec_step octet_of_nat dec_field mod_drop64 del: dec_loop.simps of_nat_add of_nat_mult distrib_left_numeral)

lemma dec3:
  assumes "k < 64"
  shows "dec_loop (of_nat (64 * N + j)) (- 4) d (enc_char k # cs) =
    dec_loop (of_nat (64 * (64 * N + j) + k)) (- 6) (d @ [char_of (j mod 16 * 16 + k div 4)]) cs"
  using assms
  by (simp add: dec_step octet_of_nat dec_field mod_drop64 del: dec_loop.simps of_nat_add of_nat_mult distrib_left_numeral)

lemma dec4:
  assumes "l < 64"
  shows "dec_loop (of_nat (64 * N + k)) (- 6) d (enc_char l # cs) =
    dec_loop (of_nat (64 * (64 * N + k) + l)) (- 8) (d @ [char_of (k mod 4 * 64 + l)]) cs"
  using assms
  by (simp add: dec_step octet_of_nat dec_field mod_drop64 del: dec_loop.simps of_nat_add of_nat_mult distrib_left_numeral)

text \<open>The sextets of the coding are sextets, and put the bytes together again.\<close>

lemma group_bounds:
  "ord a div 4 < 64" "ord a mod 4 * 16 < 64" "ord a mod 4 * 16 + ord b div 16 < 64"
  "ord b mod 16 * 4 < 64" "ord b mod 16 * 4 + ord c div 64 < 64" "ord c mod 64 < 64"
  using ord_less [of a] ord_less [of b] ord_less [of c] by linarith+

lemma group_bytes:
  "char_of (ord a div 4 * 4 + (ord a mod 4 * 16) div 16) = a"
  "char_of (ord a div 4 * 4 + (ord a mod 4 * 16 + ord b div 16) div 16) = a"
  "char_of ((ord a mod 4 * 16 + ord b div 16) mod 16 * 16 + (ord b mod 16 * 4) div 4) = b"
  "char_of ((ord a mod 4 * 16 + ord b div 16) mod 16 * 16 + (ord b mod 16 * 4 + ord c div 64) div 4) = b"
  "char_of ((ord b mod 16 * 4 + ord c div 64) mod 4 * 64 + ord c mod 64) = c"
proof -
  have q: "ord b div 16 < 16" "ord c div 64 < 4" using ord_less [of b] ord_less [of c] by linarith+
  show "char_of (ord a div 4 * 4 + (ord a mod 4 * 16) div 16) = a" by simp
  show "char_of (ord a div 4 * 4 + (ord a mod 4 * 16 + ord b div 16) div 16) = a"
    using q by simp
  show "char_of ((ord a mod 4 * 16 + ord b div 16) mod 16 * 16 + (ord b mod 16 * 4) div 4) = b"
    using q by simp
  show "char_of ((ord a mod 4 * 16 + ord b div 16) mod 16 * 16 + (ord b mod 16 * 4 + ord c div 64) div 4) = b"
    using q by simp
  show "char_of ((ord b mod 16 * 4 + ord c div 64) mod 4 * 64 + ord c mod 64) = c"
    using q by simp
qed

lemma dec_loop_spec: "dec_loop (of_nat N) (- 8) d (b64_spec input) = d @ input"
proof (induction input arbitrary: N d rule: b64_spec.induct)
  case 1
  then show ?case by simp
next
  case (2 a)
  show ?case
    by (simp only: b64_spec.simps dec2 [OF group_bounds(1,2)] dec_loop.simps(1) group_bytes)
next
  case (3 a b)
  show ?case
    by (simp only: b64_spec.simps dec2 [OF group_bounds(1,3)] dec3 [OF group_bounds(4)]
        dec_loop.simps(1) group_bytes append_assoc append_Cons append_Nil)
next
  case (4 a b c cs)
  show ?case
    by (simp only: b64_spec.simps append_Cons append_Nil dec2 [OF group_bounds(1,3)]
        dec3 [OF group_bounds(5)] dec4 [OF group_bounds(6)] "4.IH" group_bytes append_assoc)
qed

lemma Base64UrlDecode_Encode: "Base64UrlDecode (Base64UrlEncode input) = input"
  using dec_loop_spec [of 0 "[]" input] by (simp add: Base64UrlDecode_def Base64UrlEncode_eq)

lemma Base64UrlEncode_inj: "Base64UrlEncode x = Base64UrlEncode y \<longleftrightarrow> x = y"
  by (metis Base64UrlDecode_Encode)

lemma enc_char_in: "i < 64 \<Longrightarrow> enc_char i \<in> set enc_table"
  unfolding enc_char_def by (rule nth_mem) (simp add: enc_table_def)

lemma b64_spec_alphabet: "set (b64_spec input) \<subseteq> set enc_table"
  by (induction input rule: b64_spec.induct)
     (simp_all only: b64_spec.simps set_append list.set insert_subset Un_subset_iff empty_subsetI
       enc_char_in [OF group_bounds(1)] enc_char_in [OF group_bounds(2)]
       enc_char_in [OF group_bounds(3)] enc_char_in [OF group_bounds(4)]
       enc_char_in [OF group_bounds(5)] enc_char_in [OF group_bounds(6)] simp_thms)

lemma no_dot_table: "CHR ''.'' \<notin> set enc_table"
  by (simp add: enc_table_def)

lemma Base64UrlEncode_no_dot [simp]: "CHR ''.'' \<notin> set (Base64UrlEncode input)"
  using b64_spec_alphabet no_dot_table by (auto simp: Base64UrlEncode_eq)

subsection \<open>Properties\<close>

text \<open>C30: \<open>Base64UrlEncode\<close>, although its accumulator overflows its 32 bits on every input
  longer than four bytes, computes the textbook coding by groups of three bytes, without
  padding, for every input.\<close>

theorem base64_encode_spec: "Base64UrlEncode input = b64_spec input"
  by (rule Base64UrlEncode_eq)

text \<open>\<open>Base64UrlDecode\<close> inverts \<open>Base64UrlEncode\<close> on every byte string, and the code uses
  only the 64 characters of the URL-safe alphabet, so never the dot that separates the parts
  of a token.\<close>

lemma base64_roundtrip:
  "Base64UrlDecode (Base64UrlEncode input) = input \<and> set (Base64UrlEncode input) \<subseteq> set enc_table
    \<and> CHR ''.'' \<notin> set enc_table"
  using Base64UrlDecode_Encode b64_spec_alphabet no_dot_table by (simp add: Base64UrlEncode_eq)

end
