(* ===== verification/Json.thy ===== *)
theory Json
  imports Cpp_Strings
begin

section \<open>The JSON of the token payloads\<close>

text \<open>
  The helpers \<open>EscapeJsonString\<close>, \<open>BuildJson\<close> and \<open>ParseJson\<close> of
  \<open>src/auth/jwt_service.cpp\<close>. The parser reads from a position \<open>i\<close> of the text; here it
  reads from the suffix that begins at \<open>i\<close>, where \<open>json[json.size()]\<close> is the terminating
  zero. Its main loop is total: each round consumes a character or is the last one.
\<close>

definition QUOTE :: char where "QUOTE = CHR 0x22"
definition BACKSLASH :: char where "BACKSLASH = CHR 0x5C"
definition BACKSPACE :: char where "BACKSPACE = CHR 0x08"
definition FORMFEED :: char where "FORMFEED = CHR 0x0C"
definition NEWLINE :: char where "NEWLINE = CHR 0x0A"
definition RETURN :: char where "RETURN = CHR 0x0D"
definition TAB :: char where "TAB = CHR 0x09"

lemmas special_chars = QUOTE_def BACKSLASH_def BACKSPACE_def FORMFEED_def NEWLINE_def RETURN_def
  TAB_def

definition escape_char :: "char \<Rightarrow> string" where
  "escape_char c =
     (if c = QUOTE then [BACKSLASH, QUOTE]
      else if c = BACKSLASH then [BACKSLASH, BACKSLASH]
      else if c = BACKSPACE then [BACKSLASH, CHR ''b'']
      else if c = FORMFEED then [BACKSLASH, CHR ''f'']
      else if c = NEWLINE then [BACKSLASH, CHR ''n'']
      else if c = RETURN then [BACKSLASH, CHR ''r'']
      else if c = TAB then [BACKSLASH, CHR ''t'']
      else [c])"

definition EscapeJsonString :: "string \<Rightarrow> string" where
  "EscapeJsonString s = concat (map escape_char s)"

definition is_number :: "string \<Rightarrow> bool" where
  "is_number v \<longleftrightarrow> v \<noteq> [] \<and> (isdigit (hd v) \<or> hd v = CHR ''-'' \<and> length v > 1)"

definition build_pair :: "string \<times> string \<Rightarrow> string" where
  "build_pair kv = (case kv of (key, val) \<Rightarrow>
     [QUOTE] @ EscapeJsonString key @ [QUOTE, CHR '':''] @
     (if is_number val then val else [QUOTE] @ EscapeJsonString val @ [QUOTE]))"

text \<open>The loop over the claims, with its flag \<open>first\<close>.\<close>

fun build_pairs :: "bool \<Rightarrow> string cmap \<Rightarrow> string" where
  "build_pairs is_first [] = []"
| "build_pairs is_first (kv # m) =
     (if is_first then [] else '','') @ build_pair kv @ build_pairs False m"

definition BuildJson :: "string cmap \<Rightarrow> string" where
  "BuildJson claims = ''{'' @ build_pairs True claims @ ''}''"

subsection \<open>The parser\<close>

definition unescape :: "char \<Rightarrow> char" where
  "unescape c =
     (if c = CHR ''n'' then NEWLINE else if c = CHR ''r'' then RETURN
      else if c = CHR ''t'' then TAB else c)"

text \<open>The characters up to the closing quote, and what follows it.\<close>

fun parse_chars :: "string \<Rightarrow> string \<times> string" where
  "parse_chars [] = ([], [])"
| "parse_chars [c] = (if c = QUOTE then ([], []) else ([c], []))"
| "parse_chars (c # d # r) =
     (if c = QUOTE then ([], d # r)
      else if c = BACKSLASH then (let (s, r') = parse_chars r in (unescape d # s, r'))
      else (let (s, r') = parse_chars (d # r) in (c # s, r')))"

definition parse_string :: "string \<Rightarrow> string \<times> string" where
  "parse_string r = (if r = [] \<or> hd r \<noteq> QUOTE then ([], r) else parse_chars (tl r))"

definition value_char :: "char \<Rightarrow> bool" where
  "value_char c \<longleftrightarrow> c \<noteq> CHR '','' \<and> c \<noteq> CHR ''}''"

definition parse_value :: "string \<Rightarrow> string \<times> string" where
  "parse_value r =
     (let r = dropWhile isspace r
      in if r = [] then ([], [])
         else if hd r = QUOTE then parse_string r
         else (filter (\<lambda>c. \<not> isspace c) (takeWhile value_char r), dropWhile value_char r))"

text \<open>One member of the object: its key, an optional colon, its value.\<close>

definition parse_member :: "string \<Rightarrow> string \<times> string \<times> string" where
  "parse_member r =
     (let (key, r) = parse_string r;
          r = dropWhile isspace r;
          r = (if r \<noteq> [] \<and> hd r = CHR '':'' then tl r else r);
          (val, r) = parse_value r
      in (key, val, r))"

lemma parse_chars_length: "length (snd (parse_chars r)) \<le> length r"
  by (induction r rule: parse_chars.induct) (auto split: prod.splits)

lemma parse_string_length: "length (snd (parse_string r)) \<le> length r"
  using parse_chars_length [of "tl r"] by (cases r) (auto simp: parse_string_def)

lemma parse_string_shorter:
  "r \<noteq> [] \<Longrightarrow> hd r = QUOTE \<Longrightarrow> length (snd (parse_string r)) < length r"
  using parse_chars_length [of "tl r"] by (cases r) (auto simp: parse_string_def)

lemma parse_value_length: "length (snd (parse_value r)) \<le> length r"
  using parse_string_length [of "dropWhile isspace r"] length_dropWhile_le [of isspace r]
    length_dropWhile_le [of value_char "dropWhile isspace r"]
  by (auto simp: parse_value_def Let_def)

lemma parse_value_shorter:
  assumes "r \<noteq> []" and "\<not> isspace (hd r)" and "value_char (hd r)"
  shows "length (snd (parse_value r)) < length r"
proof -
  obtain c r' where r: "r = c # r'" using assms(1) by (cases r) auto
  show ?thesis
  proof (cases "c = QUOTE")
    case True
    then show ?thesis using assms r parse_string_shorter [of r] by (simp add: parse_value_def)
  next
    case False
    then show ?thesis using assms r length_dropWhile_le [of value_char r']
      by (simp add: parse_value_def less_Suc_eq_le)
  qed
qed

text \<open>A member that begins with a character that ends no member takes it along.\<close>

lemma parse_member_shorter:
  assumes "r \<noteq> []" and "\<not> isspace (hd r)" and "value_char (hd r)"
  shows "length (snd (snd (parse_member r))) < length r"
proof -
  let ?r1 = "snd (parse_string r)"
  let ?r2 = "dropWhile isspace ?r1"
  let ?r3 = "if ?r2 \<noteq> [] \<and> hd ?r2 = CHR '':'' then tl ?r2 else ?r2"
  have eq: "snd (snd (parse_member r)) = snd (parse_value ?r3)"
    by (simp add: parse_member_def Let_def split: prod.splits)
  have r3: "length ?r3 \<le> length ?r2" by simp
  have r2: "length ?r2 \<le> length ?r1" by (rule length_dropWhile_le)
  show ?thesis
  proof (cases "hd r = QUOTE")
    case True
    then have "length ?r1 < length r" using parse_string_shorter assms(1) by blast
    with r2 r3 parse_value_length [of ?r3] show ?thesis unfolding eq by linarith
  next
    case False
    then have r1: "?r1 = r" by (simp add: parse_string_def)
    with assms have r2': "?r2 = r" by (cases r) auto
    show ?thesis
    proof (cases "hd r = CHR '':''")
      case True
      then have "?r3 = tl r" using r2' assms by simp
      then show ?thesis using parse_value_length [of "tl r"] eq assms(1) by (cases r) auto
    next
      case False
      then have "?r3 = r" using r2' by simp
      then show ?thesis using parse_value_shorter [OF assms] eq by simp
    qed
  qed
qed

function parse_members :: "string \<Rightarrow> string cmap \<Rightarrow> string cmap" where
  "parse_members r result =
     (if r = [] then result
      else let r = dropWhile isspace r in
        if r = [] then result
        else if hd r = CHR ''}'' then result
        else if hd r = CHR '','' then parse_members (tl r) result
        else let (key, val, r) = parse_member r in
          parse_members r (if key \<noteq> [] then map_put key val result else result))"
  by pat_completeness auto
termination
proof (relation "measure (\<lambda>(r, result). length r)", goal_cases)
  case 1
  then show ?case by simp
next
  case (2 r result r')
  have "length r' \<le> length r" using 2 length_dropWhile_le [of isspace r] by simp
  moreover have "length (tl r') < length r'" using 2 by simp
  ultimately show ?case by simp
next
  case (3 r result r' key y val r'')
  then have "r' \<noteq> []" and "\<not> isspace (hd r')" and "value_char (hd r')"
    using hd_dropWhile [of isspace r] by (auto simp: value_char_def)
  then have "length (snd (snd (parse_member r'))) < length r'" by (rule parse_member_shorter)
  moreover have "length r' \<le> length r" using 3 length_dropWhile_le [of isspace r] by simp
  ultimately show ?case using 3 by (metis in_measure case_prod_conv snd_conv order_less_le_trans)
qed

declare parse_members.simps [simp del]

definition ParseJson :: "string \<Rightarrow> string cmap" where
  "ParseJson json =
     (let r = dropWhile isspace json
      in if r = [] \<or> hd r \<noteq> CHR ''{'' then [] else parse_members (tl r) [])"

subsection \<open>What is parsed back\<close>

text \<open>A pair survives the round trip when its key is not empty, its texts have neither
  backspace nor form feed (they are written as \<open>\b\<close>, \<open>\f\<close> and read as the letters), and a
  value that is written without quotes has no character that ends or is skipped in one.\<close>

definition json_safe :: "string \<times> string \<Rightarrow> bool" where
  "json_safe kv = (case kv of (key, val) \<Rightarrow>
     key \<noteq> [] \<and> BACKSPACE \<notin> set key \<and> FORMFEED \<notin> set key \<and>
     (if is_number val then (\<forall>c\<in>set val. value_char c \<and> \<not> isspace c)
      else BACKSPACE \<notin> set val \<and> FORMFEED \<notin> set val))"

lemma parse_chars_escape:
  assumes "BACKSPACE \<notin> set s" and "FORMFEED \<notin> set s"
  shows "parse_chars (EscapeJsonString s @ QUOTE # r) = (s, r)"
  using assms
proof (induction s)
  case Nil
  then show ?case by (cases r) (simp_all add: EscapeJsonString_def)
next
  case (Cons c s)
  then have IH: "parse_chars (EscapeJsonString s @ QUOTE # r) = (s, r)" by simp
  obtain d r' where rest: "EscapeJsonString s @ QUOTE # r = d # r'"
    by (cases "EscapeJsonString s @ QUOTE # r") auto
  have "EscapeJsonString (c # s) @ QUOTE # r = escape_char c @ d # r'"
    by (simp add: EscapeJsonString_def rest [unfolded EscapeJsonString_def, symmetric])
  with Cons.prems IH rest show ?case
    by (auto simp: escape_char_def unescape_def special_chars)
qed

lemma parse_string_escape:
  assumes "BACKSPACE \<notin> set s" and "FORMFEED \<notin> set s"
  shows "parse_string (QUOTE # EscapeJsonString s @ QUOTE # r) = (s, r)"
  using parse_chars_escape [OF assms] by (simp add: parse_string_def)

lemma not_space_marks [simp]: "\<not> isspace QUOTE" "\<not> isspace (CHR '':'')" "\<not> isspace (CHR ''}'')"
  "\<not> isspace (CHR '','')" "\<not> isspace (CHR ''{'')"
  by (simp_all add: isspace_def QUOTE_def)

lemma value_ends: "\<not> value_char (CHR '','')" "\<not> value_char (CHR ''}'')"
  by (simp_all add: value_char_def)

lemma parse_value_number:
  assumes "is_number val" and "\<forall>c\<in>set val. value_char c \<and> \<not> isspace c" and "\<not> value_char e"
  shows "parse_value (val @ e # r) = (val, e # r)"
proof -
  obtain c v where v: "val = c # v" using assms(1) by (cases val) (auto simp: is_number_def)
  have "c \<noteq> QUOTE" using assms(1) v by (auto simp: is_number_def isdigit_def QUOTE_def)
  moreover have "takeWhile value_char (val @ e # r) = val" "dropWhile value_char (val @ e # r) = e # r"
    using assms(2,3) by (induction val) auto
  moreover have "filter (\<lambda>c. \<not> isspace c) val = val" using assms(2) by (simp add: filter_id_conv)
  ultimately show ?thesis using assms(2) v by (simp add: parse_value_def)
qed

lemma parse_member_build:
  assumes "json_safe (key, val)" and "\<not> value_char e"
  shows "parse_member (build_pair (key, val) @ e # r) = (key, val, e # r)"
proof -
  let ?v = "if is_number val then val else [QUOTE] @ EscapeJsonString val @ [QUOTE]"
  have "parse_string (build_pair (key, val) @ e # r) = (key, CHR '':'' # ?v @ e # r)"
    using assms(1) parse_string_escape [of key "CHR '':'' # ?v @ e # r"]
    by (simp add: build_pair_def json_safe_def)
  moreover have "parse_value (?v @ e # r) = (val, e # r)"
  proof (cases "is_number val")
    case True
    then show ?thesis using assms parse_value_number by (simp add: json_safe_def)
  next
    case False
    then show ?thesis using assms(1) parse_string_escape [of val "e # r"]
      by (simp add: parse_value_def json_safe_def)
  qed
  ultimately show ?thesis by (simp add: parse_member_def)
qed

lemma build_pair_hd: "\<exists>t. build_pair kv = QUOTE # t"
  by (simp add: build_pair_def split: prod.splits)

lemma parse_members_one:
  assumes "json_safe (key, val)" and "\<not> value_char e"
  shows "parse_members (build_pair (key, val) @ e # r) result =
    parse_members (e # r) (map_put key val result)"
proof -
  obtain t where t: "build_pair (key, val) = QUOTE # t" using build_pair_hd by blast
  have "key \<noteq> []" using assms(1) by (simp add: json_safe_def)
  then show ?thesis
    using parse_member_build [OF assms, of r] t
    by (subst parse_members.simps) (simp add: QUOTE_def [symmetric], simp add: QUOTE_def)
qed

lemma parse_members_comma: "parse_members (CHR '','' # r) result = parse_members r result"
  by (subst parse_members.simps) simp

lemma parse_members_end: "parse_members (CHR ''}'' # r) result = result"
  by (subst parse_members.simps) simp

lemma parse_members_build:
  assumes "\<forall>kv\<in>set m. json_safe kv"
  shows "parse_members (build_pairs False m @ ''}'') result = foldl (\<lambda>a (k, v). map_put k v a) result m"
  using assms
proof (induction m arbitrary: result)
  case Nil
  then show ?case by (simp add: parse_members_end)
next
  case (Cons kv m)
  obtain k v where kv: "kv = (k, v)" by (cases kv)
  obtain e r where er: "build_pairs False m @ ''}'' = e # r" and e: "\<not> value_char e"
    by (cases m) (auto simp: value_ends)
  have "parse_members (build_pair kv @ e # r) result = parse_members (e # r) (map_put k v result)"
    using parse_members_one e Cons.prems kv by simp
  with Cons er kv show ?case by (simp add: parse_members_comma)
qed

lemma foldl_map_put:
  assumes "cmap_wf (m0 @ m)"
  shows "foldl (\<lambda>a (k, v). map_put k v a) m0 m = m0 @ m"
  using assms
proof (induction m arbitrary: m0)
  case (Cons kv m)
  obtain k v where kv: "kv = (k, v)" by (cases kv)
  have "\<forall>x\<in>set (map fst m0). x < k"
    using Cons.prems kv by (auto simp: cmap_wf_def sorted_wrt_append)
  then have "map_put k v m0 = m0 @ [kv]" using map_put_last [of m0 k v] kv by simp
  with Cons.IH [of "m0 @ [kv]"] Cons.prems kv show ?case by simp
qed simp

lemma ParseJson_BuildJson:
  assumes "cmap_wf m" and "\<forall>kv\<in>set m. json_safe kv"
  shows "ParseJson (BuildJson m) = m"
proof -
  have "parse_members (build_pairs True m @ ''}'') [] = parse_members (build_pairs False m @ ''}'') []"
    by (cases m) (simp_all add: parse_members_comma)
  also have "\<dots> = m"
    using parse_members_build [OF assms(2)] foldl_map_put [of "[]" m] assms(1) by simp
  finally show ?thesis by (simp add: ParseJson_def BuildJson_def)
qed

end
