(* ===== verification/Password.thy ===== *)
theory Password
  imports Entities
begin

unbundle bit_operations_syntax

section \<open>The system, passwords and identifiers\<close>

text \<open>
  What the program takes from OpenSSL, libuuid, the C++ random library and the system clock
  is a parameter: the record \<open>sys\<close> holds these functions with the state they read and
  change. On it stand \<open>include/common/password_helper.h\<close> (salted hashes) and
  \<open>include/common/uuid.h\<close> (identifiers).
\<close>

subsection \<open>The system\<close>

text \<open>\<open>sys_hmac\<close> is \<open>HMAC\<close> with \<open>EVP_sha256\<close>, \<open>sys_sha256\<close> is \<open>SHA256\<close>; \<open>sys_clock\<close> is
  \<open>system_clock::now()\<close> in nanoseconds since the epoch; \<open>sys_rand_bytes\<close> is \<open>RAND_bytes\<close>;
  \<open>sys_uniform\<close> is a \<open>uniform_int_distribution\<close> over a \<open>mt19937\<close>; \<open>sys_uuid\<close> is
  \<open>uuid_generate_random\<close> followed by \<open>uuid_unparse_lower\<close>; \<open>sys_uuid_parse\<close> is \<open>uuid_parse\<close>
  (true for the return value 0); \<open>sys_localtime\<close> prints a \<open>time_t\<close> as
  \<open>localtime_r\<close> and \<open>put_time\<close> with the format \<open>%Y-%m-%d %H:%M:%S\<close> do.\<close>

record 'e sys =
  sys_hmac :: "string \<Rightarrow> string \<Rightarrow> string"
  sys_sha256 :: "string \<Rightarrow> string"
  sys_clock :: "'e \<Rightarrow> int \<times> 'e"
  sys_rand_bytes :: "nat \<Rightarrow> 'e \<Rightarrow> string \<times> 'e"
  sys_uniform :: "int \<Rightarrow> int \<Rightarrow> 'e \<Rightarrow> int \<times> 'e"
  sys_uuid :: "'e \<Rightarrow> string \<times> 'e"
  sys_uuid_parse :: "string \<Rightarrow> bool"
  sys_localtime :: "int \<Rightarrow> string"
  sys_state :: 'e

definition sys_call :: "('e sys \<Rightarrow> 'e \<Rightarrow> 'a \<times> 'e) \<Rightarrow> ('e sys, 'a) io" where
  "sys_call f = (\<lambda>s. case f s (sys_state s) of (a, e) \<Rightarrow> (Inr a, s\<lparr>sys_state := e\<rparr>))"

definition system_clock_now :: "('e sys, int) io" where
  "system_clock_now = sys_call sys_clock"

definition RAND_bytes :: "nat \<Rightarrow> ('e sys, string) io" where
  "RAND_bytes n = sys_call (\<lambda>s. sys_rand_bytes s n)"

definition uniform_int :: "int \<Rightarrow> int \<Rightarrow> ('e sys, int) io" where
  "uniform_int a b = sys_call (\<lambda>s. sys_uniform s a b)"

definition uuid_text :: "('e sys, string) io" where
  "uuid_text = sys_call sys_uuid"

text \<open>The functions without state, read from the system.\<close>

definition ask :: "('w \<Rightarrow> 'a) \<Rightarrow> ('w, 'a) io" where
  "ask f = (\<lambda>w. (Inr (f w), w))"

text \<open>Nothing changes the functions: two handles of the same system agree on them.\<close>

definition same_sys :: "'e sys \<Rightarrow> 'e sys \<Rightarrow> bool" where
  "same_sys s s' \<longleftrightarrow> s' = s\<lparr>sys_state := sys_state s'\<rparr>"

lemma same_sys_refl [simp, intro]: "same_sys s s"
  by (simp add: same_sys_def)

lemma same_sys_upd [simp]: "same_sys s (s\<lparr>sys_state := e\<rparr>)"
  by (simp add: same_sys_def)

lemma same_sys_trans [trans]:
  assumes "same_sys s s'" and "same_sys s' s''"
  shows "same_sys s s''"
proof -
  have "s'' = s'\<lparr>sys_state := sys_state s''\<rparr>" using assms(2) by (simp add: same_sys_def)
  also have "s' = s\<lparr>sys_state := sys_state s'\<rparr>" using assms(1) by (simp add: same_sys_def)
  finally have "s'' = s\<lparr>sys_state := sys_state s''\<rparr>" by simp
  then show ?thesis by (simp add: same_sys_def)
qed

lemma same_sys_fields:
  assumes "same_sys s s'"
  shows "sys_hmac s' = sys_hmac s" "sys_sha256 s' = sys_sha256 s" "sys_clock s' = sys_clock s"
    "sys_localtime s' = sys_localtime s" "sys_uuid s' = sys_uuid s"
proof -
  have "s' = s\<lparr>sys_state := sys_state s'\<rparr>" using assms by (simp add: same_sys_def)
  then obtain e where "s' = s\<lparr>sys_state := e\<rparr>" by blast
  then show "sys_hmac s' = sys_hmac s" "sys_sha256 s' = sys_sha256 s" "sys_clock s' = sys_clock s"
    "sys_localtime s' = sys_localtime s" "sys_uuid s' = sys_uuid s" by simp_all
qed

text \<open>A computation is \<^emph>\<open>total\<close> on the system when it returns and keeps its functions.\<close>

definition sys_total :: "('e sys, 'a) io \<Rightarrow> bool" where
  "sys_total m \<longleftrightarrow> (\<forall>s. \<exists>a s'. m s = (Inr a, s') \<and> same_sys s s')"

lemma sys_total_ret [simp, intro]: "sys_total (ret a)"
  by (auto simp: sys_total_def ret_def)

lemma sys_total_ask [simp, intro]: "sys_total (ask f)"
  by (auto simp: sys_total_def ask_def)

lemma sys_total_call [simp, intro]: "sys_total (sys_call f)"
  by (auto simp: sys_total_def sys_call_def split: prod.splits)

lemma sys_total_bindE [intro]:
  assumes "sys_total m" and "\<And>a. sys_total (f a)"
  shows "sys_total (bindE m f)"
  unfolding sys_total_def
proof
  fix s
  obtain a s1 where 1: "m s = (Inr a, s1)" "same_sys s s1" using assms(1) unfolding sys_total_def by blast
  obtain b s2 where 2: "f a s1 = (Inr b, s2)" "same_sys s1 s2"
    using assms(2) [of a] unfolding sys_total_def by blast
  from 1 2 same_sys_trans show "\<exists>b s'. bindE m f s = (Inr b, s') \<and> same_sys s s'"
    by (auto simp: bindE_def)
qed

lemma sys_total_If [intro]: "sys_total m \<Longrightarrow> sys_total m' \<Longrightarrow> sys_total (if b then m else m')"
  by simp

lemma sys_total_basic [simp, intro]:
  "sys_total system_clock_now" "sys_total (RAND_bytes n)" "sys_total (uniform_int a b)"
  "sys_total uuid_text"
  by (simp_all add: system_clock_now_def RAND_bytes_def uniform_int_def uuid_text_def)

lemma sys_totalE:
  assumes "sys_total m"
  obtains a s' where "m s = (Inr a, s')" and "same_sys s s'"
  using assms unfolding sys_total_def by blast

subsection \<open>Time\<close>

definition NANOS :: int where "NANOS = 1000000000"

text \<open>\<open>to_time_t\<close> truncates to seconds; \<open>from_time_t\<close> and adding seconds are \<open>int64_t\<close>
  arithmetic on nanoseconds.\<close>

definition to_time_t :: "int \<Rightarrow> int" where
  "to_time_t tp = cdiv tp NANOS"

definition from_time_t :: "int \<Rightarrow> int" where
  "from_time_t t = wrap64 (t * NANOS)"

definition plus_seconds :: "int \<Rightarrow> int \<Rightarrow> int" where
  "plus_seconds tp sec = wrap64 (tp + wrap64 (sec * NANOS))"

subsection \<open>Passwords\<close>

definition BytesToHex :: "string \<Rightarrow> string" where
  "BytesToHex bs = hex_bytes bs"

definition PasswordHelper_Hash :: "string \<Rightarrow> ('e sys, string) io" where
  "PasswordHelper_Hash password =
     bindE (RAND_bytes 16) (\<lambda>salt_bytes.
     let salt = BytesToHex salt_bytes; salted = salt @ password in
     bindE (ask (\<lambda>s. sys_sha256 s salted)) (\<lambda>hash.
     let hash_hex = BytesToHex hash in
     ret (''$sha256$'' @ salt @ ''$'' @ hash_hex)))"

text \<open>\<open>result |= a[i] ^ b[i]\<close> over \<open>int\<close>, the characters promoted with their sign.\<close>

definition promote :: "char \<Rightarrow> 32 word" where
  "promote c = signed (of_nat (ord c) :: 8 word)"

fun compare_loop :: "string \<Rightarrow> string \<Rightarrow> 32 word \<Rightarrow> 32 word" where
  "compare_loop (a # as) (b # bs) result = compare_loop as bs (result OR (promote a XOR promote b))"
| "compare_loop _ _ result = result"

definition ConstantTimeCompare :: "string \<Rightarrow> string \<Rightarrow> bool" where
  "ConstantTimeCompare a b =
     (if length a \<noteq> length b then False else compare_loop a b 0 = 0)"

definition PasswordHelper_Verify :: "(string \<Rightarrow> string) \<Rightarrow> string \<Rightarrow> string \<Rightarrow> bool" where
  "PasswordHelper_Verify sha256 password stored_hash =
     (if substr stored_hash 0 8 \<noteq> ''$sha256$'' then False
      else case find_from (CHR ''$'') 8 stored_hash of
        None \<Rightarrow> False
      | Some salt_end \<Rightarrow>
          (let salt = substr stored_hash 8 (salt_end - 8);
               expected_hash = drop (salt_end + 1) stored_hash;
               salted = salt @ password;
               actual_hash = BytesToHex (sha256 salted)
           in ConstantTimeCompare expected_hash actual_hash))"

subsection \<open>Identifiers\<close>

definition UUID_Generate :: "('e sys, string) io" where
  "UUID_Generate = uuid_text"

text \<open>The loop over the 36 characters of the text drops the hyphens.\<close>

definition UUID_GenerateCompact :: "('e sys, string) io" where
  "UUID_GenerateCompact = bindE uuid_text (\<lambda>str. ret (filter (\<lambda>c. c \<noteq> CHR ''-'') (take 36 str)))"

definition UUID_UserId :: "('e sys, string) io" where
  "UUID_UserId = bindE UUID_Generate (\<lambda>s. ret (''usr_'' @ s))"

definition UUID_Token :: "('e sys, string) io" where
  "UUID_Token = UUID_GenerateCompact"

definition UUID_SessionId :: "('e sys, string) io" where
  "UUID_SessionId = bindE UUID_GenerateCompact (\<lambda>s. ret (''sess_'' @ s))"

definition ExtractUUID :: "string \<Rightarrow> string" where
  "ExtractUUID prefixed_id =
     (case find_char (CHR ''_'') prefixed_id of
        Some pos \<Rightarrow> if pos + 1 < length prefixed_id then drop (pos + 1) prefixed_id else prefixed_id
      | None \<Rightarrow> prefixed_id)"

definition UUID_IsValid :: "(string \<Rightarrow> bool) \<Rightarrow> string \<Rightarrow> bool" where
  "UUID_IsValid parse str =
     (let uuid_part = ExtractUUID str
      in if length uuid_part = 36 then parse uuid_part
         else if length uuid_part = 32 then list_all isxdigit uuid_part
         else False)"

datatype IDType = ID_USER | ID_SESSION | ID_TOKEN | ID_UNKNOWN

definition GetIDType :: "(string \<Rightarrow> bool) \<Rightarrow> string \<Rightarrow> IDType" where
  "GetIDType parse i =
     (if take 4 i = ''usr_'' then ID_USER
      else if take 5 i = ''sess_'' then ID_SESSION
      else if length i = 32 \<and> UUID_IsValid parse i then ID_TOKEN
      else ID_UNKNOWN)"

subsection \<open>Lemmas\<close>

lemma promote_inj: "promote a = promote b \<Longrightarrow> a = b"
proof -
  assume "promote a = promote b"
  then have eq: "(unsigned (promote a) :: 8 word) = unsigned (promote b)" by simp
  have low: "(unsigned (promote c) :: 8 word) = of_nat (ord c)" for c
    unfolding promote_def by (intro bit_word_eqI) (auto simp: bit_simps)
  have nat_back: "unat (of_nat (ord c) :: 8 word) = ord c" for c by (simp add: unsigned_of_nat take_bit_nat_eq_self)
  with eq low nat_back have "ord a = ord b" by metis
  then show "a = b" by simp
qed

lemma xor_0_iff: "x XOR y = 0 \<longleftrightarrow> x = (y :: 32 word)"
  by (auto simp: bit_eq_iff bit_simps)

lemma or_0_iff: "x OR y = 0 \<longleftrightarrow> x = 0 \<and> y = (0 :: 32 word)"
  by (rule or_eq_0_iff)

lemma compare_loop_0:
  "length a = length b \<Longrightarrow> compare_loop a b r = 0 \<longleftrightarrow> r = 0 \<and> a = b"
proof (induction a b r rule: compare_loop.induct)
  case (1 x xs y ys result)
  then show ?case by (auto simp: or_0_iff xor_0_iff dest: promote_inj)
qed auto

lemma ConstantTimeCompare_eq: "ConstantTimeCompare a b \<longleftrightarrow> a = b"
  by (auto simp: ConstantTimeCompare_def compare_loop_0)

lemma dollar_not_hex: "CHR ''$'' \<notin> set (hex_bytes bs)"
  using hex_bytes_chars [of "CHR ''$''" bs] by (auto simp: isxdigit_def isdigit_def)

text \<open>What a stored hash made from a given salt accepts.\<close>

lemma PasswordHelper_Verify_hash:
  "PasswordHelper_Verify sha256 q (''$sha256$'' @ hex_bytes salt @ ''$'' @ hex_bytes h)
     \<longleftrightarrow> sha256 (hex_bytes salt @ q) = h"
proof -
  define pre where "pre = ''$sha256$''"
  have len: "length pre = 8" by (simp add: pre_def)
  let ?st = "pre @ hex_bytes salt @ CHR ''$'' # hex_bytes h"
  have "find_from (CHR ''$'') 8 ?st = Some (8 + length (hex_bytes salt))"
    using find_from_append [of "CHR ''$''" "hex_bytes salt" pre "hex_bytes h"] dollar_not_hex
    by (simp add: len)
  moreover have "substr ?st 0 8 = ''$sha256$''" by (simp add: substr_def len) (simp add: pre_def)
  moreover have "substr ?st 8 (length (hex_bytes salt)) = hex_bytes salt"
    by (simp add: substr_def len)
  moreover have "drop (8 + length (hex_bytes salt) + 1) ?st = hex_bytes h"
    by (simp add: len)
  ultimately have "PasswordHelper_Verify sha256 q ?st \<longleftrightarrow> sha256 (hex_bytes salt @ q) = h"
    by (auto simp: PasswordHelper_Verify_def Let_def ConstantTimeCompare_eq BytesToHex_def
        dest: hex_bytes_inj simp del: length_hex_bytes)
  then show ?thesis by (simp add: pre_def)
qed

lemma PasswordHelper_Hash_run:
  obtains salt s' where "PasswordHelper_Hash p s =
      (Inr (''$sha256$'' @ hex_bytes salt @ ''$'' @ hex_bytes (sys_sha256 s (hex_bytes salt @ p))), s')"
    and "same_sys s s'"
proof -
  obtain salt e where r: "sys_rand_bytes s 16 (sys_state s) = (salt, e)" by fastforce
  have "PasswordHelper_Hash p s =
      (Inr (''$sha256$'' @ hex_bytes salt @ ''$'' @ hex_bytes (sys_sha256 s (hex_bytes salt @ p))),
       s\<lparr>sys_state := e\<rparr>)"
    by (simp add: PasswordHelper_Hash_def RAND_bytes_def sys_call_def ask_def bindE_def ret_def
        BytesToHex_def Let_def r)
  then show ?thesis by (rule that) simp
qed

lemma sys_total_Hash [simp, intro]: "sys_total (PasswordHelper_Hash p)"
  unfolding sys_total_def using PasswordHelper_Hash_run by metis

lemma sys_total_UUID_Generate [simp, intro]: "sys_total UUID_Generate"
  by (simp add: UUID_Generate_def)

text \<open>Extraction removes exactly the prefix the generators put in front.\<close>

lemma ExtractUUID_prefix:
  assumes "CHR ''_'' \<notin> set p" and "u \<noteq> []"
  shows "ExtractUUID (p @ CHR ''_'' # u) = u"
  using find_char_append [OF assms(1), of u] assms(2) by (simp add: ExtractUUID_def)

subsection \<open>Properties\<close>

text \<open>Hashing a password and verifying a candidate against the stored text: the salt and
  the hash are cut out again exactly as they were put in, so a candidate is accepted if and
  only if it has the same SHA-256 digest under the salt; the password itself always is.
  A hash computation always returns, and leaves the system's functions as they were.\<close>

lemma password_hash_verify:
  "\<exists>salt stored s'. PasswordHelper_Hash p s = (Inr stored, s') \<and> same_sys s s'
     \<and> PasswordHelper_Verify (sys_sha256 s) p stored
     \<and> (\<forall>q. PasswordHelper_Verify (sys_sha256 s) q stored
          \<longleftrightarrow> sys_sha256 s (hex_bytes salt @ q) = sys_sha256 s (hex_bytes salt @ p))"
proof -
  obtain salt s' where "PasswordHelper_Hash p s =
      (Inr (''$sha256$'' @ hex_bytes salt @ ''$'' @ hex_bytes (sys_sha256 s (hex_bytes salt @ p))), s')"
    and "same_sys s s'"
    by (rule PasswordHelper_Hash_run)
  then show ?thesis using PasswordHelper_Verify_hash by blast
qed

end
