(* ===== verification/Jwt.thy ===== *)
theory Jwt
  imports Base64 Json Password
begin

section \<open>Tokens\<close>

text \<open>
  \<open>JwtService\<close> of \<open>src/auth/jwt_service.cpp\<close>: creating and verifying JSON Web Tokens signed
  with HMAC-SHA256, the access and refresh tokens made from them, and the hash under which a
  refresh token is stored. The coding of the parts is used through the interface
  \<open>dotted_armor\<close> only.
\<close>

subsection \<open>The interface to the coding of the parts\<close>

locale dotted_armor =
  fixes enc :: "string \<Rightarrow> string"
    and dec :: "string \<Rightarrow> string"
  assumes dec_enc: "dec (enc x) = x"
    and no_dot: "CHR ''.'' \<notin> set (enc x)"
begin

lemma enc_inj: "enc x = enc y \<longleftrightarrow> x = y"
  by (metis dec_enc)

text \<open>Two coded parts in front of a rest are found again by their dots.\<close>

lemma dots:
  "find_char (CHR ''.'') (enc a @ ''.'' @ enc b @ ''.'' @ r) = Some (length (enc a))"
  "find_from (CHR ''.'') (length (enc a) + 1) (enc a @ ''.'' @ enc b @ ''.'' @ r)
     = Some (length (enc a) + 1 + length (enc b))"
proof -
  show "find_char (CHR ''.'') (enc a @ ''.'' @ enc b @ ''.'' @ r) = Some (length (enc a))"
    using find_char_append [OF no_dot] by simp
  show "find_from (CHR ''.'') (length (enc a) + 1) (enc a @ ''.'' @ enc b @ ''.'' @ r)
      = Some (length (enc a) + 1 + length (enc b))"
    using find_char_append [OF no_dot, of b r] by (simp add: find_from_def)
qed

end

interpretation b64: dotted_armor Base64UrlEncode Base64UrlDecode
  by unfold_locales (simp_all add: Base64UrlDecode_Encode)

subsection \<open>Creating and verifying\<close>

definition HmacSha256 :: "string \<Rightarrow> string \<Rightarrow> ('e sys, string) io" where
  "HmacSha256 key dat = ask (\<lambda>s. sys_hmac s key dat)"

definition jwt_header :: string where
  "jwt_header = [CHR ''{'', QUOTE] @ ''alg'' @ [QUOTE, CHR '':'', QUOTE] @ ''HS256'' @
     [QUOTE, CHR '','', QUOTE] @ ''typ'' @ [QUOTE, CHR '':'', QUOTE] @ ''JWT'' @ [QUOTE, CHR ''}'']"

definition CreateJwt :: "string cmap \<Rightarrow> string \<Rightarrow> ('e sys, string) io" where
  "CreateJwt claims secret =
     (let header_b64 = Base64UrlEncode jwt_header;
          payload_b64 = Base64UrlEncode (BuildJson claims);
          signature_input = header_b64 @ ''.'' @ payload_b64
      in bindE (HmacSha256 secret signature_input) (\<lambda>mac.
         ret (signature_input @ ''.'' @ Base64UrlEncode mac)))"

record JwtVerifyResult =
  jv_success :: bool
  jv_error_code :: ErrorCode
  jv_claims :: "string cmap"

text \<open>The three parts between the first two dots of a token, if it has two.\<close>

definition split_token :: "string \<Rightarrow> (string \<times> string \<times> string) option" where
  "split_token token =
     (case find_char (CHR ''.'') token of None \<Rightarrow> None
      | Some dot1 \<Rightarrow>
          (case find_from (CHR ''.'') (dot1 + 1) token of None \<Rightarrow> None
           | Some dot2 \<Rightarrow> Some (substr token 0 dot1, substr token (dot1 + 1) (dot2 - dot1 - 1),
                              drop (dot2 + 1) token)))"

definition jwt_failed :: "ErrorCode \<Rightarrow> string cmap \<Rightarrow> JwtVerifyResult" where
  "jwt_failed c m = \<lparr>jv_success = False, jv_error_code = c, jv_claims = m\<rparr>"

text \<open>The check of the claim \<open>exp\<close> against the clock.\<close>

definition check_expiry :: "string cmap \<Rightarrow> ('e sys, JwtVerifyResult) io" where
  "check_expiry claims =
     (let good = \<lparr>jv_success = True, jv_error_code = Ok, jv_claims = claims\<rparr>
      in case map_of claims ''exp'' of
           None \<Rightarrow> ret good
         | Some e \<Rightarrow>
             (case stoll e of
                Inl _ \<Rightarrow> ret (jwt_failed TokenInvalid claims)
              | Inr exp_t \<Rightarrow>
                  bindE system_clock_now (\<lambda>now.
                  if now > from_time_t exp_t then ret (jwt_failed TokenExpired claims)
                  else ret good)))"

definition VerifyJwt :: "string \<Rightarrow> string \<Rightarrow> ('e sys, JwtVerifyResult) io" where
  "VerifyJwt token secret =
     (case split_token token of
        None \<Rightarrow> ret (jwt_failed TokenInvalid [])
      | Some (header_b64, payload_b64, signature) \<Rightarrow>
          bindE (HmacSha256 secret (header_b64 @ ''.'' @ payload_b64)) (\<lambda>mac.
          if signature \<noteq> Base64UrlEncode mac then ret (jwt_failed TokenInvalid [])
          else check_expiry (ParseJson (Base64UrlDecode payload_b64))))"

subsection \<open>Access and refresh tokens\<close>

definition access_claims :: "SecurityConfig \<Rightarrow> UserEntity \<Rightarrow> int \<Rightarrow> int \<Rightarrow> int \<Rightarrow> string cmap" where
  "access_claims config user now expt jti =
     map_put ''jti'' (to_string jti)
    (map_put ''exp'' (to_string (to_time_t expt))
    (map_put ''iat'' (to_string (to_time_t now))
    (map_put ''role'' (UserRoleToString (u_role user))
    (map_put ''mobile'' (u_mobile user)
    (map_put ''uid'' (u_uuid user)
    (map_put ''id'' (to_string (u_id user))
    (map_put ''sub'' ''access''
    (map_put ''iss'' (jwt_issuer config) []))))))))"

definition GenerateAccessToken :: "SecurityConfig \<Rightarrow> UserEntity \<Rightarrow> ('e sys, string) io" where
  "GenerateAccessToken config user =
     bindE system_clock_now (\<lambda>now.
     let expt = plus_seconds now (access_token_ttl_seconds config) in
     bindE (uniform_int 100000 999999) (\<lambda>jti.
     CreateJwt (access_claims config user now expt jti) (jwt_secret config)))"

definition refresh_claims :: "SecurityConfig \<Rightarrow> UserEntity \<Rightarrow> int \<Rightarrow> int \<Rightarrow> int \<Rightarrow> string cmap" where
  "refresh_claims config user now expt jti =
     map_put ''jti'' (to_string jti)
    (map_put ''exp'' (to_string (to_time_t expt))
    (map_put ''iat'' (to_string (to_time_t now))
    (map_put ''uid'' (to_string (u_id user))
    (map_put ''sub'' ''refresh''
    (map_put ''iss'' (jwt_issuer config) [])))))"

definition GenerateRefreshToken :: "SecurityConfig \<Rightarrow> UserEntity \<Rightarrow> ('e sys, string) io" where
  "GenerateRefreshToken config user =
     bindE system_clock_now (\<lambda>now.
     let expt = plus_seconds now (refresh_token_ttl_seconds config) in
     bindE (uniform_int 100000 999999) (\<lambda>jti.
     CreateJwt (refresh_claims config user now expt jti) (jwt_secret config)))"

definition GenerateTokenPair :: "SecurityConfig \<Rightarrow> UserEntity \<Rightarrow> ('e sys, TokenPair) io" where
  "GenerateTokenPair config user =
     bindE (GenerateAccessToken config user) (\<lambda>a.
     bindE (GenerateRefreshToken config user) (\<lambda>r.
     ret \<lparr>access_token = a, refresh_token = r, expires_in = access_token_ttl_seconds config\<rparr>))"

text \<open>A claim that is present and differs from what is expected.\<close>

definition claim_differs :: "string cmap \<Rightarrow> string \<Rightarrow> string \<Rightarrow> bool" where
  "claim_differs claims k v = (case map_of claims k of None \<Rightarrow> False | Some x \<Rightarrow> x \<noteq> v)"

definition claim_missing :: "string cmap \<Rightarrow> string \<Rightarrow> bool" where
  "claim_missing claims k = (case map_of claims k of None \<Rightarrow> True | Some x \<Rightarrow> x = [])"

definition claim_value :: "string cmap \<Rightarrow> string \<Rightarrow> string" where
  "claim_value claims k = (case map_of claims k of None \<Rightarrow> [] | Some x \<Rightarrow> x)"

text \<open>The expiry of the payload: unset (the epoch) without the claim, the current time where
  it is no number.\<close>

definition payload_expiry :: "string cmap \<Rightarrow> ('e sys, int) io" where
  "payload_expiry claims = (case map_of claims ''exp'' of
       None \<Rightarrow> ret 0
     | Some e \<Rightarrow> (case stoll e of Inr t \<Rightarrow> ret (from_time_t t) | Inl _ \<Rightarrow> system_clock_now))"

text \<open>The part of \<open>VerifyAccessToken\<close> after \<open>VerifyJwt\<close>: issuer, kind, fields, payload.\<close>

definition access_payload :: "SecurityConfig \<Rightarrow> JwtVerifyResult \<Rightarrow> ('e sys, AccessTokenPayload Result) io" where
  "access_payload config v =
     (let claims = jv_claims v in
        if \<not> jv_success v then ret (Result_Fail (jv_error_code v) [])
        else if claim_differs claims ''iss'' (jwt_issuer config)
        then ret (Result_Fail TokenInvalid (utf8 [0x4EE4, 0x724C, 0x7B7E, 0x53D1, 0x8005, 0x4E0D, 0x5339, 0x914D]))
        else if claim_differs claims ''sub'' ''access''
        then ret (Result_Fail TokenInvalid (utf8 [0x4EE4, 0x724C, 0x7C7B, 0x578B, 0x4E0D, 0x5339, 0x914D]))
        else if claim_missing claims ''id''
        then ret (Result_Fail TokenInvalid (utf8 [0x4EE4, 0x724C, 0x7F3A, 0x5C11, 0x7528, 0x6237] @ ''ID''))
        else if claim_missing claims ''uid''
        then ret (Result_Fail TokenInvalid (utf8 [0x4EE4, 0x724C, 0x7F3A, 0x5C11, 0x7528, 0x6237] @ ''UUID''))
        else if claim_missing claims ''role''
        then ret (Result_Fail TokenInvalid (utf8 [0x4EE4, 0x724C, 0x7F3A, 0x5C11, 0x7528, 0x6237] @ ''ROLE''))
        else (case stoll (claim_value claims ''id'') of
            Inl _ \<Rightarrow> ret (Result_Fail TokenInvalid (utf8 [0x7528, 0x6237] @ ''ID'' @ utf8 [0x683C, 0x5F0F, 0x9519, 0x8BEF]))
          | Inr user_id \<Rightarrow>
              bindE (payload_expiry claims) (\<lambda>expires_at.
              ret (Result_Ok \<lparr>p_user_id = user_id, p_user_uuid = claim_value claims ''uid'',
                p_mobile = claim_value claims ''mobile'',
                p_role = StringToUserRole (claim_value claims ''role''),
                p_expires_at = expires_at\<rparr>))))"

definition VerifyAccessToken :: "SecurityConfig \<Rightarrow> string \<Rightarrow> ('e sys, AccessTokenPayload Result) io" where
  "VerifyAccessToken config token =
     (if token = [] then ret (Result_Fail TokenMissing (''Token '' @ utf8 [0x4E0D, 0x80FD, 0x4E3A, 0x7A7A]))
      else bindE (VerifyJwt token (jwt_secret config)) (access_payload config))"

definition ParseRefreshToken :: "SecurityConfig \<Rightarrow> string \<Rightarrow> ('e sys, string Result) io" where
  "ParseRefreshToken config token =
     (if token = [] then ret (Result_Fail TokenMissing (''Token '' @ utf8 [0x4E0D, 0x80FD, 0x4E3A, 0x7A7A]))
      else bindE (VerifyJwt token (jwt_secret config)) (\<lambda>v.
        let claims = jv_claims v in
        if \<not> jv_success v then ret (Result_Fail (jv_error_code v) [])
        else if claim_differs claims ''iss'' (jwt_issuer config)
        then ret (Result_Fail TokenInvalid (utf8 [0x4EE4, 0x724C, 0x7B7E, 0x53D1, 0x8005, 0x4E0D, 0x5339, 0x914D]))
        else if claim_differs claims ''sub'' ''refresh''
        then ret (Result_Fail TokenInvalid (utf8 [0x4EE4, 0x724C, 0x7C7B, 0x578B, 0x4E0D, 0x5339, 0x914D]))
        else if \<not> claim_missing claims ''uid'' then ret (Result_Ok (claim_value claims ''uid''))
        else ret (Result_Fail TokenInvalid (utf8 [0x4EE4, 0x724C, 0x7F3A, 0x5C11, 0x7528, 0x6237, 0x6807, 0x8BC6]))))"

definition HashToken :: "string \<Rightarrow> ('e sys, string) io" where
  "HashToken token = bindE (ask (\<lambda>s. sys_sha256 s token)) (\<lambda>hash. ret (hex_bytes hash))"

subsection \<open>Splitting and signatures\<close>

lemma split_token_Some:
  assumes "split_token t = Some (h, p, g)"
  shows "t = h @ ''.'' @ p @ ''.'' @ g"
proof -
  obtain d1 d2 where 1: "find_char (CHR ''.'') t = Some d1" and 2: "find_from (CHR ''.'') (d1 + 1) t = Some d2"
    and hpg: "h = take d1 t" "p = take (d2 - d1 - 1) (drop (d1 + 1) t)" "g = drop (d2 + 1) t"
    using assms by (auto simp: split_token_def substr_def split: option.splits)
  obtain k where k: "find_char (CHR ''.'') (drop (d1 + 1) t) = Some k" and d2: "d2 = d1 + 1 + k"
    using 2 by (auto simp: find_from_def)
  have t: "t = take d1 t @ CHR ''.'' # drop (d1 + 1) t"
    using find_char_Some [OF 1] id_take_nth_drop [of d1 t] by simp
  have "drop (d1 + 1) t = take k (drop (d1 + 1) t) @ CHR ''.'' # drop (k + 1) (drop (d1 + 1) t)"
    using find_char_Some [OF k] id_take_nth_drop [of k "drop (d1 + 1) t"] by (simp del: drop_drop)
  with t show ?thesis using hpg d2 by (simp add: add.commute)
qed

lemma split_token_enc:
  "split_token (Base64UrlEncode a @ ''.'' @ Base64UrlEncode b @ ''.'' @ g)
     = Some (Base64UrlEncode a, Base64UrlEncode b, g)"
  unfolding split_token_def by (simp only: b64.dots option.case) (simp add: substr_def)

lemma split_token_nodots:
  assumes "split_token t = Some (h, p, g)"
  shows "CHR ''.'' \<notin> set h \<and> CHR ''.'' \<notin> set p"
  using assms by (auto simp: split_token_def substr_def find_from_def split: option.splits dest: find_char_Some)

lemma split_token_join:
  assumes "CHR ''.'' \<notin> set h" and "CHR ''.'' \<notin> set p"
  shows "split_token (h @ ''.'' @ p @ ''.'' @ g) = Some (h, p, g)"
  using find_char_append [OF assms(1)] find_char_append [OF assms(2), of g]
  by (simp add: split_token_def substr_def find_from_def)

lemma split_token_iff:
  "split_token t = Some (h, p, g) \<longleftrightarrow>
     CHR ''.'' \<notin> set h \<and> CHR ''.'' \<notin> set p \<and> t = h @ ''.'' @ p @ ''.'' @ g"
  using split_token_Some split_token_nodots split_token_join by metis

text \<open>The text of a token.\<close>

definition jwt_text :: "(string \<Rightarrow> string \<Rightarrow> string) \<Rightarrow> string cmap \<Rightarrow> string \<Rightarrow> string" where
  "jwt_text hmac claims secret =
     (let inp = Base64UrlEncode jwt_header @ ''.'' @ Base64UrlEncode (BuildJson claims)
      in inp @ ''.'' @ Base64UrlEncode (hmac secret inp))"

lemma CreateJwt_run: "CreateJwt m k s = (Inr (jwt_text (sys_hmac s) m k), s)"
  by (simp add: CreateJwt_def HmacSha256_def jwt_text_def Let_def ask_def bindE_def ret_def)

lemma VerifyJwt_text:
  assumes "cmap_wf m" and "\<forall>kv\<in>set m. json_safe kv"
  shows "VerifyJwt (jwt_text (sys_hmac s) m k) k s = check_expiry m s"
proof -
  let ?h = "Base64UrlEncode jwt_header" and ?p = "Base64UrlEncode (BuildJson m)"
  have "split_token (jwt_text (sys_hmac s) m k)
      = Some (?h, ?p, Base64UrlEncode (sys_hmac s k (?h @ ''.'' @ ?p)))"
    using split_token_enc [of jwt_header "BuildJson m"] by (simp add: jwt_text_def Let_def)
  then show ?thesis
    by (simp add: VerifyJwt_def HmacSha256_def ask_def bindE_def b64.dec_enc ParseJson_BuildJson [OF assms])
qed

lemma jwt_text_nonempty [simp]: "jwt_text hmac m k \<noteq> []"
  by (simp add: jwt_text_def Let_def)

text \<open>A successful verification, read backwards.\<close>

lemma check_expiry_success:
  assumes "check_expiry m s = (Inr v, s')" and "jv_success v"
  shows "jv_claims v = m" and "same_sys s s'"
    and "map_of m ''exp'' = Some e \<Longrightarrow> \<exists>t. stoll e = Inr t \<and> fst (sys_clock s (sys_state s)) \<le> from_time_t t"
  using assms
  by (auto simp: check_expiry_def Let_def ret_def jwt_failed_def bindE_def system_clock_now_def sys_call_def
      split: option.splits sum.splits prod.splits if_splits)

lemma check_expiry_failure:
  assumes "check_expiry m s = (Inr v, s')" and "\<not> jv_success v"
  shows "jv_error_code v = TokenInvalid \<or> jv_error_code v = TokenExpired"
  using assms
  by (auto simp: check_expiry_def Let_def ret_def jwt_failed_def bindE_def system_clock_now_def sys_call_def
      split: option.splits sum.splits prod.splits if_splits)

lemma VerifyJwt_success:
  assumes "VerifyJwt t k s = (Inr v, s')" and "jv_success v"
  obtains h b where "t = h @ ''.'' @ b @ ''.'' @ Base64UrlEncode (sys_hmac s k (h @ ''.'' @ b))"
    and "jv_claims v = ParseJson (Base64UrlDecode b)" and "same_sys s s'"
    and "\<And>e. map_of (jv_claims v) ''exp'' = Some e \<Longrightarrow>
      \<exists>x. stoll e = Inr x \<and> fst (sys_clock s (sys_state s)) \<le> from_time_t x"
proof -
  obtain h b g where sp: "split_token t = Some (h, b, g)" and g: "g = Base64UrlEncode (sys_hmac s k (h @ ''.'' @ b))"
    and ce: "check_expiry (ParseJson (Base64UrlDecode b)) s = (Inr v, s')"
    using assms
    by (auto simp: VerifyJwt_def HmacSha256_def ask_def bindE_def ret_def jwt_failed_def
        split: option.splits prod.splits if_splits)
  show ?thesis
  proof (rule that)
    show "t = h @ ''.'' @ b @ ''.'' @ Base64UrlEncode (sys_hmac s k (h @ ''.'' @ b))"
      using split_token_Some [OF sp] g by simp
    show "jv_claims v = ParseJson (Base64UrlDecode b)" using check_expiry_success(1) [OF ce assms(2)] .
    show "same_sys s s'" using check_expiry_success(2) [OF ce assms(2)] .
    show "\<exists>x. stoll e = Inr x \<and> fst (sys_clock s (sys_state s)) \<le> from_time_t x"
      if "map_of (jv_claims v) ''exp'' = Some e" for e
      using check_expiry_success(3) [OF ce assms(2)] that check_expiry_success(1) [OF ce assms(2)] by simp
  qed
qed

lemma sys_total_check_expiry [simp, intro]: "sys_total (check_expiry m)"
  unfolding check_expiry_def Let_def
  by (auto split: option.splits sum.splits intro!: sys_total_bindE)

lemma sys_total_VerifyJwt [simp, intro]: "sys_total (VerifyJwt t k)"
  unfolding VerifyJwt_def HmacSha256_def
  by (auto split: option.splits prod.splits intro!: sys_total_bindE)

lemma sys_total_CreateJwt [simp, intro]: "sys_total (CreateJwt m k)"
  using CreateJwt_run unfolding sys_total_def by blast

lemma sys_total_tokens [simp, intro]:
  "sys_total (GenerateAccessToken config u)" "sys_total (GenerateRefreshToken config u)"
  "sys_total (GenerateTokenPair config u)" "sys_total (HashToken t)"
  "sys_total (payload_expiry m)"
  unfolding GenerateTokenPair_def GenerateAccessToken_def GenerateRefreshToken_def Let_def HashToken_def
    payload_expiry_def
  by (auto intro!: sys_total_bindE split: option.splits sum.splits)

lemma sys_total_VerifyAccessToken [simp, intro]: "sys_total (VerifyAccessToken config t)"
  unfolding VerifyAccessToken_def access_payload_def Let_def by (auto intro!: sys_total_bindE split: sum.splits)

lemma sys_total_ParseRefreshToken [simp, intro]: "sys_total (ParseRefreshToken config t)"
  unfolding ParseRefreshToken_def Let_def by (auto intro!: sys_total_bindE)

subsection \<open>The claims of the two kinds of token\<close>

lemma json_safe_map_put:
  "json_safe (k, v) \<Longrightarrow> \<forall>kv\<in>set m. json_safe kv \<Longrightarrow> \<forall>kv\<in>set (map_put k v m). json_safe kv"
  by (induction k v m rule: map_put.induct) auto

definition plain_key :: "string \<Rightarrow> bool" where
  "plain_key k \<longleftrightarrow> k \<noteq> [] \<and> BACKSPACE \<notin> set k \<and> FORMFEED \<notin> set k"

lemma is_number_to_string: "is_number (to_string x)"
  using hd_show_nat [of "nat x"] show_nat_nonempty [of "nat (- x)"]
  by (cases "show_nat (nat (- x))") (simp_all add: is_number_def to_string_def)

lemma json_safe_to_string: "plain_key k \<Longrightarrow> json_safe (k, to_string x)"
  using is_number_to_string [of x] to_string_chars [of _ x]
  by (fastforce simp: json_safe_def plain_key_def value_char_def isdigit_def isspace_def)

lemma plain_keys [simp]:
  "plain_key ''jti''" "plain_key ''exp''" "plain_key ''iat''" "plain_key ''role''"
  "plain_key ''id''" "plain_key ''sub''" "plain_key ''uid''"
  by (simp_all add: plain_key_def BACKSPACE_def FORMFEED_def)

lemma json_safe_const:
  "json_safe (''sub'', ''access'')" "json_safe (''sub'', ''refresh'')"
  "json_safe (''role'', UserRoleToString r)"
proof -
  show "json_safe (''sub'', ''access'')" "json_safe (''sub'', ''refresh'')"
    by (simp_all add: json_safe_def is_number_def isdigit_def BACKSPACE_def FORMFEED_def)
  show "json_safe (''role'', UserRoleToString r)"
    by (cases r) (simp_all add: json_safe_def is_number_def isdigit_def BACKSPACE_def FORMFEED_def
        value_char_def isspace_def)
qed

text \<open>A user whose fields survive the round trip through a token, under a configuration whose
  issuer does.\<close>

definition jwt_user_ok :: "SecurityConfig \<Rightarrow> UserEntity \<Rightarrow> bool" where
  "jwt_user_ok config u \<longleftrightarrow>
     json_safe (''iss'', jwt_issuer config) \<and> json_safe (''mobile'', u_mobile u) \<and>
     json_safe (''uid'', u_uuid u) \<and> u_uuid u \<noteq> [] \<and> in_int64 (u_id u)"

lemma access_claims_ok:
  assumes "jwt_user_ok config u"
  shows "cmap_wf (access_claims config u a b c)" "\<forall>kv\<in>set (access_claims config u a b c). json_safe kv"
proof -
  show "cmap_wf (access_claims config u a b c)"
    by (simp only: access_claims_def cmap_wf_map_put cmap_wf_Nil)
  show "\<forall>kv\<in>set (access_claims config u a b c). json_safe kv"
    using assms unfolding access_claims_def jwt_user_ok_def
    by (intro json_safe_map_put json_safe_to_string json_safe_const plain_keys) auto
qed

lemma refresh_claims_ok:
  assumes "json_safe (''iss'', jwt_issuer config)"
  shows "cmap_wf (refresh_claims config u a b c)" "\<forall>kv\<in>set (refresh_claims config u a b c). json_safe kv"
proof -
  show "cmap_wf (refresh_claims config u a b c)"
    by (simp only: refresh_claims_def cmap_wf_map_put cmap_wf_Nil)
  show "\<forall>kv\<in>set (refresh_claims config u a b c). json_safe kv"
    using assms unfolding refresh_claims_def
    by (intro json_safe_map_put json_safe_to_string json_safe_const plain_keys) auto
qed

lemma access_claims_of:
  "map_of (access_claims config u a b c) ''iss'' = Some (jwt_issuer config)"
  "map_of (access_claims config u a b c) ''sub'' = Some ''access''"
  "map_of (access_claims config u a b c) ''id'' = Some (to_string (u_id u))"
  "map_of (access_claims config u a b c) ''uid'' = Some (u_uuid u)"
  "map_of (access_claims config u a b c) ''mobile'' = Some (u_mobile u)"
  "map_of (access_claims config u a b c) ''role'' = Some (UserRoleToString (u_role u))"
  "map_of (access_claims config u a b c) ''exp'' = Some (to_string (to_time_t b))"
  by (simp_all add: access_claims_def)

lemma refresh_claims_of:
  "map_of (refresh_claims config u a b c) ''iss'' = Some (jwt_issuer config)"
  "map_of (refresh_claims config u a b c) ''sub'' = Some ''refresh''"
  "map_of (refresh_claims config u a b c) ''uid'' = Some (to_string (u_id u))"
  "map_of (refresh_claims config u a b c) ''exp'' = Some (to_string (to_time_t b))"
  by (simp_all add: refresh_claims_def)

lemma UserRoleToString_nonempty [simp]: "UserRoleToString r \<noteq> []"
  by (cases r) simp_all

text \<open>The clock reading with which a computation on the system starts.\<close>

definition clock_of :: "'e sys \<Rightarrow> int" where
  "clock_of s = fst (sys_clock s (sys_state s))"

lemma system_clock_now_run:
  obtains s' where "system_clock_now s = (Inr (clock_of s), s')" and "same_sys s s'"
proof
  show "system_clock_now s = (Inr (clock_of s), s\<lparr>sys_state := snd (sys_clock s (sys_state s))\<rparr>)"
    by (simp add: system_clock_now_def sys_call_def clock_of_def split_beta)
qed simp

lemma GenerateAccessToken_run:
  obtains jti s' where "GenerateAccessToken config u s = (Inr (jwt_text (sys_hmac s)
      (access_claims config u (clock_of s) (plus_seconds (clock_of s) (access_token_ttl_seconds config)) jti)
      (jwt_secret config)), s')" and "same_sys s s'"
proof -
  obtain s1 where 1: "system_clock_now s = (Inr (clock_of s), s1)" "same_sys s s1"
    by (rule system_clock_now_run)
  obtain jti s2 where 2: "uniform_int 100000 999999 s1 = (Inr jti, s2)" "same_sys s1 s2"
    by (rule sys_totalE [of "uniform_int 100000 999999" s1]) simp_all
  have "sys_hmac s2 = sys_hmac s" using same_sys_fields(1) 1(2) 2(2) by metis
  moreover have "same_sys s s2" using 1(2) 2(2) by (rule same_sys_trans)
  ultimately show ?thesis
    using that [of jti s2] 1(1) 2(1)
    by (simp add: GenerateAccessToken_def Let_def bindE_def CreateJwt_run)
qed

lemma GenerateRefreshToken_run:
  obtains jti s' where "GenerateRefreshToken config u s = (Inr (jwt_text (sys_hmac s)
      (refresh_claims config u (clock_of s) (plus_seconds (clock_of s) (refresh_token_ttl_seconds config)) jti)
      (jwt_secret config)), s')" and "same_sys s s'"
proof -
  obtain s1 where 1: "system_clock_now s = (Inr (clock_of s), s1)" "same_sys s s1"
    by (rule system_clock_now_run)
  obtain jti s2 where 2: "uniform_int 100000 999999 s1 = (Inr jti, s2)" "same_sys s1 s2"
    by (rule sys_totalE [of "uniform_int 100000 999999" s1]) simp_all
  have "sys_hmac s2 = sys_hmac s" using same_sys_fields(1) 1(2) 2(2) by metis
  moreover have "same_sys s s2" using 1(2) 2(2) by (rule same_sys_trans)
  ultimately show ?thesis
    using that [of jti s2] 1(1) 2(1)
    by (simp add: GenerateRefreshToken_def Let_def bindE_def CreateJwt_run)
qed

subsection \<open>Expiry times\<close>

definition expiry_in_range :: "int \<Rightarrow> int \<Rightarrow> bool" where
  "expiry_in_range now ttl \<longleftrightarrow> 0 \<le> now \<and> 0 \<le> ttl \<and> ttl < 2 ^ 31 \<and> now + ttl * NANOS < 2 ^ 63"

text \<open>The instant at which a token made at \<open>now\<close> expires: whole seconds.\<close>

definition expiry_instant :: "int \<Rightarrow> int \<Rightarrow> int" where
  "expiry_instant now ttl = (now + ttl * NANOS) div NANOS * NANOS"

lemma expiry_in_range_facts:
  assumes "expiry_in_range now ttl"
  shows "in_int64 (to_time_t (plus_seconds now ttl))"
    and "from_time_t (to_time_t (plus_seconds now ttl)) = expiry_instant now ttl"
proof -
  let ?x = "now + ttl * NANOS"
  have x: "0 \<le> ?x" "?x < 2 ^ 63" using assms by (simp_all add: expiry_in_range_def NANOS_def)
  have "in_int64 (ttl * NANOS)" using assms by (simp add: expiry_in_range_def in_int64_def NANOS_def)
  moreover have "in_int64 ?x" using x by (simp add: in_int64_def)
  ultimately have ps: "plus_seconds now ttl = ?x" by (simp add: plus_seconds_def)
  then have tt: "to_time_t (plus_seconds now ttl) = ?x div NANOS"
    using x by (simp add: to_time_t_def cdiv_pos NANOS_def)
  have q: "0 \<le> ?x div NANOS" "?x div NANOS * NANOS \<le> ?x" "?x div NANOS \<le> ?x"
    using x zdiv_mono2 [of ?x 1 NANOS] by (simp_all add: NANOS_def pos_imp_zdiv_nonneg_iff minus_mod_eq_div_mult [symmetric])
  show "in_int64 (to_time_t (plus_seconds now ttl))" using tt q x by (simp add: in_int64_def)
  have "0 \<le> ?x div NANOS * NANOS" using q(1) by (simp add: NANOS_def)
  then have "in_int64 (?x div NANOS * NANOS)" using q(2) x by (simp add: in_int64_def)
  then show "from_time_t (to_time_t (plus_seconds now ttl)) = expiry_instant now ttl"
    by (simp add: tt from_time_t_def expiry_instant_def)
qed

lemma check_expiry_run:
  assumes "map_of m ''exp'' = Some (to_string t)" and "in_int64 t"
  obtains s' where "check_expiry m s = (Inr (if clock_of s > from_time_t t then jwt_failed TokenExpired m
      else \<lparr>jv_success = True, jv_error_code = Ok, jv_claims = m\<rparr>), s')" and "same_sys s s'"
proof -
  obtain s' where "system_clock_now s = (Inr (clock_of s), s')" and ss: "same_sys s s'"
    by (rule system_clock_now_run)
  then show ?thesis
    using that [of s'] assms by (simp add: check_expiry_def bindE_def ret_def)
qed

lemma VerifyAccessToken_text:
  fixes config :: SecurityConfig and u :: UserEntity and now jti :: int
  defines "m \<equiv> access_claims config u now (plus_seconds now (access_token_ttl_seconds config)) jti"
    and "x \<equiv> expiry_instant now (access_token_ttl_seconds config)"
  assumes ok: "jwt_user_ok config u" and range: "expiry_in_range now (access_token_ttl_seconds config)"
  shows "\<exists>s'. VerifyAccessToken config (jwt_text (sys_hmac s) m (jwt_secret config)) s =
    (Inr (if clock_of s > x then Result_Fail TokenExpired []
          else Result_Ok \<lparr>p_user_id = u_id u, p_user_uuid = u_uuid u, p_mobile = u_mobile u,
            p_role = StringToUserRole (UserRoleToString (u_role u)), p_expires_at = x\<rparr>), s')"
proof -
  let ?e = "plus_seconds now (access_token_ttl_seconds config)"
  note of_m = access_claims_of [of config u now ?e jti, folded m_def]
  note wf = access_claims_ok [OF ok, of now ?e jti, folded m_def]
  note t = expiry_in_range_facts [OF range, folded x_def]
  obtain s1 where 1: "check_expiry m s = (Inr (if clock_of s > x then jwt_failed TokenExpired m
      else \<lparr>jv_success = True, jv_error_code = Ok, jv_claims = m\<rparr>), s1)"
    using check_expiry_run [OF of_m(7) t(1), of s] t(2) by metis
  have st: "stoll (to_string (u_id u)) = Inr (u_id u)" "u_uuid u \<noteq> []"
    using ok by (simp_all add: jwt_user_ok_def)
  have pe: "payload_expiry m = ret x"
    using of_m(7) t by (simp add: payload_expiry_def)
  show ?thesis
    unfolding VerifyAccessToken_def
    by (simp add: bindE_def VerifyJwt_text [OF wf] 1 access_payload_def jwt_failed_def ret_def pe claim_differs_def
        claim_missing_def claim_value_def of_m st)
qed

lemma claim_differs_Some: "map_of m k = Some v \<Longrightarrow> v \<noteq> w \<Longrightarrow> claim_differs m k w"
  by (simp add: claim_differs_def)

lemma VerifyAccessToken_rejects:
  assumes "cmap_wf m" and "\<forall>kv\<in>set m. json_safe kv" and "sys_hmac s1 = hmac"
    and "map_of m ''sub'' = Some k" and "k \<noteq> ''access''"
  shows "\<exists>r s2. VerifyAccessToken config (jwt_text hmac m (jwt_secret config)) s1 = (Inr r, s2) \<and> \<not> IsOk r"
proof -
  let ?t = "jwt_text hmac m (jwt_secret config)"
  obtain v s2 where v: "VerifyJwt ?t (jwt_secret config) s1 = (Inr v, s2)"
    by (rule sys_totalE [OF sys_total_VerifyJwt])
  then have ce: "check_expiry m s1 = (Inr v, s2)"
    using VerifyJwt_text [OF assms(1,2)] assms(3) by metis
  show ?thesis
  proof (cases "jv_success v")
    case True
    then have "jv_claims v = m" using check_expiry_success(1) [OF ce] by simp
    then show ?thesis
      using True v claim_differs_Some [OF assms(4,5)]
      by (simp add: VerifyAccessToken_def access_payload_def bindE_def ret_def)
  next
    case False
    moreover have "jv_error_code v \<noteq> Ok" using check_expiry_failure [OF ce False] by auto
    ultimately show ?thesis using v by (simp add: VerifyAccessToken_def access_payload_def bindE_def ret_def)
  qed
qed

lemma ParseRefreshToken_rejects:
  assumes "cmap_wf m" and "\<forall>kv\<in>set m. json_safe kv" and "sys_hmac s1 = hmac"
    and "map_of m ''sub'' = Some k" and "k \<noteq> ''refresh''"
  shows "\<exists>r s2. ParseRefreshToken config (jwt_text hmac m (jwt_secret config)) s1 = (Inr r, s2) \<and> \<not> IsOk r"
proof -
  let ?t = "jwt_text hmac m (jwt_secret config)"
  obtain v s2 where v: "VerifyJwt ?t (jwt_secret config) s1 = (Inr v, s2)"
    by (rule sys_totalE [OF sys_total_VerifyJwt])
  then have ce: "check_expiry m s1 = (Inr v, s2)"
    using VerifyJwt_text [OF assms(1,2)] assms(3) by metis
  show ?thesis
  proof (cases "jv_success v")
    case True
    then have "jv_claims v = m" using check_expiry_success(1) [OF ce] by simp
    then show ?thesis
      using True v claim_differs_Some [OF assms(4,5)]
      by (simp add: ParseRefreshToken_def bindE_def ret_def)
  next
    case False
    moreover have "jv_error_code v \<noteq> Ok" using check_expiry_failure [OF ce False] by auto
    ultimately show ?thesis using v by (simp add: ParseRefreshToken_def bindE_def ret_def)
  qed
qed

lemma VerifyAccessToken_nonempty: "VerifyAccessToken config t s = (Inr (Result_Ok p), s') \<Longrightarrow> t \<noteq> []"
  by (auto simp: VerifyAccessToken_def ret_def)

lemma VerifyAccessToken_data:
  assumes "VerifyAccessToken config t s = (Inr r, s')" and "data r = Some p"
  shows "r = Result_Ok p"
  using assms
  by (auto simp: VerifyAccessToken_def access_payload_def Let_def bindE_Inr_iff ret_def split: if_splits sum.splits)

lemma VerifyJwt_failure:
  assumes "VerifyJwt t k s = (Inr v, s')" and "\<not> jv_success v"
  shows "jv_error_code v \<noteq> Ok"
  using assms check_expiry_failure
  by (fastforce simp: VerifyJwt_def bindE_Inr_iff ret_def jwt_failed_def split: option.splits prod.splits if_splits)

lemma VerifyAccessToken_wf:
  assumes "VerifyAccessToken config t s = (Inr r, s')"
  shows "Result_wf r"
proof (cases "t = []")
  case True
  then show ?thesis using assms by (auto simp: VerifyAccessToken_def ret_def)
next
  case False
  then obtain v s1 where v: "VerifyJwt t (jwt_secret config) s = (Inr v, s1)" "access_payload config v s1 = (Inr r, s')"
    using assms by (auto simp: VerifyAccessToken_def bindE_Inr_iff)
  then show ?thesis
    using VerifyJwt_failure [OF v(1)]
    by (auto simp: access_payload_def Let_def ret_def bindE_Inr_iff split: if_splits sum.splits)
qed

lemma ParseRefreshToken_accepted:
  assumes "ParseRefreshToken config t s = (Inr r, s')" and "IsOk r"
  shows "\<exists>h b uid. r = Result_Ok uid \<and> uid \<noteq> []
    \<and> t = h @ ''.'' @ b @ ''.'' @ Base64UrlEncode (sys_hmac s (jwt_secret config) (h @ ''.'' @ b))
    \<and> (let claims = ParseJson (Base64UrlDecode b) in
        map_of claims ''iss'' \<in> {None, Some (jwt_issuer config)} \<and>
        map_of claims ''sub'' \<in> {None, Some ''refresh''} \<and> claim_value claims ''uid'' = uid \<and>
        (case map_of claims ''exp'' of None \<Rightarrow> True | Some e \<Rightarrow>
          (case stoll e of Inl _ \<Rightarrow> False | Inr t \<Rightarrow> clock_of s \<le> from_time_t t)))"
proof -
  obtain v s1 where v: "VerifyJwt t (jwt_secret config) s = (Inr v, s1)"
    by (rule sys_totalE [OF sys_total_VerifyJwt])
  have ne: "t \<noteq> []" using assms by (auto simp: ParseRefreshToken_def ret_def)
  have succ: "jv_success v"
    using assms ne v VerifyJwt_failure [OF v]
    by (auto simp: ParseRefreshToken_def bindE_def Let_def ret_def split: if_splits)
  obtain h b where t: "t = h @ ''.'' @ b @ ''.'' @ Base64UrlEncode (sys_hmac s (jwt_secret config) (h @ ''.'' @ b))"
    and m: "jv_claims v = ParseJson (Base64UrlDecode b)"
    and ex: "\<And>e. map_of (jv_claims v) ''exp'' = Some e \<Longrightarrow>
      \<exists>x. stoll e = Inr x \<and> fst (sys_clock s (sys_state s)) \<le> from_time_t x"
    using VerifyJwt_success [OF v succ] by metis
  have "\<exists>uid. r = Result_Ok uid \<and> uid \<noteq> [] \<and> (let claims = jv_claims v in
        map_of claims ''iss'' \<in> {None, Some (jwt_issuer config)} \<and>
        map_of claims ''sub'' \<in> {None, Some ''refresh''} \<and> claim_value claims ''uid'' = uid \<and>
        (case map_of claims ''exp'' of None \<Rightarrow> True | Some e \<Rightarrow>
          (case stoll e of Inl _ \<Rightarrow> False | Inr t \<Rightarrow> clock_of s \<le> from_time_t t)))"
    using assms ne v succ ex
    by (auto simp: ParseRefreshToken_def bindE_def Let_def ret_def claim_differs_def claim_missing_def claim_value_def
        clock_of_def split: if_splits option.splits sum.splits)
  with t m show ?thesis by metis
qed

lemma VerifyAccessToken_accepted:
  assumes "VerifyAccessToken config t s = (Inr (Result_Ok p), s')"
  shows "\<exists>h b. t = h @ ''.'' @ b @ ''.'' @ Base64UrlEncode (sys_hmac s (jwt_secret config) (h @ ''.'' @ b))
    \<and> (let claims = ParseJson (Base64UrlDecode b) in
        map_of claims ''iss'' \<in> {None, Some (jwt_issuer config)} \<and>
        map_of claims ''sub'' \<in> {None, Some ''access''} \<and>
        stoll (claim_value claims ''id'') = Inr (p_user_id p) \<and>
        claim_value claims ''uid'' = p_user_uuid p \<and> p_user_uuid p \<noteq> [] \<and>
        p_role p = StringToUserRole (claim_value claims ''role'') \<and>
        p_mobile p = claim_value claims ''mobile'' \<and>
        (case map_of claims ''exp'' of None \<Rightarrow> True | Some e \<Rightarrow>
          (case stoll e of Inl _ \<Rightarrow> False | Inr t \<Rightarrow> p_expires_at p = from_time_t t \<and> clock_of s \<le> from_time_t t)))"
proof -
  obtain v s1 where v: "VerifyJwt t (jwt_secret config) s = (Inr v, s1)"
    by (rule sys_totalE [OF sys_total_VerifyJwt])
  have acc: "access_payload config v s1 = (Inr (Result_Ok p), s')"
    using assms by (cases "t = []") (simp_all add: VerifyAccessToken_def bindE_def v ret_def)
  then have succ: "jv_success v"
    by (auto simp: access_payload_def Let_def ret_def split: if_splits)
  obtain h b where t: "t = h @ ''.'' @ b @ ''.'' @ Base64UrlEncode (sys_hmac s (jwt_secret config) (h @ ''.'' @ b))"
    and m: "jv_claims v = ParseJson (Base64UrlDecode b)"
    and ex: "\<And>e. map_of (jv_claims v) ''exp'' = Some e \<Longrightarrow>
      \<exists>x. stoll e = Inr x \<and> fst (sys_clock s (sys_state s)) \<le> from_time_t x"
    using VerifyJwt_success [OF v succ] by metis
  let ?c = "jv_claims v"
  have px: "payload_expiry ?c s1 = (Inr (p_expires_at p), s')" and id: "stoll (claim_value ?c ''id'') = Inr (p_user_id p)"
    and p: "p_user_uuid p = claim_value ?c ''uid''" "p_mobile p = claim_value ?c ''mobile''"
      "p_role p = StringToUserRole (claim_value ?c ''role'')"
    and ok: "\<not> claim_differs ?c ''iss'' (jwt_issuer config)" "\<not> claim_differs ?c ''sub'' ''access''" "\<not> claim_missing ?c ''uid''"
    using acc succ by (auto simp: access_payload_def Let_def ret_def bindE_Inr_iff split: if_splits sum.splits)
  have "case map_of ?c ''exp'' of None \<Rightarrow> True | Some e \<Rightarrow>
      (case stoll e of Inl _ \<Rightarrow> False | Inr t \<Rightarrow> p_expires_at p = from_time_t t \<and> clock_of s \<le> from_time_t t)"
    using px ex by (auto simp: payload_expiry_def clock_of_def ret_def split: option.splits sum.splits)
  moreover have "map_of ?c ''iss'' \<in> {None, Some (jwt_issuer config)}" "map_of ?c ''sub'' \<in> {None, Some ''access''}"
    "claim_value ?c ''uid'' \<noteq> []"
    using ok by (auto simp: claim_differs_def claim_missing_def claim_value_def split: option.splits)
  ultimately have claims: "let claims = ?c in
        map_of claims ''iss'' \<in> {None, Some (jwt_issuer config)} \<and>
        map_of claims ''sub'' \<in> {None, Some ''access''} \<and>
        stoll (claim_value claims ''id'') = Inr (p_user_id p) \<and>
        claim_value claims ''uid'' = p_user_uuid p \<and> p_user_uuid p \<noteq> [] \<and>
        p_role p = StringToUserRole (claim_value claims ''role'') \<and>
        p_mobile p = claim_value claims ''mobile'' \<and>
        (case map_of claims ''exp'' of None \<Rightarrow> True | Some e \<Rightarrow>
          (case stoll e of Inl _ \<Rightarrow> False | Inr t \<Rightarrow> p_expires_at p = from_time_t t \<and> clock_of s \<le> from_time_t t))"
    using id p by simp
  show ?thesis using conjI [OF t claims [unfolded m]] by blast
qed

subsection \<open>Properties\<close>

text \<open>C27: An access token round-trips: \<open>VerifyAccessToken\<close> on what \<open>GenerateAccessToken\<close>
  made, with the same configuration and at any later state of the system, gives back exactly
  the user's identifier, UUID, mobile number and role up to the whole second at which the
  token expires, and \<open>TokenExpired\<close> after it. The user's fields must survive the JSON text
  (no quote-free value with a delimiter in it) and the expiry must fit the clock.\<close>

theorem access_token_roundtrip:
  assumes "jwt_user_ok config u"
    and "expiry_in_range (clock_of s) (access_token_ttl_seconds config)"
    and "same_sys s s1"
  shows "\<exists>tok s' s2. GenerateAccessToken config u s = (Inr tok, s') \<and>
    VerifyAccessToken config tok s1 =
      (Inr (if clock_of s1 > expiry_instant (clock_of s) (access_token_ttl_seconds config)
            then Result_Fail TokenExpired []
            else Result_Ok \<lparr>p_user_id = u_id u, p_user_uuid = u_uuid u, p_mobile = u_mobile u,
              p_role = StringToUserRole (UserRoleToString (u_role u)),
              p_expires_at = expiry_instant (clock_of s) (access_token_ttl_seconds config)\<rparr>), s2)"
proof -
  obtain jti s' where g: "GenerateAccessToken config u s = (Inr (jwt_text (sys_hmac s)
      (access_claims config u (clock_of s) (plus_seconds (clock_of s) (access_token_ttl_seconds config)) jti)
      (jwt_secret config)), s')"
    by (rule GenerateAccessToken_run)
  have h: "sys_hmac s1 = sys_hmac s" using assms(3) same_sys_fields(1) by blast
  show ?thesis
    using g VerifyAccessToken_text [OF assms(1,2), of s1 jti] unfolding h by blast
qed

text \<open>A concrete system: constant digests, a clock that stands still, no randomness.\<close>

definition sys_example :: "int \<Rightarrow> unit sys" where
  "sys_example t = \<lparr>sys_hmac = \<lambda>k d. ''mac'', sys_sha256 = \<lambda>d. replicate 32 (CHR ''h''),
     sys_clock = \<lambda>e. (t, e), sys_rand_bytes = \<lambda>n e. (replicate n (CHR ''r''), e),
     sys_uniform = \<lambda>a b e. (a, e), sys_uuid = \<lambda>e. (''550e8400-e29b-41d4-a716-446655440000'', e),
     sys_uuid_parse = \<lambda>t. True, sys_localtime = \<lambda>t. ''2025-01-01 00:00:00'', sys_state = ()\<rparr>"

definition user_example :: UserEntity where
  "user_example = UserEntity_default\<lparr>u_id := 42, u_uuid := ''550e8400-e29b-41d4-a716-446655440000'',
     u_mobile := ''13800138000'', u_role := Admin\<rparr>"

lemma jwt_user_ok_example: "jwt_user_ok SecurityConfig_default user_example"
  by (simp add: jwt_user_ok_def json_safe_def is_number_def isdigit_def value_char_def isspace_def
      BACKSPACE_def FORMFEED_def SecurityConfig_default_def user_example_def UserEntity_default_def
      in_int64_def)

theorem access_token_roundtrip_witness:
  "\<exists>tok s' s2. GenerateAccessToken SecurityConfig_default user_example (sys_example 1000000000)
      = (Inr tok, s') \<and>
    VerifyAccessToken SecurityConfig_default tok (sys_example 1000000000) =
      (Inr (Result_Ok \<lparr>p_user_id = 42, p_user_uuid = ''550e8400-e29b-41d4-a716-446655440000'',
         p_mobile = ''13800138000'', p_role = Admin, p_expires_at = 901000000000\<rparr>), s2)"
  using access_token_roundtrip [OF jwt_user_ok_example, of "sys_example 1000000000" "sys_example 1000000000"]
  by (simp add: expiry_in_range_def expiry_instant_def clock_of_def sys_example_def NANOS_def
      SecurityConfig_default_def user_example_def StringToUserRole_def)

text \<open>C29: The two kinds of token are never confused: a refresh token is not accepted as an
  access token and an access token is not accepted as a refresh token, at any later state of
  the system, expired or not.\<close>

theorem token_kinds_not_confused:
  assumes "jwt_user_ok config u" and "same_sys s s1"
  shows "(\<exists>tok s' r s2. GenerateRefreshToken config u s = (Inr tok, s') \<and>
            VerifyAccessToken config tok s1 = (Inr r, s2) \<and> \<not> IsOk r)
       \<and> (\<exists>tok s' r s2. GenerateAccessToken config u s = (Inr tok, s') \<and>
            ParseRefreshToken config tok s1 = (Inr r, s2) \<and> \<not> IsOk r)"
proof
  have h: "sys_hmac s1 = sys_hmac s" using assms(2) same_sys_fields(1) by blast
  have iss: "json_safe (''iss'', jwt_issuer config)" using assms(1) by (simp add: jwt_user_ok_def)
  obtain jti s' where g: "GenerateRefreshToken config u s = (Inr (jwt_text (sys_hmac s)
      (refresh_claims config u (clock_of s) (plus_seconds (clock_of s) (refresh_token_ttl_seconds config)) jti)
      (jwt_secret config)), s')"
    by (rule GenerateRefreshToken_run)
  let ?m = "refresh_claims config u (clock_of s) (plus_seconds (clock_of s) (refresh_token_ttl_seconds config)) jti"
  have "\<exists>r s2. VerifyAccessToken config (jwt_text (sys_hmac s) ?m (jwt_secret config)) s1 = (Inr r, s2) \<and> \<not> IsOk r"
    by (rule VerifyAccessToken_rejects [OF refresh_claims_ok [OF iss] h refresh_claims_of(2)]) simp
  with g show "\<exists>tok s' r s2. GenerateRefreshToken config u s = (Inr tok, s') \<and>
      VerifyAccessToken config tok s1 = (Inr r, s2) \<and> \<not> IsOk r" by blast
next
  have h: "sys_hmac s1 = sys_hmac s" using assms(2) same_sys_fields(1) by blast
  obtain jti s' where g: "GenerateAccessToken config u s = (Inr (jwt_text (sys_hmac s)
      (access_claims config u (clock_of s) (plus_seconds (clock_of s) (access_token_ttl_seconds config)) jti)
      (jwt_secret config)), s')"
    by (rule GenerateAccessToken_run)
  let ?m = "access_claims config u (clock_of s) (plus_seconds (clock_of s) (access_token_ttl_seconds config)) jti"
  have "\<exists>r s2. ParseRefreshToken config (jwt_text (sys_hmac s) ?m (jwt_secret config)) s1 = (Inr r, s2) \<and> \<not> IsOk r"
    by (rule ParseRefreshToken_rejects [OF access_claims_ok [OF assms(1)] h access_claims_of(2)]) simp
  with g show "\<exists>tok s' r s2. GenerateAccessToken config u s = (Inr tok, s') \<and>
      ParseRefreshToken config tok s1 = (Inr r, s2) \<and> \<not> IsOk r" by blast
qed

theorem token_kinds_not_confused_witness:
  "(\<exists>tok s' r s2. GenerateRefreshToken SecurityConfig_default user_example (sys_example 5) = (Inr tok, s') \<and>
      VerifyAccessToken SecurityConfig_default tok (sys_example 5) = (Inr r, s2) \<and> \<not> IsOk r)
   \<and> (\<exists>tok s' r s2. GenerateAccessToken SecurityConfig_default user_example (sys_example 5) = (Inr tok, s') \<and>
      ParseRefreshToken SecurityConfig_default tok (sys_example 5) = (Inr r, s2) \<and> \<not> IsOk r)"
  by (rule token_kinds_not_confused [OF jwt_user_ok_example same_sys_refl])

lemma claim_differs_iff: "claim_differs m k v \<longleftrightarrow> map_of m k \<notin> {None, Some v}"
  by (auto simp: claim_differs_def split: option.splits)

lemma claim_missing_iff: "claim_missing m k \<longleftrightarrow> claim_value m k = []"
  by (auto simp: claim_missing_def claim_value_def split: option.splits)

text \<open>What an accepted token says, with the expiry that its payload gets: a claim \<open>iss\<close> or \<open>sub\<close> that
  is there is the expected one, the identity and the role are there, and a claim \<open>exp\<close> that is there
  is a number of seconds that the clock has not passed.\<close>

lemma access_payload_Ok:
  "(\<exists>s'. bindE (check_expiry claims) (access_payload config) s = (Inr (Result_Ok p), s')) \<longleftrightarrow>
     map_of claims ''iss'' \<in> {None, Some (jwt_issuer config)} \<and>
     map_of claims ''sub'' \<in> {None, Some ''access''} \<and>
     claim_value claims ''id'' \<noteq> [] \<and> stoll (claim_value claims ''id'') = Inr (p_user_id p) \<and>
     claim_value claims ''uid'' = p_user_uuid p \<and> p_user_uuid p \<noteq> [] \<and>
     claim_value claims ''role'' \<noteq> [] \<and> p_role p = StringToUserRole (claim_value claims ''role'') \<and>
     p_mobile p = claim_value claims ''mobile'' \<and>
     (case map_of claims ''exp'' of None \<Rightarrow> p_expires_at p = 0 | Some e \<Rightarrow>
       (case stoll e of Inl _ \<Rightarrow> False | Inr x \<Rightarrow> p_expires_at p = from_time_t x \<and> clock_of s \<le> from_time_t x))"
proof -
  obtain s1 where now: "system_clock_now s = (Inr (clock_of s), s1)" by (rule system_clock_now_run)
  have ok: "(\<exists>s'. access_payload config \<lparr>jv_success = True, jv_error_code = Ok, jv_claims = claims\<rparr> z = (Inr (Result_Ok p), s')) \<longleftrightarrow>
     map_of claims ''iss'' \<in> {None, Some (jwt_issuer config)} \<and>
     map_of claims ''sub'' \<in> {None, Some ''access''} \<and>
     claim_value claims ''id'' \<noteq> [] \<and> stoll (claim_value claims ''id'') = Inr (p_user_id p) \<and>
     claim_value claims ''uid'' = p_user_uuid p \<and> p_user_uuid p \<noteq> [] \<and>
     claim_value claims ''role'' \<noteq> [] \<and> p_role p = StringToUserRole (claim_value claims ''role'') \<and>
     p_mobile p = claim_value claims ''mobile'' \<and> (\<exists>s'. payload_expiry claims z = (Inr (p_expires_at p), s'))" for z
  proof -
    have "(\<exists>s'. access_payload config \<lparr>jv_success = True, jv_error_code = Ok, jv_claims = claims\<rparr> z = (Inr (Result_Ok p), s')) \<longleftrightarrow>
      \<not> claim_differs claims ''iss'' (jwt_issuer config) \<and> \<not> claim_differs claims ''sub'' ''access'' \<and>
      \<not> claim_missing claims ''id'' \<and> \<not> claim_missing claims ''uid'' \<and> \<not> claim_missing claims ''role'' \<and>
      (\<exists>n s' x. stoll (claim_value claims ''id'') = Inr n \<and> payload_expiry claims z = (Inr x, s') \<and>
        \<lparr>p_user_id = n, p_user_uuid = claim_value claims ''uid'', p_mobile = claim_value claims ''mobile'',
          p_role = StringToUserRole (claim_value claims ''role''), p_expires_at = x\<rparr> = p)"
      by (cases "stoll (claim_value claims ''id'')") (simp_all add: access_payload_def ret_def bindE_Inr_iff)
    then show ?thesis unfolding claim_differs_iff claim_missing_iff by (cases p) auto
  qed
  have no: "\<not> (\<exists>s'. access_payload config (jwt_failed c m) z = (Inr (Result_Ok p), s'))" for c m z
    by (simp add: access_payload_def jwt_failed_def ret_def)
  show ?thesis
  proof (cases "map_of claims ''exp''")
    case None
    then show ?thesis
      by (simp add: check_expiry_def bindE_def ret_def ok payload_expiry_def eq_commute [of 0 "p_expires_at p"])
  next
    case (Some e)
    show ?thesis
    proof (cases "stoll e")
      case (Inl x)
      then show ?thesis using Some no by (simp add: check_expiry_def bindE_def ret_def)
    next
      case (Inr x)
      show ?thesis
      proof (cases "clock_of s \<le> from_time_t x")
        case True
        then show ?thesis
          using Some Inr by (simp add: check_expiry_def bindE_def ret_def now ok payload_expiry_def
            eq_commute [of "from_time_t x" "p_expires_at p"])
      next
        case False
        then show ?thesis using Some Inr no by (simp add: check_expiry_def bindE_def ret_def now)
      qed
    qed
  qed
qed

lemma VerifyAccessToken_iff:
  "(\<exists>s'. VerifyAccessToken config t s = (Inr (Result_Ok p), s')) \<longleftrightarrow>
   (\<exists>h b. CHR ''.'' \<notin> set h \<and> CHR ''.'' \<notin> set b
    \<and> t = h @ ''.'' @ b @ ''.'' @ Base64UrlEncode (sys_hmac s (jwt_secret config) (h @ ''.'' @ b))
    \<and> (\<exists>s'. bindE (check_expiry (ParseJson (Base64UrlDecode b))) (access_payload config) s = (Inr (Result_Ok p), s')))"
proof (cases "split_token t")
  case None
  then have "\<not> (\<exists>s'. VerifyAccessToken config t s = (Inr (Result_Ok p), s'))"
    by (auto simp: VerifyAccessToken_def VerifyJwt_def bindE_def ret_def jwt_failed_def access_payload_def)
  moreover have "t \<noteq> h @ ''.'' @ b @ ''.'' @ g" if "CHR ''.'' \<notin> set h" "CHR ''.'' \<notin> set b" for h b g
    using split_token_join [OF that] None by auto
  ultimately show ?thesis by blast
next
  case (Some hbg)
  obtain h b g where hbg: "hbg = (h, b, g)" by (cases hbg)
  note sp = Some [unfolded hbg]
  have t: "CHR ''.'' \<notin> set h" "CHR ''.'' \<notin> set b" "t = h @ ''.'' @ b @ ''.'' @ g"
    using split_token_iff [THEN iffD1, OF sp] by blast+
  have ne: "t \<noteq> []" using t(3) by simp
  let ?mac = "Base64UrlEncode (sys_hmac s (jwt_secret config) (h @ ''.'' @ b))"
  have "VerifyAccessToken config t s = (if g = ?mac
      then bindE (check_expiry (ParseJson (Base64UrlDecode b))) (access_payload config) s
      else (Inr (Result_Fail TokenInvalid []), s))"
    using ne by (simp add: VerifyAccessToken_def VerifyJwt_def sp HmacSha256_def ask_def bindE_def ret_def jwt_failed_def
        access_payload_def)
  then have L: "(\<exists>s'. VerifyAccessToken config t s = (Inr (Result_Ok p), s')) \<longleftrightarrow> g = ?mac \<and>
      (\<exists>s'. bindE (check_expiry (ParseJson (Base64UrlDecode b))) (access_payload config) s = (Inr (Result_Ok p), s'))"
    by simp
  show ?thesis (is "?A \<longleftrightarrow> ?B")
  proof
    show "?A \<Longrightarrow> ?B" using t unfolding L by blast
  next
    assume ?B
    then obtain h' b' where hb: "CHR ''.'' \<notin> set h'" "CHR ''.'' \<notin> set b'"
      "t = h' @ ''.'' @ b' @ ''.'' @ Base64UrlEncode (sys_hmac s (jwt_secret config) (h' @ ''.'' @ b'))"
      and acc: "\<exists>s'. bindE (check_expiry (ParseJson (Base64UrlDecode b'))) (access_payload config) s = (Inr (Result_Ok p), s')"
      by blast
    have "split_token t = Some (h', b', Base64UrlEncode (sys_hmac s (jwt_secret config) (h' @ ''.'' @ b')))"
      using hb by (intro split_token_iff [THEN iffD2] conjI)
    then have "h' = h \<and> b' = b \<and> Base64UrlEncode (sys_hmac s (jwt_secret config) (h' @ ''.'' @ b')) = g"
      unfolding sp by (simp only: option.inject prod.inject)
    then show ?A using acc unfolding L by auto
  qed
qed

text \<open>C28: Which tokens \<open>VerifyAccessToken\<close> accepts, exactly: those of three parts, the first two
  free of dots and the third the HMAC of them under the configured secret, whose claims carry a
  non-empty numeric \<open>id\<close>, a non-empty \<open>uid\<close> and \<open>role\<close>, name no other issuer and no other kind, and whose
  \<open>exp\<close>, where there is one, is a number that the clock reading of the verification has not passed;
  the payload is read from these claims. Nothing asks for \<open>iss\<close>, \<open>sub\<close> or \<open>exp\<close> to be there: a signed
  token without them is accepted, and without \<open>exp\<close> it never expires.\<close>

theorem accepted_token_is_signed:
  "(\<exists>s'. VerifyAccessToken config t s = (Inr (Result_Ok p), s')) \<longleftrightarrow>
   (\<exists>h b. CHR ''.'' \<notin> set h \<and> CHR ''.'' \<notin> set b
    \<and> t = h @ ''.'' @ b @ ''.'' @ Base64UrlEncode (sys_hmac s (jwt_secret config) (h @ ''.'' @ b))
    \<and> (let claims = ParseJson (Base64UrlDecode b) in
        map_of claims ''iss'' \<in> {None, Some (jwt_issuer config)} \<and>
        map_of claims ''sub'' \<in> {None, Some ''access''} \<and>
        claim_value claims ''id'' \<noteq> [] \<and> stoll (claim_value claims ''id'') = Inr (p_user_id p) \<and>
        claim_value claims ''uid'' = p_user_uuid p \<and> p_user_uuid p \<noteq> [] \<and>
        claim_value claims ''role'' \<noteq> [] \<and> p_role p = StringToUserRole (claim_value claims ''role'') \<and>
        p_mobile p = claim_value claims ''mobile'' \<and>
        (case map_of claims ''exp'' of None \<Rightarrow> p_expires_at p = 0 | Some e \<Rightarrow>
          (case stoll e of Inl _ \<Rightarrow> False | Inr x \<Rightarrow> p_expires_at p = from_time_t x \<and> clock_of s \<le> from_time_t x))))"
  unfolding VerifyAccessToken_iff access_payload_Ok Let_def ..

theorem accepted_token_is_signed_witness:
  "\<exists>s' h b. VerifyAccessToken SecurityConfig_default
      (jwt_text (\<lambda>k d. ''mac'') (access_claims SecurityConfig_default user_example 0 900000000000 7)
        ''your-secret-key'') (sys_example 0) = (Inr (Result_Ok \<lparr>p_user_id = 42,
          p_user_uuid = ''550e8400-e29b-41d4-a716-446655440000'', p_mobile = ''13800138000'',
          p_role = Admin, p_expires_at = 900000000000\<rparr>), s')
    \<and> jwt_text (\<lambda>k d. ''mac'') (access_claims SecurityConfig_default user_example 0 900000000000 7) ''your-secret-key''
      = h @ ''.'' @ b @ ''.'' @ Base64UrlEncode ''mac''
    \<and> stoll (claim_value (ParseJson (Base64UrlDecode b)) ''id'') = Inr 42"
proof -
  have pl: "plus_seconds 0 900 = 900000000000"
    by (simp add: plus_seconds_def NANOS_def in_int64_def)
  have run: "\<exists>s'. VerifyAccessToken SecurityConfig_default
      (jwt_text (\<lambda>k d. ''mac'') (access_claims SecurityConfig_default user_example 0 900000000000 7)
        ''your-secret-key'') (sys_example 0) = (Inr (Result_Ok \<lparr>p_user_id = 42,
          p_user_uuid = ''550e8400-e29b-41d4-a716-446655440000'', p_mobile = ''13800138000'',
          p_role = Admin, p_expires_at = 900000000000\<rparr>), s')"
    using VerifyAccessToken_text [OF jwt_user_ok_example, of 0 "sys_example 0" 7] pl
    by (simp add: expiry_in_range_def expiry_instant_def clock_of_def sys_example_def NANOS_def
        SecurityConfig_default_def user_example_def StringToUserRole_def)
  have mac: "sys_hmac (sys_example 0) k d = ''mac''" for k d by (simp add: sys_example_def)
  from accepted_token_is_signed [THEN iffD1, OF run, unfolded mac Let_def] run show ?thesis
    by (elim exE conjE) (intro exI conjI, assumption, assumption, simp)
qed

text \<open>Where SHA-256 gives 32 bytes, the text under which a refresh token is stored has 64
  lower-case hexadecimal digits, and two tokens are stored under the same text only if they
  have the same digest.\<close>

lemma token_hash_faithful:
  assumes "\<forall>x. length (sys_sha256 s x) = 32"
  shows "\<exists>h h'. HashToken t s = (Inr h, s) \<and> HashToken t' s = (Inr h', s)
    \<and> length h = 64 \<and> (\<forall>c\<in>set h. isxdigit c \<and> \<not> isupper c)
    \<and> (h = h' \<longleftrightarrow> sys_sha256 s t = sys_sha256 s t')"
proof -
  have run: "HashToken x s = (Inr (hex_bytes (sys_sha256 s x)), s)" for x
    by (simp add: HashToken_def ask_def bindE_def ret_def)
  show ?thesis
    using assms hex_bytes_inj [of "sys_sha256 s t" "sys_sha256 s t'"] hex_bytes_chars
    by (auto simp: run)
qed

end
