(* ===== verification/Redis.thy ===== *)
theory Redis
  imports Entities
begin

section \<open>The Redis client\<close>

text \<open>
  \<open>include/cache/redis_client.h\<close> and \<open>src/cache/redis_client.cpp\<close>. The class wraps the
  redis++ library: each method makes one call and turns a thrown \<open>sw::redis::Error\<close> into a
  failed result. The library and the server behind it are a parameter: the record \<open>redis\<close>
  holds the library's calls with the state they act on; a call gives \<open>Inl\<close> the text of the
  error or \<open>Inr\<close> its value. Logging has no effect on results and is not modelled.

  The methods are virtual, and the services hold a pointer to the class: the record
  \<open>RedisClient\<close> is the interface the services call, over any state that contains a
  connection, and the locales \<open>kv_cache\<close> and \<open>kv_live\<close> say what they rely on.
\<close>

subsection \<open>The library\<close>

record 'r redis =
  rc_set :: "string \<Rightarrow> string \<Rightarrow> 'r \<Rightarrow> (string + unit) \<times> 'r"
  rc_psetex :: "string \<Rightarrow> int \<Rightarrow> string \<Rightarrow> 'r \<Rightarrow> (string + unit) \<times> 'r"
  rc_get :: "string \<Rightarrow> 'r \<Rightarrow> (string + string option) \<times> 'r"
  rc_setnx :: "string \<Rightarrow> string \<Rightarrow> 'r \<Rightarrow> (string + bool) \<times> 'r"
  rc_set_nx_px :: "string \<Rightarrow> string \<Rightarrow> int \<Rightarrow> 'r \<Rightarrow> (string + bool) \<times> 'r"
  rc_exists :: "string \<Rightarrow> 'r \<Rightarrow> (string + int) \<times> 'r"
  rc_del :: "string \<Rightarrow> 'r \<Rightarrow> (string + int) \<times> 'r"
  rc_pexpire :: "string \<Rightarrow> int \<Rightarrow> 'r \<Rightarrow> (string + bool) \<times> 'r"
  rc_pttl :: "string \<Rightarrow> 'r \<Rightarrow> (string + int) \<times> 'r"
  rc_keys :: "string \<Rightarrow> 'r \<Rightarrow> (string + string list) \<times> 'r"
  rc_scan :: "int \<Rightarrow> string \<Rightarrow> int \<Rightarrow> 'r \<Rightarrow> (string + int \<times> string list) \<times> 'r"
  rc_hset :: "string \<Rightarrow> string \<Rightarrow> string \<Rightarrow> 'r \<Rightarrow> (string + int) \<times> 'r"
  rc_hset_many :: "string \<Rightarrow> (string \<times> string) list \<Rightarrow> 'r \<Rightarrow> (string + int) \<times> 'r"
  rc_hget :: "string \<Rightarrow> string \<Rightarrow> 'r \<Rightarrow> (string + string option) \<times> 'r"
  rc_hgetall :: "string \<Rightarrow> 'r \<Rightarrow> (string + (string \<times> string) list) \<times> 'r"
  rc_hdel :: "string \<Rightarrow> string \<Rightarrow> 'r \<Rightarrow> (string + int) \<times> 'r"
  rc_hexists :: "string \<Rightarrow> string \<Rightarrow> 'r \<Rightarrow> (string + bool) \<times> 'r"
  rc_incr :: "string \<Rightarrow> 'r \<Rightarrow> (string + int) \<times> 'r"
  rc_incrby :: "string \<Rightarrow> int \<Rightarrow> 'r \<Rightarrow> (string + int) \<times> 'r"
  rc_decr :: "string \<Rightarrow> 'r \<Rightarrow> (string + int) \<times> 'r"
  rc_ping :: "'r \<Rightarrow> (string + unit) \<times> 'r"
  rc_state :: 'r

text \<open>The options of the library, with its own defaults in the argument \<open>opt\<close> of the constructors
  below; \<open>new_redis\<close> is its constructor of a pool of connections, \<open>Inl\<close> the text of an error. It is the
  one place where the class lets an exception out.\<close>

record ConnectionOptions =
  co_host :: string
  co_port :: int
  co_password :: string
  co_db :: int
  co_connect_timeout :: int
  co_socket_timeout :: int

record ConnectionPoolOptions =
  po_size :: int
  po_wait_timeout :: int

definition RedisClient_make :: "(ConnectionOptions \<Rightarrow> ConnectionPoolOptions \<Rightarrow> string + 'r redis)
    \<Rightarrow> ConnectionOptions \<Rightarrow> ConnectionPoolOptions \<Rightarrow> exn + 'r redis" where
  "RedisClient_make new_redis conn_opt pool_opt = (case new_redis conn_opt pool_opt of
       Inl what \<Rightarrow> Inl (RedisError what) | Inr redis \<Rightarrow> Inr redis)"

definition RedisClient_new_host :: "(ConnectionOptions \<Rightarrow> ConnectionPoolOptions \<Rightarrow> string + 'r redis)
    \<Rightarrow> ConnectionOptions \<Rightarrow> ConnectionPoolOptions \<Rightarrow> string \<Rightarrow> int \<Rightarrow> string \<Rightarrow> int \<Rightarrow> exn + 'r redis" where
  "RedisClient_new_host new_redis opt pool host port password db =
     (let conn_opt = opt\<lparr>co_host := host, co_port := port\<rparr>;
          conn_opt = (if password \<noteq> [] then conn_opt\<lparr>co_password := password\<rparr> else conn_opt);
          conn_opt = conn_opt\<lparr>co_db := db\<rparr>
      in RedisClient_make new_redis conn_opt (pool\<lparr>po_size := 5, po_wait_timeout := 100\<rparr>))"

definition RedisClient_new :: "(ConnectionOptions \<Rightarrow> ConnectionPoolOptions \<Rightarrow> string + 'r redis)
    \<Rightarrow> ConnectionOptions \<Rightarrow> ConnectionPoolOptions \<Rightarrow> RedisConfig \<Rightarrow> exn + 'r redis" where
  "RedisClient_new new_redis opt pool config =
     (let conn_opt = opt\<lparr>co_host := redis_host config, co_port := redis_port config\<rparr>;
          conn_opt = (if redis_password config \<noteq> [] then conn_opt\<lparr>co_password := redis_password config\<rparr> else conn_opt);
          conn_opt = conn_opt\<lparr>co_db := redis_db config\<rparr>;
          conn_opt = (case redis_connect_timeout_ms config of Some t \<Rightarrow> conn_opt\<lparr>co_connect_timeout := t\<rparr> | None \<Rightarrow> conn_opt);
          conn_opt = (case redis_socket_timeout_ms config of Some t \<Rightarrow> conn_opt\<lparr>co_socket_timeout := t\<rparr> | None \<Rightarrow> conn_opt)
      in RedisClient_make new_redis conn_opt
           (pool\<lparr>po_size := redis_pool_size config, po_wait_timeout := redis_wait_timeout_ms config\<rparr>))"

subsection \<open>The methods\<close>

text \<open>\<open>try { \<dots> return Ok(f(value)); } catch (const sw::redis::Error& e) { return
  Fail(ServiceUnavailable, e.what()); }\<close>.\<close>

definition redis_try :: "('r redis \<Rightarrow> 'r \<Rightarrow> (string + 'a) \<times> 'r) \<Rightarrow> ('a \<Rightarrow> 'b) \<Rightarrow> ('r redis, 'b Result) io" where
  "redis_try call f = (\<lambda>h. case call h (rc_state h) of
       (Inl what, s) \<Rightarrow> (Inr (Result_Fail ServiceUnavailable what), h\<lparr>rc_state := s\<rparr>)
     | (Inr a, s) \<Rightarrow> (Inr (Result_Ok (f a)), h\<lparr>rc_state := s\<rparr>))"

definition RedisClient_Set :: "string \<Rightarrow> string \<Rightarrow> ('r redis, unit Result) io" where
  "RedisClient_Set key val = redis_try (\<lambda>h. rc_set h key val) (\<lambda>_. ())"

definition RedisClient_SetPx :: "string \<Rightarrow> string \<Rightarrow> int \<Rightarrow> ('r redis, unit Result) io" where
  "RedisClient_SetPx key val ttl =
     (if ttl \<le> 0 then ret (Result_Fail InvalidArgument ''TTL must be positive'')
      else redis_try (\<lambda>h. rc_psetex h key ttl val) (\<lambda>_. ()))"

definition RedisClient_Get :: "string \<Rightarrow> ('r redis, string option Result) io" where
  "RedisClient_Get key = redis_try (\<lambda>h. rc_get h key) (\<lambda>v. v)"

definition RedisClient_SetNx :: "string \<Rightarrow> string \<Rightarrow> ('r redis, bool Result) io" where
  "RedisClient_SetNx key val = redis_try (\<lambda>h. rc_setnx h key val) (\<lambda>b. b)"

definition RedisClient_SetNxPx :: "string \<Rightarrow> string \<Rightarrow> int \<Rightarrow> ('r redis, bool Result) io" where
  "RedisClient_SetNxPx key val ttl =
     (if ttl \<le> 0 then ret (Result_Fail InvalidArgument ''TTL must be positive'')
      else redis_try (\<lambda>h. rc_set_nx_px h key val ttl) (\<lambda>b. b))"

definition RedisClient_Exists :: "string \<Rightarrow> ('r redis, bool Result) io" where
  "RedisClient_Exists key = redis_try (\<lambda>h. rc_exists h key) (\<lambda>n. n > 0)"

definition RedisClient_Del :: "string \<Rightarrow> ('r redis, bool Result) io" where
  "RedisClient_Del key = redis_try (\<lambda>h. rc_del h key) (\<lambda>n. n > 0)"

definition RedisClient_PExpire :: "string \<Rightarrow> int \<Rightarrow> ('r redis, bool Result) io" where
  "RedisClient_PExpire key ttl = redis_try (\<lambda>h. rc_pexpire h key ttl) (\<lambda>b. b)"

definition RedisClient_PTTL :: "string \<Rightarrow> ('r redis, int Result) io" where
  "RedisClient_PTTL key = redis_try (\<lambda>h. rc_pttl h key) (\<lambda>n. n)"

definition RedisClient_Keys :: "string \<Rightarrow> ('r redis, string list Result) io" where
  "RedisClient_Keys pattern = redis_try (\<lambda>h. rc_keys h pattern) (\<lambda>ks. ks)"

text \<open>\<open>do { cursor = scan(cursor, \<dots>) } while (cursor != 0)\<close>: the server decides when it ends,
  so the loop is a partial function, \<open>None\<close> where it does not end.\<close>

partial_function (option) scan_loop ::
  "(int \<Rightarrow> 'r \<Rightarrow> (string + int \<times> string list) \<times> 'r) \<Rightarrow> int \<Rightarrow> string list \<Rightarrow> 'r
     \<Rightarrow> ((string + string list) \<times> 'r) option" where
  "scan_loop scan cursor keys s =
     (case scan cursor s of
        (Inl what, s') \<Rightarrow> Some (Inl what, s')
      | (Inr (cursor', found), s') \<Rightarrow>
          if cursor' = 0 then Some (Inr (keys @ found), s')
          else scan_loop scan cursor' (keys @ found) s')"

definition RedisClient_Scan :: "string \<Rightarrow> int \<Rightarrow> 'r redis \<Rightarrow> (string list Result \<times> 'r redis) option" where
  "RedisClient_Scan pattern cnt h =
     (case scan_loop (\<lambda>c. rc_scan h c pattern cnt) 0 [] (rc_state h) of
        None \<Rightarrow> None
      | Some (Inl what, s) \<Rightarrow> Some (Result_Fail ServiceUnavailable what, h\<lparr>rc_state := s\<rparr>)
      | Some (Inr keys, s) \<Rightarrow> Some (Result_Ok keys, h\<lparr>rc_state := s\<rparr>))"

definition RedisClient_HSet :: "string \<Rightarrow> string \<Rightarrow> string \<Rightarrow> ('r redis, unit Result) io" where
  "RedisClient_HSet key field val = redis_try (\<lambda>h. rc_hset h key field val) (\<lambda>_. ())"

definition RedisClient_HMSet :: "string \<Rightarrow> (string \<times> string) list \<Rightarrow> ('r redis, unit Result) io" where
  "RedisClient_HMSet key fvs =
     (if fvs = [] then ret (Result_Ok ())
      else redis_try (\<lambda>h. rc_hset_many h key fvs) (\<lambda>_. ()))"

definition RedisClient_HGet :: "string \<Rightarrow> string \<Rightarrow> ('r redis, string option Result) io" where
  "RedisClient_HGet key field = redis_try (\<lambda>h. rc_hget h key field) (\<lambda>v. v)"

text \<open>The pairs are inserted into an \<open>unordered_map\<close>: the first of a field's values stays.\<close>

definition RedisClient_HGetAll :: "string \<Rightarrow> ('r redis, (string \<rightharpoonup> string) Result) io" where
  "RedisClient_HGetAll key = redis_try (\<lambda>h. rc_hgetall h key) map_of"

definition RedisClient_HDel :: "string \<Rightarrow> string \<Rightarrow> ('r redis, bool Result) io" where
  "RedisClient_HDel key field = redis_try (\<lambda>h. rc_hdel h key field) (\<lambda>n. n > 0)"

definition RedisClient_HExists :: "string \<Rightarrow> string \<Rightarrow> ('r redis, bool Result) io" where
  "RedisClient_HExists key field = redis_try (\<lambda>h. rc_hexists h key field) (\<lambda>b. b)"

definition RedisClient_Incr :: "string \<Rightarrow> ('r redis, int Result) io" where
  "RedisClient_Incr key = redis_try (\<lambda>h. rc_incr h key) (\<lambda>n. n)"

definition RedisClient_IncrBy :: "string \<Rightarrow> int \<Rightarrow> ('r redis, int Result) io" where
  "RedisClient_IncrBy key increment = redis_try (\<lambda>h. rc_incrby h key increment) (\<lambda>n. n)"

definition RedisClient_Decr :: "string \<Rightarrow> ('r redis, int Result) io" where
  "RedisClient_Decr key = redis_try (\<lambda>h. rc_decr h key) (\<lambda>n. n)"

definition RedisClient_Ping :: "('r redis, unit Result) io" where
  "RedisClient_Ping = redis_try rc_ping (\<lambda>_. ())"

subsection \<open>The interface the services call\<close>

record 'w RedisClient =
  rd_SetPx :: "string \<Rightarrow> string \<Rightarrow> int \<Rightarrow> ('w, unit Result) io"
  rd_Get :: "string \<Rightarrow> ('w, string option Result) io"
  rd_Exists :: "string \<Rightarrow> ('w, bool Result) io"
  rd_Del :: "string \<Rightarrow> ('w, bool Result) io"
  rd_PExpire :: "string \<Rightarrow> int \<Rightarrow> ('w, bool Result) io"
  rd_PTTL :: "string \<Rightarrow> ('w, int Result) io"
  rd_Incr :: "string \<Rightarrow> ('w, int Result) io"

definition RedisClient_at :: "('w \<Rightarrow> 'r redis) \<Rightarrow> ('r redis \<Rightarrow> 'w \<Rightarrow> 'w) \<Rightarrow> 'w RedisClient" where
  "RedisClient_at g p = \<lparr>
     rd_SetPx = \<lambda>k v t. zoom g p (RedisClient_SetPx k v t),
     rd_Get = \<lambda>k. zoom g p (RedisClient_Get k),
     rd_Exists = \<lambda>k. zoom g p (RedisClient_Exists k),
     rd_Del = \<lambda>k. zoom g p (RedisClient_Del k),
     rd_PExpire = \<lambda>k t. zoom g p (RedisClient_PExpire k t),
     rd_PTTL = \<lambda>k. zoom g p (RedisClient_PTTL k),
     rd_Incr = \<lambda>k. zoom g p (RedisClient_Incr k)\<rparr>"

text \<open>Keys other than those in \<open>ks\<close> keep their value or expire.\<close>

definition decays :: "string set \<Rightarrow> (string \<rightharpoonup> string) \<Rightarrow> (string \<rightharpoonup> string) \<Rightarrow> bool" where
  "decays ks v v' \<longleftrightarrow> (\<forall>k. k \<notin> ks \<longrightarrow> v' k = v k \<or> v' k = None)"

lemma decays_refl [simp, intro]: "decays ks v v"
  by (simp add: decays_def)

lemma decays_trans [trans]: "decays ks v v' \<Longrightarrow> decays ks v' v'' \<Longrightarrow> decays ks v v''"
  by (metis decays_def)

lemma decays_mono: "decays ks v v' \<Longrightarrow> ks \<subseteq> ks' \<Longrightarrow> decays ks' v v'"
  by (auto simp: decays_def)

lemma decays_Some: "decays ks v v' \<Longrightarrow> v' k = Some x \<Longrightarrow> k \<notin> ks \<Longrightarrow> v k = Some x"
  by (metis decays_def option.distinct(1))

text \<open>A cache whose calls may fail and whose keys may expire at any moment. \<open>view\<close> is what the
  cache holds under each key, \<open>rest\<close> the part of the state the calls leave alone.\<close>

locale kv_cache =
  fixes redis :: "'w RedisClient"
    and ok :: "'w \<Rightarrow> bool"
    and view :: "'w \<Rightarrow> string \<rightharpoonup> string"
    and rest :: "'w \<Rightarrow> 'x"
  assumes SetPx: "ok w \<Longrightarrow> \<exists>r w'. rd_SetPx redis k v t w = (Inr r, w') \<and> ok w' \<and> Result_wf r
      \<and> rest w' = rest w \<and> decays {k} (view w) (view w') \<and> view w' k \<in> {view w k, None, Some v}
      \<and> (IsOk r \<longrightarrow> view w' k = Some v)"
    and Get: "ok w \<Longrightarrow> \<exists>r w'. rd_Get redis k w = (Inr r, w') \<and> ok w' \<and> Result_wf r
      \<and> rest w' = rest w \<and> decays {} (view w) (view w') \<and> (IsOk r \<longrightarrow> data r = Some (view w' k))"
    and Exists: "ok w \<Longrightarrow> \<exists>r w'. rd_Exists redis k w = (Inr r, w') \<and> ok w' \<and> Result_wf r
      \<and> rest w' = rest w \<and> decays {} (view w) (view w') \<and> (IsOk r \<longrightarrow> data r = Some (view w' k \<noteq> None))"
    and Del: "ok w \<Longrightarrow> \<exists>r w'. rd_Del redis k w = (Inr r, w') \<and> ok w' \<and> Result_wf r
      \<and> rest w' = rest w \<and> decays {} (view w) (view w') \<and> (IsOk r \<longrightarrow> view w' k = None)"
    and PExpire: "ok w \<Longrightarrow> \<exists>r w'. rd_PExpire redis k t w = (Inr r, w') \<and> ok w' \<and> Result_wf r
      \<and> rest w' = rest w \<and> decays {} (view w) (view w')"
    and PTTL: "ok w \<Longrightarrow> \<exists>r w'. rd_PTTL redis k w = (Inr r, w') \<and> ok w' \<and> Result_wf r
      \<and> rest w' = rest w \<and> decays {} (view w) (view w')"
    and Incr: "ok w \<Longrightarrow> \<exists>r w'. rd_Incr redis k w = (Inr r, w') \<and> ok w' \<and> Result_wf r
      \<and> rest w' = rest w \<and> decays {k} (view w) (view w')"

text \<open>A cache that answers and does not expire anything meanwhile: a map, with counters.\<close>

definition counter :: "string option \<Rightarrow> int option" where
  "counter v = (case v of None \<Rightarrow> Some 0 | Some s \<Rightarrow>
     (case scan_int s of Some n \<Rightarrow> if s = to_string n then Some n else None | None \<Rightarrow> None))"

lemma counter_None [simp]: "counter None = Some 0"
  by (simp add: counter_def)

lemma counter_to_string [simp]: "counter (Some (to_string n)) = Some n"
  by (simp add: counter_def)

locale kv_live = kv_cache +
  fixes live :: "'w \<Rightarrow> bool"
  assumes live_ok: "live w \<Longrightarrow> ok w"
    and live_SetPx: "live w \<Longrightarrow> 0 < t \<Longrightarrow> \<exists>w'. rd_SetPx redis k v t w = (Inr (Result_Ok ()), w')
      \<and> live w' \<and> view w' = (view w)(k \<mapsto> v)"
    and live_Get: "live w \<Longrightarrow> \<exists>w'. rd_Get redis k w = (Inr (Result_Ok (view w k)), w')
      \<and> live w' \<and> view w' = view w"
    and live_Exists: "live w \<Longrightarrow> \<exists>w'. rd_Exists redis k w = (Inr (Result_Ok (view w k \<noteq> None)), w')
      \<and> live w' \<and> view w' = view w"
    and live_Del: "live w \<Longrightarrow> \<exists>b w'. rd_Del redis k w = (Inr (Result_Ok b), w')
      \<and> live w' \<and> view w' = (view w)(k := None)"
    and live_PExpire: "live w \<Longrightarrow> 0 < t \<Longrightarrow> \<exists>b w'. rd_PExpire redis k t w = (Inr (Result_Ok b), w')
      \<and> live w' \<and> view w' = view w"
    and live_PTTL: "live w \<Longrightarrow> \<exists>n w'. rd_PTTL redis k w = (Inr (Result_Ok n), w')
      \<and> live w' \<and> view w' = view w"
    and live_Incr: "live w \<Longrightarrow> counter (view w k) = Some n \<Longrightarrow> in_int64 (n + 1) \<Longrightarrow>
      \<exists>w'. rd_Incr redis k w = (Inr (Result_Ok (n + 1)), w')
      \<and> live w' \<and> view w' = (view w)(k \<mapsto> to_string (n + 1))"

subsection \<open>What the Redis documentation promises\<close>

text \<open>\<open>V s\<close> is what the server holds under each key in state \<open>s\<close>. A call that fails may or may
  not have been executed; between calls and during them keys with a time to live may expire.\<close>

definition redis_documented :: "('r \<Rightarrow> string \<rightharpoonup> string) \<Rightarrow> 'r redis \<Rightarrow> bool" where
  "redis_documented V h \<longleftrightarrow>
     (\<forall>k t v s r s'. rc_psetex h k t v s = (r, s') \<longrightarrow> decays {k} (V s) (V s')
        \<and> V s' k \<in> {V s k, None, Some v} \<and> (r = Inr () \<longrightarrow> V s' k = Some v)) \<and>
     (\<forall>k s r s'. rc_get h k s = (r, s') \<longrightarrow> decays {} (V s) (V s') \<and> (\<forall>x. r = Inr x \<longrightarrow> x = V s' k)) \<and>
     (\<forall>k s r s'. rc_exists h k s = (r, s') \<longrightarrow> decays {} (V s) (V s')
        \<and> (\<forall>n. r = Inr n \<longrightarrow> (n > 0 \<longleftrightarrow> V s' k \<noteq> None))) \<and>
     (\<forall>k s r s'. rc_del h k s = (r, s') \<longrightarrow> decays {} (V s) (V s') \<and> (\<forall>n. r = Inr n \<longrightarrow> V s' k = None)) \<and>
     (\<forall>k t s r s'. rc_pexpire h k t s = (r, s') \<longrightarrow> decays {} (V s) (V s')) \<and>
     (\<forall>k s r s'. rc_pttl h k s = (r, s') \<longrightarrow> decays {} (V s) (V s')) \<and>
     (\<forall>k s r s'. rc_incr h k s = (r, s') \<longrightarrow> decays {k} (V s) (V s'))"

text \<open>In a state that is \<open>up\<close> every call is answered, nothing expires, and the next state is
  \<open>up\<close> again.\<close>

definition redis_prompt :: "('r \<Rightarrow> string \<rightharpoonup> string) \<Rightarrow> ('r \<Rightarrow> bool) \<Rightarrow> 'r redis \<Rightarrow> bool" where
  "redis_prompt V up h \<longleftrightarrow>
     (\<forall>k t v s. up s \<longrightarrow> 0 < t \<longrightarrow> (\<exists>s'. rc_psetex h k t v s = (Inr (), s') \<and> up s' \<and> V s' = (V s)(k \<mapsto> v))) \<and>
     (\<forall>k s. up s \<longrightarrow> (\<exists>s'. rc_get h k s = (Inr (V s k), s') \<and> up s' \<and> V s' = V s)) \<and>
     (\<forall>k s. up s \<longrightarrow> (\<exists>n s'. rc_exists h k s = (Inr n, s') \<and> (n > 0 \<longleftrightarrow> V s k \<noteq> None) \<and> up s' \<and> V s' = V s)) \<and>
     (\<forall>k s. up s \<longrightarrow> (\<exists>n s'. rc_del h k s = (Inr n, s') \<and> up s' \<and> V s' = (V s)(k := None))) \<and>
     (\<forall>k t s. up s \<longrightarrow> 0 < t \<longrightarrow> (\<exists>b s'. rc_pexpire h k t s = (Inr b, s') \<and> up s' \<and> V s' = V s)) \<and>
     (\<forall>k s. up s \<longrightarrow> (\<exists>n s'. rc_pttl h k s = (Inr n, s') \<and> up s' \<and> V s' = V s)) \<and>
     (\<forall>k s n. up s \<longrightarrow> counter (V s k) = Some n \<longrightarrow> in_int64 (n + 1) \<longrightarrow>
        (\<exists>s'. rc_incr h k s = (Inr (n + 1), s') \<and> up s' \<and> V s' = (V s)(k \<mapsto> to_string (n + 1))))"

lemma redis_documentedD:
  assumes "redis_documented V h"
  shows "(\<forall>k t v s r s'. rc_psetex h k t v s = (r, s') \<longrightarrow> decays {k} (V s) (V s')
        \<and> V s' k \<in> {V s k, None, Some v} \<and> (r = Inr () \<longrightarrow> V s' k = Some v))"
    and "(\<forall>k s r s'. rc_get h k s = (r, s') \<longrightarrow> decays {} (V s) (V s') \<and> (\<forall>x. r = Inr x \<longrightarrow> x = V s' k))"
    and "(\<forall>k s r s'. rc_exists h k s = (r, s') \<longrightarrow> decays {} (V s) (V s')
        \<and> (\<forall>n. r = Inr n \<longrightarrow> (n > 0 \<longleftrightarrow> V s' k \<noteq> None)))"
    and "(\<forall>k s r s'. rc_del h k s = (r, s') \<longrightarrow> decays {} (V s) (V s') \<and> (\<forall>n. r = Inr n \<longrightarrow> V s' k = None))"
    and "(\<forall>k t s r s'. rc_pexpire h k t s = (r, s') \<longrightarrow> decays {} (V s) (V s'))"
    and "(\<forall>k s r s'. rc_pttl h k s = (r, s') \<longrightarrow> decays {} (V s) (V s'))"
    and "(\<forall>k s r s'. rc_incr h k s = (r, s') \<longrightarrow> decays {k} (V s) (V s'))"
  by (insert assms, unfold redis_documented_def, elim conjE, assumption)+

lemma redis_promptD:
  assumes "redis_prompt V up h"
  shows "(\<forall>k t v s. up s \<longrightarrow> 0 < t \<longrightarrow> (\<exists>s'. rc_psetex h k t v s = (Inr (), s') \<and> up s' \<and> V s' = (V s)(k \<mapsto> v)))"
    and "(\<forall>k s. up s \<longrightarrow> (\<exists>s'. rc_get h k s = (Inr (V s k), s') \<and> up s' \<and> V s' = V s))"
    and "(\<forall>k s. up s \<longrightarrow> (\<exists>n s'. rc_exists h k s = (Inr n, s') \<and> (n > 0 \<longleftrightarrow> V s k \<noteq> None) \<and> up s' \<and> V s' = V s))"
    and "(\<forall>k s. up s \<longrightarrow> (\<exists>n s'. rc_del h k s = (Inr n, s') \<and> up s' \<and> V s' = (V s)(k := None)))"
    and "(\<forall>k t s. up s \<longrightarrow> 0 < t \<longrightarrow> (\<exists>b s'. rc_pexpire h k t s = (Inr b, s') \<and> up s' \<and> V s' = V s))"
    and "(\<forall>k s. up s \<longrightarrow> (\<exists>n s'. rc_pttl h k s = (Inr n, s') \<and> up s' \<and> V s' = V s))"
    and "(\<forall>k s n. up s \<longrightarrow> counter (V s k) = Some n \<longrightarrow> in_int64 (n + 1) \<longrightarrow>
        (\<exists>s'. rc_incr h k s = (Inr (n + 1), s') \<and> up s' \<and> V s' = (V s)(k \<mapsto> to_string (n + 1))))"
  by (insert assms, unfold redis_prompt_def, elim conjE, assumption)+

lemma redis_documented_state [simp]: "redis_documented V (h\<lparr>rc_state := s\<rparr>) = redis_documented V h"
  by (simp add: redis_documented_def)

lemma redis_prompt_state [simp]: "redis_prompt V up (h\<lparr>rc_state := s\<rparr>) = redis_prompt V up h"
  by (simp add: redis_prompt_def)

text \<open>One call inside a larger state, whose outcome satisfies what is known of the call.\<close>

lemma zoom_try:
  "zoom g p (redis_try call f) w = (case call (g w) (rc_state (g w)) of (r, s') \<Rightarrow>
    (Inr (case r of Inl what \<Rightarrow> Result_Fail ServiceUnavailable what | Inr a \<Rightarrow> Result_Ok (f a)),
     p ((g w)\<lparr>rc_state := s'\<rparr>) w))"
  by (simp add: zoom_def redis_try_def split: sum.splits prod.splits)

lemma kv_cache_at:
  assumes "member_lens g p rest"
  shows "kv_cache (RedisClient_at g p) (\<lambda>w. redis_documented V (g w)) (\<lambda>w. V (rc_state (g w))) rest"
proof -
  note lens = member_lens.get_put [OF assms] member_lens.rest_put [OF assms]
  show ?thesis
  proof
    fix w :: 'a and k v :: string and t :: int
    assume ok: "redis_documented V (g w)"
    note doc = redis_documentedD [OF ok, rule_format]
    let ?s = "rc_state (g w)"
    show "\<exists>r w'. rd_Get (RedisClient_at g p) k w = (Inr r, w') \<and> redis_documented V (g w') \<and> Result_wf r
        \<and> rest w' = rest w \<and> decays {} (V ?s) (V (rc_state (g w')))
        \<and> (IsOk r \<longrightarrow> data r = Some (V (rc_state (g w')) k))"
    proof -
      obtain r s' where c: "rc_get (g w) k ?s = (r, s')" by fastforce
      then have "decays {} (V ?s) (V s') \<and> (\<forall>x. r = Inr x \<longrightarrow> x = V s' k)" using doc(2) [OF c] by blast
      with ok show ?thesis
        by (simp add: RedisClient_at_def RedisClient_Get_def zoom_try c lens split: sum.split)
    qed
    show "\<exists>r w'. rd_Exists (RedisClient_at g p) k w = (Inr r, w') \<and> redis_documented V (g w') \<and> Result_wf r
        \<and> rest w' = rest w \<and> decays {} (V ?s) (V (rc_state (g w')))
        \<and> (IsOk r \<longrightarrow> data r = Some (V (rc_state (g w')) k \<noteq> None))"
    proof -
      obtain r s' where c: "rc_exists (g w) k ?s = (r, s')" by fastforce
      then have "decays {} (V ?s) (V s') \<and> (\<forall>n. r = Inr n \<longrightarrow> (n > 0 \<longleftrightarrow> V s' k \<noteq> None))" using doc(3) [OF c] by blast
      with ok show ?thesis
        by (simp add: RedisClient_at_def RedisClient_Exists_def zoom_try c lens split: sum.split)
    qed
    show "\<exists>r w'. rd_Del (RedisClient_at g p) k w = (Inr r, w') \<and> redis_documented V (g w') \<and> Result_wf r
        \<and> rest w' = rest w \<and> decays {} (V ?s) (V (rc_state (g w')))
        \<and> (IsOk r \<longrightarrow> V (rc_state (g w')) k = None)"
    proof -
      obtain r s' where c: "rc_del (g w) k ?s = (r, s')" by fastforce
      then have "decays {} (V ?s) (V s') \<and> (\<forall>n. r = Inr n \<longrightarrow> V s' k = None)" using doc(4) [OF c] by blast
      with ok show ?thesis
        by (simp add: RedisClient_at_def RedisClient_Del_def zoom_try c lens split: sum.split)
    qed
    show "\<exists>r w'. rd_PExpire (RedisClient_at g p) k t w = (Inr r, w') \<and> redis_documented V (g w') \<and> Result_wf r
        \<and> rest w' = rest w \<and> decays {} (V ?s) (V (rc_state (g w')))"
    proof -
      obtain r s' where c: "rc_pexpire (g w) k t ?s = (r, s')" by fastforce
      then have "decays {} (V ?s) (V s')" using doc(5) [OF c] by blast
      with ok show ?thesis
        by (simp add: RedisClient_at_def RedisClient_PExpire_def zoom_try c lens split: sum.split)
    qed
    show "\<exists>r w'. rd_PTTL (RedisClient_at g p) k w = (Inr r, w') \<and> redis_documented V (g w') \<and> Result_wf r
        \<and> rest w' = rest w \<and> decays {} (V ?s) (V (rc_state (g w')))"
    proof -
      obtain r s' where c: "rc_pttl (g w) k ?s = (r, s')" by fastforce
      then have "decays {} (V ?s) (V s')" using doc(6) [OF c] by blast
      with ok show ?thesis
        by (simp add: RedisClient_at_def RedisClient_PTTL_def zoom_try c lens split: sum.split)
    qed
    show "\<exists>r w'. rd_Incr (RedisClient_at g p) k w = (Inr r, w') \<and> redis_documented V (g w') \<and> Result_wf r
        \<and> rest w' = rest w \<and> decays {k} (V ?s) (V (rc_state (g w')))"
    proof -
      obtain r s' where c: "rc_incr (g w) k ?s = (r, s')" by fastforce
      then have "decays {k} (V ?s) (V s')" using doc(7) [OF c] by blast
      with ok show ?thesis
        by (simp add: RedisClient_at_def RedisClient_Incr_def zoom_try c lens split: sum.split)
    qed
    show "\<exists>r w'. rd_SetPx (RedisClient_at g p) k v t w = (Inr r, w') \<and> redis_documented V (g w') \<and> Result_wf r
        \<and> rest w' = rest w \<and> decays {k} (V ?s) (V (rc_state (g w')))
        \<and> V (rc_state (g w')) k \<in> {V ?s k, None, Some v} \<and> (IsOk r \<longrightarrow> V (rc_state (g w')) k = Some v)"
    proof (cases "t \<le> 0")
      case True
      with ok show ?thesis
        by (simp add: RedisClient_at_def RedisClient_SetPx_def zoom_def ret_def lens)
    next
      case False
      obtain r s' where c: "rc_psetex (g w) k t v ?s = (r, s')" by fastforce
      then have "decays {k} (V ?s) (V s') \<and> V s' k \<in> {V ?s k, None, Some v} \<and> (r = Inr () \<longrightarrow> V s' k = Some v)"
        using doc(1) [OF c] by blast
      with ok False show ?thesis
        by (simp add: RedisClient_at_def RedisClient_SetPx_def zoom_try c lens split: sum.split)
    qed
  qed
qed

lemma kv_live_at:
  assumes "member_lens g p rest"
  shows "kv_live (RedisClient_at g p) (\<lambda>w. redis_documented V (g w)) (\<lambda>w. V (rc_state (g w))) rest
    (\<lambda>w. redis_documented V (g w) \<and> redis_prompt V up (g w) \<and> up (rc_state (g w)))"
    (is "kv_live _ _ _ _ ?live")
proof -
  note lens = member_lens.get_put [OF assms] member_lens.rest_put [OF assms]
  show ?thesis
  proof (rule kv_live.intro [OF kv_cache_at [OF assms]], rule kv_live_axioms.intro)
    fix w :: 'a and k v :: string and t n :: int
    assume lv: "?live w"
    then show "redis_documented V (g w)" by simp
    note pr = redis_promptD [of V up "g w", rule_format]
    let ?s = "rc_state (g w)"
    show "\<exists>w'. rd_Get (RedisClient_at g p) k w = (Inr (Result_Ok (V ?s k)), w') \<and> ?live w'
        \<and> V (rc_state (g w')) = V ?s"
      using pr(2) [of ?s k] lv
      by (auto simp: RedisClient_at_def RedisClient_Get_def zoom_try lens)
    show "\<exists>w'. rd_Exists (RedisClient_at g p) k w = (Inr (Result_Ok (V ?s k \<noteq> None)), w') \<and> ?live w'
        \<and> V (rc_state (g w')) = V ?s"
      using pr(3) [of ?s k] lv
      by (auto simp: RedisClient_at_def RedisClient_Exists_def zoom_try lens)
    show "\<exists>b w'. rd_Del (RedisClient_at g p) k w = (Inr (Result_Ok b), w') \<and> ?live w'
        \<and> V (rc_state (g w')) = (V ?s)(k := None)"
      using pr(4) [of ?s k] lv
      by (auto simp: RedisClient_at_def RedisClient_Del_def zoom_try lens)
    show "\<exists>n w'. rd_PTTL (RedisClient_at g p) k w = (Inr (Result_Ok n), w') \<and> ?live w'
        \<and> V (rc_state (g w')) = V ?s"
      using pr(6) [of ?s k] lv
      by (auto simp: RedisClient_at_def RedisClient_PTTL_def zoom_try lens)
    show "\<exists>b w'. rd_PExpire (RedisClient_at g p) k t w = (Inr (Result_Ok b), w') \<and> ?live w'
        \<and> V (rc_state (g w')) = V ?s" if "0 < t"
      using pr(5) [of ?s t k] lv that
      by (auto simp: RedisClient_at_def RedisClient_PExpire_def zoom_try lens)
    show "\<exists>w'. rd_SetPx (RedisClient_at g p) k v t w = (Inr (Result_Ok ()), w') \<and> ?live w'
        \<and> V (rc_state (g w')) = (V ?s)(k \<mapsto> v)" if "0 < t"
      using pr(1) [of ?s t k v] lv that
      by (auto simp: RedisClient_at_def RedisClient_SetPx_def zoom_try lens)
    show "\<exists>w'. rd_Incr (RedisClient_at g p) k w = (Inr (Result_Ok (n + 1)), w') \<and> ?live w'
        \<and> V (rc_state (g w')) = (V ?s)(k \<mapsto> to_string (n + 1))"
      if "counter (V ?s k) = Some n" and "in_int64 (n + 1)"
      using pr(7) [of ?s k n] lv that
      by (auto simp: RedisClient_at_def RedisClient_Incr_def zoom_try lens)
  qed
qed

end
