(* ===== verification/Sms.thy ===== *)
theory Sms
  imports Redis
begin

section \<open>Verification codes\<close>

text \<open>
  \<open>SmsService\<close> of \<open>src/auth/sms_service.cpp\<close>: sending a code at most once per interval,
  checking a code with a bounded number of attempts, and the lock after too many. The service
  keeps all its state in Redis; it is modelled over the interface \<open>RedisClient\<close>.
\<close>

subsection \<open>Keys\<close>

fun SceneName :: "SmsScene \<Rightarrow> string" where
  "SceneName Register = ''register''"
| "SceneName Login = ''login''"
| "SceneName ResetPassword = ''reset_password''"
| "SceneName DeleteUser = ''delete_user''"
| "SceneName UnKnow = ''unknown''"

definition CaptchaKey :: "SmsScene \<Rightarrow> string \<Rightarrow> string" where
  "CaptchaKey scene mobile = ''sms:code:'' @ SceneName scene @ '':'' @ mobile"

definition IntervalKey :: "string \<Rightarrow> string" where
  "IntervalKey mobile = ''sms:interval:'' @ mobile"

definition VerifyCountKey :: "SmsScene \<Rightarrow> string \<Rightarrow> string" where
  "VerifyCountKey scene mobile = ''sms:verify_count:'' @ SceneName scene @ '':'' @ mobile"

definition LockKey :: "SmsScene \<Rightarrow> string \<Rightarrow> string" where
  "LockKey scene mobile = ''sms:lock:'' @ SceneName scene @ '':'' @ mobile"

subsection \<open>The operations\<close>

text \<open>\<open>std::chrono::milliseconds(seconds * 1000)\<close>, the product an \<open>int\<close>.\<close>

definition ms :: "int \<Rightarrow> int" where
  "ms sec = wrap32 (sec * 1000)"

definition safeTTLSeconds :: "'w RedisClient \<Rightarrow> string \<Rightarrow> int \<Rightarrow> ('w, int) io" where
  "safeTTLSeconds redis key default_val =
     bindE (rd_PTTL redis key) (\<lambda>r.
     if \<not> IsOk r then ret default_val
     else bindE (Value r) (\<lambda>v. ret (if v > 0 then cdiv v 1000 else default_val)))"

definition unavailable :: "'a Result" where
  "unavailable = Result_Fail ServiceUnavailable (utf8 [0x670D, 0x52A1, 0x6682, 0x65F6, 0x4E0D, 0x53EF, 0x7528, 0xFF0C, 0x8BF7, 0x7A0D, 0x540E, 0x91CD, 0x8BD5])"

definition too_often :: "int \<Rightarrow> 'a Result" where
  "too_often ttl = Result_Fail RateLimited (utf8 [0x64CD, 0x4F5C, 0x8FC7, 0x4E8E, 0x9891, 0x7E41, 0xFF0C, 0x8BF7] @ to_string ttl @ utf8 [0x79D2, 0x540E, 0x518D, 0x8BD5])"

text \<open>The code is fixed: the random one below the first \<open>return\<close> of the source is dead code.\<close>

definition GenerateCaptcha :: "('w, string) io" where
  "GenerateCaptcha = ret ''123456''"

text \<open>Sending is a line in the log.\<close>

definition DoSend :: "string \<Rightarrow> string \<Rightarrow> SmsScene \<Rightarrow> ('w, unit Result) io" where
  "DoSend mobile captcha scene = ret (Result_Ok ())"

definition SendCaptcha :: "'w RedisClient \<Rightarrow> SmsConfig \<Rightarrow> SmsScene \<Rightarrow> string \<Rightarrow> ('w, int Result) io" where
  "SendCaptcha redis config scene mobile =
     bindE (rd_Exists redis (LockKey scene mobile)) (\<lambda>lock_exists.
     if \<not> IsOk lock_exists then ret unavailable else
     bindE (Value lock_exists) (\<lambda>locked.
     if locked then
       bindE (safeTTLSeconds redis (LockKey scene mobile) (lock_seconds config)) (\<lambda>ttl.
       ret (too_often ttl))
     else
     bindE (rd_Exists redis (IntervalKey mobile)) (\<lambda>interval_exists.
     if \<not> IsOk interval_exists then ret unavailable else
     bindE (Value interval_exists) (\<lambda>waiting.
     if waiting then
       bindE (safeTTLSeconds redis (IntervalKey mobile) (send_interval_seconds config)) (\<lambda>ttl.
       ret (too_often ttl))
     else
     bindE GenerateCaptcha (\<lambda>captcha.
     bindE (rd_SetPx redis (CaptchaKey scene mobile) captcha (ms (code_ttl_seconds config))) (\<lambda>set_code.
     if \<not> IsOk set_code then ret unavailable else
     bindE (rd_SetPx redis (IntervalKey mobile) ''1'' (ms (send_interval_seconds config))) (\<lambda>_.
     bindE (DoSend mobile captcha scene) (\<lambda>send_result.
     if \<not> IsOk send_result then
       bindE (rd_Del redis (CaptchaKey scene mobile)) (\<lambda>_.
       ret (Result_Fail ServiceUnavailable (utf8 [0x77ED, 0x4FE1, 0x53D1, 0x9001, 0x5931, 0x8D25, 0xFF0C, 0x8BF7, 0x7A0D, 0x540E, 0x91CD, 0x8BD5])))
     else ret (Result_Ok (send_interval_seconds config))))))))))"

text \<open>The branch of \<open>VerifyCaptcha\<close> for a wrong code.\<close>

definition wrong_code :: "'w RedisClient \<Rightarrow> SmsConfig \<Rightarrow> SmsScene \<Rightarrow> string \<Rightarrow> ('w, unit Result) io" where
  "wrong_code redis config scene mobile =
     bindE (rd_Incr redis (VerifyCountKey scene mobile)) (\<lambda>count_result.
     if \<not> IsOk count_result then ret unavailable else
     bindE (Value count_result) (\<lambda>cnt.
     bindE (rd_PExpire redis (VerifyCountKey scene mobile) (ms (retry_ttl_seconds config))) (\<lambda>_.
     if cnt \<ge> max_retry_count config then
       bindE (rd_SetPx redis (LockKey scene mobile) ''1'' (ms (lock_seconds config))) (\<lambda>_.
       bindE (rd_Del redis (CaptchaKey scene mobile)) (\<lambda>_.
       bindE (rd_Del redis (VerifyCountKey scene mobile)) (\<lambda>_.
       ret (Result_Fail AccountLocked
         (utf8 [0x9519, 0x8BEF, 0x6B21, 0x6570, 0x8FC7, 0x591A, 0xFF0C, 0x8BF7] @ to_string (cdiv (lock_seconds config) 60) @ utf8 [0x5206, 0x949F, 0x540E, 0x518D, 0x8BD5])))))
     else ret (Result_Fail CaptchaWrong
         (utf8 [0x9A8C, 0x8BC1, 0x7801, 0x9519, 0x8BEF, 0xFF0C, 0x8FD8, 0x5269] @ to_string (max_retry_count config - cnt) @ utf8 [0x6B21, 0x673A, 0x4F1A])))))"

definition VerifyCaptcha ::
  "'w RedisClient \<Rightarrow> SmsConfig \<Rightarrow> SmsScene \<Rightarrow> string \<Rightarrow> string \<Rightarrow> ('w, unit Result) io" where
  "VerifyCaptcha redis config scene mobile input_code =
     bindE (rd_Exists redis (LockKey scene mobile)) (\<lambda>lock_exists.
     if \<not> IsOk lock_exists then ret unavailable else
     bindE (Value lock_exists) (\<lambda>locked.
     if locked then
       bindE (safeTTLSeconds redis (LockKey scene mobile) (retry_ttl_seconds config)) (\<lambda>ttl.
       ret (too_often ttl))
     else
     bindE (rd_Get redis (CaptchaKey scene mobile)) (\<lambda>stored_code_result.
     if \<not> IsOk stored_code_result then ret unavailable else
     bindE (Value stored_code_result) (\<lambda>stored.
     case stored of
       None \<Rightarrow> ret (Result_Fail CaptchaExpired (utf8 [0x9A8C, 0x8BC1, 0x7801, 0x5DF2, 0x8FC7, 0x671F, 0xFF0C, 0x8BF7, 0x91CD, 0x65B0, 0x83B7, 0x53D6]))
     | Some stored_code \<Rightarrow>
         if input_code \<noteq> stored_code then wrong_code redis config scene mobile
         else bindE (rd_Del redis (VerifyCountKey scene mobile)) (\<lambda>_. ret (Result_Ok ()))))))"

definition ConsumeCaptcha :: "'w RedisClient \<Rightarrow> SmsScene \<Rightarrow> string \<Rightarrow> ('w, unit Result) io" where
  "ConsumeCaptcha redis scene mobile =
     bindE (rd_Del redis (CaptchaKey scene mobile)) (\<lambda>_. ret (Result_Ok ()))"

subsection \<open>The keys do not meet\<close>

lemma SceneName_inj: "SceneName s = SceneName s' \<Longrightarrow> s = s'"
  by (cases s; cases s'; simp)

lemma SceneName_no_colon: "CHR '':'' \<notin> set (SceneName s)"
  by (cases s) simp_all

lemma split_at_colon:
  "CHR '':'' \<notin> set a \<Longrightarrow> CHR '':'' \<notin> set b \<Longrightarrow> a @ CHR '':'' # x = b @ CHR '':'' # y \<longleftrightarrow> a = b \<and> x = y"
proof (induction a arbitrary: b)
  case Nil
  then show ?case by (cases b) auto
next
  case (Cons c a)
  then show ?case by (cases b) auto
qed

lemma scene_mobile_inj: "SceneName s @ CHR '':'' # m = SceneName s' @ CHR '':'' # m' \<longleftrightarrow> s = s' \<and> m = m'"
  using split_at_colon [OF SceneName_no_colon SceneName_no_colon] SceneName_inj by blast

lemma key_inj [simp]:
  "CaptchaKey s m = CaptchaKey s' m' \<longleftrightarrow> s = s' \<and> m = m'"
  "VerifyCountKey s m = VerifyCountKey s' m' \<longleftrightarrow> s = s' \<and> m = m'"
  "LockKey s m = LockKey s' m' \<longleftrightarrow> s = s' \<and> m = m'"
  "IntervalKey m = IntervalKey m' \<longleftrightarrow> m = m'"
  by (simp_all add: CaptchaKey_def VerifyCountKey_def LockKey_def IntervalKey_def scene_mobile_inj)

lemma key_disjoint [simp]:
  "CaptchaKey s m \<noteq> VerifyCountKey s' m'" "VerifyCountKey s m \<noteq> CaptchaKey s' m'"
  "CaptchaKey s m \<noteq> LockKey s' m'" "LockKey s m \<noteq> CaptchaKey s' m'"
  "CaptchaKey s m \<noteq> IntervalKey m'" "IntervalKey m \<noteq> CaptchaKey s' m'"
  "VerifyCountKey s m \<noteq> LockKey s' m'" "LockKey s m \<noteq> VerifyCountKey s' m'"
  "VerifyCountKey s m \<noteq> IntervalKey m'" "IntervalKey m \<noteq> VerifyCountKey s' m'"
  "LockKey s m \<noteq> IntervalKey m'" "IntervalKey m \<noteq> LockKey s' m'"
  by (simp_all add: CaptchaKey_def VerifyCountKey_def LockKey_def IntervalKey_def)

subsection \<open>What the service promises, on the contents of the cache\<close>

definition sms_config_ok :: "SmsConfig \<Rightarrow> bool" where
  "sms_config_ok config \<longleftrightarrow> sms_ok config \<and> code_ttl_seconds config \<le> 2147483
     \<and> send_interval_seconds config \<le> 2147483 \<and> retry_ttl_seconds config \<le> 2147483
     \<and> lock_seconds config \<le> 2147483 \<and> max_retry_count config < 2 ^ 31"

lemma ms_pos: "0 < sec \<Longrightarrow> sec \<le> 2147483 \<Longrightarrow> 0 < ms sec"
  by (simp add: ms_def in_int32_def)

lemma sms_ttls:
  assumes "sms_config_ok config"
  shows "0 < ms (code_ttl_seconds config)" "0 < ms (send_interval_seconds config)"
    "0 < ms (retry_ttl_seconds config)" "0 < ms (lock_seconds config)"
  using assms by (auto simp: sms_config_ok_def sms_ok_def intro!: ms_pos)

text \<open>Every counter is a number below the limit: the lock comes with the last attempt.\<close>

definition attempts :: "(string \<rightharpoonup> string) \<Rightarrow> SmsScene \<Rightarrow> string \<Rightarrow> int option" where
  "attempts v scene mobile = counter (v (VerifyCountKey scene mobile))"

definition sms_inv :: "SmsConfig \<Rightarrow> (string \<rightharpoonup> string) \<Rightarrow> bool" where
  "sms_inv config v \<longleftrightarrow>
     (\<forall>scene mobile. \<exists>n. attempts v scene mobile = Some n \<and> 0 \<le> n \<and> n < max_retry_count config)"

definition send_spec :: "SmsConfig \<Rightarrow> SmsScene \<Rightarrow> string \<Rightarrow> (string \<rightharpoonup> string) \<Rightarrow> ErrorCode \<times> (string \<rightharpoonup> string)" where
  "send_spec config scene mobile v =
     (if v (LockKey scene mobile) \<noteq> None \<or> v (IntervalKey mobile) \<noteq> None then (RateLimited, v)
      else (Ok, v(CaptchaKey scene mobile \<mapsto> ''123456'', IntervalKey mobile \<mapsto> ''1'')))"

definition verify_spec ::
  "SmsConfig \<Rightarrow> SmsScene \<Rightarrow> string \<Rightarrow> string \<Rightarrow> (string \<rightharpoonup> string) \<Rightarrow> ErrorCode \<times> (string \<rightharpoonup> string)" where
  "verify_spec config scene mobile input_code v =
     (if v (LockKey scene mobile) \<noteq> None then (RateLimited, v)
      else case v (CaptchaKey scene mobile) of
        None \<Rightarrow> (CaptchaExpired, v)
      | Some stored \<Rightarrow>
          if input_code = stored then (Ok, v(VerifyCountKey scene mobile := None))
          else let n = the (attempts v scene mobile) + 1 in
            if n \<ge> max_retry_count config
            then (AccountLocked, v(LockKey scene mobile \<mapsto> ''1'', CaptchaKey scene mobile := None,
                    VerifyCountKey scene mobile := None))
            else (CaptchaWrong, v(VerifyCountKey scene mobile \<mapsto> to_string n)))"

lemma attempts_upd [simp]:
  "attempts (v(VerifyCountKey s m := x)) s' m' = (if s' = s \<and> m' = m then counter x else attempts v s' m')"
  "attempts (v(CaptchaKey s m := x)) s' m' = attempts v s' m'"
  "attempts (v(LockKey s m := x)) s' m' = attempts v s' m'"
  "attempts (v(IntervalKey m := x)) s' m' = attempts v s' m'"
  by (auto simp: attempts_def)

lemma verify_spec_inv:
  assumes "sms_inv config v" and "sms_config_ok config"
  shows "sms_inv config (snd (verify_spec config scene mobile c v))"
proof -
  obtain n where n: "attempts v scene mobile = Some n" "0 \<le> n" "n < max_retry_count config"
    using assms(1) unfolding sms_inv_def by blast
  have "0 < max_retry_count config" using assms(2) by (simp add: sms_config_ok_def sms_ok_def)
  with assms(1) n show ?thesis
    by (auto simp: verify_spec_def sms_inv_def Let_def split: option.splits)
qed

lemma send_spec_inv: "sms_inv config v \<Longrightarrow> sms_inv config (snd (send_spec config scene mobile v))"
  by (simp add: send_spec_def sms_inv_def)

text \<open>A run of attempts.\<close>

fun verify_all_spec ::
  "SmsConfig \<Rightarrow> SmsScene \<Rightarrow> string \<Rightarrow> string list \<Rightarrow> (string \<rightharpoonup> string) \<Rightarrow> (string \<rightharpoonup> string)" where
  "verify_all_spec config scene mobile [] v = v"
| "verify_all_spec config scene mobile (c # cs) v =
     verify_all_spec config scene mobile cs (snd (verify_spec config scene mobile c v))"

lemma verify_all_locked:
  "v (LockKey scene mobile) \<noteq> None \<Longrightarrow> verify_all_spec config scene mobile cs v = v"
  by (induction cs) (simp_all add: verify_spec_def)

lemma verify_all_wrong:
  assumes "v (LockKey scene mobile) = None" and "v (CaptchaKey scene mobile) = Some stored"
    and "attempts v scene mobile = Some n" and "\<forall>c\<in>set cs. c \<noteq> stored"
    and "n < max_retry_count config" and "max_retry_count config \<le> n + int (length cs)"
  shows "verify_all_spec config scene mobile cs v (LockKey scene mobile) = Some ''1''
    \<and> verify_all_spec config scene mobile cs v (CaptchaKey scene mobile) = None"
  using assms
proof (induction cs arbitrary: v n)
  case (Cons c cs)
  show ?case
  proof (cases "n + 1 \<ge> max_retry_count config")
    case True
    then have "snd (verify_spec config scene mobile c v) = v(LockKey scene mobile \<mapsto> ''1'',
        CaptchaKey scene mobile := None, VerifyCountKey scene mobile := None)"
      using Cons.prems by (simp add: verify_spec_def)
    then show ?thesis using verify_all_locked by simp
  next
    case False
    define v' where "v' = v(VerifyCountKey scene mobile \<mapsto> to_string (n + 1))"
    have "snd (verify_spec config scene mobile c v) = v'"
      using Cons.prems False by (simp add: verify_spec_def v'_def)
    moreover have "v' (LockKey scene mobile) = None" "v' (CaptchaKey scene mobile) = Some stored"
      "attempts v' scene mobile = Some (n + 1)"
      using Cons.prems by (simp_all add: v'_def)
    ultimately show ?thesis using Cons.prems False Cons.IH [of v' "n + 1"] by simp
  qed
qed simp

subsection \<open>The operations keep the promise\<close>

context kv_live
begin

text \<open>The live laws together with what the calls leave alone.\<close>

lemma live_run:
  assumes "live w"
  shows "0 < t \<Longrightarrow> \<exists>w'. rd_SetPx redis k v t w = (Inr (Result_Ok ()), w') \<and> live w'
      \<and> view w' = (view w)(k \<mapsto> v) \<and> rest w' = rest w"
    and "\<exists>w'. rd_Get redis k w = (Inr (Result_Ok (view w k)), w') \<and> live w' \<and> view w' = view w \<and> rest w' = rest w"
    and "\<exists>w'. rd_Exists redis k w = (Inr (Result_Ok (view w k \<noteq> None)), w') \<and> live w' \<and> view w' = view w
      \<and> rest w' = rest w"
    and "\<exists>b w'. rd_Del redis k w = (Inr (Result_Ok b), w') \<and> live w' \<and> view w' = (view w)(k := None)
      \<and> rest w' = rest w"
    and "0 < t \<Longrightarrow> \<exists>b w'. rd_PExpire redis k t w = (Inr (Result_Ok b), w') \<and> live w' \<and> view w' = view w
      \<and> rest w' = rest w"
    and "\<exists>n w'. rd_PTTL redis k w = (Inr (Result_Ok n), w') \<and> live w' \<and> view w' = view w \<and> rest w' = rest w"
    and "counter (view w k) = Some n \<Longrightarrow> in_int64 (n + 1) \<Longrightarrow>
      \<exists>w'. rd_Incr redis k w = (Inr (Result_Ok (n + 1)), w') \<and> live w'
        \<and> view w' = (view w)(k \<mapsto> to_string (n + 1)) \<and> rest w' = rest w"
proof -
  note ok = live_ok [OF assms]
  show "0 < t \<Longrightarrow> \<exists>w'. rd_SetPx redis k v t w = (Inr (Result_Ok ()), w') \<and> live w'
      \<and> view w' = (view w)(k \<mapsto> v) \<and> rest w' = rest w"
    using live_SetPx [OF assms, of t k v] SetPx [OF ok, of k v t] by auto
  show "\<exists>w'. rd_Get redis k w = (Inr (Result_Ok (view w k)), w') \<and> live w' \<and> view w' = view w \<and> rest w' = rest w"
    using live_Get [OF assms, of k] Get [OF ok, of k] by auto
  show "\<exists>w'. rd_Exists redis k w = (Inr (Result_Ok (view w k \<noteq> None)), w') \<and> live w' \<and> view w' = view w
      \<and> rest w' = rest w"
    using live_Exists [OF assms, of k] Exists [OF ok, of k] by auto
  show "\<exists>b w'. rd_Del redis k w = (Inr (Result_Ok b), w') \<and> live w' \<and> view w' = (view w)(k := None)
      \<and> rest w' = rest w"
    using live_Del [OF assms, of k] Del [OF ok, of k] by auto
  show "0 < t \<Longrightarrow> \<exists>b w'. rd_PExpire redis k t w = (Inr (Result_Ok b), w') \<and> live w' \<and> view w' = view w
      \<and> rest w' = rest w"
    using live_PExpire [OF assms, of t k] PExpire [OF ok, of k t] by auto
  show "\<exists>n w'. rd_PTTL redis k w = (Inr (Result_Ok n), w') \<and> live w' \<and> view w' = view w \<and> rest w' = rest w"
    using live_PTTL [OF assms, of k] PTTL [OF ok, of k] by auto
  show "counter (view w k) = Some n \<Longrightarrow> in_int64 (n + 1) \<Longrightarrow>
      \<exists>w'. rd_Incr redis k w = (Inr (Result_Ok (n + 1)), w') \<and> live w'
        \<and> view w' = (view w)(k \<mapsto> to_string (n + 1)) \<and> rest w' = rest w"
    using live_Incr [OF assms, of k n] Incr [OF ok, of k] by auto
qed

lemma safeTTLSeconds_live:
  assumes "live w"
  shows "\<exists>n w'. safeTTLSeconds redis k d w = (Inr n, w') \<and> live w' \<and> view w' = view w \<and> rest w' = rest w"
  using live_run(6) [OF assms, of k] by (auto simp: safeTTLSeconds_def bindE_def ret_def)

lemma wrong_code_live:
  assumes lv: "live w" and cf: "sms_config_ok config"
    and at: "attempts (view w) scene mobile = Some n" "0 \<le> n" "n < max_retry_count config"
  defines "v' \<equiv> (if n + 1 \<ge> max_retry_count config
      then (view w)(LockKey scene mobile \<mapsto> ''1'', CaptchaKey scene mobile := None, VerifyCountKey scene mobile := None)
      else (view w)(VerifyCountKey scene mobile \<mapsto> to_string (n + 1)))"
  shows "\<exists>r w'. wrong_code redis config scene mobile w = (Inr r, w') \<and> live w' \<and> view w' = v' \<and> rest w' = rest w
    \<and> code r = (if n + 1 \<ge> max_retry_count config then AccountLocked else CaptchaWrong)"
proof -
  note ttl = sms_ttls [OF cf]
  have "in_int64 (n + 1)" using at cf by (simp add: sms_config_ok_def in_int64_def)
  with at(1) obtain w1 where 1: "rd_Incr redis (VerifyCountKey scene mobile) w = (Inr (Result_Ok (n + 1)), w1)"
    "live w1" "view w1 = (view w)(VerifyCountKey scene mobile \<mapsto> to_string (n + 1))" "rest w1 = rest w"
    using live_run(7) [OF lv, of "VerifyCountKey scene mobile" n] unfolding attempts_def by blast
  obtain b w2 where 2: "rd_PExpire redis (VerifyCountKey scene mobile) (ms (retry_ttl_seconds config)) w1
      = (Inr (Result_Ok b), w2)" "live w2" "view w2 = view w1" "rest w2 = rest w1"
    using live_run(5) [OF 1(2) ttl(3)] by blast
  obtain w3 where 3: "rd_SetPx redis (LockKey scene mobile) ''1'' (ms (lock_seconds config)) w2
      = (Inr (Result_Ok ()), w3)" "live w3" "view w3 = (view w2)(LockKey scene mobile \<mapsto> ''1'')" "rest w3 = rest w2"
    using live_run(1) [OF 2(2) ttl(4)] by blast
  obtain b4 w4 where 4: "rd_Del redis (CaptchaKey scene mobile) w3 = (Inr (Result_Ok b4), w4)" "live w4"
    "view w4 = (view w3)(CaptchaKey scene mobile := None)" "rest w4 = rest w3"
    using live_run(4) [OF 3(2)] by blast
  obtain b5 w5 where 5: "rd_Del redis (VerifyCountKey scene mobile) w4 = (Inr (Result_Ok b5), w5)" "live w5"
    "view w5 = (view w4)(VerifyCountKey scene mobile := None)" "rest w5 = rest w4"
    using live_run(4) [OF 4(2)] by blast
  have "(view w)(VerifyCountKey scene mobile \<mapsto> to_string (n + 1), LockKey scene mobile \<mapsto> ''1'',
      CaptchaKey scene mobile := None, VerifyCountKey scene mobile := None) =
      (view w)(LockKey scene mobile \<mapsto> ''1'', CaptchaKey scene mobile := None, VerifyCountKey scene mobile := None)"
    by (auto simp: fun_upd_def)
  then show ?thesis
    using 1 2 3 4 5 by (auto simp: wrong_code_def bindE_def ret_def v'_def)
qed

lemma VerifyCaptcha_live:
  assumes lv: "live w" and cf: "sms_config_ok config" and inv: "sms_inv config (view w)"
  shows "\<exists>r w'. VerifyCaptcha redis config scene mobile c w = (Inr r, w') \<and> live w' \<and> rest w' = rest w
    \<and> (code r, view w') = verify_spec config scene mobile c (view w)"
proof -
  obtain n where n: "attempts (view w) scene mobile = Some n" "0 \<le> n" "n < max_retry_count config"
    using inv unfolding sms_inv_def by blast
  obtain w1 where 1: "rd_Exists redis (LockKey scene mobile) w =
      (Inr (Result_Ok (view w (LockKey scene mobile) \<noteq> None)), w1)" "live w1" "view w1 = view w" "rest w1 = rest w"
    using live_run(3) [OF lv] by blast
  obtain t w2 where 2: "safeTTLSeconds redis (LockKey scene mobile) (retry_ttl_seconds config) w1 = (Inr t, w2)"
    "live w2" "view w2 = view w1" "rest w2 = rest w1"
    using safeTTLSeconds_live [OF 1(2)] by blast
  obtain w3 where 3: "rd_Get redis (CaptchaKey scene mobile) w1 = (Inr (Result_Ok (view w1 (CaptchaKey scene mobile))), w3)"
    "live w3" "view w3 = view w1" "rest w3 = rest w1"
    using live_run(2) [OF 1(2)] by blast
  obtain b w4 where 4: "rd_Del redis (VerifyCountKey scene mobile) w3 = (Inr (Result_Ok b), w4)" "live w4"
    "view w4 = (view w3)(VerifyCountKey scene mobile := None)" "rest w4 = rest w3"
    using live_run(4) [OF 3(2)] by blast
  obtain r w5 where 5: "wrong_code redis config scene mobile w3 = (Inr r, w5)" "live w5" "rest w5 = rest w3"
    "view w5 = (if n + 1 \<ge> max_retry_count config
      then (view w)(LockKey scene mobile \<mapsto> ''1'', CaptchaKey scene mobile := None, VerifyCountKey scene mobile := None)
      else (view w)(VerifyCountKey scene mobile \<mapsto> to_string (n + 1)))"
    "code r = (if n + 1 \<ge> max_retry_count config then AccountLocked else CaptchaWrong)"
    using wrong_code_live [OF 3(2) cf, of scene mobile n] n 1(3) 3(3) by metis
  show ?thesis
  proof (cases "view w (LockKey scene mobile)")
    case (Some x)
    then show ?thesis using 1 2 by (simp add: VerifyCaptcha_def bindE_def ret_def verify_spec_def too_often_def)
  next
    case None
    then show ?thesis
      using 1 3 4 5 n(1)
      by (cases "view w (CaptchaKey scene mobile)")
         (auto simp: VerifyCaptcha_def bindE_def ret_def verify_spec_def)
  qed
qed

lemma SendCaptcha_live:
  assumes lv: "live w" and cf: "sms_config_ok config"
  shows "\<exists>r w'. SendCaptcha redis config scene mobile w = (Inr r, w') \<and> live w' \<and> rest w' = rest w
    \<and> (code r, view w') = send_spec config scene mobile (view w)"
proof -
  note ttl = sms_ttls [OF cf]
  obtain w1 where 1: "rd_Exists redis (LockKey scene mobile) w =
      (Inr (Result_Ok (view w (LockKey scene mobile) \<noteq> None)), w1)" "live w1" "view w1 = view w" "rest w1 = rest w"
    using live_run(3) [OF lv] by blast
  obtain t w2 where 2: "safeTTLSeconds redis (LockKey scene mobile) (lock_seconds config) w1 = (Inr t, w2)"
    "live w2" "view w2 = view w1" "rest w2 = rest w1"
    using safeTTLSeconds_live [OF 1(2)] by blast
  obtain w3 where 3: "rd_Exists redis (IntervalKey mobile) w1 =
      (Inr (Result_Ok (view w1 (IntervalKey mobile) \<noteq> None)), w3)" "live w3" "view w3 = view w1" "rest w3 = rest w1"
    using live_run(3) [OF 1(2)] by blast
  obtain t' w4 where 4: "safeTTLSeconds redis (IntervalKey mobile) (send_interval_seconds config) w3 = (Inr t', w4)"
    "live w4" "view w4 = view w3" "rest w4 = rest w3"
    using safeTTLSeconds_live [OF 3(2)] by blast
  obtain w5 where 5: "rd_SetPx redis (CaptchaKey scene mobile) ''123456'' (ms (code_ttl_seconds config)) w3
      = (Inr (Result_Ok ()), w5)" "live w5" "view w5 = (view w3)(CaptchaKey scene mobile \<mapsto> ''123456'')"
      "rest w5 = rest w3"
    using live_run(1) [OF 3(2) ttl(1)] by blast
  obtain w6 where 6: "rd_SetPx redis (IntervalKey mobile) ''1'' (ms (send_interval_seconds config)) w5
      = (Inr (Result_Ok ()), w6)" "live w6" "view w6 = (view w5)(IntervalKey mobile \<mapsto> ''1'')" "rest w6 = rest w5"
    using live_run(1) [OF 5(2) ttl(2)] by blast
  show ?thesis
    using 1 2 3 4 5 6
    by (cases "view w (LockKey scene mobile)"; cases "view w (IntervalKey mobile)")
       (auto simp: SendCaptcha_def bindE_def ret_def send_spec_def too_often_def GenerateCaptcha_def DoSend_def)
qed

end

text \<open>Under any behaviour the documentation of the cache allows.\<close>

context kv_cache
begin

lemma safeTTLSeconds_total:
  assumes "ok w"
  shows "\<exists>n w'. safeTTLSeconds redis k d w = (Inr n, w') \<and> ok w' \<and> rest w' = rest w \<and> decays {} (view w) (view w')"
proof -
  obtain r w1 where "rd_PTTL redis k w = (Inr r, w1)" "ok w1" "Result_wf r" "rest w1 = rest w"
    "decays {} (view w) (view w1)"
    using PTTL [OF assms] by blast
  then show ?thesis
    using wf_data [of r] by (cases "IsOk r") (auto simp: safeTTLSeconds_def bindE_def ret_def Value_data)
qed

lemma VerifyCaptcha_sound:
  assumes ok: "ok w" and run: "VerifyCaptcha redis config scene mobile c w = (Inr r, w')" and "IsOk r"
  shows "view w (CaptchaKey scene mobile) = Some c"
proof -
  obtain r1 w1 where 1: "rd_Exists redis (LockKey scene mobile) w = (Inr r1, w1)" "ok w1" "Result_wf r1"
    "decays {} (view w) (view w1)"
    using Exists [OF ok] by blast
  obtain r2 w2 where 2: "rd_Get redis (CaptchaKey scene mobile) w1 = (Inr r2, w2)" "ok w2" "Result_wf r2"
    "decays {} (view w1) (view w2)" "IsOk r2 \<longrightarrow> data r2 = Some (view w2 (CaptchaKey scene mobile))"
    using Get [OF 1(2)] by blast
  have nt: "\<not> IsOk (too_often t :: unit Result)" "\<not> IsOk (unavailable :: unit Result)" for t
    by (simp_all add: too_often_def unavailable_def)
  have ok1: "IsOk r1"
    by (rule ccontr) (use run 1(1) assms(3) nt in \<open>auto simp: VerifyCaptcha_def bindE_def ret_def\<close>)
  then obtain b where b: "Value r1 w1 = (Inr b, w1)" using wf_data [OF 1(3)] Value_data by metis
  have "\<not> b"
  proof
    assume b
    obtain t w3 where "safeTTLSeconds redis (LockKey scene mobile) (retry_ttl_seconds config) w1 = (Inr t, w3)"
      using safeTTLSeconds_total [OF 1(2)] by blast
    then show False using run 1 ok1 b \<open>b\<close> assms(3) nt by (auto simp: VerifyCaptcha_def bindE_def ret_def)
  qed
  have ok2: "IsOk r2"
    by (rule ccontr) (use run 1(1) 2(1) ok1 b \<open>\<not> b\<close> assms(3) nt in
        \<open>auto simp: VerifyCaptcha_def bindE_def ret_def\<close>)
  then have v2: "Value r2 w2 = (Inr (view w2 (CaptchaKey scene mobile)), w2)"
    using 2(5) by (simp add: Value_def ret_def)
  have "view w2 (CaptchaKey scene mobile) = Some c"
  proof (rule ccontr)
    assume ne: "view w2 (CaptchaKey scene mobile) \<noteq> Some c"
    show False
    proof (cases "view w2 (CaptchaKey scene mobile)")
      case None
      then show False using run 1 2(1) ok1 b \<open>\<not> b\<close> ok2 v2 assms(3)
        by (auto simp: VerifyCaptcha_def bindE_def ret_def)
    next
      case (Some c')
      then have "wrong_code redis config scene mobile w2 = (Inr r, w')"
        using run 1 2(1) ok1 b \<open>\<not> b\<close> ok2 v2 ne by (auto simp: VerifyCaptcha_def bindE_def ret_def)
      then show False
        using assms(3) nt
        by (auto simp: wrong_code_def bindE_def ret_def Value_def throw_def
            split: prod.splits sum.splits if_splits option.splits)
    qed
  qed
  with 1(4) 2(4) show ?thesis by (metis decays_Some empty_iff)
qed

end

subsection \<open>On the client of the cache itself\<close>

text \<open>The service on a state that is the client object and nothing else.\<close>

definition RedisClient_here :: "'r redis RedisClient" where
  "RedisClient_here = RedisClient_at (\<lambda>h. h) (\<lambda>h _. h)"

lemma member_lens_here: "member_lens (\<lambda>h. h) (\<lambda>h _. h) (\<lambda>_. ())"
  by unfold_locales simp_all

interpretation here: kv_cache RedisClient_here "redis_documented V" "\<lambda>h. V (rc_state h)" "\<lambda>_. ()" for V
  unfolding RedisClient_here_def by (rule kv_cache_at [OF member_lens_here])

definition redis_alive :: "('r \<Rightarrow> string \<rightharpoonup> string) \<Rightarrow> ('r \<Rightarrow> bool) \<Rightarrow> 'r redis \<Rightarrow> bool" where
  "redis_alive V up h \<longleftrightarrow> redis_documented V h \<and> redis_prompt V up h \<and> up (rc_state h)"

interpretation alive: kv_live RedisClient_here "redis_documented V" "\<lambda>h. V (rc_state h)" "\<lambda>_. ()"
  "redis_alive V up" for V up
  unfolding RedisClient_here_def redis_alive_def by (rule kv_live_at [OF member_lens_here])

text \<open>A run of attempts with the codes of a list.\<close>

fun verify_all :: "'w RedisClient \<Rightarrow> SmsConfig \<Rightarrow> SmsScene \<Rightarrow> string \<Rightarrow> string list \<Rightarrow> ('w, unit) io" where
  "verify_all redis config scene mobile [] = ret ()"
| "verify_all redis config scene mobile (c # cs) =
     bindE (VerifyCaptcha redis config scene mobile c) (\<lambda>_. verify_all redis config scene mobile cs)"

lemma verify_all_alive:
  assumes "redis_alive V up h" and "sms_config_ok config" and "sms_inv config (V (rc_state h))"
  shows "\<exists>h'. verify_all RedisClient_here config scene mobile cs h = (Inr (), h') \<and> redis_alive V up h'
    \<and> sms_inv config (V (rc_state h'))
    \<and> V (rc_state h') = verify_all_spec config scene mobile cs (V (rc_state h))"
  using assms(1,3)
proof (induction cs arbitrary: h)
  case Nil
  then show ?case by (simp add: ret_def)
next
  case (Cons c cs)
  obtain r h1 where 1: "VerifyCaptcha RedisClient_here config scene mobile c h = (Inr r, h1)"
    "redis_alive V up h1" "(code r, V (rc_state h1)) = verify_spec config scene mobile c (V (rc_state h))"
    using alive.VerifyCaptcha_live [OF Cons.prems(1) assms(2) Cons.prems(2)] by blast
  have v1: "V (rc_state h1) = snd (verify_spec config scene mobile c (V (rc_state h)))" by (simp add: 1(3) [symmetric])
  then have "sms_inv config (V (rc_state h1))" using verify_spec_inv [OF Cons.prems(2) assms(2)] by simp
  with Cons.IH [OF 1(2)] 1(1) v1 show ?case by (auto simp: bindE_def)
qed

text \<open>A cache in memory, for concrete runs.\<close>

definition redis_mem :: "(string \<rightharpoonup> string) \<Rightarrow> (string \<rightharpoonup> string) redis" where
  "redis_mem m = \<lparr>
     rc_set = \<lambda>k v s. (Inr (), s(k \<mapsto> v)),
     rc_psetex = \<lambda>k t v s. (Inr (), s(k \<mapsto> v)),
     rc_get = \<lambda>k s. (Inr (s k), s),
     rc_setnx = \<lambda>k v s. if s k = None then (Inr True, s(k \<mapsto> v)) else (Inr False, s),
     rc_set_nx_px = \<lambda>k v t s. if s k = None then (Inr True, s(k \<mapsto> v)) else (Inr False, s),
     rc_exists = \<lambda>k s. (Inr (if s k = None then 0 else 1), s),
     rc_del = \<lambda>k s. (Inr (if s k = None then 0 else 1), s(k := None)),
     rc_pexpire = \<lambda>k t s. (Inr (s k \<noteq> None), s),
     rc_pttl = \<lambda>k s. (Inr (if s k = None then - 2 else - 1), s),
     rc_keys = \<lambda>p s. (Inr [], s),
     rc_scan = \<lambda>c p n s. (Inr (0, []), s),
     rc_hset = \<lambda>k f v s. (Inl ''no hashes'', s),
     rc_hset_many = \<lambda>k fs s. (Inl ''no hashes'', s),
     rc_hget = \<lambda>k f s. (Inr None, s),
     rc_hgetall = \<lambda>k s. (Inr [], s),
     rc_hdel = \<lambda>k f s. (Inr 0, s),
     rc_hexists = \<lambda>k f s. (Inr False, s),
     rc_incr = \<lambda>k s. case counter (s k) of None \<Rightarrow> (Inl ''not an integer'', s)
       | Some n \<Rightarrow> (Inr (n + 1), s(k \<mapsto> to_string (n + 1))),
     rc_incrby = \<lambda>k d s. case counter (s k) of None \<Rightarrow> (Inl ''not an integer'', s)
       | Some n \<Rightarrow> (Inr (n + d), s(k \<mapsto> to_string (n + d))),
     rc_decr = \<lambda>k s. case counter (s k) of None \<Rightarrow> (Inl ''not an integer'', s)
       | Some n \<Rightarrow> (Inr (n - 1), s(k \<mapsto> to_string (n - 1))),
     rc_ping = \<lambda>s. (Inr (), s),
     rc_state = m\<rparr>"

lemma redis_mem_alive: "redis_alive (\<lambda>s. s) (\<lambda>_. True) (redis_mem m)"
  by (auto simp: redis_alive_def redis_documented_def redis_prompt_def redis_mem_def decays_def
      split: option.splits if_splits)

lemma rc_state_redis_mem [simp]: "rc_state (redis_mem m) = m"
  by (simp add: redis_mem_def)

lemma sms_config_default_ok: "sms_config_ok SmsConfig_default"
  by (simp add: sms_config_ok_def sms_ok_def SmsConfig_default_def)

subsection \<open>Properties\<close>

text \<open>The service keeps the codes, counters, locks and send intervals of all scenes and
  numbers apart: no two of the keys it builds are equal unless they are of the same sort, scene
  and number, whatever text is used as the number.\<close>

lemma sms_keys_apart:
  "(CaptchaKey s m = CaptchaKey s' m' \<longleftrightarrow> s = s' \<and> m = m')
   \<and> (VerifyCountKey s m = VerifyCountKey s' m' \<longleftrightarrow> s = s' \<and> m = m')
   \<and> (LockKey s m = LockKey s' m' \<longleftrightarrow> s = s' \<and> m = m')
   \<and> distinct [CaptchaKey s m, VerifyCountKey s' m', LockKey t n, IntervalKey n']"
  by simp

text \<open>C34: While the cache answers and nothing expires, \<open>VerifyCaptcha\<close> does to the cache exactly
  what the specification \<open>verify_spec\<close> says, with the error code it says, never throws, and
  keeps every attempt counter below the limit.\<close>

theorem verify_captcha_refines:
  assumes "redis_alive V up h" and "sms_config_ok config" and "sms_inv config (V (rc_state h))"
  shows "\<exists>r h'. VerifyCaptcha RedisClient_here config scene mobile c h = (Inr r, h')
    \<and> (code r, V (rc_state h')) = verify_spec config scene mobile c (V (rc_state h))
    \<and> redis_alive V up h' \<and> sms_inv config (V (rc_state h'))"
proof -
  obtain r h' where 1: "VerifyCaptcha RedisClient_here config scene mobile c h = (Inr r, h')"
    "redis_alive V up h'" "(code r, V (rc_state h')) = verify_spec config scene mobile c (V (rc_state h))"
    using alive.VerifyCaptcha_live [OF assms] by blast
  moreover have "sms_inv config (V (rc_state h'))"
    using verify_spec_inv [OF assms(3,2), of scene mobile c] by (simp add: 1(3) [symmetric])
  ultimately show ?thesis by blast
qed

theorem verify_captcha_refines_witness:
  "\<exists>r h'. VerifyCaptcha RedisClient_here SmsConfig_default Login ''13800138000'' ''000000''
      (redis_mem [CaptchaKey Login ''13800138000'' \<mapsto> ''123456'']) = (Inr r, h')
    \<and> code r = CaptchaWrong \<and> rc_state h' (VerifyCountKey Login ''13800138000'') = Some ''1''"
proof -
  let ?m = "[CaptchaKey Login ''13800138000'' \<mapsto> ''123456'']"
  have inv: "sms_inv SmsConfig_default ?m"
    by (simp add: sms_inv_def attempts_def SmsConfig_default_def)
  have "to_string 1 = ''1''" by code_simp
  then show ?thesis
    using verify_captcha_refines [of "\<lambda>s. s" "\<lambda>_. True" "redis_mem ?m" SmsConfig_default Login "''13800138000''" "''000000''"]
      redis_mem_alive [of ?m] sms_config_default_ok inv
    by (fastforce simp: verify_spec_def attempts_def SmsConfig_default_def)
qed

text \<open>C33: A code cannot be found by trying: after as many wrong codes as the limit allows, from
  any counter state, the code is gone and the scene is locked for the number, so that every
  further attempt, also with the right code, is refused as \<open>RateLimited\<close>.\<close>

theorem captcha_bruteforce_bounded:
  assumes "redis_alive V up h" and "sms_config_ok config" and "sms_inv config (V (rc_state h))"
    and "V (rc_state h) (CaptchaKey scene mobile) = Some stored"
    and "V (rc_state h) (LockKey scene mobile) = None"
    and "\<forall>c\<in>set cs. c \<noteq> stored" and "max_retry_count config \<le> int (length cs)"
  shows "\<exists>h'. verify_all RedisClient_here config scene mobile cs h = (Inr (), h')
    \<and> V (rc_state h') (CaptchaKey scene mobile) = None
    \<and> (\<forall>c. \<exists>r h''. VerifyCaptcha RedisClient_here config scene mobile c h' = (Inr r, h'') \<and> code r = RateLimited)"
proof -
  obtain n where n: "attempts (V (rc_state h)) scene mobile = Some n" "0 \<le> n" "n < max_retry_count config"
    using assms(3) unfolding sms_inv_def by blast
  obtain h' where h': "verify_all RedisClient_here config scene mobile cs h = (Inr (), h')" "redis_alive V up h'"
    "sms_inv config (V (rc_state h'))" "V (rc_state h') = verify_all_spec config scene mobile cs (V (rc_state h))"
    using verify_all_alive [OF assms(1-3)] by blast
  have locked: "V (rc_state h') (LockKey scene mobile) = Some ''1''" "V (rc_state h') (CaptchaKey scene mobile) = None"
    using verify_all_wrong [OF assms(5,4) n(1) assms(6) n(3)] assms(7) n(2) by (simp_all add: h'(4))
  have "\<exists>r h''. VerifyCaptcha RedisClient_here config scene mobile c h' = (Inr r, h'') \<and> code r = RateLimited" for c
    using alive.VerifyCaptcha_live [OF h'(2) assms(2) h'(3), of scene mobile c] locked(1)
    by (auto simp: verify_spec_def)
  with h'(1) locked(2) show ?thesis by blast
qed

theorem captcha_bruteforce_bounded_witness:
  "\<exists>h'. verify_all RedisClient_here SmsConfig_default Login ''13800138000'' (replicate 5 ''000000'')
      (redis_mem [CaptchaKey Login ''13800138000'' \<mapsto> ''123456'']) = (Inr (), h')
    \<and> rc_state h' (CaptchaKey Login ''13800138000'') = None
    \<and> (\<forall>c. \<exists>r h''. VerifyCaptcha RedisClient_here SmsConfig_default Login ''13800138000'' c h' = (Inr r, h'')
          \<and> code r = RateLimited)"
  by (rule captcha_bruteforce_bounded [OF redis_mem_alive sms_config_default_ok, where stored = "''123456''"])
     (simp_all add: sms_inv_def attempts_def SmsConfig_default_def)

text \<open>C35: Codes are not sent while a scene is locked, nor more than once per interval. While the cache
  answers: if the lock of the scene or the interval mark of the number is in the cache, a request is
  refused as \<open>RateLimited\<close> and changes nothing in it; if neither is, the request succeeds, the code
  that was sent and the interval mark are what it adds, and a further request for the number, for
  any scene, is refused as \<open>RateLimited\<close> and changes nothing.\<close>

theorem send_captcha_throttled:
  assumes "redis_alive V up h" and "sms_config_ok config"
  shows "\<exists>r h'. SendCaptcha RedisClient_here config scene mobile h = (Inr r, h')
    \<and> (if V (rc_state h) (LockKey scene mobile) \<noteq> None \<or> V (rc_state h) (IntervalKey mobile) \<noteq> None
       then code r = RateLimited \<and> V (rc_state h') = V (rc_state h)
       else IsOk r
         \<and> V (rc_state h') = (V (rc_state h))(CaptchaKey scene mobile \<mapsto> ''123456'', IntervalKey mobile \<mapsto> ''1'')
         \<and> (\<exists>r' h''. SendCaptcha RedisClient_here config scene' mobile h' = (Inr r', h'') \<and> code r' = RateLimited
              \<and> V (rc_state h'') = V (rc_state h')))"
proof -
  obtain r h' where 1: "SendCaptcha RedisClient_here config scene mobile h = (Inr r, h')" "redis_alive V up h'"
    "(code r, V (rc_state h')) = send_spec config scene mobile (V (rc_state h))"
    using alive.SendCaptcha_live [OF assms, of scene mobile] by auto
  obtain r' h'' where 2: "SendCaptcha RedisClient_here config scene' mobile h' = (Inr r', h'')"
    "(code r', V (rc_state h'')) = send_spec config scene' mobile (V (rc_state h'))"
    using alive.SendCaptcha_live [OF 1(2) assms(2), of scene' mobile] by auto
  show ?thesis
  proof (cases "V (rc_state h) (LockKey scene mobile) \<noteq> None \<or> V (rc_state h) (IntervalKey mobile) \<noteq> None")
    case True
    then show ?thesis using 1(1,3) by (auto simp: send_spec_def)
  next
    case False
    then have "IsOk r" and v: "V (rc_state h') = (V (rc_state h))(CaptchaKey scene mobile \<mapsto> ''123456'', IntervalKey mobile \<mapsto> ''1'')"
      using 1(3) by (auto simp: send_spec_def IsOk_def)
    moreover have "code r' = RateLimited \<and> V (rc_state h'') = V (rc_state h')" using 2(2) v by (simp add: send_spec_def)
    ultimately show ?thesis unfolding if_not_P [OF False] using 1(1) 2(1) by blast
  qed
qed

theorem send_captcha_throttled_witness:
  "(\<exists>r h'. SendCaptcha RedisClient_here SmsConfig_default Register ''13800138000'' (redis_mem Map.empty) = (Inr r, h')
      \<and> IsOk r \<and> rc_state h' (CaptchaKey Register ''13800138000'') = Some ''123456''
      \<and> (\<exists>r' h''. SendCaptcha RedisClient_here SmsConfig_default Login ''13800138000'' h' = (Inr r', h'')
           \<and> code r' = RateLimited \<and> rc_state h'' = rc_state h'))
   \<and> (\<exists>r h'. SendCaptcha RedisClient_here SmsConfig_default Login ''13800138000''
        (redis_mem [LockKey Login ''13800138000'' \<mapsto> ''1'']) = (Inr r, h') \<and> code r = RateLimited
      \<and> rc_state h' = [LockKey Login ''13800138000'' \<mapsto> ''1''])"
  using send_captcha_throttled [OF redis_mem_alive [of Map.empty] sms_config_default_ok, of Register "''13800138000''" Login]
    send_captcha_throttled [OF redis_mem_alive [of "[LockKey Login ''13800138000'' \<mapsto> ''1'']"] sms_config_default_ok,
      of Login "''13800138000''" Login]
  by (fastforce simp: rc_state_redis_mem)

end
