(* ===== verification/MySQL.thy ===== *)
theory MySQL
  imports Entities
begin

section \<open>The MySQL connection\<close>

text \<open>
  \<open>src/db/mysql_connection.cpp\<close>, \<open>src/db/mysql_result.cpp\<close> and
  \<open>include/exception/mysql_exception.h\<close>: opening a connection with retries, building a
  statement from its placeholders, running it, reading the result, and the exceptions.
  The MySQL C library and the server behind it are a parameter: the record \<open>mysql\<close> holds its
  functions with the state they act on; a \<open>MYSQL*\<close> is a number.
\<close>

subsection \<open>Exceptions\<close>

definition IsRetryable :: "int \<Rightarrow> bool" where
  "IsRetryable e \<longleftrightarrow> e = 1213 \<or> e = 2002 \<or> e = 2003 \<or> e = 2006 \<or> e = 2013"

text \<open>The name of the index in \<open>Duplicate entry '\<dots>' for key 'table.index'\<close>.\<close>

definition ParseKeyName :: "string \<Rightarrow> string" where
  "ParseKeyName msg =
     (case (rfind_char (CHR ''.'') msg, rfind_char (CHR 0x27) msg) of
        (Some dot, Some e) \<Rightarrow> if dot \<ge> e then [] else substr msg (dot + 1) (e - dot - 1)
      | _ \<Rightarrow> [])"

definition mysql_exception :: "int \<Rightarrow> string \<Rightarrow> exn" where
  "mysql_exception err_code err_msg =
     (if err_code = 1062 then MySQLDuplicateKeyException err_code err_msg
      else MySQLException err_code err_msg)"

definition ThrowMySQLException :: "int \<Rightarrow> string \<Rightarrow> ('w, 'a) io" where
  "ThrowMySQLException err_code err_msg = throw (mysql_exception err_code err_msg)"

subsection \<open>The library\<close>

datatype mysql_opt =
    OPT_CONNECT_TIMEOUT int | OPT_READ_TIMEOUT int | OPT_WRITE_TIMEOUT int
  | OPT_RECONNECT bool | SET_CHARSET_NAME string

text \<open>A stored result: the names of the columns and the rows, \<open>NULL\<close> being \<open>None\<close>.\<close>

type_synonym mysql_res = "string list \<times> string option list list"

record 's mysql =
  my_init :: "'s \<Rightarrow> nat option \<times> 's"
  my_options :: "nat \<Rightarrow> mysql_opt \<Rightarrow> 's \<Rightarrow> 's"
  my_real_connect :: "nat \<Rightarrow> MySQLConfig \<Rightarrow> 's \<Rightarrow> bool \<times> 's"
  my_errno :: "nat \<Rightarrow> 's \<Rightarrow> int"
  my_error :: "nat \<Rightarrow> 's \<Rightarrow> string"
  my_close :: "nat \<Rightarrow> 's \<Rightarrow> 's"
  my_ping :: "nat \<Rightarrow> 's \<Rightarrow> bool \<times> 's"
  my_query :: "nat \<Rightarrow> string \<Rightarrow> 's \<Rightarrow> bool \<times> 's"
  my_store_result :: "nat \<Rightarrow> 's \<Rightarrow> mysql_res option \<times> 's"
  my_field_count :: "nat \<Rightarrow> 's \<Rightarrow> nat"
  my_affected_rows :: "nat \<Rightarrow> 's \<Rightarrow> int"
  my_insert_id :: "nat \<Rightarrow> 's \<Rightarrow> int"
  my_escape :: "nat \<Rightarrow> string \<Rightarrow> 's \<Rightarrow> string"
  my_pause :: "int \<Rightarrow> 's \<Rightarrow> 's"
  my_state :: 's

text \<open>\<open>my_real_connect\<close> takes host, user, password, database and port from the configuration;
  \<open>my_ping\<close>, \<open>my_query\<close> and \<open>my_real_connect\<close> give true for success; \<open>my_pause\<close> is
  \<open>std::this_thread::sleep_for\<close>, during which the server may change.\<close>

definition my_call :: "(('s, 'm) mysql_scheme \<Rightarrow> 's \<Rightarrow> 'a \<times> 's) \<Rightarrow> (('s, 'm) mysql_scheme, 'a) io" where
  "my_call f = (\<lambda>h. case f h (my_state h) of (a, s) \<Rightarrow> (Inr a, h\<lparr>my_state := s\<rparr>))"

definition my_do :: "(('s, 'm) mysql_scheme \<Rightarrow> 's \<Rightarrow> 's) \<Rightarrow> (('s, 'm) mysql_scheme, unit) io" where
  "my_do f = (\<lambda>h. (Inr (), h\<lparr>my_state := f h (my_state h)\<rparr>))"

definition my_ask :: "(('s, 'm) mysql_scheme \<Rightarrow> 's \<Rightarrow> 'a) \<Rightarrow> (('s, 'm) mysql_scheme, 'a) io" where
  "my_ask f = (\<lambda>h. (Inr (f h (my_state h)), h))"

subsection \<open>Opening a connection\<close>

definition set_opt :: "nat \<Rightarrow> ('v \<Rightarrow> mysql_opt) \<Rightarrow> 'v option \<Rightarrow> (('s, 'm) mysql_scheme, unit) io" where
  "set_opt m mk v = (case v of None \<Rightarrow> ret () | Some x \<Rightarrow> my_do (\<lambda>h. my_options h m (mk x)))"

text \<open>Gives the handle the source stores in \<open>mysql_\<close>.\<close>

definition InitAndSetOptions :: "MySQLConfig \<Rightarrow> (('s, 'm) mysql_scheme, nat) io" where
  "InitAndSetOptions config =
     bindE (my_call my_init) (\<lambda>p.
     case p of
       None \<Rightarrow> throw (MySQLException 0 ''mysql_init failed: out of memory'')
     | Some m \<Rightarrow>
         bindE (set_opt m (\<lambda>t. OPT_CONNECT_TIMEOUT (t div 1000)) (mysql_connection_timeout_ms config)) (\<lambda>_.
         bindE (set_opt m (\<lambda>t. OPT_READ_TIMEOUT (t div 1000)) (mysql_read_timeout_ms config)) (\<lambda>_.
         bindE (set_opt m (\<lambda>t. OPT_WRITE_TIMEOUT (t div 1000)) (mysql_write_timeout_ms config)) (\<lambda>_.
         bindE (set_opt m OPT_RECONNECT (mysql_auto_reconnect config)) (\<lambda>_.
         bindE (my_do (\<lambda>h. my_options h m (SET_CHARSET_NAME (mysql_charset config)))) (\<lambda>_.
         ret m))))))"

text \<open>The loop of \<open>ConnectWithRetry\<close>, with the attempts that are left and the last error.\<close>

fun retry_loop :: "MySQLConfig \<Rightarrow> nat \<Rightarrow> int \<Rightarrow> string \<Rightarrow> (('s, 'm) mysql_scheme, nat) io" where
  "retry_loop config 0 err_code err_msg =
     throw (MySQLException err_code (''Failed after '' @ to_string (mysql_max_retries config) @
       '' retries: '' @ err_msg))"
| "retry_loop config (Suc n) err_code err_msg =
     bindE (InitAndSetOptions config) (\<lambda>m.
     bindE (my_call (\<lambda>h. my_real_connect h m config)) (\<lambda>connected.
     if connected then ret m
     else
       bindE (my_ask (\<lambda>h. my_errno h m)) (\<lambda>err_code.
       bindE (my_ask (\<lambda>h. my_error h m)) (\<lambda>err_msg.
       bindE (my_do (\<lambda>h. my_close h m)) (\<lambda>_.
       if \<not> IsRetryable err_code then
         throw (MySQLException err_code (''Failed after '' @ to_string (mysql_max_retries config) @
           '' retries: '' @ err_msg))
       else
         bindE (my_do (\<lambda>h. my_pause h (mysql_retry_interval_ms config))) (\<lambda>_.
         retry_loop config n err_code err_msg))))))"

definition ConnectWithRetry :: "MySQLConfig \<Rightarrow> (('s, 'm) mysql_scheme, nat) io" where
  "ConnectWithRetry config = retry_loop config (nat (mysql_max_retries config)) 0 []"

text \<open>The constructor: the handle of the connection it made.\<close>

definition MySQLConnection_new :: "MySQLConfig \<Rightarrow> (('s, 'm) mysql_scheme, nat) io" where
  "MySQLConnection_new config =
     bindE (InitAndSetOptions config) (\<lambda>m.
     bindE (my_call (\<lambda>h. my_real_connect h m config)) (\<lambda>connected.
     if connected then ret m
     else
       bindE (my_ask (\<lambda>h. my_errno h m)) (\<lambda>err_code.
       bindE (my_ask (\<lambda>h. my_error h m)) (\<lambda>err_msg.
       bindE (my_do (\<lambda>h. my_close h m)) (\<lambda>_.
       let should_retry = mysql_auto_reconnect config = Some True \<and> mysql_max_retries config > 0
             \<and> IsRetryable err_code
       in if \<not> should_retry then throw (MySQLException err_code err_msg)
          else ConnectWithRetry config)))))"

definition MySQLConnection_close :: "nat \<Rightarrow> (('s, 'm) mysql_scheme, unit) io" where
  "MySQLConnection_close m = my_do (\<lambda>h. my_close h m)"

definition MySQLConnection_Valid :: "nat \<Rightarrow> (('s, 'm) mysql_scheme, bool) io" where
  "MySQLConnection_Valid m = my_call (\<lambda>h. my_ping h m)"

subsection \<open>Building a statement\<close>

text \<open>A \<open>double\<close>, which no caller uses, is given by the text \<open>std::to_string\<close> makes of it.\<close>

datatype Param = PNull | PInt int | PUInt int | PDouble string | PString string | PBool bool

fun param_sql :: "(string \<Rightarrow> string) \<Rightarrow> Param \<Rightarrow> string" where
  "param_sql esc PNull = ''NULL''"
| "param_sql esc (PString s) = [CHR 0x27] @ esc s @ [CHR 0x27]"
| "param_sql esc (PBool b) = (if b then ''1'' else ''0'')"
| "param_sql esc (PInt n) = to_string n"
| "param_sql esc (PUInt n) = to_string n"
| "param_sql esc (PDouble t) = t"

fun BuildSQL :: "(string \<Rightarrow> string) \<Rightarrow> string \<Rightarrow> Param list \<Rightarrow> string \<Rightarrow> exn + string" where
  "BuildSQL esc [] [] result = Inr result"
| "BuildSQL esc [] (p # ps) result =
     Inl (MySQLBuildException ''Too many parameters for SQL placeholders'')"
| "BuildSQL esc (c # sql) ps result =
     (if c = CHR ''?'' then
        (case ps of
           [] \<Rightarrow> Inl (MySQLBuildException ''Not enough parameters for SQL placeholders'')
         | p # ps' \<Rightarrow> BuildSQL esc sql ps' (result @ param_sql esc p))
      else BuildSQL esc sql ps (result @ [c]))"

subsection \<open>Results\<close>

record MySQLResult =
  mr_result :: "mysql_res option"
  mr_current :: "string option list option"
  mr_row_count :: nat
  mr_field_count :: nat
  mr_col_map :: "string \<rightharpoonup> nat"

text \<open>\<open>mr_result\<close> holds the rows that are not fetched yet, \<open>mr_row_count\<close> what \<open>mysql_num_rows\<close> says of the
  result as it came. Of two columns with the same name the map keeps the later one.\<close>

definition BuildColumnMap :: "string list \<Rightarrow> string \<rightharpoonup> nat" where
  "BuildColumnMap names = map_of (rev (zip names [0..<length names]))"

declare BuildColumnMap_def [simp]

definition MySQLResult_new :: "mysql_res option \<Rightarrow> MySQLResult" where
  "MySQLResult_new res = \<lparr>
     mr_result = res, mr_current = None,
     mr_row_count = (case res of None \<Rightarrow> 0 | Some (names, rows) \<Rightarrow> length rows),
     mr_field_count = (case res of None \<Rightarrow> 0 | Some (names, rows) \<Rightarrow> length names),
     mr_col_map = (case res of None \<Rightarrow> Map.empty
       | Some (names, rows) \<Rightarrow> BuildColumnMap names)\<rparr>"

definition MySQLResult_Next :: "MySQLResult \<Rightarrow> bool \<times> MySQLResult" where
  "MySQLResult_Next r = (case mr_result r of
       None \<Rightarrow> (False, r)
     | Some (names, []) \<Rightarrow> (False, r\<lparr>mr_current := None\<rparr>)
     | Some (names, row # rows) \<Rightarrow> (True, r\<lparr>mr_result := Some (names, rows), mr_current := Some row\<rparr>))"

definition RowCount :: "MySQLResult \<Rightarrow> nat" where
  "RowCount r = (if mr_result r \<noteq> None then mr_row_count r else 0)"

definition FieldCount :: "MySQLResult \<Rightarrow> nat" where
  "FieldCount r = mr_field_count r"

definition MySQLResult_Empty :: "MySQLResult \<Rightarrow> bool" where
  "MySQLResult_Empty r \<longleftrightarrow> mr_result r = None \<or> RowCount r = 0"

definition CheckColumn :: "MySQLResult \<Rightarrow> nat \<Rightarrow> exn + string option list" where
  "CheckColumn r col = (case mr_current r of
       None \<Rightarrow> Inl (MySQLResultException ''No current row, call Next() first'')
     | Some row \<Rightarrow>
         if col \<ge> mr_field_count r then
           Inl (MySQLResultException (''Column index '' @ to_string (int col) @ '' out of range, max is '' @
             to_string (if mr_field_count r = 0 then 2 ^ 64 - 1 else int (mr_field_count r) - 1)))
         else Inr row)"

definition GetColumnIndex :: "MySQLResult \<Rightarrow> string \<Rightarrow> exn + nat" where
  "GetColumnIndex r col_name = (case mr_col_map r col_name of
       None \<Rightarrow> Inl (StdOutOfRange (''Column not found: '' @ col_name))
     | Some i \<Rightarrow> Inr i)"

definition GetString_at :: "MySQLResult \<Rightarrow> nat \<Rightarrow> exn + string option" where
  "GetString_at r col = (case CheckColumn r col of Inl e \<Rightarrow> Inl e | Inr row \<Rightarrow> Inr (row ! col))"

definition GetInt_at :: "MySQLResult \<Rightarrow> nat \<Rightarrow> exn + int option" where
  "GetInt_at r col = (case CheckColumn r col of Inl e \<Rightarrow> Inl e
     | Inr row \<Rightarrow> Inr (map_option strtoll (row ! col)))"

definition IsNull_at :: "MySQLResult \<Rightarrow> nat \<Rightarrow> exn + bool" where
  "IsNull_at r col = (case CheckColumn r col of Inl e \<Rightarrow> Inl e | Inr row \<Rightarrow> Inr (row ! col = None))"

text \<open>\<open>strtod\<close> is an argument: floating-point numbers are not modelled, and no caller asks for one.\<close>

definition GetDouble_at :: "(string \<Rightarrow> 'd) \<Rightarrow> MySQLResult \<Rightarrow> nat \<Rightarrow> exn + 'd option" where
  "GetDouble_at strtod r col = (case CheckColumn r col of Inl e \<Rightarrow> Inl e
     | Inr row \<Rightarrow> Inr (map_option strtod (row ! col)))"

definition GetString :: "MySQLResult \<Rightarrow> string \<Rightarrow> exn + string option" where
  "GetString r col_name = (case GetColumnIndex r col_name of Inl e \<Rightarrow> Inl e | Inr i \<Rightarrow> GetString_at r i)"

definition GetInt :: "MySQLResult \<Rightarrow> string \<Rightarrow> exn + int option" where
  "GetInt r col_name = (case GetColumnIndex r col_name of Inl e \<Rightarrow> Inl e | Inr i \<Rightarrow> GetInt_at r i)"

definition IsNull :: "MySQLResult \<Rightarrow> string \<Rightarrow> exn + bool" where
  "IsNull r col_name = (case GetColumnIndex r col_name of Inl e \<Rightarrow> Inl e | Inr i \<Rightarrow> IsNull_at r i)"

definition GetDouble :: "(string \<Rightarrow> 'd) \<Rightarrow> MySQLResult \<Rightarrow> string \<Rightarrow> exn + 'd option" where
  "GetDouble strtod r col_name = (case GetColumnIndex r col_name of Inl e \<Rightarrow> Inl e | Inr i \<Rightarrow> GetDouble_at strtod r i)"

text \<open>A result has as many rows as \<open>Next\<close> can fetch, and fetching does not change the count.\<close>

lemma RowCount_new: "RowCount (MySQLResult_new (Some (names, rows))) = length rows"
  by (simp add: RowCount_def MySQLResult_new_def)

lemma RowCount_Next: "RowCount (snd (MySQLResult_Next r)) = RowCount r"
  by (auto simp: RowCount_def MySQLResult_Next_def split: option.splits list.splits prod.splits)

subsection \<open>Running a statement\<close>

definition Escape :: "nat \<Rightarrow> (('s, 'm) mysql_scheme, string \<Rightarrow> string) io" where
  "Escape m = my_ask (\<lambda>h s x. my_escape h m x s)"

text \<open>\<open>mysql_query\<close>, and the exception for its error.\<close>

definition run_sql :: "nat \<Rightarrow> string \<Rightarrow> Param list \<Rightarrow> (('s, 'm) mysql_scheme, unit) io" where
  "run_sql m sql params =
     bindE (Escape m) (\<lambda>esc.
     bindE (lift (BuildSQL esc sql params [])) (\<lambda>new_sql.
     bindE (my_call (\<lambda>h. my_query h m new_sql)) (\<lambda>done_ok.
     if \<not> done_ok then
       bindE (my_ask (\<lambda>h. my_errno h m)) (\<lambda>err_code.
       bindE (my_ask (\<lambda>h. my_error h m)) (\<lambda>err_msg.
       ThrowMySQLException err_code err_msg))
     else ret ())))"

definition MySQLConnection_Query :: "nat \<Rightarrow> string \<Rightarrow> Param list \<Rightarrow> (('s, 'm) mysql_scheme, MySQLResult) io" where
  "MySQLConnection_Query m sql params =
     bindE (run_sql m sql params) (\<lambda>_.
     bindE (my_call (\<lambda>h. my_store_result h m)) (\<lambda>res.
     bindE (my_ask (\<lambda>h. my_field_count h m)) (\<lambda>n.
     if res = None \<and> n > 0 then
       bindE (my_ask (\<lambda>h. my_errno h m)) (\<lambda>err_code.
       bindE (my_ask (\<lambda>h. my_error h m)) (\<lambda>err_msg.
       ThrowMySQLException err_code err_msg))
     else ret (MySQLResult_new res))))"

definition MySQLConnection_Execute :: "nat \<Rightarrow> string \<Rightarrow> Param list \<Rightarrow> (('s, 'm) mysql_scheme, int) io" where
  "MySQLConnection_Execute m sql params =
     bindE (run_sql m sql params) (\<lambda>_. my_ask (\<lambda>h. my_affected_rows h m))"

definition LastInsertId :: "nat \<Rightarrow> (('s, 'm) mysql_scheme, int) io" where
  "LastInsertId m = my_ask (\<lambda>h. my_insert_id h m)"

subsection \<open>The index name of a duplicate key\<close>

lemma ParseKeyName_key:
  assumes "CHR ''.'' \<notin> set k" and "CHR 0x27 \<notin> set k"
  shows "ParseKeyName (p @ CHR ''.'' # k @ [CHR 0x27]) = k"
proof -
  have "rfind_char (CHR ''.'') (p @ CHR ''.'' # k @ [CHR 0x27]) = Some (length p)"
    using rfind_char_append [of "CHR ''.''" "k @ [CHR 0x27]" p] assms(1) by simp
  moreover have "rfind_char (CHR 0x27) ((p @ CHR ''.'' # k) @ CHR 0x27 # []) = Some (length (p @ CHR ''.'' # k))"
    by (rule rfind_char_append) simp
  ultimately show ?thesis by (simp add: ParseKeyName_def substr_def)
qed

subsection \<open>What a built statement means\<close>

text \<open>The number of placeholders decides whether a statement can be built.\<close>

fun render :: "(string \<Rightarrow> string) \<Rightarrow> string \<Rightarrow> Param list \<Rightarrow> string" where
  "render esc [] ps = []"
| "render esc (c # sql) ps =
     (if c = CHR ''?'' then (case ps of [] \<Rightarrow> [] | p # ps' \<Rightarrow> param_sql esc p @ render esc sql ps')
      else c # render esc sql ps)"

lemma BuildSQL_render:
  "BuildSQL esc sql ps res = (if length ps = length (filter (\<lambda>c. c = CHR ''?'') sql)
     then Inr (res @ render esc sql ps)
     else Inl (MySQLBuildException (if length ps < length (filter (\<lambda>c. c = CHR ''?'') sql)
       then ''Not enough parameters for SQL placeholders'' else ''Too many parameters for SQL placeholders'')))"
  by (induction esc sql ps res rule: BuildSQL.induct) (auto split: list.splits)

text \<open>How the server reads a statement: a quoted literal up to the closing quote, with the
  backslash sequences and the doubled quote of the MySQL manual; everything else by character.\<close>

definition literal_escape :: "char \<Rightarrow> string" where
  "literal_escape d =
     (if d = CHR ''0'' then [CHR 0x00] else if d = CHR ''n'' then [CHR 0x0A]
      else if d = CHR ''r'' then [CHR 0x0D] else if d = CHR ''t'' then [CHR 0x09]
      else if d = CHR ''b'' then [CHR 0x08] else if d = CHR ''Z'' then [CHR 0x1A]
      else if d = CHR ''%'' \<or> d = CHR ''_'' then [CHR 0x5C, d] else [d])"

fun read_literal :: "string \<Rightarrow> (string \<times> string) option" where
  "read_literal [] = None"
| "read_literal [c] = (if c = CHR 0x27 then Some ([], []) else None)"
| "read_literal (c # d # r) =
     (if c = CHR 0x27 then
        (if d = CHR 0x27 then map_option (\<lambda>(s, r'). (CHR 0x27 # s, r')) (read_literal r)
         else Some ([], d # r))
      else if c = CHR 0x5C then map_option (\<lambda>(s, r'). (literal_escape d @ s, r')) (read_literal r)
      else map_option (\<lambda>(s, r'). (c # s, r')) (read_literal (d # r)))"

lemma read_literal_shorter: "read_literal t = Some (s, r) \<Longrightarrow> length r < length t"
  by (induction t arbitrary: s r rule: read_literal.induct) (fastforce split: if_splits)+

datatype token = Ch char | Lit string

function tokens :: "string \<Rightarrow> token list option" where
  "tokens [] = Some []"
| "tokens (c # t) =
     (if c = CHR 0x27 then
        (case read_literal t of None \<Rightarrow> None | Some (s, r) \<Rightarrow> map_option ((#) (Lit s)) (tokens r))
      else map_option ((#) (Ch c)) (tokens t))"
  by pat_completeness auto
termination
  by (relation "measure length") (auto dest!: read_literal_shorter)

fun param_tokens :: "Param \<Rightarrow> token list" where
  "param_tokens (PString s) = [Lit s]"
| "param_tokens p = map Ch (param_sql (\<lambda>s. s) p)"

fun template_tokens :: "string \<Rightarrow> Param list \<Rightarrow> token list" where
  "template_tokens [] ps = []"
| "template_tokens (c # sql) ps =
     (if c = CHR ''?'' then (case ps of [] \<Rightarrow> [] | p # ps' \<Rightarrow> param_tokens p @ template_tokens sql ps')
      else Ch c # template_tokens sql ps)"

text \<open>What the manual promises of \<open>mysql_real_escape_string\<close>: between quotes, its result is read
  back as the original text.\<close>

definition escape_documented :: "(string \<Rightarrow> string) \<Rightarrow> bool" where
  "escape_documented esc \<longleftrightarrow>
     (\<forall>s r. (case r of [] \<Rightarrow> True | c # _ \<Rightarrow> c \<noteq> CHR 0x27) \<longrightarrow> read_literal (esc s @ CHR 0x27 # r) = Some (s, r))"

text \<open>A template has no quotes of its own and no two placeholders side by side.\<close>

fun good_template :: "string \<Rightarrow> bool" where
  "good_template [] = True"
| "good_template (c # sql) \<longleftrightarrow> c \<noteq> CHR 0x27 \<and> good_template sql
     \<and> (c = CHR ''?'' \<longrightarrow> (case sql of [] \<Rightarrow> True | d # _ \<Rightarrow> d \<noteq> CHR ''?''))"

fun good_param :: "Param \<Rightarrow> bool" where
  "good_param (PDouble t) = (CHR 0x27 \<notin> set t)"
| "good_param _ = True"

lemma tokens_plain: "CHR 0x27 \<notin> set t \<Longrightarrow> tokens (t @ r) = map_option ((@) (map Ch t)) (tokens r)"
  by (cases "tokens r"; induction t) auto

lemma no_quote_to_string: "CHR 0x27 \<notin> set (to_string n)"
  using to_string_chars [of "CHR 0x27" n] by (auto simp: isdigit_def)

lemma render_follow:
  assumes "good_template (CHR ''?'' # sql)"
  shows "case render esc sql ps of [] \<Rightarrow> True | c # _ \<Rightarrow> c \<noteq> CHR 0x27"
  using assms by (cases sql) auto

lemma tokens_render:
  assumes "escape_documented esc" and "good_template sql" and "\<forall>p\<in>set ps. good_param p"
    and "length ps = length (filter (\<lambda>c. c = CHR ''?'') sql)"
  shows "tokens (render esc sql ps) = Some (template_tokens sql ps)"
  using assms(2-)
proof (induction sql arbitrary: ps)
  case (Cons c sql)
  show ?case
  proof (cases "c = CHR ''?''")
    case True
    with Cons.prems obtain p ps' where ps: "ps = p # ps'" by (cases ps) auto
    have IH: "tokens (render esc sql ps') = Some (template_tokens sql ps')"
      using Cons.IH [of ps'] Cons.prems True ps by simp
    show ?thesis
    proof (cases p)
      case (PString s)
      have "case render esc sql ps' of [] \<Rightarrow> True | c # _ \<Rightarrow> c \<noteq> CHR 0x27"
        using render_follow Cons.prems(1) True by blast
      then have "read_literal (esc s @ CHR 0x27 # render esc sql ps') = Some (s, render esc sql ps')"
        using assms(1) unfolding escape_documented_def by blast
      then show ?thesis using True ps PString IH by simp
    qed (use True ps IH Cons.prems(2) in
        \<open>auto simp: tokens_plain no_quote_to_string\<close>)
  next
    case False
    then show ?thesis using Cons by simp
  qed
qed simp

text \<open>The escaping of the manual: NUL, newline, carriage return, backslash, both quotes, Ctrl-Z.\<close>

definition manual_escape_char :: "char \<Rightarrow> string" where
  "manual_escape_char c =
     (if c = CHR 0x00 then [CHR 0x5C, CHR ''0''] else if c = CHR 0x0A then [CHR 0x5C, CHR ''n'']
      else if c = CHR 0x0D then [CHR 0x5C, CHR ''r''] else if c = CHR 0x1A then [CHR 0x5C, CHR ''Z'']
      else if c = CHR 0x5C \<or> c = CHR 0x27 \<or> c = CHR 0x22 then [CHR 0x5C, c] else [c])"

definition manual_escape :: "string \<Rightarrow> string" where
  "manual_escape s = concat (map manual_escape_char s)"

lemma manual_escape_documented: "escape_documented manual_escape"
  unfolding escape_documented_def
proof (intro allI impI)
  fix s r :: string
  assume r: "case r of [] \<Rightarrow> True | c # _ \<Rightarrow> c \<noteq> CHR 0x27"
  show "read_literal (manual_escape s @ CHR 0x27 # r) = Some (s, r)"
  proof (induction s)
    case Nil
    then show ?case using r by (cases r) (simp_all add: manual_escape_def)
  next
    case (Cons c s)
    obtain d t where rest: "manual_escape s @ CHR 0x27 # r = d # t"
      by (cases "manual_escape s @ CHR 0x27 # r") auto
    have "manual_escape (c # s) @ CHR 0x27 # r = manual_escape_char c @ d # t"
      by (simp add: manual_escape_def rest [unfolded manual_escape_def, symmetric])
    with Cons rest show ?case by (simp add: manual_escape_char_def literal_escape_def)
  qed
qed

subsection \<open>Handles and attempts\<close>

text \<open>What the C library promises of its handles: \<open>mysql_init\<close> gives a new one, \<open>mysql_close\<close>
  takes it away, nothing else changes which are open; and \<open>tries\<close> counts the calls of
  \<open>mysql_real_connect\<close>.\<close>

definition mysql_handles :: "('s \<Rightarrow> nat set) \<Rightarrow> ('s \<Rightarrow> nat) \<Rightarrow> ('s, 'm) mysql_scheme \<Rightarrow> bool" where
  "mysql_handles opn tries h \<longleftrightarrow>
     (\<forall>s p s'. my_init h s = (p, s') \<longrightarrow> tries s' = tries s \<and>
        (case p of None \<Rightarrow> opn s' = opn s | Some m \<Rightarrow> m \<notin> opn s \<and> opn s' = insert m (opn s))) \<and>
     (\<forall>m o' s. opn (my_options h m o' s) = opn s \<and> tries (my_options h m o' s) = tries s) \<and>
     (\<forall>m c s b s'. my_real_connect h m c s = (b, s') \<longrightarrow> opn s' = opn s \<and> tries s' = tries s + 1) \<and>
     (\<forall>m s. opn (my_close h m s) = opn s - {m} \<and> tries (my_close h m s) = tries s) \<and>
     (\<forall>t s. opn (my_pause h t s) = opn s \<and> tries (my_pause h t s) = tries s)"

lemma mysql_handles_state [simp]:
  "mysql_handles opn tries (h\<lparr>my_state := s\<rparr>) = mysql_handles opn tries h"
  by (simp add: mysql_handles_def)

text \<open>The outcome of an attempt to open a connection that tries to connect at most \<open>n\<close> times.\<close>

definition opened :: "('s \<Rightarrow> nat set) \<Rightarrow> ('s \<Rightarrow> nat) \<Rightarrow> nat \<Rightarrow> ('s, 'm) mysql_scheme
    \<Rightarrow> (exn + nat) \<times> ('s, 'm) mysql_scheme \<Rightarrow> bool" where
  "opened opn tries n h r \<longleftrightarrow> (case r of (v, h') \<Rightarrow>
     mysql_handles opn tries h' \<and> tries (my_state h') \<le> tries (my_state h) + n \<and>
     (case v of Inr m \<Rightarrow> m \<notin> opn (my_state h) \<and> opn (my_state h') = insert m (opn (my_state h))
      | Inl e \<Rightarrow> opn (my_state h') = opn (my_state h)))"

lemma set_opt_run:
  assumes "mysql_handles opn tries h"
  shows "\<exists>h'. set_opt m mk v h = (Inr (), h') \<and> mysql_handles opn tries h'
    \<and> opn (my_state h') = opn (my_state h) \<and> tries (my_state h') = tries (my_state h)"
  using assms by (cases v) (auto simp: set_opt_def ret_def my_do_def mysql_handles_def)

lemma InitAndSetOptions_opened:
  assumes "mysql_handles opn tries h"
  shows "opened opn tries 0 h (InitAndSetOptions config h)"
proof -
  obtain p s where i: "my_init h (my_state h) = (p, s)" by fastforce
  let ?h = "h\<lparr>my_state := s\<rparr>"
  have eff: "tries s = tries (my_state h)"
    "case p of None \<Rightarrow> opn s = opn (my_state h) | Some m \<Rightarrow> m \<notin> opn (my_state h) \<and> opn s = insert m (opn (my_state h))"
    using assms i unfolding mysql_handles_def by (metis)+
  show ?thesis
  proof (cases p)
    case None
    then show ?thesis using i eff assms
      by (simp add: InitAndSetOptions_def my_call_def bindE_def throw_def opened_def)
  next
    case (Some m)
    have h0: "mysql_handles opn tries ?h" using assms by simp
    obtain h1 where 1: "set_opt m (\<lambda>t. OPT_CONNECT_TIMEOUT (t div 1000)) (mysql_connection_timeout_ms config) ?h = (Inr (), h1)"
      "mysql_handles opn tries h1" "opn (my_state h1) = opn s" "tries (my_state h1) = tries s"
      using set_opt_run [OF h0] by fastforce
    obtain h2 where 2: "set_opt m (\<lambda>t. OPT_READ_TIMEOUT (t div 1000)) (mysql_read_timeout_ms config) h1 = (Inr (), h2)"
      "mysql_handles opn tries h2" "opn (my_state h2) = opn s" "tries (my_state h2) = tries s"
      using set_opt_run [OF 1(2)] 1 by fastforce
    obtain h3 where 3: "set_opt m (\<lambda>t. OPT_WRITE_TIMEOUT (t div 1000)) (mysql_write_timeout_ms config) h2 = (Inr (), h3)"
      "mysql_handles opn tries h3" "opn (my_state h3) = opn s" "tries (my_state h3) = tries s"
      using set_opt_run [OF 2(2)] 2 by fastforce
    obtain h4 where 4: "set_opt m OPT_RECONNECT (mysql_auto_reconnect config) h3 = (Inr (), h4)"
      "mysql_handles opn tries h4" "opn (my_state h4) = opn s" "tries (my_state h4) = tries s"
      using set_opt_run [OF 3(2)] 3 by fastforce
    let ?h5 = "h4\<lparr>my_state := my_options h4 m (SET_CHARSET_NAME (mysql_charset config)) (my_state h4)\<rparr>"
    have "opn (my_state ?h5) = opn s" "tries (my_state ?h5) = tries s" "mysql_handles opn tries ?h5"
      using 4 by (simp_all add: mysql_handles_def)
    then show ?thesis using Some i 1(1) 2(1) 3(1) 4(1) eff
      by (simp add: InitAndSetOptions_def my_call_def bindE_def ret_def my_do_def opened_def)
  qed
qed

text \<open>The part that the constructor and the retry loop share: connect, or close the handle.\<close>

definition try_connect :: "MySQLConfig \<Rightarrow> (int \<Rightarrow> string \<Rightarrow> (('s, 'm) mysql_scheme, nat) io)
    \<Rightarrow> (('s, 'm) mysql_scheme, nat) io" where
  "try_connect config failed =
     bindE (InitAndSetOptions config) (\<lambda>m.
     bindE (my_call (\<lambda>h. my_real_connect h m config)) (\<lambda>connected.
     if connected then ret m
     else
       bindE (my_ask (\<lambda>h. my_errno h m)) (\<lambda>err_code.
       bindE (my_ask (\<lambda>h. my_error h m)) (\<lambda>err_msg.
       bindE (my_do (\<lambda>h. my_close h m)) (\<lambda>_. failed err_code err_msg)))))"

lemma try_connect_opened:
  assumes h: "mysql_handles opn tries h"
    and failed: "\<And>c e h'. mysql_handles opn tries h' \<Longrightarrow> opened opn tries n h' (failed c e h')"
  shows "opened opn tries (Suc n) h (try_connect config failed h)"
proof -
  obtain v h1 where v: "InitAndSetOptions config h = (v, h1)" by fastforce
  note o1 = InitAndSetOptions_opened [OF h, of config, unfolded v opened_def prod.case]
  show ?thesis
  proof (cases v)
    case (Inl e)
    then show ?thesis using v o1 by (simp add: try_connect_def bindE_def opened_def)
  next
    case (Inr m)
    obtain b s where c: "my_real_connect h1 m config (my_state h1) = (b, s)" by fastforce
    have h1: "mysql_handles opn tries h1" and op1: "opn (my_state h1) = insert m (opn (my_state h))"
      and fresh: "m \<notin> opn (my_state h)" and t1: "tries (my_state h1) \<le> tries (my_state h)"
      using o1 Inr by auto
    have cs: "opn s = opn (my_state h1)" "tries s = tries (my_state h1) + 1"
      using h1 c unfolding mysql_handles_def by metis+
    show ?thesis
    proof (cases b)
      case True
      then show ?thesis using v Inr c cs op1 fresh t1 h1
        by (simp add: try_connect_def bindE_def my_call_def ret_def opened_def)
    next
      case False
      let ?h2 = "h1\<lparr>my_state := my_close h1 m s\<rparr>"
      have cl: "opn (my_state ?h2) = opn (my_state h)" "tries (my_state ?h2) = tries s" "mysql_handles opn tries ?h2"
        using h1 cs op1 fresh by (auto simp: mysql_handles_def)
      have run: "try_connect config failed h = failed (my_errno h1 m s) (my_error h1 m s) ?h2"
        using v Inr c False
        by (simp add: try_connect_def bindE_def my_call_def my_ask_def my_do_def)
      show ?thesis
        using failed [OF cl(3), of "my_errno h1 m s" "my_error h1 m s"] cl(1,2) cs t1
        unfolding run by (auto simp: opened_def split: prod.splits sum.splits)
    qed
  qed
qed

lemma opened_throw: "mysql_handles opn tries h \<Longrightarrow> opened opn tries n h (throw e h)"
  by (simp add: opened_def throw_def)

lemma opened_cong:
  assumes "opn (my_state h1) = opn (my_state h2)" and "tries (my_state h1) = tries (my_state h2)"
  shows "opened opn tries n h1 r = opened opn tries n h2 r"
  unfolding opened_def assms by (rule refl)

lemma retry_loop_opened:
  "mysql_handles opn tries h \<Longrightarrow> opened opn tries n h (retry_loop config n c e h)"
proof (induction n arbitrary: h c e)
  case 0
  then show ?case by (simp add: opened_throw)
next
  case (Suc n)
  have step: "retry_loop config (Suc n) c e = try_connect config (\<lambda>c e.
      if \<not> IsRetryable c then
        throw (MySQLException c (''Failed after '' @ to_string (mysql_max_retries config) @ '' retries: '' @ e))
      else bindE (my_do (\<lambda>h. my_pause h (mysql_retry_interval_ms config))) (\<lambda>_. retry_loop config n c e))"
    by (simp add: try_connect_def)
  show ?case unfolding step
  proof (rule try_connect_opened [OF Suc.prems])
    fix c e and h' :: "('a, 'b) mysql_scheme"
    assume h': "mysql_handles opn tries h'"
    let ?h'' = "h'\<lparr>my_state := my_pause h' (mysql_retry_interval_ms config) (my_state h')\<rparr>"
    have p: "opn (my_state ?h'') = opn (my_state h')" "tries (my_state ?h'') = tries (my_state h')"
      "mysql_handles opn tries ?h''"
      using h' by (simp_all add: mysql_handles_def)
    show "opened opn tries n h' ((if \<not> IsRetryable c then
        throw (MySQLException c (''Failed after '' @ to_string (mysql_max_retries config) @ '' retries: '' @ e))
      else bindE (my_do (\<lambda>h. my_pause h (mysql_retry_interval_ms config))) (\<lambda>_. retry_loop config n c e)) h')"
      using Suc.IH [OF p(3), of c e] opened_throw [OF h'] opened_cong [of opn ?h'' h' tries, OF p(1,2)]
      by (simp add: bindE_def my_do_def)
  qed
qed

lemma MySQLConnection_new_opened:
  assumes "mysql_handles opn tries h"
  shows "opened opn tries (Suc (nat (mysql_max_retries config))) h (MySQLConnection_new config h)"
proof -
  have step: "MySQLConnection_new config = try_connect config (\<lambda>c e.
      if \<not> (mysql_auto_reconnect config = Some True \<and> mysql_max_retries config > 0 \<and> IsRetryable c)
      then throw (MySQLException c e) else ConnectWithRetry config)"
    by (simp only: MySQLConnection_new_def try_connect_def Let_def)
  show ?thesis unfolding step
    by (rule try_connect_opened [OF assms])
       (auto simp: ConnectWithRetry_def opened_throw retry_loop_opened)
qed

subsection \<open>Properties\<close>

text \<open>C12: No parameter can change the shape of a statement: read by the server's rules for quoted
  literals, the statement \<open>BuildSQL\<close> makes of a template is the template's own characters with
  each string parameter as exactly one literal with exactly its text, and each other parameter
  as its digits. Placeholders and parameters must agree in number, otherwise nothing is built.\<close>

theorem sql_parameters_are_literals:
  assumes "escape_documented esc" and "good_template sql" and "\<forall>p\<in>set ps. good_param p"
  shows "(if length ps = length (filter (\<lambda>c. c = CHR ''?'') sql)
     then \<exists>text. BuildSQL esc sql ps [] = Inr text \<and> tokens text = Some (template_tokens sql ps)
     else \<exists>msg. BuildSQL esc sql ps [] = Inl (MySQLBuildException msg))"
  using tokens_render [OF assms] by (simp add: BuildSQL_render)

theorem sql_parameters_are_literals_witness:
  "\<exists>text. BuildSQL manual_escape ''SELECT * FROM users WHERE mobile = ?''
      [PString ([CHR 0x27] @ '' OR 1=1 -- '')] [] = Inr text
    \<and> tokens text = Some (map Ch ''SELECT * FROM users WHERE mobile = '' @ [Lit ([CHR 0x27] @ '' OR 1=1 -- '')])"
  using sql_parameters_are_literals [OF manual_escape_documented,
      of "''SELECT * FROM users WHERE mobile = ?''" "[PString ([CHR 0x27] @ '' OR 1=1 -- '')]"]
  by simp

text \<open>C36: Opening a connection ends after at most one attempt more than the configured retries and
  leaks no handle: on success exactly the returned handle is open in addition, on every error
  path (out of memory, refused, retries exhausted or hopeless) none is.\<close>

theorem connect_bounded_and_no_leak:
  assumes "mysql_handles opn tries h" and "MySQLConnection_new config h = (r, h')"
  shows "tries (my_state h') \<le> tries (my_state h) + nat (mysql_max_retries config) + 1
    \<and> (case r of Inr m \<Rightarrow> m \<notin> opn (my_state h) \<and> opn (my_state h') = insert m (opn (my_state h))
       | Inl e \<Rightarrow> opn (my_state h') = opn (my_state h))"
  using MySQLConnection_new_opened [OF assms(1), of config] assms(2) by (simp add: opened_def)

text \<open>A library on a state of open handles and attempts, whose server refuses every connection.\<close>

definition mysql_refusing :: "(nat list \<times> nat) mysql" where
  "mysql_refusing = \<lparr>
     my_init = \<lambda>(hs, n). let m = Suc (Max (insert 0 (set hs))) in (Some m, (m # hs, n)),
     my_options = \<lambda>m x s. s,
     my_real_connect = \<lambda>m c (hs, n). (False, (hs, n + 1)),
     my_errno = \<lambda>m s. 2003, my_error = \<lambda>m s. ''refused'',
     my_close = \<lambda>m (hs, n). (removeAll m hs, n),
     my_ping = \<lambda>m s. (False, s), my_query = \<lambda>m q s. (False, s), my_store_result = \<lambda>m s. (None, s),
     my_field_count = \<lambda>m s. 0, my_affected_rows = \<lambda>m s. 0, my_insert_id = \<lambda>m s. 0,
     my_escape = \<lambda>m x s. manual_escape x, my_pause = \<lambda>t s. s, my_state = ([], 0)\<rparr>"

lemma mysql_refusing_handles: "mysql_handles (\<lambda>s. set (fst s)) snd mysql_refusing"
proof -
  have "Suc (Max (insert 0 (set hs))) \<notin> set hs" for hs :: "nat list"
  proof
    assume "Suc (Max (insert 0 (set hs))) \<in> set hs"
    then have "Suc (Max (insert 0 (set hs))) \<le> Max (insert 0 (set hs))" by (intro Max_ge) auto
    then show False by simp
  qed
  then show ?thesis by (auto simp: mysql_handles_def mysql_refusing_def Let_def)
qed

theorem connect_bounded_and_no_leak_witness:
  "\<exists>r h'. MySQLConnection_new (MySQLConfig_default\<lparr>mysql_auto_reconnect := Some True\<rparr>) mysql_refusing = (r, h')
    \<and> snd (my_state h') \<le> 4
    \<and> (case r of Inr m \<Rightarrow> m \<notin> {} \<and> set (fst (my_state h')) = {m} | Inl e \<Rightarrow> fst (my_state h') = [])"
proof -
  obtain r h' where run: "MySQLConnection_new (MySQLConfig_default\<lparr>mysql_auto_reconnect := Some True\<rparr>) mysql_refusing
      = (r, h')" by fastforce
  show ?thesis
    using connect_bounded_and_no_leak [OF mysql_refusing_handles run] run
    by (auto simp: mysql_refusing_def MySQLConfig_default_def split: sum.splits)
qed

end
