(* ===== verification/Pool.thy ===== *)
theory Pool
  imports MySQL
begin

section \<open>The connection pool\<close>

text \<open>
  \<open>include/pool/connection_pool.h\<close>, for the connections of MySQL: the idle connections as a
  queue, taking one out and giving it back with the check and the reconnection the code does,
  the guard that gives it back, and the pool under concurrent use as a step relation.
\<close>

subsection \<open>The pool\<close>

record 's pool = "'s mysql" +
  pl_config :: MySQLConfig
  pl_idle :: "nat list"

text \<open>\<open>createConnFunc_\<close> is the function the server builder gives, \<open>make_unique<MySQLConnection>\<close>.
  The new connection exists before the old one is closed; if it cannot be made, the old one is
  closed when the exception leaves the function.\<close>

definition rebuild :: "nat \<Rightarrow> ('s pool, nat) io" where
  "rebuild m = (\<lambda>h. case MySQLConnection_new (pl_config h) h of
       (Inl e, h') \<Rightarrow> bindE (MySQLConnection_close m) (\<lambda>_. throw e) h'
     | (Inr m', h') \<Rightarrow> bindE (MySQLConnection_close m) (\<lambda>_. ret m') h')"

text \<open>\<open>Acquire\<close> as one thread runs it. An empty pool is waited for during five seconds; that
  another thread gives a connection back meanwhile is a step of the relation below.\<close>

definition Acquire :: "('s pool, nat option) io" where
  "Acquire = (\<lambda>h. case pl_idle h of
       [] \<Rightarrow> bindE (my_do (\<lambda>h. my_pause h 5000)) (\<lambda>_. ret None) h
     | m # ms \<Rightarrow>
         bindE (MySQLConnection_Valid m) (\<lambda>valid.
         if \<not> valid then bindE (rebuild m) (\<lambda>m'. ret (Some m'))
         else ret (Some m)) (h\<lparr>pl_idle := ms\<rparr>))"

definition Release :: "nat \<Rightarrow> ('s pool, unit) io" where
  "Release m =
     bindE (MySQLConnection_Valid m) (\<lambda>valid.
     bindE (if \<not> valid then rebuild m else ret m) (\<lambda>m'.
     (\<lambda>h. (Inr (), h\<lparr>pl_idle := pl_idle h @ [m']\<rparr>))))"

text \<open>The constructor of the guard.\<close>

definition CreateConnection :: "('s pool, nat) io" where
  "CreateConnection = bindE Acquire (\<lambda>conn. case conn of
       None \<Rightarrow> throw (RuntimeError ''Failed to acquire connection in ConnectionGuard'')
     | Some m \<Rightarrow> ret m)"

text \<open>The destructor of the guard: an exception that leaves a destructor ends the program.\<close>

definition ConnectionGuard_delete :: "nat \<Rightarrow> ('s pool, unit) io" where
  "ConnectionGuard_delete m = (\<lambda>h. case Release m h of
       (Inl e, h') \<Rightarrow> (Inl Terminate, h') | (Inr u, h') \<Rightarrow> (Inr u, h'))"

text \<open>The loop of \<open>InitPool\<close>, \<open>n\<close> connections to go. When one cannot be made the constructor of
  the pool fails and the queue closes what it holds.\<close>

definition close_all :: "nat list \<Rightarrow> ('s pool, unit) io" where
  "close_all ms = fold (\<lambda>m k. bindE k (\<lambda>_. MySQLConnection_close m)) ms (ret ())"

fun InitPool :: "nat \<Rightarrow> ('s pool, unit) io" where
  "InitPool 0 = ret ()"
| "InitPool (Suc n) = (\<lambda>h. case MySQLConnection_new (pl_config h) h of
       (Inl e, h') \<Rightarrow> bindE (close_all (pl_idle h')) (\<lambda>_. throw e) (h'\<lparr>pl_idle := []\<rparr>)
     | (Inr m, h') \<Rightarrow> InitPool n (h'\<lparr>pl_idle := pl_idle h' @ [m]\<rparr>))"

definition TemplateConnectionPool_new :: "Config option \<Rightarrow> ('s pool, unit) io" where
  "TemplateConnectionPool_new global_config = (case global_config of
       None \<Rightarrow> throw (StdInvalidArgument ''TemplateConnectionPool: global_config is nullptr'')
     | Some cfg \<Rightarrow> (\<lambda>h. InitPool (nat (mysql_pool_size (cfg_mysql cfg)))
                        (h\<lparr>pl_config := cfg_mysql cfg, pl_idle := []\<rparr>)))"

subsection \<open>The pool under concurrent use\<close>

text \<open>The mutex makes each of \<open>Acquire\<close> and \<open>Release\<close> one step. A state is the pool with the
  connection each live guard holds; one thread may own several guards. A guard without a
  connection is one that was not made yet, failed to be made, or is gone. Between these steps a
  guard's owner runs statements on its own connection, and a wait for an idle connection ends
  with the time-out. An exception in the destructor of a guard ends the program: no step.\<close>

type_synonym 's pool_sys = "'s pool \<times> (nat \<rightharpoonup> nat)"

inductive pool_step :: "'s pool_sys \<Rightarrow> 's pool_sys \<Rightarrow> bool" where
  acquired: "held g = None \<Longrightarrow> pl_idle h \<noteq> [] \<Longrightarrow> Acquire h = (Inr (Some m), h') \<Longrightarrow>
    pool_step (h, held) (h', held(g \<mapsto> m))"
| acquire_failed: "held g = None \<Longrightarrow> pl_idle h \<noteq> [] \<Longrightarrow> Acquire h = (Inl e, h') \<Longrightarrow>
    pool_step (h, held) (h', held)"
| timed_out: "held g = None \<Longrightarrow> pl_idle h = [] \<Longrightarrow> Acquire h = (Inr None, h') \<Longrightarrow>
    pool_step (h, held) (h', held)"
| released: "held g = Some m \<Longrightarrow> Release m h = (Inr (), h') \<Longrightarrow>
    pool_step (h, held) (h', held(g := None))"
| queries: "held g = Some m \<Longrightarrow> MySQLConnection_Query m sql ps h = (r, h') \<Longrightarrow>
    pool_step (h, held) (h', held)"
| executes: "held g = Some m \<Longrightarrow> MySQLConnection_Execute m sql ps h = (r', h') \<Longrightarrow>
    pool_step (h, held) (h', held)"
| pings: "held g = Some m \<Longrightarrow> MySQLConnection_Valid m h = (b, h') \<Longrightarrow>
    pool_step (h, held) (h', held)"

text \<open>What the statements of an open connection leave alone.\<close>

definition mysql_uses :: "('s \<Rightarrow> nat set) \<Rightarrow> ('s, 'm) mysql_scheme \<Rightarrow> bool" where
  "mysql_uses opn h \<longleftrightarrow>
     (\<forall>m s. opn (snd (my_ping h m s)) = opn s) \<and>
     (\<forall>m q s. opn (snd (my_query h m q s)) = opn s) \<and>
     (\<forall>m s. opn (snd (my_store_result h m s)) = opn s)"

text \<open>The invariant: idle and held connections are pairwise different and are exactly those opened
  since the pool was made, and there are never more than were made.\<close>

definition pool_inv :: "('s \<Rightarrow> nat set) \<Rightarrow> ('s \<Rightarrow> nat) \<Rightarrow> nat set \<Rightarrow> nat \<Rightarrow> 's pool_sys \<Rightarrow> bool" where
  "pool_inv opn tries base n = (\<lambda>(h, held).
     mysql_handles opn tries h \<and> mysql_uses opn h \<and>
     distinct (pl_idle h) \<and> inj_on held (dom held) \<and> finite (dom held) \<and>
     set (pl_idle h) \<inter> ran held = {} \<and> (set (pl_idle h) \<union> ran held) \<inter> base = {} \<and>
     opn (my_state h) = base \<union> set (pl_idle h) \<union> ran held \<and>
     length (pl_idle h) + card (dom held) \<le> n)"


subsection \<open>Only the state of the library changes\<close>

text \<open>A call of the library changes nothing of the pool but the state behind the library.\<close>

definition framed :: "(('s, 'm) mysql_scheme, 'a) io \<Rightarrow> bool" where
  "framed c \<longleftrightarrow> (\<forall>h r h'. c h = (r, h') \<longrightarrow> h' = h\<lparr>my_state := my_state h'\<rparr>)"

lemma framedD: "framed c \<Longrightarrow> c h = (r, h') \<Longrightarrow> h' = h\<lparr>my_state := my_state h'\<rparr>"
  by (simp add: framed_def)

lemma framed_basic [simp, intro]:
  "framed (ret a)" "framed (throw e)" "framed (lift r)" "framed (my_ask q)"
  "framed (my_do d)" "framed (my_call c)"
  by (auto simp: framed_def ret_def throw_def lift_def my_ask_def my_do_def my_call_def split: prod.splits)

lemma framed_bindE [intro]:
  assumes c: "framed c" and f: "\<And>a. framed (f a)"
  shows "framed (bindE c f)"
  unfolding framed_def
proof (intro allI impI)
  fix h r h'
  assume run: "bindE c f h = (r, h')"
  obtain v h1 where 1: "c h = (v, h1)" by fastforce
  note h1 = framedD [OF c 1]
  show "h' = h\<lparr>my_state := my_state h'\<rparr>"
  proof (cases v)
    case (Inl e)
    then show ?thesis using run 1 h1 by (simp add: bindE_def)
  next
    case (Inr a)
    then have "f a h1 = (r, h')" using run 1 by (simp add: bindE_def)
    then have "h' = h1\<lparr>my_state := my_state h'\<rparr>" by (rule framedD [OF f])
    then show ?thesis using h1 by (metis mysql.surjective mysql.update_convs(15))
  qed
qed

lemma framed_split [intro]:
  "framed c \<Longrightarrow> framed d \<Longrightarrow> framed (if b then c else d)"
  "framed c \<Longrightarrow> (\<And>x. framed (f x)) \<Longrightarrow> framed (case v of None \<Rightarrow> c | Some x \<Rightarrow> f x)"
  by (auto split: option.splits)

lemma framed_set_opt [intro]: "framed (set_opt m mk v)"
  unfolding set_opt_def by (intro framed_split framed_basic)

lemma framed_init [intro]: "framed (InitAndSetOptions config)"
  unfolding InitAndSetOptions_def by (intro framed_bindE framed_split framed_basic framed_set_opt)

lemma framed_retry [intro]: "framed (retry_loop config n c e)"
proof (induction n arbitrary: c e)
  case 0
  show ?case unfolding retry_loop.simps by (rule framed_basic)
next
  case (Suc n)
  show ?case unfolding retry_loop.simps
    by (intro framed_bindE framed_split framed_basic framed_init Suc)
qed

lemma framed_connection [intro]:
  "framed (MySQLConnection_new config)" "framed (MySQLConnection_close m)"
  "framed (MySQLConnection_Valid m)" "framed (MySQLConnection_Query m sql ps)"
  "framed (MySQLConnection_Execute m sql ps)"
  unfolding MySQLConnection_new_def ConnectWithRetry_def Let_def MySQLConnection_close_def
    MySQLConnection_Valid_def MySQLConnection_Query_def MySQLConnection_Execute_def run_sql_def
    Escape_def ThrowMySQLException_def
  by (intro framed_bindE framed_split framed_basic framed_init framed_retry)+

text \<open>What a framed call leaves alone.\<close>

lemma framed_keeps:
  fixes h h' :: "'s pool"
  assumes "framed c" and "c h = (r, h')"
  shows "pl_idle h' = pl_idle h" and "pl_config h' = pl_config h"
    and "mysql_uses opn h' = mysql_uses opn h" and "mysql_handles opn tries h' = mysql_handles opn tries h"
proof -
  obtain s where "h' = h\<lparr>my_state := s\<rparr>" using framedD [OF assms] by blast
  then show "pl_idle h' = pl_idle h" and "pl_config h' = pl_config h"
    and "mysql_uses opn h' = mysql_uses opn h" and "mysql_handles opn tries h' = mysql_handles opn tries h"
    by (simp_all add: mysql_uses_def)
qed

subsection \<open>Which connections are open\<close>

text \<open>A statement leaves the set of open connections alone.\<close>

definition keeps_open :: "('s \<Rightarrow> nat set) \<Rightarrow> ('s pool, 'a) io \<Rightarrow> bool" where
  "keeps_open opn c \<longleftrightarrow> (\<forall>h. mysql_uses opn h \<longrightarrow> opn (my_state (snd (c h))) = opn (my_state h))"

lemma keeps_open_basic:
  "keeps_open opn (ret a)" "keeps_open opn (throw e)" "keeps_open opn (lift r)" "keeps_open opn (my_ask q)"
  by (auto simp: keeps_open_def ret_def throw_def lift_def my_ask_def)

lemma keeps_open_calls:
  "keeps_open opn (my_call (\<lambda>h. my_ping h m))" "keeps_open opn (my_call (\<lambda>h. my_query h m q))"
  "keeps_open opn (my_call (\<lambda>h. my_store_result h m))"
  unfolding keeps_open_def my_call_def mysql_uses_def
  by (auto split: prod.splits) (metis snd_conv)+

lemma keeps_open_bindE:
  fixes c :: "('s pool, 'a) io"
  assumes c: "keeps_open opn c" and fr: "framed c" and f: "\<And>a. keeps_open opn (f a)"
  shows "keeps_open opn (bindE c f)"
  unfolding keeps_open_def
proof (intro allI impI)
  fix h :: "'s pool"
  assume u: "mysql_uses opn h"
  obtain v h1 where 1: "c h = (v, h1)" by fastforce
  have u1: "mysql_uses opn h1" using framed_keeps(3) [OF fr 1] u by simp
  have o1: "opn (my_state h1) = opn (my_state h)" using c u 1 by (metis keeps_open_def snd_conv)
  show "opn (my_state (snd (bindE c f h))) = opn (my_state h)"
    using f u1 o1 1 by (cases v) (simp_all add: bindE_def keeps_open_def)
qed

lemma keeps_open_If: "keeps_open opn c \<Longrightarrow> keeps_open opn d \<Longrightarrow> keeps_open opn (if b then c else d)"
  by simp

lemma keeps_open_run_sql: "keeps_open opn (run_sql m sql ps)" "framed (run_sql m sql ps)"
  unfolding run_sql_def Escape_def ThrowMySQLException_def
  by (intro keeps_open_bindE framed_bindE framed_split keeps_open_If keeps_open_basic keeps_open_calls
      framed_basic)+

lemma keeps_open_connection:
  "keeps_open opn (MySQLConnection_Valid m)" "keeps_open opn (MySQLConnection_Query m sql ps)"
  "keeps_open opn (MySQLConnection_Execute m sql ps)"
  unfolding MySQLConnection_Valid_def MySQLConnection_Query_def MySQLConnection_Execute_def
    ThrowMySQLException_def
  by (intro keeps_open_bindE framed_bindE framed_split keeps_open_If keeps_open_basic keeps_open_calls
      framed_basic keeps_open_run_sql)+

lemma keeps_openD: "keeps_open opn c \<Longrightarrow> mysql_uses opn h \<Longrightarrow> c h = (r, h') \<Longrightarrow>
    opn (my_state h') = opn (my_state h)"
  by (metis keeps_open_def snd_conv)


text \<open>The outcome of a computation as a value.\<close>

definition attempt :: "('w, 'a) io \<Rightarrow> ('w, exn + 'a) io" where
  "attempt c = (\<lambda>h. case c h of (v, h') \<Rightarrow> (Inr v, h'))"

lemma framed_attempt: "framed c \<Longrightarrow> framed (attempt c)"
  by (auto simp: framed_def attempt_def split: prod.splits)

lemma rebuild_attempt:
  "rebuild m h = bindE (attempt (MySQLConnection_new (pl_config h)))
     (\<lambda>v. bindE (MySQLConnection_close m) (\<lambda>_. lift v)) h"
  by (simp add: rebuild_def bindE_def attempt_def lift_def ret_def throw_def split: prod.splits sum.splits)

lemma framed_rebuild [intro]: "framed (rebuild m)"
proof -
  have "framed (bindE (attempt (MySQLConnection_new c)) (\<lambda>v. bindE (MySQLConnection_close m) (\<lambda>_. lift v)))" for c
    by (intro framed_bindE framed_attempt framed_connection framed_basic)
  then show ?thesis unfolding framed_def rebuild_attempt by metis
qed

lemma Valid_run: "\<exists>b h1. MySQLConnection_Valid m h = (Inr b, h1)"
  by (simp add: MySQLConnection_Valid_def my_call_def split: prod.splits)

lemma close_run: "MySQLConnection_close m h = (Inr (), h\<lparr>my_state := my_close h m (my_state h)\<rparr>)"
  by (simp add: MySQLConnection_close_def my_do_def)

lemma handles_close: "mysql_handles opn tries h \<Longrightarrow> opn (my_close h m s) = opn s - {m}"
  by (simp add: mysql_handles_def)

text \<open>Rebuilding replaces the connection by a new one, or only closes it.\<close>

lemma rebuild_run:
  assumes h: "mysql_handles opn tries h" and run: "rebuild m h = (r, h')" and m: "m \<in> opn (my_state h)"
  shows "case r of Inr m' \<Rightarrow> m' \<notin> opn (my_state h) \<and> opn (my_state h') = insert m' (opn (my_state h) - {m})
    | Inl e \<Rightarrow> opn (my_state h') = opn (my_state h) - {m}"
proof -
  obtain v h1 where 1: "MySQLConnection_new (pl_config h) h = (v, h1)" by fastforce
  note o1 = MySQLConnection_new_opened [OF h, of "pl_config h", unfolded 1 opened_def prod.case]
  have h1: "mysql_handles opn tries h1" using o1 by simp
  show ?thesis
    using run o1 m unfolding rebuild_def 1
    by (cases v) (auto simp: bindE_def close_run ret_def throw_def handles_close [OF h1])
qed

text \<open>One connection leaves the queue; at most one takes its place, and it is open.\<close>

lemma Acquire_run:
  assumes h: "mysql_handles opn tries h" and u: "mysql_uses opn h"
    and idle: "pl_idle h = m # ms" and m: "m \<in> opn (my_state h)" and run: "Acquire h = (r, h')"
  shows "pl_idle h' = ms \<and> mysql_handles opn tries h' \<and> mysql_uses opn h' \<and>
    (case r of Inr (Some m') \<Rightarrow> (m' = m \<or> m' \<notin> opn (my_state h)) \<and> opn (my_state h') = insert m' (opn (my_state h) - {m})
     | Inr None \<Rightarrow> False
     | Inl e \<Rightarrow> opn (my_state h') = opn (my_state h) - {m})"
proof -
  let ?h = "h\<lparr>pl_idle := ms\<rparr>"
  have h0: "mysql_handles opn tries ?h" and u0: "mysql_uses opn ?h"
    using h u by (simp_all add: mysql_handles_def mysql_uses_def)
  obtain b h1 where 1: "MySQLConnection_Valid m ?h = (Inr b, h1)"
    using Valid_run by blast
  have k1: "pl_idle h1 = ms" "mysql_handles opn tries h1" "mysql_uses opn h1" "opn (my_state h1) = opn (my_state h)"
    using framed_keeps [OF framed_connection(3) 1] keeps_openD [OF keeps_open_connection(1) u0 1] h0 u0
    by simp_all
  show ?thesis
  proof (cases b)
    case True
    then show ?thesis using run 1 k1 m idle by (auto simp: Acquire_def bindE_def ret_def)
  next
    case False
    obtain v h2 where 2: "rebuild m h1 = (v, h2)" by fastforce
    have "r = (case v of Inl e \<Rightarrow> Inl e | Inr m' \<Rightarrow> Inr (Some m'))" "h' = h2"
      using run 1 2 idle False by (auto simp: Acquire_def bindE_def ret_def split: sum.splits)
    with rebuild_run [OF k1(2) 2] framed_keeps [OF framed_rebuild 2] k1 m
    show ?thesis by (auto split: sum.splits)
  qed
qed

lemma Acquire_empty:
  assumes "mysql_handles opn tries h" and "mysql_uses opn h" and "pl_idle h = []" and "Acquire h = (r, h')"
  shows "r = Inr None \<and> pl_idle h' = [] \<and> mysql_handles opn tries h' \<and> mysql_uses opn h'
    \<and> opn (my_state h') = opn (my_state h)"
  using assms by (auto simp: Acquire_def bindE_def my_do_def ret_def mysql_handles_def mysql_uses_def)

lemma Release_run:
  assumes h: "mysql_handles opn tries h" and u: "mysql_uses opn h"
    and m: "m \<in> opn (my_state h)" and run: "Release m h = (Inr (), h')"
  shows "\<exists>m'. pl_idle h' = pl_idle h @ [m'] \<and> mysql_handles opn tries h' \<and> mysql_uses opn h'
    \<and> (m' = m \<or> m' \<notin> opn (my_state h)) \<and> opn (my_state h') = insert m' (opn (my_state h) - {m})"
proof -
  obtain b h1 where 1: "MySQLConnection_Valid m h = (Inr b, h1)"
    using Valid_run by blast
  have k1: "pl_idle h1 = pl_idle h" "mysql_handles opn tries h1" "mysql_uses opn h1"
    "opn (my_state h1) = opn (my_state h)"
    using framed_keeps [OF framed_connection(3) 1] keeps_openD [OF keeps_open_connection(1) u 1] h u
    by simp_all
  show ?thesis
  proof (cases b)
    case True
    then have "h' = h1\<lparr>pl_idle := pl_idle h1 @ [m]\<rparr>"
      using run 1 by (simp add: Release_def bindE_def ret_def)
    then show ?thesis using k1 m by (auto simp: mysql_handles_def mysql_uses_def)
  next
    case False
    obtain m' h2 where 2: "rebuild m h1 = (Inr m', h2)" "h' = h2\<lparr>pl_idle := pl_idle h2 @ [m']\<rparr>"
      using run 1 False by (auto simp: Release_def bindE_def ret_def split: prod.splits sum.splits)
    have "mysql_handles opn tries h'" "mysql_uses opn h'" "pl_idle h' = pl_idle h @ [m']"
      using framed_keeps [OF framed_rebuild 2(1)] k1 2(2) by (simp_all add: mysql_handles_def mysql_uses_def)
    with rebuild_run [OF k1(2) 2(1)] k1 m 2(2) show ?thesis by auto
  qed
qed


subsection \<open>The invariant under every step\<close>

inductive_cases pool_stepE: "pool_step x y"

lemma ran_upd_Some: "held g = None \<Longrightarrow> ran (held(g \<mapsto> m)) = insert m (ran held)"
  by (rule ran_map_upd)

lemma ran_upd_None: "inj_on held (dom held) \<Longrightarrow> held g = Some m \<Longrightarrow> ran (held(g := None)) = ran held - {m}"
proof (intro set_eqI iffI)
  fix x
  assume inj: "inj_on held (dom held)" and g: "held g = Some m"
  { assume "x \<in> ran (held(g := None))"
    then obtain a where a: "a \<noteq> g" "held a = Some x" by (auto simp: ran_def split: if_splits)
    then have "x \<noteq> m" using inj g by (metis domI inj_on_def)
    then show "x \<in> ran held - {m}" using a(2) by (auto simp: ran_def) }
  { assume "x \<in> ran held - {m}"
    then obtain a where "held a = Some x" "x \<noteq> m" by (auto simp: ran_def)
    then have "(held(g := None)) a = Some x" using g by auto
    then show "x \<in> ran (held(g := None))" by (rule ranI) }
qed

lemma inj_upd_Some: "inj_on held (dom held) \<Longrightarrow> m \<notin> ran held \<Longrightarrow> inj_on (held(g \<mapsto> m)) (dom (held(g \<mapsto> m)))"
  by (auto simp: inj_on_def ran_def)

lemma inj_upd_None: "inj_on held (dom held) \<Longrightarrow> inj_on (held(g := None)) (dom (held(g := None)))"
  by (auto simp: inj_on_def)

lemma pool_inv_same_open:
  assumes inv: "pool_inv opn tries base n (h, held)"
    and "framed c" and "keeps_open opn c" and "c h = (r, h')"
  shows "pool_inv opn tries base n (h', held)"
proof -
  have "mysql_uses opn h" using inv by (simp add: pool_inv_def)
  from keeps_openD [OF assms(3) this assms(4)] framed_keeps [OF assms(2,4)] inv
  show ?thesis by (simp add: pool_inv_def)
qed

lemma pool_inv_acquired:
  assumes inv: "pool_inv opn tries base n (h, held)" and g: "held g = None"
    and ne: "pl_idle h \<noteq> []" and run: "Acquire h = (Inr (Some m), h')"
  shows "pool_inv opn tries base n (h', held(g \<mapsto> m))"
proof -
  obtain m0 ms where idle: "pl_idle h = m0 # ms" using ne by (cases "pl_idle h") auto
  have lib: "mysql_handles opn tries h" "mysql_uses opn h" "m0 \<in> opn (my_state h)"
    using inv idle by (auto simp: pool_inv_def)
  note a = Acquire_run [OF lib(1,2) idle lib(3) run, simplified]
  have m: "m \<notin> set ms" "m \<notin> ran held" "m \<notin> base" using a inv idle by (auto simp: pool_inv_def)
  show ?thesis using a m inv idle g
    by (auto simp: pool_inv_def ran_upd_Some inj_upd_Some simp del: fun_upd_apply dom_fun_upd)
      (auto simp: domIff)
qed

lemma pool_inv_acquire_failed:
  assumes inv: "pool_inv opn tries base n (h, held)" and ne: "pl_idle h \<noteq> []" and run: "Acquire h = (Inl e, h')"
  shows "pool_inv opn tries base n (h', held)"
proof -
  obtain m0 ms where idle: "pl_idle h = m0 # ms" using ne by (cases "pl_idle h") auto
  have lib: "mysql_handles opn tries h" "mysql_uses opn h" "m0 \<in> opn (my_state h)"
    using inv idle by (auto simp: pool_inv_def)
  show ?thesis using Acquire_run [OF lib(1,2) idle lib(3) run] inv idle by (auto simp: pool_inv_def)
qed

lemma pool_inv_timed_out:
  assumes inv: "pool_inv opn tries base n (h, held)" and "pl_idle h = []" and "Acquire h = (r, h')"
  shows "pool_inv opn tries base n (h', held)"
proof -
  have lib: "mysql_handles opn tries h" "mysql_uses opn h" using inv by (auto simp: pool_inv_def)
  show ?thesis using Acquire_empty [OF lib assms(2,3)] inv assms(2) by (simp add: pool_inv_def)
qed

lemma pool_inv_released:
  assumes inv: "pool_inv opn tries base n (h, held)" and g: "held g = Some m"
    and run: "Release m h = (Inr (), h')"
  shows "pool_inv opn tries base n (h', held(g := None))"
proof -
  have lib: "mysql_handles opn tries h" "mysql_uses opn h" and m: "m \<in> opn (my_state h)" "m \<in> ran held"
    using inv g by (auto simp: pool_inv_def ran_def)
  obtain m' where r: "pl_idle h' = pl_idle h @ [m']" "mysql_handles opn tries h'" "mysql_uses opn h'"
    "m' = m \<or> m' \<notin> opn (my_state h)" "opn (my_state h') = insert m' (opn (my_state h) - {m})"
    using Release_run [OF lib m(1) run] by blast
  have inj: "inj_on held (dom held)" "finite (dom held)" "g \<in> dom held" using inv g by (auto simp: pool_inv_def)
  have "Suc (card (dom (held(g := None)))) = card (dom held)"
    using card_Suc_Diff1 [OF inj(2,3)] by simp
  then show ?thesis using inv r m
    by (auto simp: pool_inv_def ran_upd_None [OF inj(1) g] inj_upd_None [OF inj(1)]
        simp del: fun_upd_apply dom_fun_upd) auto
qed

lemma pool_step_inv:
  "pool_step x y \<Longrightarrow> pool_inv opn tries base n x \<Longrightarrow> pool_inv opn tries base n y"
  by (induction rule: pool_step.induct)
    (blast intro: pool_inv_acquired pool_inv_acquire_failed pool_inv_timed_out pool_inv_released
      pool_inv_same_open framed_connection keeps_open_connection)+

lemma pool_steps_inv:
  "pool_step\<^sup>*\<^sup>* x y \<Longrightarrow> pool_inv opn tries base n x \<Longrightarrow> pool_inv opn tries base n y"
  by (induction rule: rtranclp_induct) (auto intro: pool_step_inv)

text \<open>Making the pool opens as many connections as the configuration asks for, or none.\<close>

lemma close_all_run:
  assumes "mysql_handles opn tries h"
  shows "\<exists>h'. close_all ms h = (Inr (), h') \<and> mysql_handles opn tries h' \<and> opn (my_state h') = opn (my_state h) - set ms"
proof (induction ms rule: rev_induct)
  case Nil
  then show ?case using assms by (simp add: close_all_def ret_def)
next
  case (snoc m ms)
  then obtain h' where h': "close_all ms h = (Inr (), h')" "mysql_handles opn tries h'"
    "opn (my_state h') = opn (my_state h) - set ms" by blast
  have "close_all (ms @ [m]) h = MySQLConnection_close m h'"
    using h'(1) by (simp add: close_all_def bindE_def)
  then show ?case using h' by (auto simp: close_run handles_close)
qed

lemma InitPool_run:
  assumes "pool_inv opn tries base k (h, Map.empty)" and "InitPool n h = (r, h')" and "length (pl_idle h) = k"
  shows "case r of Inr _ \<Rightarrow> pool_inv opn tries base (k + n) (h', Map.empty) \<and> length (pl_idle h') = k + n
    | Inl e \<Rightarrow> opn (my_state h') = base"
  using assms
proof (induction n arbitrary: h k)
  case 0
  then show ?case by (auto simp: ret_def)
next
  case (Suc n)
  obtain v h1 where 1: "MySQLConnection_new (pl_config h) h = (v, h1)" by fastforce
  have lib: "mysql_handles opn tries h" "mysql_uses opn h" using Suc.prems by (auto simp: pool_inv_def)
  note o1 = MySQLConnection_new_opened [OF lib(1), of "pl_config h", unfolded 1 opened_def prod.case]
  note k1 = framed_keeps [OF framed_connection(1) 1]
  show ?case
  proof (cases v)
    case (Inl e)
    have c: "mysql_handles opn tries (h1\<lparr>pl_idle := []\<rparr>)" using o1 by (simp add: mysql_handles_def)
    show ?thesis using close_all_run [OF c, of "pl_idle h1"] Suc.prems o1 k1 1 Inl
      by (auto simp: bindE_def throw_def pool_inv_def disjoint_iff)
  next
    case (Inr m)
    let ?h = "h1\<lparr>pl_idle := pl_idle h1 @ [m]\<rparr>"
    have "pool_inv opn tries base (Suc k) (?h, Map.empty)"
      using Suc.prems o1 k1 Inr by (auto simp: pool_inv_def mysql_handles_def mysql_uses_def)
    from Suc.IH [OF this] Suc.prems(2,3) 1 Inr k1 show ?thesis by (cases r) simp_all
  qed
qed


lemma TemplateConnectionPool_new_run:
  assumes "mysql_handles opn tries h0" and "mysql_uses opn h0"
    and "TemplateConnectionPool_new (Some cfg) h0 = (r, h)"
  shows "case r of Inr _ \<Rightarrow>
        pool_inv opn tries (opn (my_state h0)) (nat (mysql_pool_size (cfg_mysql cfg))) (h, Map.empty)
        \<and> length (pl_idle h) = nat (mysql_pool_size (cfg_mysql cfg))
    | Inl e \<Rightarrow> opn (my_state h) = opn (my_state h0)"
proof -
  let ?h = "h0\<lparr>pl_config := cfg_mysql cfg, pl_idle := []\<rparr>"
  have "pool_inv opn tries (opn (my_state h0)) 0 (?h, Map.empty)"
    using assms(1,2) by (simp add: pool_inv_def mysql_handles_def mysql_uses_def)
  from InitPool_run [OF this, of "nat (mysql_pool_size (cfg_mysql cfg))" r h] assms(3) show ?thesis
    by (cases r) (simp_all add: TemplateConnectionPool_new_def)
qed

subsection \<open>Properties\<close>

text \<open>C11: Once the pool is made, whatever the guards of all threads do in whatever order: no two
  guards hold the same connection, no held connection is idle in the pool, every one of them is
  open, none is leaked (the open connections are exactly the idle and the held ones, besides
  those open before), and there are never more than the configured number.\<close>

theorem pool_connections_exclusive:
  assumes "mysql_handles opn tries h0" and "mysql_uses opn h0"
    and "TemplateConnectionPool_new (Some cfg) h0 = (Inr (), h1)"
    and "pool_step\<^sup>*\<^sup>* (h1, Map.empty) (h, held)"
  shows "(\<forall>g g' m. held g = Some m \<longrightarrow> held g' = Some m \<longrightarrow> g = g')
    \<and> (\<forall>g m. held g = Some m \<longrightarrow> m \<notin> set (pl_idle h) \<and> m \<in> opn (my_state h)) \<and> distinct (pl_idle h)
    \<and> opn (my_state h) = opn (my_state h0) \<union> set (pl_idle h) \<union> ran held
    \<and> length (pl_idle h) + card (dom held) \<le> nat (mysql_pool_size (cfg_mysql cfg))"
proof -
  have "pool_inv opn tries (opn (my_state h0)) (nat (mysql_pool_size (cfg_mysql cfg))) (h, held)"
    using pool_steps_inv [OF assms(4)] TemplateConnectionPool_new_run [OF assms(1-3)] by simp
  then show ?thesis by (auto simp: pool_inv_def ran_def) (metis domI inj_on_def)
qed

text \<open>A library whose server accepts every connection; a connection is valid while it is open.\<close>

definition mysql_accepting :: "(nat list \<times> nat) mysql" where
  "mysql_accepting = mysql_refusing\<lparr>my_real_connect := \<lambda>m c (hs, n). (True, (hs, n + 1)),
     my_ping := \<lambda>m s. (m \<in> set (fst s), s), my_query := \<lambda>m q s. (True, s)\<rparr>"

definition pool_of :: "'s mysql \<Rightarrow> 's pool" where
  "pool_of h = mysql.extend h (pool.fields MySQLConfig_default [])"

lemma mysql_accepting_handles:
  "mysql_handles (\<lambda>s. set (fst s)) snd (pool_of mysql_accepting)"
  "mysql_uses (\<lambda>s. set (fst s)) (pool_of mysql_accepting)"
proof -
  show "mysql_handles (\<lambda>s. set (fst s)) snd (pool_of mysql_accepting)"
    using mysql_refusing_handles
    by (auto simp: mysql_handles_def mysql_accepting_def pool_of_def mysql.defs pool.defs)
  show "mysql_uses (\<lambda>s. set (fst s)) (pool_of mysql_accepting)"
    by (simp add: mysql_uses_def mysql_accepting_def pool_of_def mysql.defs pool.defs mysql_refusing_def)
qed

definition config_two :: Config where
  "config_two = Config_default\<lparr>cfg_mysql := MySQLConfig_default\<lparr>mysql_pool_size := 2\<rparr>\<rparr>"

definition pool_state :: "nat list \<Rightarrow> nat \<Rightarrow> MySQLConfig \<Rightarrow> nat list \<Rightarrow> (nat list \<times> nat) pool" where
  "pool_state hs n c i = (pool_of mysql_accepting)\<lparr>my_state := (hs, n), pl_config := c, pl_idle := i\<rparr>"

lemma pool_state_sel:
  "my_init (pool_state hs n c i) = (\<lambda>(hs, n). let m = Suc (Max (insert 0 (set hs))) in (Some m, (m # hs, n)))"
  "my_options (pool_state hs n c i) = (\<lambda>m x s. s)"
  "my_real_connect (pool_state hs n c i) = (\<lambda>m c (hs, n). (True, (hs, n + 1)))"
  "my_ping (pool_state hs n c i) = (\<lambda>m s. (m \<in> set (fst s), s))"
  "my_state (pool_state hs n c i) = (hs, n)" "pl_config (pool_state hs n c i) = c"
  "pl_idle (pool_state hs n c i) = i" "pool_state hs n c i\<lparr>my_state := (hs', n')\<rparr> = pool_state hs' n' c i"
  "pool_state hs n c i\<lparr>pl_idle := i'\<rparr> = pool_state hs n c i'"
  by (simp_all add: pool_state_def pool_of_def mysql_accepting_def mysql_refusing_def mysql.defs pool.defs)

lemma pool_state_set_opt: "set_opt m mk v (pool_state hs n c i) = (Inr (), pool_state hs n c i)"
  by (cases v) (simp_all add: set_opt_def ret_def my_do_def pool_state_sel)

lemma pool_state_new:
  "MySQLConnection_new c (pool_state hs n c' i) =
     (Inr (Suc (Max (insert 0 (set hs)))), pool_state (Suc (Max (insert 0 (set hs))) # hs) (n + 1) c' i)"
  by (simp add: MySQLConnection_new_def InitAndSetOptions_def bindE_def ret_def my_do_def my_call_def
      pool_state_sel pool_state_set_opt Let_def)

theorem pool_connections_exclusive_witness:
  "\<exists>h1 h m. TemplateConnectionPool_new (Some config_two) (pool_of mysql_accepting) = (Inr (), h1)
    \<and> pool_step\<^sup>*\<^sup>* (h1, Map.empty) (h, [0 \<mapsto> m])
    \<and> m \<notin> set (pl_idle h) \<and> set (fst (my_state h)) = set (pl_idle h) \<union> {m} \<and> length (pl_idle h) + 1 \<le> 2"
proof -
  have start: "pool_of mysql_accepting = pool_state [] 0 MySQLConfig_default []"
    by (simp add: pool_state_def pool_of_def mysql_accepting_def mysql_refusing_def mysql.defs pool.defs)
  have pool_update: "pool_state hs n c i\<lparr>pl_config := c', pl_idle := i'\<rparr> = pool_state hs n c' i'" for hs n c i c' i'
    by (simp add: pool_state_def)
  have "\<exists>h1 h m. TemplateConnectionPool_new (Some config_two) (pool_of mysql_accepting) = (Inr (), h1)
    \<and> pl_idle h1 \<noteq> [] \<and> Acquire h1 = (Inr (Some m), h)"
    unfolding start
    by (simp add: TemplateConnectionPool_new_def config_two_def numeral_2_eq_2 Acquire_def pool_update
        MySQLConnection_Valid_def pool_state_new pool_state_sel bindE_def ret_def my_call_def Let_def)
  then obtain h1 h m where run:
    "TemplateConnectionPool_new (Some config_two) (pool_of mysql_accepting) = (Inr (), h1)"
    "pl_idle h1 \<noteq> []" "Acquire h1 = (Inr (Some m), h)" by blast
  have step: "pool_step\<^sup>*\<^sup>* (h1, Map.empty) (h, [0 \<mapsto> m])"
    using acquired [of Map.empty 0 h1 m h] run(2,3) by auto
  have facts: "my_state (pool_of mysql_accepting) = ([], 0)" "nat (mysql_pool_size (cfg_mysql config_two)) = 2"
    by (simp_all add: start pool_state_sel config_two_def)
  note p = pool_connections_exclusive [OF mysql_accepting_handles run(1) step, unfolded facts fst_conv]
  have "m \<notin> set (pl_idle h)" using p [THEN conjunct2, THEN conjunct1, rule_format, of 0 m] by simp
  moreover have "set (fst (my_state h)) = set (pl_idle h) \<union> {m}" "length (pl_idle h) + 1 \<le> 2"
    using p [THEN conjunct2, THEN conjunct2, THEN conjunct2] by simp_all
  ultimately
  show ?thesis using run(1) step by blast
qed

end
