(* ===== verification/World.thy ===== *)
theory World
  imports Pool Password Sms
begin

section \<open>The state of the whole program\<close>

text \<open>
  The objects the production server shares between its services: the pool of MySQL
  connections, the system it runs on, and the Redis client. The operations of the components
  run on their part of it. A connection guard of \<open>include/pool/connection_pool.h\<close> is the scope
  \<open>with_conn\<close>; \<open>CHECK_CONN\<close> is the macro of \<open>src/db/user_db.cpp\<close> and
  \<open>src/auth/token_repository.cpp\<close>.
\<close>

record ('s, 'e, 'r) world =
  w_pool :: "'s pool"
  w_sys :: "'e sys"
  w_redis :: "'r redis"

definition in_pool :: "('s pool, 'a) io \<Rightarrow> (('s, 'e, 'r) world, 'a) io" where
  "in_pool = zoom w_pool (\<lambda>p w. w\<lparr>w_pool := p\<rparr>)"

definition in_sys :: "('e sys, 'a) io \<Rightarrow> (('s, 'e, 'r) world, 'a) io" where
  "in_sys = zoom w_sys (\<lambda>p w. w\<lparr>w_sys := p\<rparr>)"

definition redis_cli :: "('s, 'e, 'r) world RedisClient" where
  "redis_cli = RedisClient_at w_redis (\<lambda>p w. w\<lparr>w_redis := p\<rparr>)"

subsection \<open>The scope of a connection guard\<close>

text \<open>The guard's destructor runs whether the scope returns or throws; when it throws, or when
  the program is already being terminated, nothing more runs.\<close>

definition guarded :: "nat \<Rightarrow> (('s, 'e, 'r) world, 'a) io \<Rightarrow> (('s, 'e, 'r) world, 'a) io" where
  "guarded conn body = (\<lambda>w. case body w of
       (Inl Terminate, w') \<Rightarrow> (Inl Terminate, w')
     | (r, w') \<Rightarrow> (case in_pool (ConnectionGuard_delete conn) w' of
           (Inl e, w'') \<Rightarrow> (Inl e, w'')
         | (Inr _, w'') \<Rightarrow> (r, w'')))"

definition with_conn :: "(nat \<Rightarrow> (('s, 'e, 'r) world, 'a) io) \<Rightarrow> (('s, 'e, 'r) world, 'a) io" where
  "with_conn body = bindE (in_pool CreateConnection) (\<lambda>conn. guarded conn (body conn))"

definition db_unavailable :: "'a Result" where
  "db_unavailable = Result_Fail ServiceUnavailable (GetErrorMessage ServiceUnavailable)"

definition CHECK_CONN :: "nat \<Rightarrow> (('s, 'e, 'r) world, 'a Result) io \<Rightarrow> (('s, 'e, 'r) world, 'a Result) io" where
  "CHECK_CONN conn rest_of =
     bindE (in_pool (MySQLConnection_Valid conn)) (\<lambda>valid.
     if \<not> valid then ret db_unavailable else rest_of)"

text \<open>\<open>catch (const std::exception& e)\<close> with the same answer everywhere.\<close>

definition db_try :: "(('s, 'e, 'r) world, 'a Result) io \<Rightarrow> (('s, 'e, 'r) world, 'a Result) io" where
  "db_try body = try_catch body (\<lambda>_. ret db_unavailable)"

text \<open>Sequencing of the pure computations that read a result.\<close>

definition bindS :: "exn + 'a \<Rightarrow> ('a \<Rightarrow> exn + 'b) \<Rightarrow> exn + 'b" where
  "bindS r f = (case r of Inl e \<Rightarrow> Inl e | Inr a \<Rightarrow> f a)"

definition value_or :: "'a option \<Rightarrow> 'a \<Rightarrow> 'a" where
  "value_or v d = (case v of None \<Rightarrow> d | Some x \<Rightarrow> x)"

subsection \<open>Parts of the state\<close>

text \<open>Each part of the state is a member in the sense of the locale \<open>member_lens\<close>, with the other
  two as the rest.\<close>

interpretation pool_member: member_lens w_pool "\<lambda>p w. w\<lparr>w_pool := p\<rparr>" "\<lambda>w. (w_sys w, w_redis w)"
  by unfold_locales simp_all

interpretation sys_member: member_lens w_sys "\<lambda>p w. w\<lparr>w_sys := p\<rparr>" "\<lambda>w. (w_pool w, w_redis w)"
  by unfold_locales simp_all

interpretation redis_member: member_lens w_redis "\<lambda>p w. w\<lparr>w_redis := p\<rparr>" "\<lambda>w. (w_pool w, w_sys w)"
  by unfold_locales simp_all

text \<open>The cache of the production server keeps the contract of \<open>kv_cache\<close> and, while it answers,
  of \<open>kv_live\<close>.\<close>

interpretation cache: kv_cache redis_cli "\<lambda>w. redis_documented V (w_redis w)"
  "\<lambda>w. V (rc_state (w_redis w))" "\<lambda>w. (w_pool w, w_sys w)" for V
  unfolding redis_cli_def by (rule kv_cache_at [OF redis_member.member_lens_axioms])

interpretation live_cache: kv_live redis_cli "\<lambda>w. redis_documented V (w_redis w)"
  "\<lambda>w. V (rc_state (w_redis w))" "\<lambda>w. (w_pool w, w_sys w)"
  "\<lambda>w. redis_documented V (w_redis w) \<and> redis_prompt V up (w_redis w) \<and> up (rc_state (w_redis w))" for V up
  unfolding redis_cli_def by (rule kv_live_at [OF redis_member.member_lens_axioms])

subsection \<open>What a computation can touch\<close>

text \<open>A computation of the database layer changes neither the cache nor the functions of the
  system.\<close>

definition off_cache :: "(('s, 'e, 'r) world, 'a) io \<Rightarrow> bool" where
  "off_cache c \<longleftrightarrow> (\<forall>w r w'. c w = (r, w') \<longrightarrow> w_redis w' = w_redis w \<and> same_sys (w_sys w) (w_sys w'))"

lemma off_cacheD: "off_cache c \<Longrightarrow> c w = (r, w') \<Longrightarrow> w_redis w' = w_redis w \<and> same_sys (w_sys w) (w_sys w')"
  by (auto simp: off_cache_def)

lemma off_cache_basic [simp, intro]:
  "off_cache (ret a)" "off_cache (throw e)" "off_cache (lift r)" "off_cache (in_pool p)"
  by (auto simp: off_cache_def ret_def throw_def lift_def in_pool_def zoom_def split: prod.splits)

lemma off_cache_in_sys [simp, intro]: "sys_total m \<Longrightarrow> off_cache (in_sys m)"
proof (unfold off_cache_def, intro allI impI)
  fix w r w'
  assume t: "sys_total m" and run: "in_sys m w = (r, w')"
  obtain a s' where "m (w_sys w) = (Inr a, s')" "same_sys (w_sys w) s'" using t by (rule sys_totalE)
  then show "w_redis w' = w_redis w \<and> same_sys (w_sys w) (w_sys w')"
    using run by (auto simp: in_sys_def zoom_def)
qed

lemma off_cache_bindE [intro]:
  assumes c: "off_cache c" and f: "\<And>a. off_cache (f a)"
  shows "off_cache (bindE c f)"
  unfolding off_cache_def
proof (intro allI impI)
  fix w r w'
  assume run: "bindE c f w = (r, w')"
  obtain v w1 where 1: "c w = (v, w1)" by fastforce
  show "w_redis w' = w_redis w \<and> same_sys (w_sys w) (w_sys w')"
  proof (cases v)
    case (Inl e)
    then show ?thesis using run 1 off_cacheD [OF c 1] by (simp add: bindE_def)
  next
    case (Inr a)
    then have "f a w1 = (r, w')" using run 1 by (simp add: bindE_def)
    from off_cacheD [OF f this] off_cacheD [OF c 1] show ?thesis by (metis same_sys_trans)
  qed
qed

lemma off_cache_try [intro]:
  assumes c: "off_cache c" and h: "\<And>e. off_cache (h e)"
  shows "off_cache (try_catch c h)"
  unfolding off_cache_def
proof (intro allI impI)
  fix w r w'
  assume run: "try_catch c h w = (r, w')"
  obtain v w1 where 1: "c w = (v, w1)" by fastforce
  then consider "w' = w1" | e where "h e w1 = (r, w')"
    using run by (auto simp: try_catch_def split: sum.splits if_splits)
  then show "w_redis w' = w_redis w \<and> same_sys (w_sys w) (w_sys w')"
    using off_cacheD [OF c 1] off_cacheD [OF h] by cases (auto intro: same_sys_trans)
qed

lemma off_cache_If [intro]: "off_cache c \<Longrightarrow> off_cache d \<Longrightarrow> off_cache (if b then c else d)"
  by simp

lemma off_cache_guarded [intro]:
  assumes c: "off_cache c"
  shows "off_cache (guarded conn c)"
  unfolding off_cache_def
proof (intro allI impI)
  fix w r w'
  assume run: "guarded conn c w = (r, w')"
  obtain v w1 where 1: "c w = (v, w1)" by fastforce
  obtain u w2 where 2: "in_pool (ConnectionGuard_delete conn) w1 = (u, w2)" by fastforce
  have "w' = w1 \<or> w' = w2"
    using run 1 2 unfolding guarded_def by (auto split: sum.splits exn.splits)
  moreover have "w_redis w2 = w_redis w1 \<and> same_sys (w_sys w1) (w_sys w2)"
    using off_cacheD [OF off_cache_basic(4) 2] .
  ultimately show "w_redis w' = w_redis w \<and> same_sys (w_sys w) (w_sys w')"
    using off_cacheD [OF c 1] by (metis same_sys_trans)
qed

lemma off_cache_with_conn [intro]: "(\<And>conn. off_cache (body conn)) \<Longrightarrow> off_cache (with_conn body)"
  unfolding with_conn_def by (intro off_cache_bindE off_cache_basic off_cache_guarded)

lemma off_cache_db [intro]:
  "off_cache c \<Longrightarrow> off_cache (CHECK_CONN conn c)" "off_cache c \<Longrightarrow> off_cache (db_try c)"
  unfolding CHECK_CONN_def db_try_def
  by (intro off_cache_bindE off_cache_basic off_cache_If off_cache_try; assumption)+


subsection \<open>Operations that settle\<close>

text \<open>An operation \<^emph>\<open>settles\<close> when it always gives a well-formed result: no exception leaves it,
  short of the end of the program.\<close>

definition settles :: "('w, 'a Result) io \<Rightarrow> bool" where
  "settles c \<longleftrightarrow> (\<forall>w r w'. c w = (r, w') \<longrightarrow> (case r of Inl e \<Rightarrow> e = Terminate | Inr res \<Rightarrow> Result_wf res))"

text \<open>What holds of every result a computation gives, whatever exceptions leave it.\<close>

definition gives :: "('a \<Rightarrow> bool) \<Rightarrow> ('w, 'a) io \<Rightarrow> bool" where
  "gives P c \<longleftrightarrow> (\<forall>w res w'. c w = (Inr res, w') \<longrightarrow> P res)"

abbreviation gives_wf :: "('w, 'a Result) io \<Rightarrow> bool" where
  "gives_wf \<equiv> gives Result_wf"

lemma givesD: "gives P c \<Longrightarrow> c w = (Inr res, w') \<Longrightarrow> P res"
  by (auto simp: gives_def)

lemma settlesD:
  assumes "settles c" and "c w = (r, w')"
  shows "r = Inl Terminate \<or> (\<exists>res. r = Inr res \<and> Result_wf res)"
  using assms by (cases r) (force simp: settles_def)+

lemma settles_gives_wf: "settles c \<Longrightarrow> gives_wf c"
  by (force simp: settles_def gives_def)

lemma db_unavailable_wf [simp]: "Result_wf db_unavailable" "\<not> IsOk db_unavailable"
  "code db_unavailable = ServiceUnavailable"
  by (simp_all add: db_unavailable_def)

lemma gives_ret [intro]: "P r \<Longrightarrow> gives P (ret r)"
  by (simp add: gives_def ret_def)

lemma gives_bindE [intro]: "(\<And>a. gives P (f a)) \<Longrightarrow> gives P (bindE c f)"
  by (auto simp: gives_def bindE_Inr_iff)

lemma gives_If [intro]: "gives P c \<Longrightarrow> gives P d \<Longrightarrow> gives P (if b then c else d)"
  by simp

lemma guarded_Inr:
  assumes "guarded conn c w = (Inr a, w')"
  shows "\<exists>w1. c w = (Inr a, w1)"
  using assms by (auto simp: guarded_def split: prod.splits sum.splits exn.splits)

lemma gives_with_conn [intro]: "(\<And>conn. gives P (body conn)) \<Longrightarrow> gives P (with_conn body)"
  unfolding with_conn_def gives_def by (auto simp: bindE_Inr_iff dest!: guarded_Inr)

lemma gives_CHECK_CONN [intro]: "P db_unavailable \<Longrightarrow> gives P c \<Longrightarrow> gives P (CHECK_CONN conn c)"
  unfolding CHECK_CONN_def by (intro gives_bindE gives_If gives_ret)

lemma gives_db_try [intro]: "P db_unavailable \<Longrightarrow> gives P c \<Longrightarrow> gives P (db_try c)"
  unfolding db_try_def gives_def try_catch_def by (auto simp: ret_def split: prod.splits sum.splits if_splits)

lemma settles_try [intro]: "gives_wf c \<Longrightarrow> (\<And>e. settles (h e)) \<Longrightarrow> settles (try_catch c h)"
  unfolding settles_def gives_def try_catch_def
  by (auto split: prod.splits sum.splits if_splits)

lemma settles_ret [intro]: "Result_wf r \<Longrightarrow> settles (ret r)"
  by (simp add: settles_def ret_def)

lemma settles_db_try [intro]: "gives_wf c \<Longrightarrow> settles (db_try c)"
  unfolding db_try_def by (intro settles_try settles_ret) simp_all


subsection \<open>The functions of the system stay the same\<close>

definition sys_kept :: "(('s, 'e, 'r) world, 'a) io \<Rightarrow> bool" where
  "sys_kept c \<longleftrightarrow> (\<forall>w r w'. c w = (r, w') \<longrightarrow> same_sys (w_sys w) (w_sys w'))"

lemma sys_keptD: "sys_kept c \<Longrightarrow> c w = (r, w') \<Longrightarrow> same_sys (w_sys w) (w_sys w')"
  by (auto simp: sys_kept_def)

lemma off_cache_sys_kept: "off_cache c \<Longrightarrow> sys_kept c"
  by (auto simp: off_cache_def sys_kept_def)

lemma sys_kept_redis:
  "sys_kept (rd_SetPx redis_cli k v t)" "sys_kept (rd_Get redis_cli k)" "sys_kept (rd_Exists redis_cli k)"
  "sys_kept (rd_Del redis_cli k)" "sys_kept (rd_PExpire redis_cli k t)" "sys_kept (rd_PTTL redis_cli k)"
  "sys_kept (rd_Incr redis_cli k)"
  by (auto simp: sys_kept_def redis_cli_def RedisClient_at_def zoom_def split: prod.splits)

lemma sys_kept_basic: "sys_kept (ret a)" "sys_kept (throw e)" "sys_kept (lift r)"
  by (simp_all add: off_cache_sys_kept)

lemma sys_kept_bindE:
  assumes c: "sys_kept c" and f: "\<And>a. sys_kept (f a)"
  shows "sys_kept (bindE c f)"
  unfolding sys_kept_def
proof (intro allI impI)
  fix w r w'
  assume run: "bindE c f w = (r, w')"
  obtain v w1 where 1: "c w = (v, w1)" by fastforce
  then consider "w' = w1" | a where "f a w1 = (r, w')" using run by (cases v) (auto simp: bindE_def)
  then show "same_sys (w_sys w) (w_sys w')"
    using sys_keptD [OF c 1] sys_keptD [OF f] by cases (auto intro: same_sys_trans)
qed

lemma sys_kept_If: "sys_kept c \<Longrightarrow> sys_kept d \<Longrightarrow> sys_kept (if b then c else d)"
  by simp

lemmas sys_kept_rules = sys_kept_bindE sys_kept_If sys_kept_basic sys_kept_redis

end
