(* ===== verification/User_Db.thy ===== *)
theory User_Db
  imports World
begin

section \<open>The user table\<close>

text \<open>
  \<open>src/db/user_db.cpp\<close>: the operations on the table \<open>users\<close>, each in the scope of one
  connection of the pool, with the statements of the source and the same handling of
  exceptions.
\<close>

record UserQueryParams =
  q_page_params :: PageParams
  q_mobile_like :: "string option"
  q_disabled :: "bool option"

subsection \<open>Reading rows\<close>

text \<open>The argument of \<open>IntToUserRole\<close> is an \<open>int\<close>, the column an \<open>int64_t\<close>.\<close>

definition UserDB_ParseRow :: "MySQLResult \<Rightarrow> exn + UserEntity" where
  "UserDB_ParseRow res =
     bindS (GetInt res ''id'') (\<lambda>i.
     bindS (GetString res ''uuid'') (\<lambda>uu.
     bindS (GetString res ''mobile'') (\<lambda>mo.
     bindS (GetString res ''password_hash'') (\<lambda>ph.
     bindS (GetInt res ''role'') (\<lambda>ro.
     bindS (GetInt res ''disabled'') (\<lambda>di.
     bindS (GetString res ''created_at'') (\<lambda>ca.
     bindS (GetString res ''updated_at'') (\<lambda>ua.
     bindS (GetString res ''display_name'') (\<lambda>dn.
     Inr \<lparr>u_id = value_or i 0, u_uuid = value_or uu [], u_mobile = value_or mo [],
          u_display_name = value_or dn [], u_password_hash = value_or ph [],
          u_role = IntToUserRole (wrap32 (value_or ro 0)), u_disabled = (value_or di 0 \<noteq> 0),
          u_created_at = value_or ca [], u_updated_at = value_or ua []\<rparr>)))))))))"

definition rows_left :: "MySQLResult \<Rightarrow> nat" where
  "rows_left res = (case mr_result res of None \<Rightarrow> 0 | Some (names, rows) \<Rightarrow> length rows)"

lemma rows_left_Next: "MySQLResult_Next res = (True, res') \<Longrightarrow> rows_left res' < rows_left res"
  by (auto simp: MySQLResult_Next_def rows_left_def split: option.splits list.splits)

text \<open>\<open>while (res.Next()) push_back(ParseRow(res))\<close>.\<close>

function parse_rows :: "MySQLResult \<Rightarrow> UserEntity list \<Rightarrow> exn + UserEntity list" where
  "parse_rows res acc = (case MySQLResult_Next res of
       (False, res') \<Rightarrow> Inr acc
     | (True, res') \<Rightarrow> (case UserDB_ParseRow res' of
           Inl e \<Rightarrow> Inl e
         | Inr user \<Rightarrow> parse_rows res' (acc @ [user])))"
  by pat_completeness auto
termination by (relation "measure (\<lambda>(res, acc). rows_left res)") (auto simp: rows_left_Next)

declare parse_rows.simps [simp del]

text \<open>\<open>if (res.Next()) n = res.GetInt(0).value_or(0)\<close> with the initial value 0.\<close>

definition first_int :: "MySQLResult \<Rightarrow> exn + int" where
  "first_int res = (case MySQLResult_Next res of
       (False, res') \<Rightarrow> Inr 0
     | (True, res') \<Rightarrow> bindS (GetInt_at res' 0) (\<lambda>v. Inr (value_or v 0)))"

subsection \<open>Private queries\<close>

definition FindByField :: "string \<Rightarrow> string \<Rightarrow> (('s, 'e, 'r) world, UserEntity Result) io" where
  "FindByField field_name field_val = db_try (with_conn (\<lambda>conn. CHECK_CONN conn (
     bindE (in_pool (MySQLConnection_Query conn
       (''SELECT * FROM users WHERE '' @ field_name @ '' = ?'') [PString field_val])) (\<lambda>res.
     case MySQLResult_Next res of
       (True, res') \<Rightarrow> bindE (lift (UserDB_ParseRow res')) (\<lambda>user. ret (Result_Ok user))
     | (False, res') \<Rightarrow> ret (Result_Fail UserNotFound (GetErrorMessage UserNotFound))))))"

definition ExistsByField :: "string \<Rightarrow> string \<Rightarrow> (('s, 'e, 'r) world, bool Result) io" where
  "ExistsByField field_name field_val = db_try (with_conn (\<lambda>conn. CHECK_CONN conn (
     bindE (in_pool (MySQLConnection_Query conn
       (''SELECT 1 FROM users WHERE '' @ field_name @ '' = ? LIMIT 1'') [PString field_val])) (\<lambda>res.
     ret (Result_Ok (fst (MySQLResult_Next res)))))))"

subsection \<open>Create\<close>

definition duplicate_code :: "string \<Rightarrow> ErrorCode" where
  "duplicate_code key_name =
     (if key_name = ''uk_mobile'' then MobileTaken
      else if key_name = ''uk_uuid'' then UserAlreadyExists
      else UserAlreadyExists)"

definition UserDB_FindByUUID :: "string \<Rightarrow> (('s, 'e, 'r) world, UserEntity Result) io" where
  "UserDB_FindByUUID uuid = FindByField ''uuid'' uuid"

text \<open>The second query runs on a second connection while the first is still held.\<close>

definition UserDB_Create :: "UserEntity \<Rightarrow> (('s, 'e, 'r) world, UserEntity Result) io" where
  "UserDB_Create user = try_catch
     (with_conn (\<lambda>conn. CHECK_CONN conn (
        bindE (in_sys UUID_Generate) (\<lambda>uuid.
        bindE (in_pool (MySQLConnection_Execute conn
          (''INSERT INTO users (uuid, mobile, display_name, password_hash, role) '' @
           ''VALUES (?, ?, ?, ?, ?)'')
          [PString uuid, PString (u_mobile user), PString (u_display_name user),
           PString (u_password_hash user), PInt (UserRoleToInt (u_role user))])) (\<lambda>_.
        UserDB_FindByUUID uuid)))))
     (\<lambda>e. case e of
        MySQLDuplicateKeyException err_code msg \<Rightarrow>
          (let c = duplicate_code (ParseKeyName msg) in ret (Result_Fail c (GetErrorMessage c)))
      | _ \<Rightarrow> ret db_unavailable)"

subsection \<open>Read\<close>

definition UserDB_FindById :: "int \<Rightarrow> (('s, 'e, 'r) world, UserEntity Result) io" where
  "UserDB_FindById i = FindByField ''id'' (to_string i)"

definition UserDB_FindByMobile :: "string \<Rightarrow> (('s, 'e, 'r) world, UserEntity Result) io" where
  "UserDB_FindByMobile mobile = FindByField ''mobile'' mobile"

definition UserDB_ExistsByMobile :: "string \<Rightarrow> (('s, 'e, 'r) world, bool Result) io" where
  "UserDB_ExistsByMobile mobile = ExistsByField ''mobile'' mobile"

subsection \<open>Update and delete\<close>

definition UserDB_Update :: "UserEntity \<Rightarrow> (('s, 'e, 'r) world, unit Result) io" where
  "UserDB_Update user = db_try (with_conn (\<lambda>conn. CHECK_CONN conn (
     bindE (in_pool (MySQLConnection_Execute conn
       (''UPDATE users SET display_name = ?, password_hash = ?, '' @
        ''disabled = ?, role = ? WHERE uuid = ?'')
       [PString (u_display_name user), PString (u_password_hash user), PBool (u_disabled user),
        PInt (UserRoleToInt (u_role user)), PString (u_uuid user)])) (\<lambda>affect_row.
     if affect_row = 0 then ret (Result_Fail UserNotFound (GetErrorMessage UserNotFound))
     else ret (Result_Ok ())))))"

definition UserDB_Delete :: "int \<Rightarrow> (('s, 'e, 'r) world, unit Result) io" where
  "UserDB_Delete i = db_try (with_conn (\<lambda>conn. CHECK_CONN conn (
     bindE (in_pool (MySQLConnection_Execute conn ''DELETE FROM users WHERE id = ?''
       [PString (to_string i)])) (\<lambda>affect_row.
     if affect_row = 0 then ret (Result_Fail UserNotFound (GetErrorMessage UserNotFound))
     else ret (Result_Ok ())))))"

definition UserDB_DeleteByUUID :: "string \<Rightarrow> (('s, 'e, 'r) world, unit Result) io" where
  "UserDB_DeleteByUUID uuid = db_try (with_conn (\<lambda>conn. CHECK_CONN conn (
     bindE (in_pool (MySQLConnection_Execute conn ''DELETE FROM users WHERE uuid = ?''
       [PString uuid])) (\<lambda>affect_row.
     if affect_row = 0 then ret (Result_Fail UserNotFound (GetErrorMessage UserNotFound))
     else ret (Result_Ok ())))))"

subsection \<open>Pages\<close>

definition UserDB_FindAll_page ::
  "PageParams \<Rightarrow> string \<Rightarrow> (('s, 'e, 'r) world, (UserEntity list \<times> PageResult) Result) io" where
  "UserDB_FindAll_page pg mobile_filter = db_try (with_conn (\<lambda>conn. CHECK_CONN conn (
     let like_pattern = ''%'' @ mobile_filter @ ''%'' in
     bindE (in_pool (MySQLConnection_Query conn ''SELECT COUNT(*) FROM users WHERE mobile LIKE ?''
       [PString like_pattern])) (\<lambda>count_res.
     bindE (lift (first_int count_res)) (\<lambda>total_n.
     bindE (in_pool (MySQLConnection_Query conn
       (''SELECT * FROM users WHERE mobile LIKE ? '' @ ''ORDER BY created_at DESC, id DESC '' @ ''LIMIT ?, ?'')
       [PString like_pattern, PInt (PageParams_Offset pg), PInt (page_size pg)])) (\<lambda>data_res.
     bindE (lift (parse_rows data_res [])) (\<lambda>users.
     ret (Result_Ok (users, PageResult_Create (page pg) (page_size pg) (wrap32 total_n))))))))))"

text \<open>The filters that \<open>FindAll\<close> and \<open>Count\<close> append to their statement.\<close>

definition query_filters :: "UserQueryParams \<Rightarrow> string \<Rightarrow> string \<times> Param list" where
  "query_filters params sql =
     (let (sql, bindings) = (case q_mobile_like params of
            Some l \<Rightarrow> if l \<noteq> [] then (sql @ '' AND mobile LIKE ?'', [PString (''%'' @ l @ ''%'')]) else (sql, [])
          | None \<Rightarrow> (sql, []))
      in case q_disabled params of
           Some d \<Rightarrow> (sql @ '' AND disabled = ?'', bindings @ [PBool d])
         | None \<Rightarrow> (sql, bindings))"

definition UserDB_FindAll :: "UserQueryParams \<Rightarrow> (('s, 'e, 'r) world, UserEntity list Result) io" where
  "UserDB_FindAll params = db_try (with_conn (\<lambda>conn. CHECK_CONN conn (
     let (sql, bindings) = query_filters params ''SELECT * FROM users WHERE 1=1'';
         sql = sql @ '' ORDER BY created_at DESC, id DESC LIMIT ?, ?'';
         bindings = bindings @ [PInt (PageParams_Offset (q_page_params params)),
                                PInt (page_size (q_page_params params))] in
     bindE (in_pool (MySQLConnection_Query conn sql bindings)) (\<lambda>res.
     bindE (lift (parse_rows res [])) (\<lambda>users. ret (Result_Ok users))))))"

definition UserDB_Count :: "UserQueryParams \<Rightarrow> (('s, 'e, 'r) world, int Result) io" where
  "UserDB_Count params = db_try (with_conn (\<lambda>conn. CHECK_CONN conn (
     let (sql, bindings) = query_filters params ''SELECT COUNT(*) FROM users WHERE 1=1'' in
     bindE (in_pool (MySQLConnection_Query conn sql bindings)) (\<lambda>res.
     bindE (lift (first_int res)) (\<lambda>cnt. ret (Result_Ok cnt))))))"


subsection \<open>Every operation settles and stays off the cache\<close>

lemma gives_Next [intro]:
  "(\<And>r. gives P (f r)) \<Longrightarrow> (\<And>r. gives P (g r)) \<Longrightarrow>
    gives P (case p of (True, r) \<Rightarrow> f r | (False, r) \<Rightarrow> g r)"
  by (cases p) (simp split: bool.splits)

lemma off_cache_Next [intro]:
  "(\<And>r. off_cache (f r)) \<Longrightarrow> (\<And>r. off_cache (g r)) \<Longrightarrow>
    off_cache (case p of (True, r) \<Rightarrow> f r | (False, r) \<Rightarrow> g r)"
  by (cases p) (simp split: bool.splits)

lemmas gives_rules = gives_with_conn gives_CHECK_CONN gives_bindE gives_If gives_Next

lemmas off_cache_rules = off_cache_db off_cache_with_conn off_cache_bindE off_cache_If off_cache_Next
  off_cache_basic

lemma settles_find:
  "settles (FindByField f v)" "settles (ExistsByField f v)" "settles (UserDB_FindByUUID u)"
  "settles (UserDB_FindById i)" "settles (UserDB_FindByMobile m)" "settles (UserDB_ExistsByMobile m)"
  unfolding FindByField_def ExistsByField_def UserDB_FindByUUID_def UserDB_FindById_def
    UserDB_FindByMobile_def UserDB_ExistsByMobile_def
  by ((intro settles_db_try gives_rules gives_ret; simp)+)

text \<open>A query that finds or does not find gives no other code.\<close>

lemma find_codes:
  "gives (\<lambda>r. code r \<in> {Ok, UserNotFound, ServiceUnavailable}) (FindByField f v)"
  unfolding FindByField_def by (intro gives_db_try gives_rules gives_ret; simp)

lemma off_cache_find:
  "off_cache (FindByField f v)" "off_cache (ExistsByField f v)" "off_cache (UserDB_FindByUUID u)"
  "off_cache (UserDB_FindById i)" "off_cache (UserDB_FindByMobile m)" "off_cache (UserDB_ExistsByMobile m)"
  unfolding FindByField_def ExistsByField_def UserDB_FindByUUID_def UserDB_FindById_def
    UserDB_FindByMobile_def UserDB_ExistsByMobile_def
  by (intro off_cache_rules)+

lemma settles_change:
  "settles (UserDB_Update u)" "settles (UserDB_Delete i)" "settles (UserDB_DeleteByUUID uu)"
  unfolding UserDB_Update_def UserDB_Delete_def UserDB_DeleteByUUID_def
  by ((intro settles_db_try gives_rules gives_ret; simp)+)

lemma off_cache_change:
  "off_cache (UserDB_Update u)" "off_cache (UserDB_Delete i)" "off_cache (UserDB_DeleteByUUID uu)"
  unfolding UserDB_Update_def UserDB_Delete_def UserDB_DeleteByUUID_def
  by (intro off_cache_rules)+

lemma settles_pages:
  "settles (UserDB_FindAll_page pg f)" "settles (UserDB_FindAll q)" "settles (UserDB_Count q)"
  unfolding UserDB_FindAll_page_def UserDB_FindAll_def UserDB_Count_def Let_def case_prod_beta
  by ((intro settles_db_try gives_rules gives_ret; simp)+)

lemma off_cache_pages:
  "off_cache (UserDB_FindAll_page pg f)" "off_cache (UserDB_FindAll q)" "off_cache (UserDB_Count q)"
  unfolding UserDB_FindAll_page_def UserDB_FindAll_def UserDB_Count_def Let_def case_prod_beta
  by (intro off_cache_rules)+

lemma duplicate_code_wf: "duplicate_code k \<noteq> Ok"
  by (simp add: duplicate_code_def)

lemma settles_Create: "settles (UserDB_Create u)"
  unfolding UserDB_Create_def
proof (rule settles_try)
  show "settles (case e of
        MySQLDuplicateKeyException err_code msg \<Rightarrow>
          (let c = duplicate_code (ParseKeyName msg) in ret (Result_Fail c (GetErrorMessage c)))
      | _ \<Rightarrow> ret db_unavailable)" for e
    by (cases e) (auto simp: Let_def duplicate_code_wf intro: settles_ret)
qed (intro gives_rules settles_gives_wf settles_find db_unavailable_wf)

lemma off_cache_Create: "off_cache (UserDB_Create u)"
  unfolding UserDB_Create_def
proof (rule off_cache_try)
  show "off_cache (case e of
        MySQLDuplicateKeyException err_code msg \<Rightarrow>
          (let c = duplicate_code (ParseKeyName msg) in ret (Result_Fail c (GetErrorMessage c)))
      | _ \<Rightarrow> ret db_unavailable)" for e
    by (cases e) (simp_all add: Let_def)
qed (intro off_cache_rules off_cache_find off_cache_in_sys sys_total_UUID_Generate)


subsection \<open>Rows and users\<close>

text \<open>What the server stores of a user under the name of a column; other columns hold anything.\<close>

definition user_column :: "(string \<Rightarrow> string option) \<Rightarrow> UserEntity \<Rightarrow> string \<Rightarrow> string option" where
  "user_column other u = other(
     ''id'' \<mapsto> to_string (u_id u), ''uuid'' \<mapsto> u_uuid u, ''mobile'' \<mapsto> u_mobile u,
     ''display_name'' \<mapsto> u_display_name u, ''password_hash'' \<mapsto> u_password_hash u,
     ''role'' \<mapsto> to_string (UserRoleToInt (u_role u)), ''disabled'' \<mapsto> (if u_disabled u then ''1'' else ''0''),
     ''created_at'' \<mapsto> u_created_at u, ''updated_at'' \<mapsto> u_updated_at u)"

definition user_columns :: "string set" where
  "user_columns = {''id'', ''uuid'', ''mobile'', ''display_name'', ''password_hash'', ''role'', ''disabled'',
     ''created_at'', ''updated_at''}"

definition user_ok :: "UserEntity \<Rightarrow> bool" where
  "user_ok u \<longleftrightarrow> in_int64 (u_id u) \<and> in_int32 (UserRoleToInt (u_role u)) \<and> u_role u \<noteq> UnnamedRole 0
     \<and> u_role u \<noteq> UnnamedRole 1 \<and> u_role u \<noteq> UnnamedRole 2"

lemma IntToUserRole_ok: "user_ok u \<Longrightarrow> IntToUserRole (UserRoleToInt (u_role u)) = u_role u"
  by (cases "u_role u") (auto simp: user_ok_def IntToUserRole_def)

lemma in_int32_64: "in_int32 x \<Longrightarrow> in_int64 x"
  by (simp add: in_int32_def in_int64_def)

lemma to_string_flag: "to_string 1 = ''1''" "to_string 0 = ''0''"
  by code_simp+

lemma strtoll_flag [simp]: "strtoll ''1'' = 1" "strtoll ''0'' = 0"
  unfolding to_string_flag [symmetric] by (simp_all add: in_int64_def)

text \<open>A result with a current row: its columns by name.\<close>

definition on_row :: "(string \<Rightarrow> string option) \<Rightarrow> string list \<Rightarrow> MySQLResult \<Rightarrow> bool" where
  "on_row col names res \<longleftrightarrow> mr_current res = Some (map col names) \<and> mr_field_count res = length names
     \<and> mr_col_map res = map_of (rev (zip names [0..<length names]))"

lemma col_map_distinct:
  assumes "distinct names" and "n \<in> set names"
  shows "\<exists>i<length names. names ! i = n \<and> map_of (rev (zip names [0..<length names])) n = Some i"
proof -
  obtain i where i: "i < length names" "names ! i = n" using assms(2) by (auto simp: in_set_conv_nth)
  have d: "distinct (map fst (rev (zip names [0..<length names])))" using assms(1) by (simp add: rev_map [symmetric])
  have "(n, i) \<in> set (rev (zip names [0..<length names]))"
    using i by (auto simp: in_set_zip intro!: exI [of _ i])
  then show ?thesis using i map_of_is_SomeI [OF d] by blast
qed

lemma on_row_get:
  assumes "on_row col names res" and "distinct names" and "n \<in> set names"
  shows "GetString res n = Inr (col n)" and "GetInt res n = Inr (map_option strtoll (col n))"
  using col_map_distinct [OF assms(2,3)] assms(1)
  by (auto simp: on_row_def GetString_def GetInt_def GetColumnIndex_def GetString_at_def GetInt_at_def CheckColumn_def)

lemma ParseRow_user:
  assumes row: "on_row (user_column other u) names res" and d: "distinct names"
    and c: "user_columns \<subseteq> set names" and u: "user_ok u"
  shows "UserDB_ParseRow res = Inr u"
proof -
  note get = on_row_get [OF row d]
  have names: "''id'' \<in> set names" "''uuid'' \<in> set names" "''mobile'' \<in> set names"
    "''display_name'' \<in> set names" "''password_hash'' \<in> set names" "''role'' \<in> set names"
    "''disabled'' \<in> set names" "''created_at'' \<in> set names" "''updated_at'' \<in> set names"
    using c by (auto simp: user_columns_def)
  have i: "in_int64 (u_id u)" "in_int32 (UserRoleToInt (u_role u))" using u by (auto simp: user_ok_def)
  show ?thesis
    unfolding UserDB_ParseRow_def
    by (simp add: get names bindS_def user_column_def value_or_def i in_int32_64 IntToUserRole_ok [OF u])
qed

lemma Next_new:
  assumes "MySQLResult_Next res = (True, res')" and "mr_result res = Some (names, map col us)"
    and "mr_field_count res = length names" and "mr_col_map res = map_of (rev (zip names [0..<length names]))"
  shows "\<exists>u us'. us = u # us' \<and> mr_result res' = Some (names, map col us') \<and> mr_current res' = Some (col u)
    \<and> mr_field_count res' = length names \<and> mr_col_map res' = map_of (rev (zip names [0..<length names]))"
  using assms by (cases us) (auto simp: MySQLResult_Next_def)

lemma parse_rows_users:
  assumes "mr_result res = Some (names, map (\<lambda>u. map (user_column other u) names) us)"
    and "mr_field_count res = length names" and "mr_col_map res = map_of (rev (zip names [0..<length names]))"
    and "distinct names" and "user_columns \<subseteq> set names" and "\<forall>u\<in>set us. user_ok u"
  shows "parse_rows res acc = Inr (acc @ us)"
  using assms
proof (induction us arbitrary: res acc)
  case Nil
  then show ?case by (subst parse_rows.simps) (simp add: MySQLResult_Next_def)
next
  case (Cons u us)
  obtain res' where n: "MySQLResult_Next res = (True, res')"
    using Cons.prems(1) by (simp add: MySQLResult_Next_def)
  have r: "mr_result res' = Some (names, map (\<lambda>u. map (user_column other u) names) us)"
    "mr_field_count res' = length names" "mr_col_map res' = map_of (rev (zip names [0..<length names]))"
    "mr_current res' = Some (map (user_column other u) names)"
    using Next_new [OF n Cons.prems(1-3)] by auto
  have "UserDB_ParseRow res' = Inr u"
    using r Cons.prems(4-6) by (intro ParseRow_user [of other u names]) (auto simp: on_row_def)
  with n Cons.IH [OF r(1-3) Cons.prems(4,5), of "acc @ [u]"] Cons.prems(6) show ?case
    by (subst parse_rows.simps) simp
qed

subsection \<open>Properties\<close>

text \<open>Reading back a page: a result set that holds the columns of the user table under their
  names, in whatever order and with whatever other columns, is parsed into exactly the users
  it stands for, all of them and in their order.\<close>

lemma user_rows_roundtrip:
  assumes "distinct names" and "user_columns \<subseteq> set names" and "\<forall>u\<in>set us. user_ok u"
  shows "parse_rows (MySQLResult_new (Some (names, map (\<lambda>u. map (user_column other u) names) us))) [] = Inr us"
  using assms by (subst parse_rows_users [of _ names other us]) (simp_all add: MySQLResult_new_def)

definition user_names :: "string list" where
  "user_names = [''id'', ''uuid'', ''mobile'', ''display_name'', ''password_hash'', ''role'', ''disabled'',
     ''created_at'', ''updated_at'', ''extra'']"

lemma user_rows_roundtrip_example:
  "parse_rows (MySQLResult_new (Some (user_names, map (\<lambda>u. map (user_column Map.empty u) user_names)
     [UserEntity_default\<lparr>u_id := 7, u_role := Admin\<rparr>, UserEntity_default\<lparr>u_id := 8, u_disabled := True\<rparr>]))) []
   = Inr [UserEntity_default\<lparr>u_id := 7, u_role := Admin\<rparr>, UserEntity_default\<lparr>u_id := 8, u_disabled := True\<rparr>]"
  by (rule user_rows_roundtrip)
     (simp_all add: user_names_def user_columns_def user_ok_def UserEntity_default_def in_int64_def in_int32_def)

end
