(* ===== verification/Token_Repository.thy ===== *)
theory Token_Repository
  imports User_Db
begin

section \<open>The session table\<close>

text \<open>
  \<open>src/auth/token_repository.cpp\<close>: the operations on the table \<open>user_sessions\<close>, which holds the
  hashes of the refresh tokens that are still good.
\<close>

definition TokenRepository_ParseRow :: "MySQLResult \<Rightarrow> exn + TokenSession" where
  "TokenRepository_ParseRow res =
     bindS (GetInt res ''id'') (\<lambda>i.
     bindS (GetInt res ''user_id'') (\<lambda>ui.
     bindS (GetString res ''token_hash'') (\<lambda>th.
     bindS (GetString res ''expires_at'') (\<lambda>ea.
     bindS (GetString res ''created_at'') (\<lambda>ca.
     Inr \<lparr>s_id = value_or i 0, s_user_id = value_or ui 0, s_token_hash = value_or th [],
          s_expires_at = value_or ea [], s_created_at = value_or ca []\<rparr>)))))"

definition FormatDatetime :: "int \<Rightarrow> ('e sys, string) io" where
  "FormatDatetime tp = ask (\<lambda>s. sys_localtime s (to_time_t tp))"

definition NowDatetime :: "('e sys, string) io" where
  "NowDatetime = bindE system_clock_now FormatDatetime"

definition SaveRefreshToken :: "int \<Rightarrow> string \<Rightarrow> int \<Rightarrow> (('s, 'e, 'r) world, unit Result) io" where
  "SaveRefreshToken user_id token_hash expires_in_seconds = try_catch
     (with_conn (\<lambda>conn. CHECK_CONN conn (
        bindE (in_sys system_clock_now) (\<lambda>now.
        bindE (in_sys (FormatDatetime (plus_seconds now expires_in_seconds))) (\<lambda>expires_at_str.
        bindE (in_pool (MySQLConnection_Execute conn
          (''INSERT INTO user_sessions (user_id, token_hash, expires_at) '' @ ''VALUES (?, ?, ?)'')
          [PString (to_string user_id), PString token_hash, PString expires_at_str])) (\<lambda>_.
        ret (Result_Ok ())))))))
     (\<lambda>e. case e of
        MySQLDuplicateKeyException err_code msg \<Rightarrow> ret (Result_Fail Internal (''Token '' @ utf8 [0x4FDD, 0x5B58, 0x5931, 0x8D25]))
      | _ \<Rightarrow> ret db_unavailable)"

definition FindByTokenHash :: "string \<Rightarrow> (('s, 'e, 'r) world, TokenSession Result) io" where
  "FindByTokenHash token_hash = db_try (with_conn (\<lambda>conn. CHECK_CONN conn (
     bindE (in_pool (MySQLConnection_Query conn
       (''SELECT id, user_id, token_hash, expires_at, created_at '' @ ''FROM user_sessions '' @
        ''WHERE token_hash = ?'') [PString token_hash])) (\<lambda>res.
     case MySQLResult_Next res of
       (True, res') \<Rightarrow> bindE (lift (TokenRepository_ParseRow res')) (\<lambda>session. ret (Result_Ok session))
     | (False, res') \<Rightarrow> ret (Result_Fail TokenInvalid (GetErrorMessage TokenInvalid))))))"

definition IsTokenValid :: "string \<Rightarrow> (('s, 'e, 'r) world, bool Result) io" where
  "IsTokenValid token_hash = db_try (with_conn (\<lambda>conn. CHECK_CONN conn (
     bindE (in_pool (MySQLConnection_Query conn
       (''SELECT 1 FROM user_sessions '' @ ''WHERE token_hash = ? AND expires_at > NOW() '' @
        ''LIMIT 1'') [PString token_hash])) (\<lambda>res.
     ret (Result_Ok (fst (MySQLResult_Next res)))))))"

definition CountActiveSessionsByUserId :: "int \<Rightarrow> (('s, 'e, 'r) world, int Result) io" where
  "CountActiveSessionsByUserId user_id = db_try (with_conn (\<lambda>conn. CHECK_CONN conn (
     bindE (in_pool (MySQLConnection_Query conn
       (''SELECT COUNT(*) FROM user_sessions '' @ ''WHERE user_id = ? AND expires_at > NOW()'')
       [PString (to_string user_id)])) (\<lambda>res.
     bindE (case MySQLResult_Next res of
         (False, res') \<Rightarrow> ret 0
       | (True, res') \<Rightarrow> bindE (lift (GetInt_at res' 0)) (\<lambda>v. ret (value_or v 0))) (\<lambda>cnt.
     ret (Result_Ok cnt))))))"

definition DeleteByTokenHash :: "string \<Rightarrow> (('s, 'e, 'r) world, unit Result) io" where
  "DeleteByTokenHash token_hash = db_try (with_conn (\<lambda>conn. CHECK_CONN conn (
     bindE (in_pool (MySQLConnection_Execute conn
       ''DELETE FROM user_sessions WHERE token_hash = ?'' [PString token_hash])) (\<lambda>affected.
     ret (Result_Ok ())))))"

definition DeleteByUserId :: "int \<Rightarrow> (('s, 'e, 'r) world, unit Result) io" where
  "DeleteByUserId user_id = db_try (with_conn (\<lambda>conn. CHECK_CONN conn (
     bindE (in_pool (MySQLConnection_Execute conn
       ''DELETE FROM user_sessions WHERE user_id = ?'' [PString (to_string user_id)])) (\<lambda>affected.
     ret (Result_Ok ())))))"

definition CleanExpiredTokens :: "(('s, 'e, 'r) world, int Result) io" where
  "CleanExpiredTokens = db_try (with_conn (\<lambda>conn. CHECK_CONN conn (
     bindE (in_pool (MySQLConnection_Execute conn
       ''DELETE FROM user_sessions WHERE expires_at <= NOW()'' [])) (\<lambda>affected.
     ret (Result_Ok affected)))))"


subsection \<open>Every operation settles and stays off the cache\<close>

lemma sys_total_FormatDatetime [simp, intro]: "sys_total (FormatDatetime tp)"
  by (simp add: FormatDatetime_def)

lemma settles_sessions:
  "settles (FindByTokenHash t)" "settles (IsTokenValid t)" "settles (CountActiveSessionsByUserId i)"
  "settles (DeleteByTokenHash t)" "settles (DeleteByUserId i)" "settles CleanExpiredTokens"
  unfolding FindByTokenHash_def IsTokenValid_def CountActiveSessionsByUserId_def DeleteByTokenHash_def
    DeleteByUserId_def CleanExpiredTokens_def
  by ((intro settles_db_try gives_rules gives_ret; simp)+)

lemma off_cache_sessions:
  "off_cache (FindByTokenHash t)" "off_cache (IsTokenValid t)" "off_cache (CountActiveSessionsByUserId i)"
  "off_cache (DeleteByTokenHash t)" "off_cache (DeleteByUserId i)" "off_cache CleanExpiredTokens"
  unfolding FindByTokenHash_def IsTokenValid_def CountActiveSessionsByUserId_def DeleteByTokenHash_def
    DeleteByUserId_def CleanExpiredTokens_def
  by (intro off_cache_rules)+

lemma settles_Save: "settles (SaveRefreshToken i t n)"
  unfolding SaveRefreshToken_def
proof (rule settles_try)
  show "settles (case e of
        MySQLDuplicateKeyException err_code msg \<Rightarrow> ret (Result_Fail Internal (''Token '' @ utf8 [0x4FDD, 0x5B58, 0x5931, 0x8D25]))
      | _ \<Rightarrow> ret db_unavailable)" for e
    by (cases e) (auto intro: settles_ret)
qed (intro gives_rules gives_ret; simp)

lemma off_cache_Save: "off_cache (SaveRefreshToken i t n)"
  unfolding SaveRefreshToken_def
proof (rule off_cache_try)
  show "off_cache (case e of
        MySQLDuplicateKeyException err_code msg \<Rightarrow> ret (Result_Fail Internal (''Token '' @ utf8 [0x4FDD, 0x5B58, 0x5931, 0x8D25]))
      | _ \<Rightarrow> ret db_unavailable)" for e
    by (cases e) simp_all
qed (intro off_cache_rules off_cache_in_sys sys_total_basic sys_total_FormatDatetime)


subsection \<open>Deleting a session\<close>

lemma delete_session_idempotent: "gives (\<lambda>r. code r \<noteq> UserNotFound \<and> code r \<noteq> TokenInvalid) (DeleteByTokenHash t)"
  unfolding DeleteByTokenHash_def by (intro gives_db_try gives_rules gives_ret; simp)

end
