(* ===== verification/Interfaces.thy ===== *)
theory Interfaces
  imports Validator Jwt Sms User_Db Token_Repository
begin

section \<open>What the services are built on\<close>

text \<open>
  The services hold their collaborators by pointer and call their virtual methods: each
  collaborator is a record of methods on some state. The instances on the state of the whole
  program are those \<open>src/server/grpc_server.cpp\<close> makes in \<open>InitDatabase\<close>, \<open>InitRepositories\<close>
  and \<open>InitServices\<close>.
\<close>

record 'w UserDB =
  db_Create :: "UserEntity \<Rightarrow> ('w, UserEntity Result) io"
  db_FindById :: "int \<Rightarrow> ('w, UserEntity Result) io"
  db_FindByUUID :: "string \<Rightarrow> ('w, UserEntity Result) io"
  db_FindByMobile :: "string \<Rightarrow> ('w, UserEntity Result) io"
  db_Update :: "UserEntity \<Rightarrow> ('w, unit Result) io"
  db_Delete :: "int \<Rightarrow> ('w, unit Result) io"
  db_DeleteByUUID :: "string \<Rightarrow> ('w, unit Result) io"
  db_FindAll_page :: "PageParams \<Rightarrow> string \<Rightarrow> ('w, (UserEntity list \<times> PageResult) Result) io"
  db_FindAll :: "UserQueryParams \<Rightarrow> ('w, UserEntity list Result) io"
  db_ExistsByMobile :: "string \<Rightarrow> ('w, bool Result) io"
  db_Count :: "UserQueryParams \<Rightarrow> ('w, int Result) io"

record 'w TokenRepository =
  tr_SaveRefreshToken :: "int \<Rightarrow> string \<Rightarrow> int \<Rightarrow> ('w, unit Result) io"
  tr_FindByTokenHash :: "string \<Rightarrow> ('w, TokenSession Result) io"
  tr_IsTokenValid :: "string \<Rightarrow> ('w, bool Result) io"
  tr_CountActiveSessionsByUserId :: "int \<Rightarrow> ('w, int Result) io"
  tr_DeleteByTokenHash :: "string \<Rightarrow> ('w, unit Result) io"
  tr_DeleteByUserId :: "int \<Rightarrow> ('w, unit Result) io"
  tr_CleanExpiredTokens :: "('w, int Result) io"

record 'w JwtService =
  jwt_GenerateTokenPair :: "UserEntity \<Rightarrow> ('w, TokenPair) io"
  jwt_VerifyAccessToken :: "string \<Rightarrow> ('w, AccessTokenPayload Result) io"
  jwt_ParseRefreshToken :: "string \<Rightarrow> ('w, string Result) io"
  jwt_HashToken :: "string \<Rightarrow> ('w, string) io"

record 'w SmsService =
  sms_SendCaptcha :: "SmsScene \<Rightarrow> string \<Rightarrow> ('w, int Result) io"
  sms_VerifyCaptcha :: "SmsScene \<Rightarrow> string \<Rightarrow> string \<Rightarrow> ('w, unit Result) io"
  sms_ConsumeCaptcha :: "SmsScene \<Rightarrow> string \<Rightarrow> ('w, unit Result) io"

text \<open>The static functions of \<open>PasswordHelper\<close>.\<close>

record 'w PasswordHelper =
  ph_Hash :: "string \<Rightarrow> ('w, string) io"
  ph_Verify :: "string \<Rightarrow> string \<Rightarrow> ('w, bool) io"

subsection \<open>The production objects\<close>

definition user_db :: "('s, 'e, 'r) world UserDB" where
  "user_db = \<lparr>db_Create = UserDB_Create, db_FindById = UserDB_FindById, db_FindByUUID = UserDB_FindByUUID,
     db_FindByMobile = UserDB_FindByMobile, db_Update = UserDB_Update, db_Delete = UserDB_Delete,
     db_DeleteByUUID = UserDB_DeleteByUUID, db_FindAll_page = UserDB_FindAll_page, db_FindAll = UserDB_FindAll,
     db_ExistsByMobile = UserDB_ExistsByMobile, db_Count = UserDB_Count\<rparr>"

definition token_repo :: "('s, 'e, 'r) world TokenRepository" where
  "token_repo = \<lparr>tr_SaveRefreshToken = SaveRefreshToken, tr_FindByTokenHash = FindByTokenHash,
     tr_IsTokenValid = IsTokenValid, tr_CountActiveSessionsByUserId = CountActiveSessionsByUserId,
     tr_DeleteByTokenHash = DeleteByTokenHash, tr_DeleteByUserId = DeleteByUserId,
     tr_CleanExpiredTokens = CleanExpiredTokens\<rparr>"

definition jwt_service :: "SecurityConfig \<Rightarrow> ('s, 'e, 'r) world JwtService" where
  "jwt_service config = \<lparr>
     jwt_GenerateTokenPair = \<lambda>u. in_sys (GenerateTokenPair config u),
     jwt_VerifyAccessToken = \<lambda>t. in_sys (VerifyAccessToken config t),
     jwt_ParseRefreshToken = \<lambda>t. in_sys (ParseRefreshToken config t),
     jwt_HashToken = \<lambda>t. in_sys (HashToken t)\<rparr>"

definition sms_service :: "SmsConfig \<Rightarrow> ('s, 'e, 'r) world SmsService" where
  "sms_service config = \<lparr>
     sms_SendCaptcha = SendCaptcha redis_cli config,
     sms_VerifyCaptcha = VerifyCaptcha redis_cli config,
     sms_ConsumeCaptcha = ConsumeCaptcha redis_cli\<rparr>"

definition password_helper :: "('s, 'e, 'r) world PasswordHelper" where
  "password_helper = \<lparr>
     ph_Hash = \<lambda>p. in_sys (PasswordHelper_Hash p),
     ph_Verify = \<lambda>p h. in_sys (ask (\<lambda>s. PasswordHelper_Verify (sys_sha256 s) p h))\<rparr>"

subsection \<open>How the services chain calls\<close>

text \<open>\<open>if (!IsValid\<dots>(\<dots>, error)) return Fail(InvalidArgument, error);\<close>\<close>

definition require :: "string option \<Rightarrow> ('w, 'a Result) io \<Rightarrow> ('w, 'a Result) io" where
  "require v k = (case v of Some error \<Rightarrow> ret (Result_Fail InvalidArgument error) | None \<Rightarrow> k)"

text \<open>\<open>bindR\<close> for a \<open>Result<void>\<close>, which has no data to read.\<close>

definition bindV :: "('w, unit Result) io \<Rightarrow> ('w, 'b Result) io \<Rightarrow> ('w, 'b Result) io" where
  "bindV m k = bindE m (\<lambda>r. if \<not> IsOk r then ret (Result_Fail (code r) (message r)) else k)"

lemma require_Ok_iff: "require v k w = (Inr (Result_Ok a), w') \<longleftrightarrow> v = None \<and> k w = (Inr (Result_Ok a), w')"
  by (auto simp: require_def ret_def split: option.splits)

lemma bindV_Ok_iff:
  "bindV m k w = (Inr (Result_Ok b), w'') \<longleftrightarrow>
     (\<exists>r w'. m w = (Inr r, w') \<and> IsOk r \<and> k w' = (Inr (Result_Ok b), w''))"
  by (auto simp: bindV_def bindE_Inr_iff ret_def split: if_splits)


subsection \<open>An example world\<close>

text \<open>One connection, to a server whose tables are empty; an empty cache; a system whose clock
  stands still.\<close>

definition pool_example :: "(nat list \<times> nat) pool" where
  "pool_example = pool_state [1] 1 MySQLConfig_default [1]"

definition world_example :: "int \<Rightarrow> (nat list \<times> nat, unit, string \<rightharpoonup> string) world" where
  "world_example t = \<lparr>w_pool = pool_example, w_sys = sys_example t, w_redis = redis_mem Map.empty\<rparr>"

lemma pool_state_query:
  "my_query (pool_state hs n c i) = (\<lambda>m q s. (True, s))" "my_store_result (pool_state hs n c i) = (\<lambda>m s. (None, s))"
  "my_field_count (pool_state hs n c i) = (\<lambda>m s. 0)" "my_escape (pool_state hs n c i) = (\<lambda>m x s. manual_escape x)"
  by (simp_all add: pool_state_def pool_of_def mysql_accepting_def mysql_refusing_def mysql.defs pool.defs)

lemma FindByMobile_example:
  fixes w :: "(nat list \<times> nat, 'e, 'r) world"
  assumes "w_pool w = pool_example"
  shows "UserDB_FindByMobile m w = (Inr (Result_Fail UserNotFound (GetErrorMessage UserNotFound)), w)"
proof -
  have w: "w\<lparr>w_pool := pool_example\<rparr> = w" using assms by simp
  have acq: "in_pool CreateConnection w = (Inr 1, w\<lparr>w_pool := pool_state [1] 1 MySQLConfig_default []\<rparr>)"
    by (simp add: in_pool_def zoom_def CreateConnection_def Acquire_def assms pool_example_def pool_state_sel
        MySQLConnection_Valid_def my_call_def bindE_def ret_def)
  have del: "in_pool (ConnectionGuard_delete 1) (w\<lparr>w_pool := pool_state [1] 1 MySQLConfig_default []\<rparr>) = (Inr (), w)"
    using w by (simp add: in_pool_def zoom_def ConnectionGuard_delete_def Release_def pool_example_def pool_state_sel
        MySQLConnection_Valid_def my_call_def bindE_def ret_def)
  have q: "in_pool (MySQLConnection_Query 1 ''SELECT * FROM users WHERE mobile = ?'' [PString m])
      (w\<lparr>w_pool := pool_state [1] 1 MySQLConfig_default []\<rparr>) =
      (Inr (MySQLResult_new None), w\<lparr>w_pool := pool_state [1] 1 MySQLConfig_default []\<rparr>)"
    by (simp add: in_pool_def zoom_def MySQLConnection_Query_def run_sql_def Escape_def my_ask_def my_call_def bindE_def
        ret_def lift_def BuildSQL_render pool_state_sel pool_state_query)
  have v: "in_pool (MySQLConnection_Valid 1) (w\<lparr>w_pool := pool_state [1] 1 MySQLConfig_default []\<rparr>) =
      (Inr True, w\<lparr>w_pool := pool_state [1] 1 MySQLConfig_default []\<rparr>)"
    by (simp add: in_pool_def zoom_def MySQLConnection_Valid_def my_call_def pool_state_sel)
  show ?thesis
    using acq del q v
    by (simp add: UserDB_FindByMobile_def FindByField_def db_try_def try_catch_def with_conn_def guarded_def
        CHECK_CONN_def bindE_def ret_def MySQLResult_new_def MySQLResult_Next_def)
qed


text \<open>One connection, to a server that answers every query with the row of one user.\<close>

definition row_pool :: "UserEntity \<Rightarrow> nat list \<Rightarrow> (nat list \<times> nat) pool" where
  "row_pool u i = (pool_state [7] 0 MySQLConfig_default i)\<lparr>
     my_store_result := \<lambda>m s. (Some (user_names, [map (user_column Map.empty u) user_names]), s),
     my_affected_rows := \<lambda>m s. 1\<rparr>"

lemma row_pool_sel:
  "pl_idle (row_pool u i) = i" "row_pool u i\<lparr>pl_idle := i'\<rparr> = row_pool u i'"
  "my_ping (row_pool u i) = (\<lambda>m s. (m \<in> set (fst s), s))" "my_query (row_pool u i) = (\<lambda>m q s. (True, s))"
  "my_store_result (row_pool u i) = (\<lambda>m s. (Some (user_names, [map (user_column Map.empty u) user_names]), s))"
  "my_field_count (row_pool u i) = (\<lambda>m s. 0)" "my_escape (row_pool u i) = (\<lambda>m x s. manual_escape x)"
  "my_affected_rows (row_pool u i) = (\<lambda>m s. 1)"
  "my_state (row_pool u i) = ([7], 0)" "row_pool u i\<lparr>my_state := ([7], 0)\<rparr> = row_pool u i"
  by (simp_all add: row_pool_def pool_state_sel pool_state_query)
     (simp_all add: pool_state_def)

lemma row_Valid: "MySQLConnection_Valid 7 (row_pool u i) = (Inr True, row_pool u i)"
  by (simp add: MySQLConnection_Valid_def my_call_def row_pool_sel)

lemma row_guard:
  "CreateConnection (row_pool u [7]) = (Inr 7, row_pool u [])"
  "ConnectionGuard_delete 7 (row_pool u []) = (Inr (), row_pool u [7])"
  by (simp_all add: CreateConnection_def Acquire_def ConnectionGuard_delete_def Release_def row_Valid row_pool_sel
      bindE_def ret_def)

lemma row_query:
  assumes "length ps = length (filter (\<lambda>c. c = CHR ''?'') sql)"
  shows "MySQLConnection_Query 7 sql ps (row_pool u i) =
      (Inr (MySQLResult_new (Some (user_names, [map (user_column Map.empty u) user_names]))), row_pool u i)"
    and "MySQLConnection_Execute 7 sql ps (row_pool u i) = (Inr 1, row_pool u i)"
  using assms
  by (simp_all add: MySQLConnection_Query_def MySQLConnection_Execute_def run_sql_def Escape_def my_ask_def
      my_call_def bindE_def ret_def lift_def BuildSQL_render row_pool_sel)

lemma row_with_conn:
  fixes w :: "(nat list \<times> nat, 'e, 'r) world"
  assumes "w_pool w = row_pool u [7]"
    and "body 7 (w\<lparr>w_pool := row_pool u []\<rparr>) = (Inr a, w1)" and "w_pool w1 = row_pool u []"
  shows "with_conn (\<lambda>conn. CHECK_CONN conn (body conn)) w = (Inr a, w1\<lparr>w_pool := row_pool u [7]\<rparr>)"
  using assms by (simp add: with_conn_def in_pool_def zoom_def bindE_def row_guard guarded_def CHECK_CONN_def row_Valid)

lemma user_names_ok: "distinct user_names" "user_columns \<subseteq> set user_names"
  by (simp_all add: user_names_def user_columns_def)

lemma FindByField_row:
  fixes w :: "(nat list \<times> nat, 'e, 'r) world"
  assumes w: "w_pool w = row_pool u [7]" and u: "user_ok u" and f: "CHR ''?'' \<notin> set f"
  shows "FindByField f v w = (Inr (Result_Ok u), w)"
proof -
  let ?sql = "''SELECT * FROM users WHERE '' @ f @ '' = ?''"
  have "filter (\<lambda>c. c = CHR ''?'') f = []" using f by (auto simp: filter_empty_conv)
  then have len: "length [PString v] = length (filter (\<lambda>c. c = CHR ''?'') ?sql)" by simp
  let ?body = "\<lambda>conn. bindE (in_pool (MySQLConnection_Query conn ?sql [PString v])) (\<lambda>res.
     case MySQLResult_Next res of
       (True, res') \<Rightarrow> bindE (lift (UserDB_ParseRow res')) (\<lambda>user. ret (Result_Ok user))
     | (False, res') \<Rightarrow> ret (Result_Fail UserNotFound (GetErrorMessage UserNotFound)))"
  let ?res = "MySQLResult_new (Some (user_names, [map (user_column Map.empty u) user_names]))"
  obtain res' where n: "MySQLResult_Next ?res = (True, res')" by (simp add: MySQLResult_Next_def MySQLResult_new_def)
  have "on_row (user_column Map.empty u) user_names res'"
    using n by (auto simp: MySQLResult_Next_def MySQLResult_new_def on_row_def)
  then have "UserDB_ParseRow res' = Inr u" by (rule ParseRow_user [OF _ user_names_ok u])
  then have "?body 7 (w\<lparr>w_pool := row_pool u []\<rparr>) = (Inr (Result_Ok u), w\<lparr>w_pool := row_pool u []\<rparr>)"
    using row_query(1) [OF len, of u "[]"] n by (simp add: in_pool_def zoom_def bindE_def lift_def ret_def)
  from row_with_conn [OF w, of ?body, OF this] w show ?thesis
    by (simp add: FindByField_def db_try_def try_catch_def)
qed

lemma SaveRefreshToken_row:
  fixes w :: "(nat list \<times> nat, unit, 'r) world"
  assumes w: "w_pool w = row_pool u [7]" and s: "w_sys w = sys_example t"
  shows "SaveRefreshToken i h n w = (Inr (Result_Ok ()), w)"
proof -
  let ?w = "w\<lparr>w_pool := row_pool u []\<rparr>"
  let ?body = "\<lambda>conn. bindE (in_sys system_clock_now) (\<lambda>now.
        bindE (in_sys (FormatDatetime (plus_seconds now n))) (\<lambda>expires_at_str.
        bindE (in_pool (MySQLConnection_Execute conn
          (''INSERT INTO user_sessions (user_id, token_hash, expires_at) '' @ ''VALUES (?, ?, ?)'')
          [PString (to_string i), PString h, PString expires_at_str])) (\<lambda>_.
        ret (Result_Ok ()))))"
  have "in_sys system_clock_now ?w = (Inr t, ?w)"
    using s by (simp add: in_sys_def zoom_def system_clock_now_def sys_call_def sys_example_def)
  moreover have "in_sys (FormatDatetime x) ?w = (Inr ''2025-01-01 00:00:00'', ?w)" for x
    using s by (simp add: in_sys_def zoom_def FormatDatetime_def ask_def sys_example_def)
  ultimately have "?body 7 ?w = (Inr (Result_Ok ()), ?w)"
    using row_query(2) by (simp add: bindE_def ret_def in_pool_def zoom_def)
  from row_with_conn [OF w, of ?body, OF this] w show ?thesis
    by (simp add: SaveRefreshToken_def try_catch_def)
qed


lemma Update_row:
  fixes w :: "(nat list \<times> nat, 'e, 'r) world"
  assumes w: "w_pool w = row_pool u [7]"
  shows "UserDB_Update u' w = (Inr (Result_Ok ()), w)"
proof -
  let ?body = "\<lambda>conn. bindE (in_pool (MySQLConnection_Execute conn
       (''UPDATE users SET display_name = ?, password_hash = ?, '' @
        ''disabled = ?, role = ? WHERE uuid = ?'')
       [PString (u_display_name u'), PString (u_password_hash u'), PBool (u_disabled u'),
        PInt (UserRoleToInt (u_role u')), PString (u_uuid u')])) (\<lambda>affect_row.
     if affect_row = 0 then ret (Result_Fail UserNotFound (GetErrorMessage UserNotFound))
     else ret (Result_Ok ()))"
  have "?body 7 (w\<lparr>w_pool := row_pool u []\<rparr>) = (Inr (Result_Ok ()), w\<lparr>w_pool := row_pool u []\<rparr>)"
    using row_query(2) by (simp add: bindE_def ret_def in_pool_def zoom_def)
  from row_with_conn [OF w, of ?body, OF this] w show ?thesis
    by (simp add: UserDB_Update_def db_try_def try_catch_def)
qed

subsection \<open>Reading a run backwards\<close>

lemma require_IsOk: "require v k w = (Inr r, w') \<Longrightarrow> IsOk r \<Longrightarrow> v = None \<and> k w = (Inr r, w')"
  by (auto simp: require_def ret_def split: option.splits)

lemma bindV_IsOk:
  "bindV m k w = (Inr r, w') \<Longrightarrow> IsOk r \<Longrightarrow> \<exists>r1 w1. m w = (Inr r1, w1) \<and> IsOk r1 \<and> k w1 = (Inr r, w')"
  by (auto simp: bindV_def bindE_Inr_iff ret_def IsOk_def [of r] IsOk_def split: if_splits)

lemma bindR_IsOk:
  "bindR m f w = (Inr r, w') \<Longrightarrow> IsOk r \<Longrightarrow>
    \<exists>r1 v w1. m w = (Inr r1, w1) \<and> IsOk r1 \<and> data r1 = Some v \<and> f v w1 = (Inr r, w')"
  by (auto simp: bindR_def bindE_Inr_iff ret_def throw_def IsOk_def [of r] split: if_splits option.splits)
     (auto simp: IsOk_def)

end
