(* ===== verification/Auth_Service.thy ===== *)
theory Auth_Service
  imports Interfaces
begin

section \<open>The authentication service\<close>

text \<open>
  \<open>src/services/auth_service.cpp\<close>: verification codes, registration, the two logins, the reset of
  a password, the refresh of tokens, logging out, and the check of an access token, with the
  private operations that count failed logins and lock an account.
\<close>

record 'w AuthService =
  as_config :: Config
  as_user_db :: "'w UserDB"
  as_redis_cli :: "'w RedisClient"
  as_token_repo :: "'w TokenRepository"
  as_jwt_srv :: "'w JwtService"
  as_sms_srv :: "'w SmsService"
  as_password :: "'w PasswordHelper"

text \<open>The object \<open>GrpcServer::InitServices\<close> makes.\<close>

definition auth_service :: "Config \<Rightarrow> ('s, 'e, 'r) world AuthService" where
  "auth_service config = \<lparr>as_config = config, as_user_db = user_db, as_redis_cli = redis_cli,
     as_token_repo = token_repo, as_jwt_srv = jwt_service (cfg_security config),
     as_sms_srv = sms_service (cfg_sms config), as_password = password_helper\<rparr>"

subsection \<open>Failed logins\<close>

definition login_key :: "string \<Rightarrow> string" where
  "login_key mobile = ''login:fail:'' @ mobile"

definition locked_minutes :: "int \<Rightarrow> int" where
  "locked_minutes ttl_ms =
     (let minutes = wrap32 (cdiv (wrap64 (ttl_ms + 59999)) 60000)
      in if minutes < 1 then 1 else minutes)"

definition CheckLoginFailedAttempts :: "'w AuthService \<Rightarrow> string \<Rightarrow> ('w, unit Result) io" where
  "CheckLoginFailedAttempts this mobile =
     bindE (rd_Get (as_redis_cli this) (login_key mobile)) (\<lambda>count_res.
     if \<not> IsOk count_res then ret (Result_Ok ()) else
     (case data count_res of
        Some (Some text) \<Rightarrow>
          bindE (lift (stoi text)) (\<lambda>cnt.
          if cnt \<ge> max_failed_attempts (cfg_login (as_config this)) then
            bindE (rd_PTTL (as_redis_cli this) (login_key mobile)) (\<lambda>ttl_res.
            let ttl_ms = (case data ttl_res of
                Some t \<Rightarrow> if IsOk ttl_res \<and> t > 0 then t else ms (lock_duration_seconds (cfg_login (as_config this)))
              | None \<Rightarrow> ms (lock_duration_seconds (cfg_login (as_config this))))
            in ret (Result_Fail AccountLocked
                 (utf8 [0x767B, 0x5F55, 0x5931, 0x8D25, 0x6B21, 0x6570, 0x8FC7, 0x591A, 0xFF0C, 0x8BF7] @ to_string (locked_minutes ttl_ms) @ utf8 [0x5206, 0x949F, 0x540E, 0x518D, 0x8BD5])))
          else ret (Result_Ok ()))
      | _ \<Rightarrow> ret (Result_Ok ())))"

definition RecordLoginFailure :: "'w AuthService \<Rightarrow> string \<Rightarrow> ('w, unit) io" where
  "RecordLoginFailure this mobile =
     bindE (rd_Incr (as_redis_cli this) (login_key mobile)) (\<lambda>incr_res.
     if \<not> IsOk incr_res then ret () else
     let cnt = value_or (data incr_res) 1 in
     if cnt = max_failed_attempts (cfg_login (as_config this)) then
       bindE (rd_PExpire (as_redis_cli this) (login_key mobile)
         (ms (lock_duration_seconds (cfg_login (as_config this))))) (\<lambda>_. ret ())
     else if cnt < max_failed_attempts (cfg_login (as_config this)) then
       bindE (rd_PTTL (as_redis_cli this) (login_key mobile)) (\<lambda>ttl_res.
       if \<not> IsOk ttl_res \<or> value_or (data ttl_res) (-1) < 0 then
         bindE (rd_PExpire (as_redis_cli this) (login_key mobile)
           (ms (failed_attempts_window (cfg_login (as_config this))))) (\<lambda>_. ret ())
       else ret ())
     else ret ())"

definition ClearLoginFailure :: "'w AuthService \<Rightarrow> string \<Rightarrow> ('w, unit) io" where
  "ClearLoginFailure this mobile =
     bindE (rd_Del (as_redis_cli this) (login_key mobile)) (\<lambda>_. ret ())"

definition StoreRefreshToken :: "'w AuthService \<Rightarrow> int \<Rightarrow> string \<Rightarrow> ('w, unit Result) io" where
  "StoreRefreshToken this user_id refresh_tok =
     bindE (jwt_HashToken (as_jwt_srv this) refresh_tok) (\<lambda>token_hash.
     tr_SaveRefreshToken (as_token_repo this) user_id token_hash
       (refresh_token_ttl_seconds (cfg_security (as_config this))))"

subsection \<open>Verification codes\<close>

definition SendVerifyCode :: "'w AuthService \<Rightarrow> string \<Rightarrow> SmsScene \<Rightarrow> ('w, int Result) io" where
  "SendVerifyCode this mobile scene =
     require (IsValidMobile mobile) (
     if scene = Register then
       bindR (db_ExistsByMobile (as_user_db this) mobile) (\<lambda>taken.
       if taken then ret (Result_Fail MobileTaken (utf8 [0x8BE5, 0x624B, 0x673A, 0x53F7, 0x5DF2, 0x88AB, 0x7528, 0x4E8E, 0x6CE8, 0x518C]))
       else sms_SendCaptcha (as_sms_srv this) scene mobile)
     else if scene = Login \<or> scene = ResetPassword \<or> scene = DeleteUser then
       bindR (db_ExistsByMobile (as_user_db this) mobile) (\<lambda>known.
       if \<not> known then ret (Result_Fail UserNotFound (utf8 [0x8BE5, 0x624B, 0x673A, 0x53F7, 0x672A, 0x6CE8, 0x518C]))
       else sms_SendCaptcha (as_sms_srv this) scene mobile)
     else sms_SendCaptcha (as_sms_srv this) scene mobile)"

subsection \<open>Registration and login\<close>

text \<open>What registration and both logins end with: the tokens, the stored session, the answer
  without the password hash.\<close>

definition issue_tokens :: "'w AuthService \<Rightarrow> UserEntity \<Rightarrow> ('w, AuthResult Result) io" where
  "issue_tokens this user =
     bindE (jwt_GenerateTokenPair (as_jwt_srv this) user) (\<lambda>token_pair.
     bindE (StoreRefreshToken this (u_id user) (refresh_token token_pair)) (\<lambda>store_res.
     ret (Result_Ok \<lparr>auth_user = user\<lparr>u_password_hash := []\<rparr>, auth_tokens = token_pair\<rparr>)))"

definition AuthService_Register ::
  "'w AuthService \<Rightarrow> string \<Rightarrow> string \<Rightarrow> string \<Rightarrow> string \<Rightarrow> ('w, AuthResult Result) io" where
  "AuthService_Register this mobile verify_code password display_name =
     require (IsValidMobile mobile) (
     require (IsValidPassword password (cfg_password (as_config this))) (
     require (IsValidVerifyCode verify_code (cfg_sms (as_config this))) (
     require (IsValidDisplayName display_name) (
     bindV (sms_VerifyCaptcha (as_sms_srv this) Register mobile verify_code) (
     bindE (ph_Hash (as_password this) password) (\<lambda>password_hash.
     bindR (db_Create (as_user_db this) (UserEntity_default\<lparr>u_mobile := mobile,
         u_password_hash := password_hash, u_display_name := display_name\<rparr>)) (\<lambda>created_user.
     issue_tokens this created_user)))))))"

text \<open>From the answer of the user table on.\<close>

definition login_found :: "'w AuthService \<Rightarrow> string \<Rightarrow> string \<Rightarrow> UserEntity Result \<Rightarrow> ('w, AuthResult Result) io" where
  "login_found this mobile password user_res =
    (if \<not> IsOk user_res then
       (if code user_res = UserNotFound then
          bindE (RecordLoginFailure this mobile) (\<lambda>_. ret (Result_Fail WrongPassword (utf8 [0x8D26, 0x53F7, 0x6216, 0x5BC6, 0x7801, 0x9519, 0x8BEF])))
        else ret (Result_Fail (code user_res) (message user_res)))
     else
       bindE (Value user_res) (\<lambda>user.
       if u_disabled user then ret (Result_Fail UserDisabled (utf8 [0x8D26, 0x53F7, 0x5DF2, 0x88AB, 0x7981, 0x7528]))
       else
         bindE (ph_Verify (as_password this) password (u_password_hash user)) (\<lambda>correct.
         if \<not> correct then
           bindE (RecordLoginFailure this mobile) (\<lambda>_. ret (Result_Fail WrongPassword (utf8 [0x8D26, 0x53F7, 0x6216, 0x5BC6, 0x7801, 0x9519, 0x8BEF])))
         else
           bindE (ClearLoginFailure this mobile) (\<lambda>_. issue_tokens this user))))"

definition LoginByPassword :: "'w AuthService \<Rightarrow> string \<Rightarrow> string \<Rightarrow> ('w, AuthResult Result) io" where
  "LoginByPassword this mobile password =
     require (IsValidMobile mobile) (
     require (IsValidPassword password (cfg_password (as_config this))) (
     bindV (CheckLoginFailedAttempts this mobile) (
     bindE (db_FindByMobile (as_user_db this) mobile) (login_found this mobile password))))"

definition LoginByCode :: "'w AuthService \<Rightarrow> string \<Rightarrow> string \<Rightarrow> ('w, AuthResult Result) io" where
  "LoginByCode this mobile verify_code =
     require (IsValidMobile mobile) (
     require (IsValidVerifyCode verify_code (cfg_sms (as_config this))) (
     bindV (sms_VerifyCaptcha (as_sms_srv this) Login mobile verify_code) (
     bindE (db_FindByMobile (as_user_db this) mobile) (\<lambda>user_res.
     if \<not> IsOk user_res then
       (if code user_res = UserNotFound then ret (Result_Fail UserNotFound (utf8 [0x7528, 0x6237, 0x4E0D, 0x5B58, 0x5728, 0xFF0C, 0x8BF7, 0x5148, 0x6CE8, 0x518C]))
        else ret (Result_Fail (code user_res) (message user_res)))
     else
       bindE (Value user_res) (\<lambda>user.
       if u_disabled user then ret (Result_Fail UserDisabled (utf8 [0x8D26, 0x53F7, 0x5DF2, 0x88AB, 0x7981, 0x7528]))
       else bindE (ClearLoginFailure this mobile) (\<lambda>_. issue_tokens this user))))))"

subsection \<open>Resetting the password\<close>

definition AuthService_ResetPassword :: "'w AuthService \<Rightarrow> string \<Rightarrow> string \<Rightarrow> string \<Rightarrow> ('w, unit Result) io" where
  "AuthService_ResetPassword this mobile verify_code new_password =
     require (IsValidMobile mobile) (
     require (IsValidVerifyCode verify_code (cfg_sms (as_config this))) (
     require (IsValidPassword new_password (cfg_password (as_config this))) (
     bindV (sms_VerifyCaptcha (as_sms_srv this) ResetPassword mobile verify_code) (
     bindE (db_FindByMobile (as_user_db this) mobile) (\<lambda>user_res.
     if \<not> IsOk user_res then
       (if code user_res = UserNotFound then ret (Result_Fail UserNotFound (utf8 [0x7528, 0x6237, 0x4E0D, 0x5B58, 0x5728]))
        else ret (Result_Fail (code user_res) (message user_res)))
     else
       bindE (Value user_res) (\<lambda>user.
       bindE (ph_Hash (as_password this) new_password) (\<lambda>password_hash.
       bindV (db_Update (as_user_db this) (user\<lparr>u_password_hash := password_hash\<rparr>)) (
       bindE (tr_DeleteByUserId (as_token_repo this) (u_id user)) (\<lambda>revoke_res.
       bindE (ClearLoginFailure this mobile) (\<lambda>_.
       ret (Result_Ok ())))))))))))"

subsection \<open>Tokens\<close>

text \<open>From the account on: the session must be in the table; it is replaced by a new one.\<close>

definition rotate_session :: "'w AuthService \<Rightarrow> string \<Rightarrow> int \<Rightarrow> UserEntity \<Rightarrow> ('w, TokenPair Result) io" where
  "rotate_session this refresh_tok user_id user =
     bindE (jwt_HashToken (as_jwt_srv this) refresh_tok) (\<lambda>token_hash.
     bindE (tr_IsTokenValid (as_token_repo this) token_hash) (\<lambda>exists_res.
     if \<not> IsOk exists_res then ret (Result_Fail (code exists_res) (message exists_res))
     else if \<not> value_or (data exists_res) False then ret (Result_Fail TokenRevoked (''Token '' @ utf8 [0x5DF2, 0x5931, 0x6548]))
     else
       bindE (tr_DeleteByTokenHash (as_token_repo this) token_hash) (\<lambda>_.
       bindE (jwt_GenerateTokenPair (as_jwt_srv this) user) (\<lambda>new_tokens.
       bindE (StoreRefreshToken this user_id (refresh_token new_tokens)) (\<lambda>store_res.
       ret (Result_Ok new_tokens))))))"

definition AuthService_RefreshToken :: "'w AuthService \<Rightarrow> string \<Rightarrow> ('w, TokenPair Result) io" where
  "AuthService_RefreshToken this refresh_tok =
     (if refresh_tok = [] then ret (Result_Fail InvalidArgument (''refresh_token '' @ utf8 [0x4E0D, 0x80FD, 0x4E3A, 0x7A7A])) else
     bindR (jwt_ParseRefreshToken (as_jwt_srv this) refresh_tok) (\<lambda>user_id_str.
     bindE (lift (stoll user_id_str)) (\<lambda>user_id.
     bindR (db_FindById (as_user_db this) user_id) (\<lambda>user.
     if u_disabled user then ret (Result_Fail UserDisabled (utf8 [0x8D26, 0x53F7, 0x5DF2, 0x88AB, 0x7981, 0x7528])) else
     rotate_session this refresh_tok user_id user))))"

definition Logout :: "'w AuthService \<Rightarrow> string \<Rightarrow> ('w, unit Result) io" where
  "Logout this refresh_tok =
     (if refresh_tok = [] then ret (Result_Ok ()) else
      bindE (jwt_HashToken (as_jwt_srv this) refresh_tok) (\<lambda>token_hash.
      bindE (tr_DeleteByTokenHash (as_token_repo this) token_hash) (\<lambda>del_res.
      ret (Result_Ok ()))))"

definition LogoutAll :: "'w AuthService \<Rightarrow> string \<Rightarrow> ('w, unit Result) io" where
  "LogoutAll this user_uuid =
     bindR (db_FindByUUID (as_user_db this) user_uuid) (\<lambda>user.
     bindE (tr_DeleteByUserId (as_token_repo this) (u_id user)) (\<lambda>del_res.
     ret (Result_Ok ())))"

text \<open>The member \<open>role\<close> of the answer is never set: it has whatever value \<open>indeterminate\<close> the memory
  held.\<close>

definition ValidateAccessToken ::
  "UserRole \<Rightarrow> 'w AuthService \<Rightarrow> string \<Rightarrow> ('w, TokenValidationResult Result) io" where
  "ValidateAccessToken indeterminate this access_tok =
     (if access_tok = [] then ret (Result_Fail TokenMissing ''Access token is required'') else
      bindR (jwt_VerifyAccessToken (as_jwt_srv this) access_tok) (\<lambda>payload.
      ret (Result_Ok \<lparr>v_user_id = p_user_id payload, v_user_uuid = p_user_uuid payload,
        v_mobile = p_mobile payload, v_role = indeterminate, v_expires_at = p_expires_at payload\<rparr>)))"


subsection \<open>The collaborators of the production object\<close>

lemma auth_service_sel [simp]:
  "as_config (auth_service config) = config" "as_user_db (auth_service config) = user_db"
  "as_redis_cli (auth_service config) = redis_cli" "as_token_repo (auth_service config) = token_repo"
  "as_jwt_srv (auth_service config) = jwt_service (cfg_security config)"
  "as_sms_srv (auth_service config) = sms_service (cfg_sms config)"
  "as_password (auth_service config) = password_helper"
  by (simp_all add: auth_service_def)

lemma sys_total_HashToken [simp, intro]: "sys_total (HashToken t)"
  unfolding HashToken_def by (intro sys_total_bindE sys_total_ask sys_total_ret)

lemma sys_total_GenerateTokenPair [simp, intro]: "sys_total (GenerateTokenPair config u)"
  unfolding GenerateTokenPair_def by (intro sys_total_bindE sys_total_tokens sys_total_ret)

lemma off_cache_issue_tokens: "off_cache (issue_tokens (auth_service config) user)"
  unfolding issue_tokens_def StoreRefreshToken_def
  by (simp add: jwt_service_def token_repo_def)
     (intro off_cache_rules off_cache_in_sys sys_total_GenerateTokenPair sys_total_HashToken off_cache_Save)

subsection \<open>Counting failed logins\<close>

definition login_config_ok :: "LoginConfig \<Rightarrow> bool" where
  "login_config_ok c \<longleftrightarrow> 0 < max_failed_attempts c \<and> max_failed_attempts c < 2 ^ 31
     \<and> 0 < lock_duration_seconds c \<and> lock_duration_seconds c \<le> 2147483
     \<and> 0 < failed_attempts_window c \<and> failed_attempts_window c \<le> 2147483"

context kv_live
begin

lemma Check_live:
  assumes lv: "live w" and mem: "as_redis_cli this = redis" and cf: "login_config_ok (cfg_login (as_config this))"
    and n: "counter (view w (login_key mobile)) = Some n" "in_int32 n"
  shows "\<exists>r w'. CheckLoginFailedAttempts this mobile w = (Inr r, w') \<and> live w' \<and> view w' = view w \<and> rest w' = rest w
    \<and> code r = (if max_failed_attempts (cfg_login (as_config this)) \<le> n then AccountLocked else Ok)"
proof -
  obtain w1 where 1: "rd_Get redis (login_key mobile) w = (Inr (Result_Ok (view w (login_key mobile))), w1)"
    "live w1" "view w1 = view w" "rest w1 = rest w" using live_run(2) [OF lv] by blast
  obtain t w2 where 2: "rd_PTTL redis (login_key mobile) w1 = (Inr (Result_Ok t), w2)"
    "live w2" "view w2 = view w1" "rest w2 = rest w1" using live_run(6) [OF 1(2)] by blast
  show ?thesis
  proof (cases "view w (login_key mobile)")
    case None
    then show ?thesis using 1 n cf
      by (auto simp: CheckLoginFailedAttempts_def mem bindE_def ret_def login_config_ok_def)
  next
    case (Some x)
    then have "x = to_string n" using n(1) by (auto simp: counter_def split: option.splits if_splits)
    then have "stoi x = Inr n" using n(2) by simp
    then show ?thesis using 1 2 Some
      by (auto simp: CheckLoginFailedAttempts_def mem bindE_def ret_def lift_def Let_def)
  qed
qed

lemma Record_live:
  assumes lv: "live w" and mem: "as_redis_cli this = redis" and cf: "login_config_ok (cfg_login (as_config this))"
    and n: "counter (view w (login_key mobile)) = Some n" "0 \<le> n" "in_int32 n"
  shows "\<exists>w'. RecordLoginFailure this mobile w = (Inr (), w') \<and> live w'
    \<and> view w' = (view w)(login_key mobile \<mapsto> to_string (n + 1)) \<and> rest w' = rest w"
proof -
  let ?c = "cfg_login (as_config this)"
  have ttl: "0 < ms (lock_duration_seconds ?c)" "0 < ms (failed_attempts_window ?c)"
    using cf by (auto simp: login_config_ok_def intro: ms_pos)
  have "in_int64 (n + 1)" using n by (simp add: in_int32_def in_int64_def)
  then obtain w1 where 1: "rd_Incr redis (login_key mobile) w = (Inr (Result_Ok (n + 1)), w1)"
    "live w1" "view w1 = (view w)(login_key mobile \<mapsto> to_string (n + 1))" "rest w1 = rest w"
    using live_run(7) [OF lv n(1)] by blast
  obtain b w2 where 2: "rd_PExpire redis (login_key mobile) (ms (lock_duration_seconds ?c)) w1 = (Inr (Result_Ok b), w2)"
    "live w2" "view w2 = view w1" "rest w2 = rest w1" using live_run(5) [OF 1(2) ttl(1)] by blast
  obtain t w3 where 3: "rd_PTTL redis (login_key mobile) w1 = (Inr (Result_Ok t), w3)"
    "live w3" "view w3 = view w1" "rest w3 = rest w1" using live_run(6) [OF 1(2)] by blast
  obtain b' w4 where 4: "rd_PExpire redis (login_key mobile) (ms (failed_attempts_window ?c)) w3 = (Inr (Result_Ok b'), w4)"
    "live w4" "view w4 = view w3" "rest w4 = rest w3" using live_run(5) [OF 3(2) ttl(2)] by blast
  show ?thesis
    using 1 2 3 4 by (auto simp: RecordLoginFailure_def mem bindE_def ret_def Let_def value_or_def)
qed

lemma Clear_live:
  assumes "live w" and "as_redis_cli this = redis"
  shows "\<exists>w'. ClearLoginFailure this mobile w = (Inr (), w') \<and> live w'
    \<and> view w' = (view w)(login_key mobile := None) \<and> rest w' = rest w"
  using live_run(4) [OF assms(1), of "login_key mobile"] assms(2)
  by (auto simp: ClearLoginFailure_def bindE_def ret_def)

end


definition cache_alive :: "('r \<Rightarrow> string \<rightharpoonup> string) \<Rightarrow> ('r \<Rightarrow> bool) \<Rightarrow> ('s, 'e, 'r) world \<Rightarrow> bool" where
  "cache_alive V up w \<longleftrightarrow>
     redis_documented V (w_redis w) \<and> redis_prompt V up (w_redis w) \<and> up (rc_state (w_redis w))"

definition cached :: "('r \<Rightarrow> string \<rightharpoonup> string) \<Rightarrow> ('s, 'e, 'r) world \<Rightarrow> string \<rightharpoonup> string" where
  "cached V w = V (rc_state (w_redis w))"

lemmas cache_live = live_cache.Check_live [folded cache_alive_def cached_def]
  live_cache.Record_live [folded cache_alive_def cached_def]
  live_cache.Clear_live [folded cache_alive_def cached_def]

lemma off_cache_alive:
  assumes "off_cache c" and "c w = (r, w')"
  shows "cache_alive V up w' = cache_alive V up w" and "cached V w' = cached V w"
  using off_cacheD [OF assms] by (simp_all add: cache_alive_def cached_def)

text \<open>What one login does to the count of failures: \<open>v\<close> and \<open>v'\<close> are the contents of the cache
  before and after.\<close>

definition login_counted :: "int \<Rightarrow> string \<Rightarrow> int \<Rightarrow> AuthResult Result \<Rightarrow> (string \<rightharpoonup> string) \<Rightarrow> (string \<rightharpoonup> string) \<Rightarrow> bool" where
  "login_counted limit mobile n r v v' \<longleftrightarrow>
     (code r = WrongPassword \<longrightarrow> n < limit \<and> v' = v(login_key mobile \<mapsto> to_string (n + 1))) \<and>
     (IsOk r \<longrightarrow> n < limit \<and> v' = v(login_key mobile := None)) \<and>
     (code r \<noteq> WrongPassword \<longrightarrow> \<not> IsOk r \<longrightarrow> v' = v)"

lemma login_counted_other: "code r \<noteq> WrongPassword \<Longrightarrow> \<not> IsOk r \<Longrightarrow> login_counted limit mobile n r v v"
  by (simp add: login_counted_def)

lemma issue_tokens_Ok:
  "issue_tokens this user w = (Inr r, w') \<Longrightarrow>
    \<exists>tokens. r = Result_Ok \<lparr>auth_user = user\<lparr>u_password_hash := []\<rparr>, auth_tokens = tokens\<rparr>"
  by (auto simp: issue_tokens_def bindE_Inr_iff ret_def)

text \<open>The part of a login after the check of the lock.\<close>

lemma login_unlocked:
  fixes w :: "('s, 'e, 'r) world"
  assumes lv: "cache_alive V up w" and cf: "login_config_ok (cfg_login config)"
    and n: "counter (cached V w (login_key mobile)) = Some n" "0 \<le> n" "in_int32 n" "n < limit"
    and mob: "IsValidMobile mobile = None" and pw: "IsValidPassword pw (cfg_password config) = None"
    and chk: "CheckLoginFailedAttempts (auth_service config) mobile w = (Inr rc, w1)"
      "cache_alive V up w1" "cached V w1 = cached V w" "IsOk rc"
    and run: "LoginByPassword (auth_service config) mobile pw w = (Inr r, w')"
  shows "cache_alive V up w' \<and> login_counted limit mobile n r (cached V w) (cached V w')"
proof -
  obtain v w2 where 2: "UserDB_FindByMobile mobile w1 = (v, w2)" by fastforce
  have lv2: "cache_alive V up w2" and v2: "cached V w2 = cached V w"
    using off_cache_alive(1) [OF off_cache_find(5) 2, of V up] off_cache_alive(2) [OF off_cache_find(5) 2, of V] chk
    by simp_all
  have n2: "counter (cached V w2 (login_key mobile)) = Some n" using n(1) v2 by simp
  obtain w3 where 3: "RecordLoginFailure (auth_service config) mobile w2 = (Inr (), w3)" "cache_alive V up w3"
    "cached V w3 = (cached V w)(login_key mobile \<mapsto> to_string (n + 1))"
    using cache_live(2) [of V up w2 "auth_service config" mobile n] lv2 cf n2 n(2,3) v2 by auto
  obtain w4 where 4: "ClearLoginFailure (auth_service config) mobile w2 = (Inr (), w4)" "cache_alive V up w4"
    "cached V w4 = (cached V w)(login_key mobile := None)"
    using cache_live(3) [of V up w2 "auth_service config" mobile] lv2 v2 by auto
  obtain user_res where v: "v = Inr user_res"
    using run chk(1,4) 2 by (cases v) (simp_all add: LoginByPassword_def require_def mob pw bindV_def bindE_def user_db_def)
  have codes: "code user_res \<in> {Ok, UserNotFound, ServiceUnavailable}"
    using givesD [OF find_codes] 2 v unfolding UserDB_FindByMobile_def by blast
  have go: "login_found (auth_service config) mobile pw user_res w2 = (Inr r, w')"
    using run chk(1,4) 2 v
    by (simp add: LoginByPassword_def require_def mob pw bindV_def bindE_def user_db_def)
  note go = go [unfolded login_found_def auth_service_sel]
  show ?thesis
  proof (cases "IsOk user_res")
    case False
    then have c: "code user_res \<noteq> Ok" by (simp add: IsOk_def)
    show ?thesis
    proof (cases "code user_res = UserNotFound")
      case True
      then have "w' = w3" "code r = WrongPassword"
        using go False 3(1) by (auto simp: bindE_def ret_def)
      then show ?thesis using 3 n(4) by (simp add: login_counted_def IsOk_def)
    next
      case other: False
      then have "code r = ServiceUnavailable" "w' = w2"
        using go False codes c by (auto simp: ret_def)
      then show ?thesis using lv2 v2 by (simp add: login_counted_def IsOk_def)
    qed
  next
    case True
    have "Result_wf user_res" using givesD [OF settles_gives_wf [OF settles_find(5)]] 2 v by blast
    then obtain user where d: "data user_res = Some user" using True wf_data by blast
    show ?thesis
    proof (cases "u_disabled user")
      case True
      then have "code r = UserDisabled" "w' = w2"
        using go \<open>IsOk user_res\<close> d by (auto simp: bindE_def Value_def ret_def)
      then show ?thesis using lv2 v2 by (simp add: login_counted_def IsOk_def)
    next
      case False
      have vf: "ph_Verify password_helper pw (u_password_hash user) w2 =
          (Inr (PasswordHelper_Verify (sys_sha256 (w_sys w2)) pw (u_password_hash user)), w2)"
        by (simp add: password_helper_def in_sys_def zoom_def ask_def)
      show ?thesis
      proof (cases "PasswordHelper_Verify (sys_sha256 (w_sys w2)) pw (u_password_hash user)")
        case wrong: False
        then have "code r = WrongPassword" "w' = w3"
          using go \<open>IsOk user_res\<close> d False vf 3(1) by (auto simp: bindE_def Value_def ret_def)
        then show ?thesis using 3 n(4) by (simp add: login_counted_def IsOk_def)
      next
        case right: True
        then have i: "issue_tokens (auth_service config) user w4 = (Inr r, w')"
          using go \<open>IsOk user_res\<close> d False vf 4(1) by (auto simp: bindE_def Value_def ret_def)
        have "IsOk r" using issue_tokens_Ok [OF i] by auto
        then show ?thesis
          using off_cache_alive(1) [OF off_cache_issue_tokens i, of V up]
            off_cache_alive(2) [OF off_cache_issue_tokens i, of V] 4 n(4)
          by (simp add: login_counted_def IsOk_def)
      qed
    qed
  qed
qed


lemma login_step:
  fixes w :: "('s, 'e, 'r) world"
  assumes lv: "cache_alive V up w" and cf: "login_config_ok (cfg_login config)"
    and n: "counter (cached V w (login_key mobile)) = Some n" "0 \<le> n" "n \<le> max_failed_attempts (cfg_login config)"
    and run: "LoginByPassword (auth_service config) mobile pw w = (Inr r, w')"
  shows "cache_alive V up w' \<and> login_counted (max_failed_attempts (cfg_login config)) mobile n r (cached V w) (cached V w')
    \<and> (n = max_failed_attempts (cfg_login config) \<longrightarrow>
        code r \<in> {InvalidArgument, AccountLocked} \<and> w_pool w' = w_pool w \<and> w_sys w' = w_sys w)"
proof -
  let ?max = "max_failed_attempts (cfg_login config)"
  have n32: "in_int32 n" using n(2,3) cf by (simp add: in_int32_def login_config_ok_def)
  obtain rc w1 where 1: "CheckLoginFailedAttempts (auth_service config) mobile w = (Inr rc, w1)" "cache_alive V up w1"
    "cached V w1 = cached V w" "(w_pool w1, w_sys w1) = (w_pool w, w_sys w)"
    "code rc = (if ?max \<le> n then AccountLocked else Ok)"
    using cache_live(1) [of V up w "auth_service config" mobile n] lv cf n(1) n32 by auto
  show ?thesis
  proof (cases "IsValidMobile mobile = None \<and> IsValidPassword pw (cfg_password config) = None")
    case False
    then have "code r = InvalidArgument \<and> w' = w"
      using run by (auto simp: LoginByPassword_def require_def ret_def split: option.splits)
    then show ?thesis using lv by (simp add: login_counted_def IsOk_def)
  next
    case valid: True
    show ?thesis
    proof (cases "n = ?max")
      case True
      then have "\<not> IsOk rc" "code rc = AccountLocked" using 1(5) by (simp_all add: IsOk_def)
      then have "code r = AccountLocked \<and> w' = w1"
        using run 1(1) valid by (auto simp: LoginByPassword_def require_def bindV_def bindE_def ret_def)
      then show ?thesis using 1 by (simp add: login_counted_def IsOk_def)
    next
      case False
      then have "IsOk rc" using 1(5) n(3) by (simp add: IsOk_def)
      with login_unlocked [OF lv cf n(1,2) n32 _ _ _ 1(1-3) _ run, of ?max] valid n(3) False
      show ?thesis by simp
    qed
  qed
qed


lemma login_locked_returns:
  fixes w :: "('s, 'e, 'r) world"
  assumes lv: "cache_alive V up w" and cf: "login_config_ok (cfg_login config)"
    and n: "counter (cached V w (login_key mobile)) = Some (max_failed_attempts (cfg_login config))"
  shows "\<exists>r w'. LoginByPassword (auth_service config) mobile pw w = (Inr r, w')"
proof -
  have "in_int32 (max_failed_attempts (cfg_login config))" using cf by (simp add: in_int32_def login_config_ok_def)
  then obtain rc w1 where "CheckLoginFailedAttempts (auth_service config) mobile w = (Inr rc, w1)" "code rc = AccountLocked"
    using cache_live(1) [of V up w "auth_service config" mobile] lv cf n by force
  then show ?thesis
    by (simp add: LoginByPassword_def require_def bindV_def bindE_def ret_def IsOk_def split: option.splits)
qed

text \<open>A run of logins for one mobile number, with the passwords of a list.\<close>

fun login_all :: "'w AuthService \<Rightarrow> string \<Rightarrow> string list \<Rightarrow> ('w, AuthResult Result list) io" where
  "login_all this mobile [] = ret []"
| "login_all this mobile (p # ps) =
     bindE (LoginByPassword this mobile p) (\<lambda>r.
     bindE (login_all this mobile ps) (\<lambda>rs. ret (r # rs)))"

definition wrong_guesses :: "AuthResult Result list \<Rightarrow> int" where
  "wrong_guesses rs = int (length (filter (\<lambda>r. code r = WrongPassword) rs))"

lemma login_all_counts:
  fixes w :: "('s, 'e, 'r) world"
  assumes "cache_alive V up w" and cf: "login_config_ok (cfg_login config)"
    and "counter (cached V w (login_key mobile)) = Some n" and "0 \<le> n"
    and "n \<le> max_failed_attempts (cfg_login config)"
    and "login_all (auth_service config) mobile ps w = (Inr rs, w')" and "\<forall>r\<in>set rs. \<not> IsOk r"
  shows "n + wrong_guesses rs \<le> max_failed_attempts (cfg_login config)
    \<and> counter (cached V w' (login_key mobile)) = Some (n + wrong_guesses rs) \<and> cache_alive V up w'"
  using assms(1,3-7)
proof (induction ps arbitrary: w n rs)
  case Nil
  then show ?case by (auto simp: ret_def wrong_guesses_def)
next
  case (Cons p ps)
  obtain r w1 rs' where 1: "LoginByPassword (auth_service config) mobile p w = (Inr r, w1)"
    and 2: "login_all (auth_service config) mobile ps w1 = (Inr rs', w')" and rs: "rs = r # rs'"
    using Cons.prems(5) by (auto simp: bindE_Inr_iff ret_def)
  note step = login_step [OF Cons.prems(1) cf Cons.prems(2-4) 1]
  have bad: "\<not> IsOk r" "\<forall>r\<in>set rs'. \<not> IsOk r" using Cons.prems(6) rs by simp_all
  show ?case
  proof (cases "code r = WrongPassword")
    case True
    with step bad have "counter (cached V w1 (login_key mobile)) = Some (n + 1)"
      "n + 1 \<le> max_failed_attempts (cfg_login config)" by (auto simp: login_counted_def)
    from Cons.IH [OF _ this(1) _ this(2) 2 bad(2)] step True Cons.prems(3) show ?thesis
      by (simp add: wrong_guesses_def rs)
  next
    case False
    with step bad have "cached V w1 = cached V w" by (auto simp: login_counted_def)
    with Cons.IH [of w1 n rs'] 2 bad(2) step False Cons.prems show ?thesis
      by (simp add: wrong_guesses_def rs)
  qed
qed

subsection \<open>What the operations that issue tokens end with\<close>

lemma sys_kept_Value: "sys_kept (Value r)"
  by (simp add: Value_def sys_kept_basic split: option.splits)

lemma sys_kept_option:
  "sys_kept c \<Longrightarrow> (\<And>x. sys_kept (f x)) \<Longrightarrow> sys_kept (case v of None \<Rightarrow> c | Some x \<Rightarrow> f x)"
  by (cases v) simp_all

lemma sys_kept_login:
  "sys_kept (CheckLoginFailedAttempts (auth_service config) mobile)"
  "sys_kept (RecordLoginFailure (auth_service config) mobile)"
  "sys_kept (ClearLoginFailure (auth_service config) mobile)"
  unfolding CheckLoginFailedAttempts_def RecordLoginFailure_def ClearLoginFailure_def auth_service_sel Let_def
  by (intro sys_kept_rules sys_kept_option)+

lemma sys_kept_VerifyCaptcha: "sys_kept (VerifyCaptcha redis_cli config scene mobile c)"
  unfolding VerifyCaptcha_def wrong_code_def safeTTLSeconds_def
  by (intro sys_kept_rules sys_kept_option sys_kept_Value)

lemma sys_kept_password:
  "sys_kept (ph_Hash password_helper p)" "sys_kept (ph_Verify password_helper p h)"
  by (simp_all add: password_helper_def off_cache_sys_kept)

lemma same_sys_euclid: "same_sys s a \<Longrightarrow> same_sys s b \<Longrightarrow> same_sys a b"
  unfolding same_sys_def by (cases s; cases a; cases b) simp

text \<open>Data in the answer comes from \<open>issue_tokens\<close>, in a state of the same system.\<close>

definition issues :: "Config \<Rightarrow> (('s, 'e, 'r) world, AuthResult Result) io \<Rightarrow> bool" where
  "issues config c \<longleftrightarrow> (\<forall>w r w'. c w = (Inr r, w') \<longrightarrow> data r \<noteq> None \<longrightarrow>
     (\<exists>user v. same_sys (w_sys w) (w_sys v) \<and> issue_tokens (auth_service config) user v = (Inr r, w')))"

lemma issues_bindE:
  assumes c: "sys_kept c" and f: "\<And>a. issues config (f a)"
  shows "issues config (bindE c f)"
  unfolding issues_def
proof (intro allI impI)
  fix w r w'
  assume "bindE c f w = (Inr r, w')" and d: "data r \<noteq> None"
  then obtain a w1 where 1: "c w = (Inr a, w1)" "f a w1 = (Inr r, w')" by (auto simp: bindE_Inr_iff)
  from f [of a] 1(2) d obtain user v where "same_sys (w_sys w1) (w_sys v)"
    "issue_tokens (auth_service config) user v = (Inr r, w')" unfolding issues_def by blast
  with sys_keptD [OF c 1(1)] show "\<exists>user v. same_sys (w_sys w) (w_sys v) \<and>
      issue_tokens (auth_service config) user v = (Inr r, w')" by (metis same_sys_trans)
qed

lemma issues_Fail: "issues config (ret (Result_Fail c m))"
  by (auto simp: issues_def ret_def)

lemma issues_throw: "issues config (throw e)"
  by (simp add: issues_def throw_def)

lemma issues_If: "issues config c \<Longrightarrow> issues config d \<Longrightarrow> issues config (if b then c else d)"
  by simp

lemma issues_tokens: "issues config (issue_tokens (auth_service config) user)"
  unfolding issues_def using same_sys_refl by blast

lemma issues_require: "issues config c \<Longrightarrow> issues config (require v c)"
  by (cases v) (simp_all add: require_def issues_Fail)

lemma issues_bindV: "sys_kept c \<Longrightarrow> issues config k \<Longrightarrow> issues config (bindV c k)"
  unfolding bindV_def by (intro issues_bindE issues_If issues_Fail)

lemma issues_bindR: "sys_kept c \<Longrightarrow> (\<And>a. issues config (f a)) \<Longrightarrow> issues config (bindR c f)"
  unfolding bindR_def
  by (rule issues_bindE) (auto simp: issues_Fail issues_throw split: option.splits)

lemmas issues_rules = issues_bindE issues_If issues_Fail issues_tokens issues_require issues_bindV issues_bindR

lemma issues_operations:
  "issues config (LoginByPassword (auth_service config) mobile pw)"
  "issues config (LoginByCode (auth_service config) mobile c)"
  "issues config (AuthService_Register (auth_service config) mobile c pw name)"
  unfolding LoginByPassword_def login_found_def LoginByCode_def AuthService_Register_def auth_service_sel
    user_db_def sms_service_def UserDB.simps SmsService.simps
  by (intro issues_rules sys_kept_login sys_kept_password sys_kept_VerifyCaptcha sys_kept_Value
      off_cache_sys_kept off_cache_find off_cache_Create)+

text \<open>The tokens of an answer are good: the clock of the system stays between \<open>lo\<close> and \<open>hi\<close>, which is
  within the lifetime of a token made at \<open>lo\<close>.\<close>

definition clock_within :: "int \<Rightarrow> int \<Rightarrow> 'e sys \<Rightarrow> bool" where
  "clock_within lo hi s \<longleftrightarrow> (\<forall>e. lo \<le> fst (sys_clock s e) \<and> fst (sys_clock s e) \<le> hi)"

definition lifetime_ok :: "SecurityConfig \<Rightarrow> int \<Rightarrow> int \<Rightarrow> bool" where
  "lifetime_ok c lo hi \<longleftrightarrow> 0 \<le> lo \<and> 0 \<le> access_token_ttl_seconds c \<and> access_token_ttl_seconds c < 2 ^ 31
     \<and> hi + access_token_ttl_seconds c * NANOS < 2 ^ 63 \<and> hi \<le> expiry_instant lo (access_token_ttl_seconds c)"

lemma clock_within_same: "same_sys s s' \<Longrightarrow> clock_within lo hi s' = clock_within lo hi s"
  by (simp add: clock_within_def same_sys_fields)

lemma expiry_instant_mono: "a \<le> b \<Longrightarrow> expiry_instant a ttl \<le> expiry_instant b ttl"
  unfolding expiry_instant_def by (intro mult_right_mono zdiv_mono1) (simp_all add: NANOS_def)

lemma access_claims_hash: "access_claims c (u\<lparr>u_password_hash := h\<rparr>) = access_claims c u"
  by (intro ext) (simp add: access_claims_def)

lemma issue_tokens_verify:
  fixes v z :: "('s, 'e, 'r) world"
  assumes run: "issue_tokens (auth_service config) user v = (Inr r, w')"
    and d: "data r = Some a" and ok: "jwt_user_ok (cfg_security config) (auth_user a)"
    and z: "same_sys (w_sys v) (w_sys z)" and cl: "clock_within lo hi (w_sys v)"
    and lt: "lifetime_ok (cfg_security config) lo hi"
  shows "\<exists>x s'. VerifyAccessToken (cfg_security config) (access_token (auth_tokens a)) (w_sys z) = (Inr (Result_Ok
      \<lparr>p_user_id = u_id (auth_user a), p_user_uuid = u_uuid (auth_user a), p_mobile = u_mobile (auth_user a),
        p_role = StringToUserRole (UserRoleToString (u_role (auth_user a))), p_expires_at = x\<rparr>), s') \<and> hi \<le> x"
proof -
  let ?c = "cfg_security config" and ?s = "w_sys v"
  let ?ttl = "access_token_ttl_seconds ?c" and ?now = "clock_of ?s"
  obtain jti s1 where g: "GenerateAccessToken ?c user ?s = (Inr (jwt_text (sys_hmac ?s)
      (access_claims ?c user ?now (plus_seconds ?now ?ttl) jti) (jwt_secret ?c)), s1)"
    by (rule GenerateAccessToken_run)
  have a: "auth_user a = user\<lparr>u_password_hash := []\<rparr>"
    "access_token (auth_tokens a) = jwt_text (sys_hmac ?s) (access_claims ?c (auth_user a) ?now (plus_seconds ?now ?ttl) jti) (jwt_secret ?c)"
    using run d g
    by (auto simp: issue_tokens_def bindE_Inr_iff jwt_service_def in_sys_def zoom_def GenerateTokenPair_def
        ret_def access_claims_hash split: prod.splits)
  have now: "lo \<le> ?now" "?now \<le> hi" using cl by (simp_all add: clock_within_def clock_of_def)
  have later: "clock_of (w_sys z) \<le> hi"
    using cl clock_within_same [OF z, of lo hi] by (simp add: clock_within_def clock_of_def)
  have hi: "hi \<le> expiry_instant ?now ?ttl"
    using lt expiry_instant_mono [OF now(1), of ?ttl] by (simp add: lifetime_ok_def)
  have range: "expiry_in_range ?now ?ttl" using now lt by (simp add: expiry_in_range_def lifetime_ok_def)
  have h: "sys_hmac (w_sys z) = sys_hmac ?s" using z same_sys_fields(1) by blast
  show ?thesis
    using VerifyAccessToken_text [OF ok range, of "w_sys z" jti] hi later unfolding a(2) h by auto
qed

lemma issue_tokens_validate:
  fixes v z :: "('s, 'e, 'r) world"
  assumes run: "issue_tokens (auth_service config) user v = (Inr r, w')"
    and d: "data r = Some a" and ok: "jwt_user_ok (cfg_security config) (auth_user a)"
    and z: "same_sys (w_sys v) (w_sys z)" and cl: "clock_within lo hi (w_sys v)"
    and lt: "lifetime_ok (cfg_security config) lo hi"
  shows "\<exists>x z'. ValidateAccessToken role (auth_service config) (access_token (auth_tokens a)) z =
    (Inr (Result_Ok \<lparr>v_user_id = u_id (auth_user a), v_user_uuid = u_uuid (auth_user a),
       v_mobile = u_mobile (auth_user a), v_role = role, v_expires_at = x\<rparr>), z') \<and> hi \<le> x"
proof -
  have "access_token (auth_tokens a) \<noteq> []"
    using issue_tokens_verify [OF assms] VerifyAccessToken_nonempty by blast
  with issue_tokens_verify [OF assms] show ?thesis
    by (auto simp: ValidateAccessToken_def bindR_def bindE_def jwt_service_def in_sys_def zoom_def ret_def)
qed

subsection \<open>What a login has checked\<close>

lemma Verify_shape:
  assumes "PasswordHelper_Verify sha256 password stored"
  shows "\<exists>salt. stored = ''$sha256$'' @ salt @ ''$'' @ hex_bytes (sha256 (salt @ password)) \<and> CHR ''$'' \<notin> set salt"
proof -
  let ?d = "drop 8 stored"
  have pre: "take 8 stored = ''$sha256$''"
    using assms by (simp add: PasswordHelper_Verify_def substr_def split: if_splits)
  obtain k where k: "find_char (CHR ''$'') ?d = Some k"
    using assms by (auto simp: PasswordHelper_Verify_def find_from_def split: if_splits option.splits)
  have hash: "drop (Suc k) ?d = hex_bytes (sha256 (take k ?d @ password))"
    using assms k by (simp add: PasswordHelper_Verify_def find_from_def substr_def Let_def ConstantTimeCompare_eq
        BytesToHex_def add.commute split: if_splits)
  note kd = find_char_Some [OF k]
  have "?d = take k ?d @ CHR ''$'' # drop (Suc k) ?d" using kd id_take_nth_drop [of k ?d] by simp
  then have "stored = ''$sha256$'' @ take k ?d @ ''$'' @ hex_bytes (sha256 (take k ?d @ password))"
    using pre hash append_take_drop_id [of 8 stored] by (metis append_Cons append_Nil)
  then show ?thesis using kd by blast
qed

lemma require_data: "require v k w = (Inr r, w') \<Longrightarrow> data r \<noteq> None \<Longrightarrow> v = None \<and> k w = (Inr r, w')"
  by (auto simp: require_def ret_def split: option.splits)

lemma bindV_data:
  "bindV m k w = (Inr r, w') \<Longrightarrow> data r \<noteq> None \<Longrightarrow> \<exists>r1 w1. m w = (Inr r1, w1) \<and> IsOk r1 \<and> k w1 = (Inr r, w')"
  by (auto simp: bindV_def bindE_Inr_iff ret_def split: if_splits)

lemma login_found_data:
  fixes w2 :: "('s, 'e, 'r) world"
  assumes run: "login_found (auth_service config) mobile pw user_res w2 = (Inr r, w')" and d: "data r = Some a"
  shows "\<exists>user. IsOk user_res \<and> data user_res = Some user \<and> \<not> u_disabled user
    \<and> PasswordHelper_Verify (sys_sha256 (w_sys w2)) pw (u_password_hash user)
    \<and> auth_user a = user\<lparr>u_password_hash := []\<rparr>
    \<and> (\<exists>w3. ClearLoginFailure (auth_service config) mobile w2 = (Inr (), w3)
        \<and> issue_tokens (auth_service config) user w3 = (Inr r, w'))"
proof -
  have ok: "IsOk user_res"
  proof (rule ccontr)
    assume "\<not> IsOk user_res"
    then show False using run d
      by (auto simp: login_found_def bindE_Inr_iff ret_def split: if_splits)
  qed
  then obtain user where user: "data user_res = Some user"
    using run by (auto simp: login_found_def bindE_Inr_iff Value_def throw_def split: option.splits)
  then have value_run: "bindE (Value user_res) f w2 = f user w2" for f :: "_ \<Rightarrow> (('s, 'e, 'r) world, AuthResult Result) io"
    by (simp add: bindE_def Value_def ret_def)
  then have go: "(if u_disabled user then ret (Result_Fail UserDisabled (utf8 [0x8D26, 0x53F7, 0x5DF2, 0x88AB, 0x7981, 0x7528]))
       else
         bindE (ph_Verify password_helper pw (u_password_hash user)) (\<lambda>correct.
         if \<not> correct then
           bindE (RecordLoginFailure (auth_service config) mobile) (\<lambda>_. ret (Result_Fail WrongPassword (utf8 [0x8D26, 0x53F7, 0x6216, 0x5BC6, 0x7801, 0x9519, 0x8BEF])))
         else
           bindE (ClearLoginFailure (auth_service config) mobile) (\<lambda>_. issue_tokens (auth_service config) user))) w2 = (Inr r, w')"
    using run ok value_run by (simp only: login_found_def auth_service_sel not_True_eq_False if_False)
  have en: "\<not> u_disabled user" using go d by (auto simp: ret_def)
  have vf: "ph_Verify password_helper pw (u_password_hash user) w2 =
      (Inr (PasswordHelper_Verify (sys_sha256 (w_sys w2)) pw (u_password_hash user)), w2)"
    by (simp add: password_helper_def in_sys_def zoom_def ask_def)
  have pw: "PasswordHelper_Verify (sys_sha256 (w_sys w2)) pw (u_password_hash user)"
  proof (rule ccontr)
    assume "\<not> PasswordHelper_Verify (sys_sha256 (w_sys w2)) pw (u_password_hash user)"
    then show False using go en d by (auto simp: bindE_Inr_iff vf ret_def)
  qed
  obtain w3 where 3: "ClearLoginFailure (auth_service config) mobile w2 = (Inr (), w3)"
    "issue_tokens (auth_service config) user w3 = (Inr r, w')"
    using go en pw by (auto simp: bindE_Inr_iff vf)
  from issue_tokens_Ok [OF 3(2)] d have "auth_user a = user\<lparr>u_password_hash := []\<rparr>" by auto
  then show ?thesis using ok user en pw 3 by blast
qed

subsection \<open>Properties\<close>

text \<open>C10: Guessing a password is bounded by the lock: while the cache answers and does not expire the
  counter, in any run of password logins for a mobile number of which none succeeds, whatever the
  database answers, at most \<open>max_failed_attempts\<close> passwords are compared and found wrong; after
  that many the next login is refused, even with the right password, before the database or
  the password hash is looked at.\<close>

theorem login_bruteforce_bounded:
  fixes w :: "('s, 'e, 'r) world"
  assumes "cache_alive V up w" and "login_config_ok (cfg_login config)"
    and "cached V w (login_key mobile) = None"
    and "login_all (auth_service config) mobile ps w = (Inr rs, w')" and "\<forall>r\<in>set rs. \<not> IsOk r"
  shows "wrong_guesses rs \<le> max_failed_attempts (cfg_login config)
    \<and> (wrong_guesses rs = max_failed_attempts (cfg_login config) \<longrightarrow>
        (\<exists>r w''. LoginByPassword (auth_service config) mobile pw w' = (Inr r, w'')
          \<and> code r \<in> {InvalidArgument, AccountLocked} \<and> w_pool w'' = w_pool w' \<and> w_sys w'' = w_sys w'))"
proof -
  have "0 \<le> max_failed_attempts (cfg_login config)" using assms(2) by (simp add: login_config_ok_def)
  with login_all_counts [OF assms(1,2) _ _ _ assms(4,5), of 0] assms(3)
  have c: "wrong_guesses rs \<le> max_failed_attempts (cfg_login config)"
    "counter (cached V w' (login_key mobile)) = Some (wrong_guesses rs)" "cache_alive V up w'" by simp_all
  have "0 \<le> wrong_guesses rs" by (simp add: wrong_guesses_def)
  with login_step [OF c(3) assms(2) c(2) _ c(1)] login_locked_returns [OF c(3) assms(2), of mobile pw] c(1,2)
  show ?thesis by metis
qed


definition config_once :: Config where
  "config_once = Config_default\<lparr>cfg_login := LoginConfig_default\<lparr>max_failed_attempts := 1\<rparr>\<rparr>"

lemma config_once_login: "login_config_ok (cfg_login config_once)" "max_failed_attempts (cfg_login config_once) = 1"
  by (simp_all add: config_once_def login_config_ok_def LoginConfig_default_def)

lemma world_example_alive: "cache_alive (\<lambda>s. s) (\<lambda>_. True) (world_example t)"
  using redis_mem_alive [of Map.empty] by (simp add: cache_alive_def world_example_def redis_alive_def)

lemma formats_example:
  "IsValidMobile ''13800138000'' = None" "IsValidPassword ''abc12345'' (cfg_password config_once) = None"
  by code_simp+

text \<open>With no user in the table a login is a wrong guess.\<close>

lemma login_example:
  "\<exists>r w'. LoginByPassword (auth_service config_once) ''13800138000'' ''abc12345'' (world_example 0) = (Inr r, w')
    \<and> code r = WrongPassword"
proof -
  let ?m = "''13800138000''" and ?w = "world_example 0" and ?V = "\<lambda>s :: string \<rightharpoonup> string. s"
  have n: "counter (cached ?V ?w (login_key ?m)) = Some 0" by (simp add: cached_def world_example_def)
  obtain rc w1 where 1: "CheckLoginFailedAttempts (auth_service config_once) ?m ?w = (Inr rc, w1)"
    "cache_alive ?V (\<lambda>_. True) w1" "cached ?V w1 = cached ?V ?w" "(w_pool w1, w_sys w1) = (w_pool ?w, w_sys ?w)" "code rc = Ok"
    using cache_live(1) [of ?V "\<lambda>_. True" ?w "auth_service config_once" ?m 0] world_example_alive n
    by (force simp: config_once_login in_int32_def)
  have "w_pool w1 = pool_example" using 1(4) by (simp add: world_example_def)
  note f = FindByMobile_example [OF this, of ?m]
  obtain w2 where 2: "RecordLoginFailure (auth_service config_once) ?m w1 = (Inr (), w2)"
    using cache_live(2) [of ?V "\<lambda>_. True" w1 "auth_service config_once" ?m 0] 1 n
    by (force simp: config_once_login in_int32_def)
  show ?thesis
    using 1(1,5) f 2
    by (simp add: LoginByPassword_def require_def formats_example bindV_def bindE_def user_db_def login_found_def
        ret_def IsOk_def)
qed

theorem login_bruteforce_bounded_witness:
  "\<exists>rs w'. login_all (auth_service config_once) ''13800138000'' [''abc12345''] (world_example 0) = (Inr rs, w')
    \<and> wrong_guesses rs = 1
    \<and> (\<exists>r w''. LoginByPassword (auth_service config_once) ''13800138000'' ''abc12345'' w' = (Inr r, w'')
        \<and> code r \<in> {InvalidArgument, AccountLocked} \<and> w_pool w'' = w_pool w')"
proof -
  obtain r w' where r: "LoginByPassword (auth_service config_once) ''13800138000'' ''abc12345'' (world_example 0) = (Inr r, w')"
    "code r = WrongPassword" using login_example by blast
  have run: "login_all (auth_service config_once) ''13800138000'' [''abc12345''] (world_example 0) = (Inr [r], w')"
    using r by (simp add: bindE_def ret_def)
  have one: "wrong_guesses [r] = 1" using r(2) by (simp add: wrong_guesses_def)
  have "cached (\<lambda>s. s) (world_example 0) (login_key ''13800138000'') = None" "\<forall>x\<in>set [r]. \<not> IsOk x"
    using r(2) by (simp_all add: cached_def world_example_def IsOk_def)
  from login_bruteforce_bounded [OF world_example_alive config_once_login(1) this(1) run this(2), of "''abc12345''"]
    run one show ?thesis unfolding config_once_login(2) by blast
qed


text \<open>Whoever registers or logs in, by password or by code, gets an access token that the
  service's own validation accepts for as long as the clock stays within the token's lifetime,
  and that names exactly the account that was answered: its identifier, UUID and mobile number.
  (The answer of the validation carries no role of its own: the code leaves it indeterminate.)\<close>

lemma issued_token_identifies_user:
  fixes w z :: "('s, 'e, 'r) world"
  assumes "LoginByPassword (auth_service config) mobile pw w = (Inr r, w')
      \<or> LoginByCode (auth_service config) mobile verify_code w = (Inr r, w')
      \<or> AuthService_Register (auth_service config) mobile verify_code pw name w = (Inr r, w')"
    and "data r = Some a" and "jwt_user_ok (cfg_security config) (auth_user a)"
    and "same_sys (w_sys w) (w_sys z)" and "clock_within lo hi (w_sys w)"
    and "lifetime_ok (cfg_security config) lo hi"
  shows "\<exists>x z'. ValidateAccessToken role (auth_service config) (access_token (auth_tokens a)) z =
    (Inr (Result_Ok \<lparr>v_user_id = u_id (auth_user a), v_user_uuid = u_uuid (auth_user a),
       v_mobile = u_mobile (auth_user a), v_role = role, v_expires_at = x\<rparr>), z') \<and> hi \<le> x"
proof -
  obtain user v where v: "same_sys (w_sys w) (w_sys v)" "issue_tokens (auth_service config) user v = (Inr r, w')"
    using assms(1,2) issues_operations [unfolded issues_def] by (metis option.distinct(1))
  have "same_sys (w_sys v) (w_sys z)" using v(1) assms(4) by (rule same_sys_euclid)
  moreover have "clock_within lo hi (w_sys v)" using assms(5) clock_within_same [OF v(1)] by simp
  ultimately show ?thesis using issue_tokens_validate [OF v(2) assms(2,3)] assms(6) by blast
qed


text \<open>A user whose stored hash fits the password under the digest of the example system.\<close>

definition user_row :: UserEntity where
  "user_row = user_example\<lparr>u_password_hash := ''$sha256$73616c74$'' @ concat (replicate 32 ''68'')\<rparr>"

definition world_row :: "int \<Rightarrow> (nat list \<times> nat, unit, string \<rightharpoonup> string) world" where
  "world_row t = \<lparr>w_pool = row_pool user_row [7], w_sys = sys_example t, w_redis = redis_mem Map.empty\<rparr>"

lemma user_row_facts: "user_ok user_row" "\<not> u_disabled user_row"
  "PasswordHelper_Verify (\<lambda>d. replicate 32 (CHR ''h'')) ''abc12345'' (u_password_hash user_row)"
  by (simp add: user_row_def user_example_def UserEntity_default_def user_ok_def in_int64_def in_int32_def, code_simp+)

lemma issue_tokens_row:
  fixes w :: "(nat list \<times> nat, unit, 'r) world"
  assumes w: "w_pool w = row_pool u [7]" "w_sys w = sys_example t"
  shows "\<exists>tokens. issue_tokens (auth_service config) user w =
    (Inr (Result_Ok \<lparr>auth_user = user\<lparr>u_password_hash := []\<rparr>, auth_tokens = tokens\<rparr>), w)"
proof -
  have "w\<lparr>w_sys := sys_example t\<rparr> = w" using w(2) by simp
  then have "in_sys m w = (fst (m (sys_example t)), w)" if "snd (m (sys_example t)) = sys_example t" for m :: "(unit sys, 'b) io"
    using w(2) that by (simp add: in_sys_def zoom_def split_beta)
  moreover have "\<exists>tokens. GenerateTokenPair (cfg_security config) user (sys_example t) = (Inr tokens, sys_example t)"
    by (simp add: GenerateTokenPair_def GenerateAccessToken_def GenerateRefreshToken_def bindE_def ret_def Let_def
        system_clock_now_def uniform_int_def sys_call_def sys_example_def CreateJwt_run)
  ultimately obtain tokens where g: "in_sys (GenerateTokenPair (cfg_security config) user) w = (Inr tokens, w)"
    using w(2) by (auto simp: in_sys_def zoom_def)
  have h: "in_sys (HashToken x) w = (Inr (hex_bytes (replicate 32 (CHR ''h''))), w)" for x
    using w(2) by (simp add: in_sys_def zoom_def HashToken_def ask_def bindE_def ret_def sys_example_def)
  show ?thesis
    by (simp add: issue_tokens_def StoreRefreshToken_def jwt_service_def token_repo_def bindE_def g h
        SaveRefreshToken_row [OF w] ret_def)
qed

lemma login_row_example:
  "\<exists>tokens w'. LoginByPassword (auth_service config_once) ''13800138000'' ''abc12345'' (world_row t) =
    (Inr (Result_Ok \<lparr>auth_user = user_row\<lparr>u_password_hash := []\<rparr>, auth_tokens = tokens\<rparr>), w')"
proof -
  let ?m = "''13800138000''" and ?w = "world_row t" and ?V = "\<lambda>s :: string \<rightharpoonup> string. s" and ?S = "auth_service config_once"
  have lv: "cache_alive ?V (\<lambda>_. True) ?w"
    using redis_mem_alive [of Map.empty] by (simp add: cache_alive_def world_row_def redis_alive_def)
  obtain rc w1 where 1: "CheckLoginFailedAttempts ?S ?m ?w = (Inr rc, w1)"
    "cache_alive ?V (\<lambda>_. True) w1" "(w_pool w1, w_sys w1) = (w_pool ?w, w_sys ?w)" "code rc = Ok"
    using cache_live(1) [of ?V "\<lambda>_. True" ?w ?S ?m 0] lv
    by (force simp: config_once_login in_int32_def cached_def world_row_def)
  have p1: "w_pool w1 = row_pool user_row [7]" "w_sys w1 = sys_example t" using 1(3) by (simp_all add: world_row_def)
  have f: "UserDB_FindByMobile ?m w1 = (Inr (Result_Ok user_row), w1)"
    unfolding UserDB_FindByMobile_def by (rule FindByField_row [OF p1(1) user_row_facts(1)]) simp
  obtain w2 where 2: "ClearLoginFailure ?S ?m w1 = (Inr (), w2)" "(w_pool w2, w_sys w2) = (w_pool w1, w_sys w1)"
    using cache_live(3) [of ?V "\<lambda>_. True" w1 ?S ?m] 1(2) by auto
  obtain tokens where 3: "issue_tokens ?S user_row w2 =
      (Inr (Result_Ok \<lparr>auth_user = user_row\<lparr>u_password_hash := []\<rparr>, auth_tokens = tokens\<rparr>), w2)"
    using issue_tokens_row [of w2 user_row t config_once user_row] p1 2(2) by auto
  have vf: "ph_Verify password_helper ''abc12345'' (u_password_hash user_row) w1 = (Inr True, w1)"
    using p1(2) user_row_facts(3) by (simp add: password_helper_def in_sys_def zoom_def ask_def sys_example_def)
  show ?thesis
    using 1(1,4) f vf 2(1) 3 user_row_facts(2)
    by (simp add: LoginByPassword_def require_def formats_example bindV_def bindE_def user_db_def login_found_def
        ret_def IsOk_def)
qed

lemma issued_token_identifies_user_example:
  "\<exists>r w' a x z'. LoginByPassword (auth_service config_once) ''13800138000'' ''abc12345'' (world_row 1000000000) = (Inr r, w')
    \<and> data r = Some a
    \<and> ValidateAccessToken User (auth_service config_once) (access_token (auth_tokens a)) (world_row 1000000000) =
      (Inr (Result_Ok \<lparr>v_user_id = 42, v_user_uuid = ''550e8400-e29b-41d4-a716-446655440000'',
         v_mobile = ''13800138000'', v_role = User, v_expires_at = x\<rparr>), z')"
proof -
  obtain tokens w' where run: "LoginByPassword (auth_service config_once) ''13800138000'' ''abc12345'' (world_row 1000000000) =
      (Inr (Result_Ok \<lparr>auth_user = user_row\<lparr>u_password_hash := []\<rparr>, auth_tokens = tokens\<rparr>), w')"
    using login_row_example by blast
  let ?a = "\<lparr>auth_user = user_row\<lparr>u_password_hash := []\<rparr>, auth_tokens = tokens\<rparr>"
  have u: "user_row\<lparr>u_password_hash := []\<rparr> = user_example"
    by (simp add: user_row_def user_example_def UserEntity_default_def)
  have "clock_within 1000000000 1000000000 (w_sys (world_row 1000000000))"
    by (simp add: clock_within_def world_row_def sys_example_def)
  moreover have "lifetime_ok (cfg_security config_once) 1000000000 1000000000"
    by (simp add: lifetime_ok_def expiry_instant_def NANOS_def config_once_def Config_default_def SecurityConfig_default_def)
  moreover have "jwt_user_ok (cfg_security config_once) (auth_user ?a)"
    using jwt_user_ok_example u by (simp add: config_once_def Config_default_def)
  ultimately obtain x z' where "ValidateAccessToken User (auth_service config_once) (access_token (auth_tokens ?a)) (world_row 1000000000) =
    (Inr (Result_Ok \<lparr>v_user_id = u_id (auth_user ?a), v_user_uuid = u_uuid (auth_user ?a),
       v_mobile = u_mobile (auth_user ?a), v_role = User, v_expires_at = x\<rparr>), z')"
    using issued_token_identifies_user [OF disjI1 [OF run], of ?a "world_row 1000000000" 1000000000 1000000000 User]
    by auto
  then show ?thesis using run u by (fastforce simp: user_example_def)
qed


text \<open>The check of the lock touches nothing but the cache.\<close>

lemma Check_cache_only:
  "CheckLoginFailedAttempts (auth_service config) mobile w = (r, w1) \<Longrightarrow> w_pool w1 = w_pool w \<and> w_sys w1 = w_sys w"
  by (auto simp: CheckLoginFailedAttempts_def redis_cli_def RedisClient_at_def zoom_def bindE_def ret_def lift_def Let_def
      split: prod.splits sum.splits if_splits option.splits)

text \<open>C2: A password login succeeds only for an account that the user table has under the mobile
  number, that is not disabled, and whose stored hash is the salted SHA-256 of exactly the given
  password (under the salt it carries); the answer is that account, without the hash. The whole
  run is pinned: the table is asked in the world that the check of the lock leaves, which has the
  pool and the system of the first one, and from its answer the counter is cleared and the
  tokens are made, up to the last world and the answer.\<close>

theorem login_checks_password:
  fixes w :: "('s, 'e, 'r) world"
  assumes "LoginByPassword (auth_service config) mobile pw w = (Inr r, w')" and "data r = Some a"
  shows "\<exists>rc w1 res w2 user salt w3.
    CheckLoginFailedAttempts (auth_service config) mobile w = (Inr rc, w1) \<and> IsOk rc
    \<and> w_pool w1 = w_pool w \<and> w_sys w1 = w_sys w
    \<and> UserDB_FindByMobile mobile w1 = (Inr res, w2) \<and> IsOk res \<and> data res = Some user
    \<and> \<not> u_disabled user
    \<and> u_password_hash user = ''$sha256$'' @ salt @ ''$'' @ hex_bytes (sys_sha256 (w_sys w) (salt @ pw))
    \<and> ClearLoginFailure (auth_service config) mobile w2 = (Inr (), w3)
    \<and> issue_tokens (auth_service config) user w3 = (Inr r, w')
    \<and> auth_user a = user\<lparr>u_password_hash := []\<rparr>"
proof -
  have d: "data r \<noteq> None" using assms(2) by simp
  obtain rc w1 where 1: "CheckLoginFailedAttempts (auth_service config) mobile w = (Inr rc, w1)" "IsOk rc"
    "bindE (UserDB_FindByMobile mobile) (login_found (auth_service config) mobile pw) w1 = (Inr r, w')"
    using assms(1)
    by (auto simp: LoginByPassword_def user_db_def dest!: require_data [OF _ d] bindV_data [OF _ d])
  obtain res w2 where 2: "UserDB_FindByMobile mobile w1 = (Inr res, w2)"
    "login_found (auth_service config) mobile pw res w2 = (Inr r, w')"
    using 1(3) by (auto simp: bindE_Inr_iff)
  note w1 = Check_cache_only [OF 1(1)]
  have "same_sys (w_sys w) (w_sys w2)"
    using sys_keptD [OF off_cache_sys_kept [OF off_cache_find(5)] 2(1)] w1 by simp
  then have "sys_sha256 (w_sys w2) = sys_sha256 (w_sys w)" using same_sys_fields by blast
  moreover obtain user w3 where u: "IsOk res" "data res = Some user" "\<not> u_disabled user"
      "PasswordHelper_Verify (sys_sha256 (w_sys w2)) pw (u_password_hash user)" "auth_user a = user\<lparr>u_password_hash := []\<rparr>"
      "ClearLoginFailure (auth_service config) mobile w2 = (Inr (), w3)"
      "issue_tokens (auth_service config) user w3 = (Inr r, w')"
    using login_found_data [OF 2(2) assms(2)] by blast
  ultimately obtain salt where "u_password_hash user = ''$sha256$'' @ salt @ ''$'' @ hex_bytes (sys_sha256 (w_sys w) (salt @ pw))"
    using Verify_shape [OF u(4)] by auto
  then show ?thesis using 1(1,2) w1 2(1) u by blast
qed

theorem login_checks_password_witness:
  "\<exists>r w' a salt. LoginByPassword (auth_service config_once) ''13800138000'' ''abc12345'' (world_row 0) = (Inr r, w')
    \<and> data r = Some a \<and> auth_user a = user_row\<lparr>u_password_hash := []\<rparr> \<and> \<not> u_disabled user_row
    \<and> u_password_hash user_row = ''$sha256$'' @ salt @ ''$'' @ hex_bytes (sys_sha256 (w_sys (world_row 0)) (salt @ ''abc12345''))"
proof -
  obtain tokens w' where run: "LoginByPassword (auth_service config_once) ''13800138000'' ''abc12345'' (world_row 0) =
      (Inr (Result_Ok \<lparr>auth_user = user_row\<lparr>u_password_hash := []\<rparr>, auth_tokens = tokens\<rparr>), w')"
    using login_row_example by blast
  obtain w1 w2 :: "(nat list \<times> nat, unit, string \<rightharpoonup> string) world" and res user salt where
    u: "w_pool w1 = w_pool (world_row 0)" "UserDB_FindByMobile ''13800138000'' w1 = (Inr res, w2)"
      "data res = Some user" "\<not> u_disabled user"
      "u_password_hash user = ''$sha256$'' @ salt @ ''$'' @ hex_bytes (sys_sha256 (w_sys (world_row 0)) (salt @ ''abc12345''))"
    using login_checks_password [OF run Result_Ok_sel(2)] by (elim exE conjE) (rule that)
  have "w_pool w1 = row_pool user_row [7]" using u(1) by (simp add: world_row_def)
  then have "UserDB_FindByMobile ''13800138000'' w1 = (Inr (Result_Ok user_row), w1)"
    unfolding UserDB_FindByMobile_def by (rule FindByField_row [OF _ user_row_facts(1)]) simp
  then have "user = user_row" using u(2,3) by simp
  with u(4,5) have "\<not> u_disabled user_row"
    "u_password_hash user_row = ''$sha256$'' @ salt @ ''$'' @ hex_bytes (sys_sha256 (w_sys (world_row 0)) (salt @ ''abc12345''))"
    by blast+
  then show ?thesis
    by (intro exI conjI) (rule run, rule Result_Ok_sel(2), rule AuthResult.select_convs)
qed

text \<open>Whatever the collaborators do, no answer of the authentication service carries a password
  hash: where registration or a login gives an account, its hash is blank.\<close>

lemma auth_hides_password_hash:
  fixes this :: "'w AuthService"
  shows "gives (\<lambda>r. case data r of None \<Rightarrow> True | Some a \<Rightarrow> u_password_hash (auth_user a) = []) (AuthService_Register this mobile verify_code pw name)
    \<and> gives (\<lambda>r. case data r of None \<Rightarrow> True | Some a \<Rightarrow> u_password_hash (auth_user a) = []) (LoginByPassword this mobile pw)
    \<and> gives (\<lambda>r. case data r of None \<Rightarrow> True | Some a \<Rightarrow> u_password_hash (auth_user a) = []) (LoginByCode this mobile verify_code)"
proof -
  let ?P = "\<lambda>r. case data r of None \<Rightarrow> True | Some a \<Rightarrow> u_password_hash (auth_user a) = []"
  have i: "gives ?P (issue_tokens this user)" for user
    unfolding issue_tokens_def by (intro gives_bindE gives_ret) simp
  have f: "gives ?P (ret (Result_Fail c m) :: ('w, AuthResult Result) io)" for c m by (rule gives_ret) simp
  have q: "gives ?P k \<Longrightarrow> gives ?P (require v k)" for v and k :: "('w, AuthResult Result) io"
    by (cases v) (simp_all add: require_def f)
  have b: "gives ?P k \<Longrightarrow> gives ?P (bindV m k)" for m and k :: "('w, AuthResult Result) io"
    unfolding bindV_def by (intro gives_bindE gives_If f)
  have r: "(\<And>x. gives ?P (k x)) \<Longrightarrow> gives ?P (bindR m k)" for m :: "('w, UserEntity Result) io" and k :: "_ \<Rightarrow> ('w, AuthResult Result) io"
    unfolding bindR_def by (intro gives_bindE gives_If f) (auto simp: gives_def throw_def split: option.splits)
  show ?thesis
    unfolding AuthService_Register_def LoginByPassword_def login_found_def LoginByCode_def
    by (intro conjI q b r gives_bindE gives_If f i)
qed

end
