(* ===== verification/User_Service.thy ===== *)
theory User_Service
  imports Interfaces
begin

section \<open>The user service\<close>

text \<open>
  \<open>src/services/user_service.cpp\<close>: what a user does with the own account, and what an
  administrator does with any.
\<close>

record ListUsersResult =
  lu_users :: "UserEntity list"
  lu_page_res :: PageResult

record 'w UserService =
  us_config :: Config
  us_user_db :: "'w UserDB"
  us_token_repo :: "'w TokenRepository"
  us_sms_srv :: "'w SmsService"
  us_password :: "'w PasswordHelper"

definition user_service :: "Config \<Rightarrow> ('s, 'e, 'r) world UserService" where
  "user_service config = \<lparr>us_config = config, us_user_db = user_db, us_token_repo = token_repo,
     us_sms_srv = sms_service (cfg_sms config), us_password = password_helper\<rparr>"

definition no_user_id :: "('w, 'a Result) io" where
  "no_user_id = ret (Result_Fail InvalidArgument (utf8 [0x7528, 0x6237] @ ''ID'' @ utf8 [0x4E0D, 0x80FD, 0x4E3A, 0x7A7A]))"

subsection \<open>The own account\<close>

definition GetCurrentUser :: "'w UserService \<Rightarrow> string \<Rightarrow> ('w, UserEntity Result) io" where
  "GetCurrentUser this user_uuid =
     (if user_uuid = [] then no_user_id else
      bindR (db_FindByUUID (us_user_db this) user_uuid) (\<lambda>user.
      ret (Result_Ok (user\<lparr>u_password_hash := []\<rparr>))))"

definition UpdateUser :: "'w UserService \<Rightarrow> string \<Rightarrow> string option \<Rightarrow> ('w, UserEntity Result) io" where
  "UpdateUser this user_uuid display_name =
     (if user_uuid = [] then no_user_id else
      bindR (db_FindByUUID (us_user_db this) user_uuid) (\<lambda>user.
      if u_disabled user then ret (Result_Fail UserDisabled (utf8 [0x8D26, 0x53F7, 0x5DF2, 0x88AB, 0x7981, 0x7528])) else
      (case display_name of
         None \<Rightarrow> ret (Result_Ok (user\<lparr>u_password_hash := []\<rparr>))
       | Some name \<Rightarrow>
           require (IsValidDisplayName name) (
           bindV (db_Update (us_user_db this) (user\<lparr>u_display_name := name\<rparr>)) (
           ret (Result_Ok (user\<lparr>u_display_name := name, u_password_hash := []\<rparr>)))))))"

definition ChangePassword :: "'w UserService \<Rightarrow> string \<Rightarrow> string \<Rightarrow> string \<Rightarrow> ('w, unit Result) io" where
  "ChangePassword this user_uuid old_password new_password =
     (if user_uuid = [] then no_user_id
      else if IsValidPassword old_password (cfg_password (us_config this)) \<noteq> None
      then ret (Result_Fail InvalidArgument (utf8 [0x65E7, 0x5BC6, 0x7801, 0x683C, 0x5F0F, 0x9519, 0x8BEF]))
      else
      require (IsValidPassword new_password (cfg_password (us_config this))) (
      if old_password = new_password then ret (Result_Fail InvalidArgument (utf8 [0x65B0, 0x5BC6, 0x7801, 0x4E0D, 0x80FD, 0x4E0E, 0x65E7, 0x5BC6, 0x7801, 0x76F8, 0x540C])) else
      bindR (db_FindByUUID (us_user_db this) user_uuid) (\<lambda>user.
      if u_disabled user then ret (Result_Fail UserDisabled (utf8 [0x8D26, 0x53F7, 0x5DF2, 0x88AB, 0x7981, 0x7528])) else
      bindE (ph_Verify (us_password this) old_password (u_password_hash user)) (\<lambda>correct.
      if \<not> correct then ret (Result_Fail WrongPassword (utf8 [0x65E7, 0x5BC6, 0x7801, 0x9519, 0x8BEF])) else
      bindE (ph_Hash (us_password this) new_password) (\<lambda>password_hash.
      bindV (db_Update (us_user_db this) (user\<lparr>u_password_hash := password_hash\<rparr>)) (
      ret (Result_Ok ())))))))"

text \<open>The new value of \<open>mobile\<close> is handed to \<open>Update\<close>, which does not write that column.\<close>

definition UserService_DeleteUser :: "'w UserService \<Rightarrow> string \<Rightarrow> string \<Rightarrow> ('w, unit Result) io" where
  "UserService_DeleteUser this user_uuid verify_code =
     (if user_uuid = [] then no_user_id else
      require (IsValidVerifyCode verify_code (cfg_sms (us_config this))) (
      bindR (db_FindByUUID (us_user_db this) user_uuid) (\<lambda>user.
      bindV (sms_VerifyCaptcha (us_sms_srv this) DeleteUser (u_mobile user) verify_code) (
      bindE (tr_DeleteByUserId (us_token_repo this) (u_id user)) (\<lambda>revoke_res.
      bindV (db_Update (us_user_db this) (user\<lparr>u_disabled := True,
          u_mobile := ''deleted_'' @ to_string (u_id user) @ ''_'' @ u_mobile user\<rparr>)) (
      ret (Result_Ok ())))))))"

subsection \<open>Administration\<close>

definition GetUser :: "'w UserService \<Rightarrow> string \<Rightarrow> ('w, UserEntity Result) io" where
  "GetUser this user_uuid =
     (if user_uuid = [] then no_user_id else
      bindR (db_FindByUUID (us_user_db this) user_uuid) (\<lambda>user.
      ret (Result_Ok (user\<lparr>u_password_hash := []\<rparr>))))"

text \<open>The total is an \<open>int64_t\<close>; the members of \<open>PageResult\<close> are \<open>int\<close>.\<close>

definition ListUsers ::
  "'w UserService \<Rightarrow> string option \<Rightarrow> bool option \<Rightarrow> int \<Rightarrow> int \<Rightarrow> ('w, ListUsersResult Result) io" where
  "ListUsers this mobile_filter disabled_filter pg pg_size =
     (let pg = (if pg > 0 then pg else 1);
          pg_size = (if pg_size > 0 then pg_size else 20);
          pg_size = (if pg_size > 100 then 100 else pg_size);
          params = \<lparr>q_page_params = \<lparr>page = pg, page_size = pg_size\<rparr>,
            q_mobile_like = (case mobile_filter of Some l \<Rightarrow> if l \<noteq> [] then Some l else None | None \<Rightarrow> None),
            q_disabled = disabled_filter\<rparr>
      in
      bindR (db_Count (us_user_db this) params) (\<lambda>total_n.
      bindR (db_FindAll (us_user_db this) params) (\<lambda>users.
      ret (Result_Ok \<lparr>lu_users = map (\<lambda>u. u\<lparr>u_password_hash := []\<rparr>) users,
        lu_page_res = \<lparr>total_records = wrap32 total_n,
          total_pages = wrap32 (cdiv (wrap64 (wrap64 (total_n + pg_size) - 1)) pg_size),
          pr_page = pg, pr_page_size = pg_size\<rparr>\<rparr>))))"

definition SetUserDisabled :: "'w UserService \<Rightarrow> string \<Rightarrow> bool \<Rightarrow> ('w, unit Result) io" where
  "SetUserDisabled this user_uuid disabled =
     (if user_uuid = [] then no_user_id else
      bindR (db_FindByUUID (us_user_db this) user_uuid) (\<lambda>user.
      if u_disabled user = disabled then ret (Result_Ok ()) else
      bindV (db_Update (us_user_db this) (user\<lparr>u_disabled := disabled\<rparr>)) (
      if disabled then
        bindE (tr_DeleteByUserId (us_token_repo this) (u_id user)) (\<lambda>revoke_res. ret (Result_Ok ()))
      else ret (Result_Ok ()))))"


subsection \<open>The collaborators of the production object\<close>

lemma user_service_sel [simp]:
  "us_config (user_service config) = config" "us_user_db (user_service config) = user_db"
  "us_token_repo (user_service config) = token_repo" "us_sms_srv (user_service config) = sms_service (cfg_sms config)"
  "us_password (user_service config) = password_helper"
  by (simp_all add: user_service_def)

lemma Verify_run: "ph_Verify password_helper p h w = (Inr (PasswordHelper_Verify (sys_sha256 (w_sys w)) p h), w)"
  by (simp add: password_helper_def in_sys_def zoom_def ask_def)

lemma Hash_run:
  fixes w :: "('s, 'e, 'r) world"
  shows "\<exists>h w'. ph_Hash password_helper p w = (Inr h, w') \<and> PasswordHelper_Verify (sys_sha256 (w_sys w)) p h
    \<and> same_sys (w_sys w) (w_sys w')"
proof -
  obtain salt s' where "PasswordHelper_Hash p (w_sys w) =
      (Inr (''$sha256$'' @ hex_bytes salt @ ''$'' @ hex_bytes (sys_sha256 (w_sys w) (hex_bytes salt @ p))), s')"
    "same_sys (w_sys w) s'" by (rule PasswordHelper_Hash_run)
  then show ?thesis using PasswordHelper_Verify_hash by (simp add: password_helper_def in_sys_def zoom_def)
qed

lemma ChangePassword_IsOk:
  fixes w w' :: "('s, 'e, 'r) world"
  assumes run: "ChangePassword (user_service config) uuid old new w = (Inr r, w')" and ok: "IsOk r"
  shows "old \<noteq> new \<and> IsValidPassword new (cfg_password config) = None
    \<and> (\<exists>res user w1 w2 h r'. UserDB_FindByUUID uuid w = (Inr res, w1) \<and> data res = Some user \<and> \<not> u_disabled user
        \<and> PasswordHelper_Verify (sys_sha256 (w_sys w1)) old (u_password_hash user)
        \<and> PasswordHelper_Verify (sys_sha256 (w_sys w1)) new h
        \<and> UserDB_Update (user\<lparr>u_password_hash := h\<rparr>) w2 = (Inr r', w') \<and> IsOk r')"
proof -
  have ne: "uuid \<noteq> []" "IsValidPassword old (cfg_password config) = None"
    using run ok by (auto simp: ChangePassword_def no_user_id_def ret_def split: if_splits)
  let ?rest = "if old = new then ret (Result_Fail InvalidArgument (utf8 [0x65B0, 0x5BC6, 0x7801, 0x4E0D, 0x80FD, 0x4E0E, 0x65E7, 0x5BC6, 0x7801, 0x76F8, 0x540C])) else
      bindR (UserDB_FindByUUID uuid) (\<lambda>user.
      if u_disabled user then ret (Result_Fail UserDisabled (utf8 [0x8D26, 0x53F7, 0x5DF2, 0x88AB, 0x7981, 0x7528])) else
      bindE (ph_Verify password_helper old (u_password_hash user)) (\<lambda>correct.
      if \<not> correct then ret (Result_Fail WrongPassword (utf8 [0x65E7, 0x5BC6, 0x7801, 0x9519, 0x8BEF])) else
      bindE (ph_Hash password_helper new) (\<lambda>password_hash.
      bindV (UserDB_Update (user\<lparr>u_password_hash := password_hash\<rparr>)) (ret (Result_Ok ())))))"
  have "require (IsValidPassword new (cfg_password config)) ?rest w = (Inr r, w')"
    using run ne by (simp add: ChangePassword_def user_db_def cong: if_cong)
  from require_IsOk [OF this ok] have new: "IsValidPassword new (cfg_password config) = None" and go: "?rest w = (Inr r, w')"
    by simp_all
  have neq: "old \<noteq> new" using go ok by (auto simp: ret_def)
  obtain res user w1 where 1: "UserDB_FindByUUID uuid w = (Inr res, w1)" "data res = Some user"
    and go1: "(if u_disabled user then ret (Result_Fail UserDisabled (utf8 [0x8D26, 0x53F7, 0x5DF2, 0x88AB, 0x7981, 0x7528])) else
      bindE (ph_Verify password_helper old (u_password_hash user)) (\<lambda>correct.
      if \<not> correct then ret (Result_Fail WrongPassword (utf8 [0x65E7, 0x5BC6, 0x7801, 0x9519, 0x8BEF])) else
      bindE (ph_Hash password_helper new) (\<lambda>password_hash.
      bindV (UserDB_Update (user\<lparr>u_password_hash := password_hash\<rparr>)) (ret (Result_Ok ()))))) w1 = (Inr r, w')"
    using bindR_IsOk [OF go [unfolded if_not_P [OF neq]] ok] by blast
  have en: "\<not> u_disabled user" and pw: "PasswordHelper_Verify (sys_sha256 (w_sys w1)) old (u_password_hash user)"
    using go1 ok by (auto simp: ret_def bindE_def Verify_run split: if_splits)
  obtain h w2 where h: "ph_Hash password_helper new w1 = (Inr h, w2)" "PasswordHelper_Verify (sys_sha256 (w_sys w1)) new h"
    using Hash_run by blast
  have "bindV (UserDB_Update (user\<lparr>u_password_hash := h\<rparr>)) (ret (Result_Ok ())) w2 = (Inr r, w')"
    using go1 en pw h(1) by (simp add: bindE_def Verify_run)
  from bindV_IsOk [OF this ok] obtain r' where "UserDB_Update (user\<lparr>u_password_hash := h\<rparr>) w2 = (Inr r', w')" "IsOk r'"
    by (auto simp: ret_def)
  then show ?thesis using neq new 1 en pw h(2) by blast
qed


subsection \<open>Properties\<close>

text \<open>C37: A password is changed only by who knows it: \<open>ChangePassword\<close> succeeds only for an account
  that the table has under the UUID, that is not disabled and whose stored hash accepts the old
  password; the new one is different and keeps the policy, and what is then written to the
  table is a hash that accepts it.\<close>

theorem change_password_checked:
  fixes w w' :: "('s, 'e, 'r) world"
  assumes "ChangePassword (user_service config) uuid old new w = (Inr r, w')" and "IsOk r"
  shows "old \<noteq> new \<and> IsValidPassword new (cfg_password config) = None
    \<and> (\<exists>res user w1 w2 h r'. UserDB_FindByUUID uuid w = (Inr res, w1) \<and> data res = Some user \<and> \<not> u_disabled user
        \<and> PasswordHelper_Verify (sys_sha256 (w_sys w)) old (u_password_hash user)
        \<and> PasswordHelper_Verify (sys_sha256 (w_sys w)) new h
        \<and> UserDB_Update (user\<lparr>u_password_hash := h\<rparr>) w2 = (Inr r', w') \<and> IsOk r')"
proof -
  obtain res user w1 w2 h r' where *: "old \<noteq> new" "IsValidPassword new (cfg_password config) = None"
    "UserDB_FindByUUID uuid w = (Inr res, w1)" "data res = Some user" "\<not> u_disabled user"
    "PasswordHelper_Verify (sys_sha256 (w_sys w1)) old (u_password_hash user)"
    "PasswordHelper_Verify (sys_sha256 (w_sys w1)) new h"
    "UserDB_Update (user\<lparr>u_password_hash := h\<rparr>) w2 = (Inr r', w')" "IsOk r'"
    using ChangePassword_IsOk [OF assms] by blast
  have "same_sys (w_sys w) (w_sys w1)"
    using sys_keptD [OF off_cache_sys_kept [OF off_cache_find(3)] *(3)] .
  then have "sys_sha256 (w_sys w1) = sys_sha256 (w_sys w)" using same_sys_fields by blast
  with * show ?thesis by (intro conjI exI) simp_all
qed

definition user_stored :: UserEntity where
  "user_stored = user_example\<lparr>u_password_hash := ''$sha256$73616c74$'' @ concat (replicate 32 ''68'')\<rparr>"

lemma user_stored_facts: "user_ok user_stored" "\<not> u_disabled user_stored"
  "PasswordHelper_Verify (\<lambda>d. replicate 32 (CHR ''h'')) ''abc12345'' (u_password_hash user_stored)"
  "IsValidPassword ''abc12345'' (cfg_password Config_default) = None"
  "IsValidPassword ''xyz98765'' (cfg_password Config_default) = None"
  by (simp add: user_stored_def user_example_def UserEntity_default_def user_ok_def in_int64_def in_int32_def, code_simp+)

theorem change_password_checked_witness:
  "\<exists>w :: (nat list \<times> nat, unit, string \<rightharpoonup> string) world. \<exists>r w' user h.
     ChangePassword (user_service Config_default) ''u-1'' ''abc12345'' ''xyz98765'' w = (Inr r, w') \<and> IsOk r
     \<and> PasswordHelper_Verify (sys_sha256 (w_sys w)) ''abc12345'' (u_password_hash (user :: UserEntity))
     \<and> PasswordHelper_Verify (sys_sha256 (w_sys w)) ''xyz98765'' h"
proof -
  let ?w = "\<lparr>w_pool = row_pool user_stored [7], w_sys = sys_example 0, w_redis = redis_mem Map.empty\<rparr>"
  have p: "w_pool ?w = row_pool user_stored [7]" by simp
  have f: "UserDB_FindByUUID ''u-1'' ?w = (Inr (Result_Ok user_stored), ?w)"
    unfolding UserDB_FindByUUID_def by (rule FindByField_row [OF p user_stored_facts(1)]) simp
  obtain h w2 where h: "ph_Hash password_helper ''xyz98765'' ?w = (Inr h, w2)" using Hash_run by blast
  then have "w_pool w2 = row_pool user_stored [7]"
    by (auto simp: password_helper_def in_sys_def zoom_def split: prod.splits)
  note u = Update_row [OF this]
  have v: "ph_Verify password_helper ''abc12345'' (u_password_hash user_stored) ?w = (Inr True, ?w)"
    using user_stored_facts(3) by (simp add: Verify_run sys_example_def)
  have run: "ChangePassword (user_service Config_default) ''u-1'' ''abc12345'' ''xyz98765'' ?w = (Inr (Result_Ok ()), w2)"
    using f h u v user_stored_facts
    by (simp add: ChangePassword_def require_def user_db_def bindR_def bindV_def bindE_def ret_def)
  from change_password_checked [OF run IsOk_Ok] obtain user :: UserEntity and h' where
    "PasswordHelper_Verify (sys_sha256 (w_sys ?w)) ''abc12345'' (u_password_hash user)"
    "PasswordHelper_Verify (sys_sha256 (w_sys ?w)) ''xyz98765'' h'" by blast
  with run show ?thesis
    by (intro exI [of _ ?w] exI [of _ "Result_Ok ()"] exI [of _ w2] exI [of _ user] exI [of _ h']) simp
qed

text \<open>Whatever the collaborators do, no answer of the user service carries a password hash, and a
  list of users comes with a page number from 1 on and a page size between 1 and 100.\<close>

lemma user_service_answers:
  fixes this :: "'w UserService"
  shows "gives (\<lambda>r. case data r of None \<Rightarrow> True | Some u \<Rightarrow> u_password_hash u = []) (GetCurrentUser this uuid)
    \<and> gives (\<lambda>r. case data r of None \<Rightarrow> True | Some u \<Rightarrow> u_password_hash u = []) (GetUser this uuid)
    \<and> gives (\<lambda>r. case data r of None \<Rightarrow> True | Some u \<Rightarrow> u_password_hash u = []) (UpdateUser this uuid name)
    \<and> gives (\<lambda>r. case data r of None \<Rightarrow> True | Some l \<Rightarrow> list_all (\<lambda>u. u_password_hash u = []) (lu_users l)
        \<and> 1 \<le> pr_page (lu_page_res l)
        \<and> 1 \<le> pr_page_size (lu_page_res l) \<and> pr_page_size (lu_page_res l) \<le> 100)
      (ListUsers this mobile_filter disabled_filter pg pg_size)"
proof -
  have R: "gives P (bindR m k)" if "\<And>c t. P (Result_Fail c t)" "\<And>x. gives P (k x)"
    for P and m :: "('w, 'a Result) io" and k :: "'a \<Rightarrow> ('w, 'b Result) io"
    unfolding bindR_def using that
    by (intro gives_bindE gives_If gives_ret) (auto simp: gives_def throw_def split: option.splits)
  let ?P = "\<lambda>r. case data r of None \<Rightarrow> True | Some u \<Rightarrow> u_password_hash u = []"
  let ?Q = "\<lambda>r. case data r of None \<Rightarrow> True | Some l \<Rightarrow> list_all (\<lambda>u. u_password_hash u = []) (lu_users l)
        \<and> 1 \<le> pr_page (lu_page_res l)
        \<and> 1 \<le> pr_page_size (lu_page_res l) \<and> pr_page_size (lu_page_res l) \<le> 100"
  have F: "gives ?P (ret (Result_Fail c t) :: ('w, UserEntity Result) io)" for c t by (rule gives_ret) simp
  have N: "gives ?P (no_user_id :: ('w, UserEntity Result) io)" unfolding no_user_id_def by (rule F)
  have "gives ?P (case name of None \<Rightarrow> ret (Result_Ok (user\<lparr>u_password_hash := []\<rparr>)) | Some n \<Rightarrow>
      require (IsValidDisplayName n) (bindV (db_Update (us_user_db this) (user\<lparr>u_display_name := n\<rparr>))
        (ret (Result_Ok (user\<lparr>u_display_name := n, u_password_hash := []\<rparr>)))))" for user :: UserEntity
    unfolding require_def bindV_def
    by (cases name; cases "IsValidDisplayName (the name)") (auto intro!: gives_bindE gives_If gives_ret F)
  then have "gives ?P (UpdateUser this uuid name)"
    unfolding UpdateUser_def by (intro gives_If N R F) simp_all
  moreover have "gives ?P (GetCurrentUser this uuid)" "gives ?P (GetUser this uuid)"
    unfolding GetCurrentUser_def GetUser_def by (intro gives_If N R gives_ret; simp)+
  moreover have "gives ?Q (ListUsers this mobile_filter disabled_filter pg pg_size)"
    unfolding ListUsers_def Let_def by (intro R gives_ret) (auto simp: list_all_iff)
  ultimately show ?thesis by blast
qed

end
