(* ===== verification/Sessions.thy ===== *)
theory Sessions
  imports Auth_Service
begin

section \<open>Refreshing a session\<close>

text \<open>
  What \<open>AuthService::RefreshToken\<close> has checked when it succeeds, with the lemmas on refresh tokens
  and on the example world that its witness needs.
\<close>

lemma rotate_session_IsOk:
  fixes w2 w' :: "('s, 'e, 'r) world"
  assumes run: "rotate_session (auth_service config) t i user w2 = (Inr r, w')" and ok: "IsOk r"
  shows "\<exists>v w3 d w4 p w5 st. IsTokenValid (hex_bytes (sys_sha256 (w_sys w2) t)) w2 = (Inr v, w3) \<and> IsOk v \<and> data v = Some True
    \<and> DeleteByTokenHash (hex_bytes (sys_sha256 (w_sys w2) t)) w3 = (Inr d, w4)
    \<and> in_sys (GenerateTokenPair (cfg_security config) user) w4 = (Inr p, w5)
    \<and> StoreRefreshToken (auth_service config) i (refresh_token p) w5 = (Inr st, w') \<and> r = Result_Ok p"
proof -
  have "in_sys (HashToken t) w2 = (Inr (hex_bytes (sys_sha256 (w_sys w2) t)), w2)"
    by (simp add: in_sys_def zoom_def HashToken_def ask_def bindE_def ret_def)
  with run ok obtain v w3 where 1: "IsTokenValid (hex_bytes (sys_sha256 (w_sys w2) t)) w2 = (Inr v, w3)" "IsOk v" "data v = Some True"
    and go: "bindE (DeleteByTokenHash (hex_bytes (sys_sha256 (w_sys w2) t))) (\<lambda>_.
      bindE (in_sys (GenerateTokenPair (cfg_security config) user)) (\<lambda>new_tokens.
      bindE (StoreRefreshToken (auth_service config) i (refresh_token new_tokens)) (\<lambda>store_res.
      ret (Result_Ok new_tokens)))) w3 = (Inr r, w')"
    by (auto simp: rotate_session_def jwt_service_def token_repo_def bindE_Inr_iff ret_def IsOk_def value_or_def Result_Fail_def
        split: if_splits option.splits)
  from go obtain d w4 p w5 st where "DeleteByTokenHash (hex_bytes (sys_sha256 (w_sys w2) t)) w3 = (Inr d, w4)"
    "in_sys (GenerateTokenPair (cfg_security config) user) w4 = (Inr p, w5)"
    "StoreRefreshToken (auth_service config) i (refresh_token p) w5 = (Inr st, w')" "r = Result_Ok p"
    by (auto simp: bindE_Inr_iff ret_def)
  with 1 show ?thesis by blast
qed

lemma same_sys_in_sys: "sys_total m \<Longrightarrow> in_sys m w = (r, w') \<Longrightarrow> same_sys (w_sys w) (w_sys w')"
  using off_cacheD [OF off_cache_in_sys] by blast

text \<open>C8: A refresh token buys new tokens only while its session lives. When \<open>RefreshToken\<close> succeeds,
  the token carries the server's HMAC, and no claim of it names another issuer, another kind or an
  expiry that has passed (claims that are absent are not asked for); and the run is, step by step:
  the account that the token names is found, in the world that parsing the token leaves, and not
  disabled; the session table confirms the SHA-256 of the token; the session is deleted; only
  then is the new pair made for that account and its refresh token stored, which is the last
  world, and the answer is that pair.\<close>

theorem refresh_needs_live_session:
  fixes w w' :: "('s, 'e, 'r) world"
  assumes "AuthService_RefreshToken (auth_service config) t w = (Inr r, w')" and "IsOk r"
  shows "\<exists>h b id pr w1 res user w2 v w3 d w4 p w5 st.
    t = h @ ''.'' @ b @ ''.'' @ Base64UrlEncode (sys_hmac (w_sys w) (jwt_secret (cfg_security config)) (h @ ''.'' @ b))
    \<and> (let claims = ParseJson (Base64UrlDecode b) in
        map_of claims ''iss'' \<in> {None, Some (jwt_issuer (cfg_security config))} \<and>
        map_of claims ''sub'' \<in> {None, Some ''refresh''} \<and> stoll (claim_value claims ''uid'') = Inr id \<and>
        (case map_of claims ''exp'' of None \<Rightarrow> True | Some e \<Rightarrow>
          (case stoll e of Inl _ \<Rightarrow> False | Inr x \<Rightarrow> clock_of (w_sys w) \<le> from_time_t x)))
    \<and> in_sys (ParseRefreshToken (cfg_security config) t) w = (Inr pr, w1) \<and> IsOk pr
    \<and> data pr = Some (claim_value (ParseJson (Base64UrlDecode b)) ''uid'')
    \<and> w_pool w1 = w_pool w \<and> w_redis w1 = w_redis w
    \<and> UserDB_FindById id w1 = (Inr res, w2) \<and> IsOk res \<and> data res = Some user \<and> \<not> u_disabled user
    \<and> IsTokenValid (hex_bytes (sys_sha256 (w_sys w) t)) w2 = (Inr v, w3) \<and> IsOk v \<and> data v = Some True
    \<and> DeleteByTokenHash (hex_bytes (sys_sha256 (w_sys w) t)) w3 = (Inr d, w4)
    \<and> in_sys (GenerateTokenPair (cfg_security config) user) w4 = (Inr p, w5)
    \<and> StoreRefreshToken (auth_service config) id (refresh_token p) w5 = (Inr st, w')
    \<and> r = Result_Ok p"
proof -
  let ?c = "cfg_security config" and ?S = "auth_service config :: ('s, 'e, 'r) world AuthService"
  have ne: "t \<noteq> []" using assms by (auto simp: AuthService_RefreshToken_def ret_def)
  obtain pr uid w1 where 1: "in_sys (ParseRefreshToken ?c t) w = (Inr pr, w1)" "IsOk pr" "data pr = Some uid"
    and go: "bindE (lift (stoll uid)) (\<lambda>user_id. bindR (UserDB_FindById user_id) (\<lambda>user.
      if u_disabled user then ret (Result_Fail UserDisabled (utf8 [0x8D26, 0x53F7, 0x5DF2, 0x88AB, 0x7981, 0x7528]))
      else rotate_session ?S t user_id user)) w1 = (Inr r, w')"
    using assms(1) ne
    by (auto simp: AuthService_RefreshToken_def jwt_service_def user_db_def dest!: bindR_IsOk [OF _ assms(2)])
  have w1: "w_pool w1 = w_pool w" "w_redis w1 = w_redis w"
    using 1(1) by (auto simp: in_sys_def zoom_def split: prod.splits)
  obtain id where id: "stoll uid = Inr id" using go by (cases "stoll uid") (simp_all add: bindE_def lift_def)
  then have "bindR (UserDB_FindById id) (\<lambda>user.
      if u_disabled user then ret (Result_Fail UserDisabled (utf8 [0x8D26, 0x53F7, 0x5DF2, 0x88AB, 0x7981, 0x7528]))
      else rotate_session ?S t id user) w1 = (Inr r, w')" using go by (simp add: bindE_def lift_def)
  from bindR_IsOk [OF this assms(2)] obtain res user w2 where
    2: "UserDB_FindById id w1 = (Inr res, w2)" "IsOk res" "data res = Some user" "\<not> u_disabled user"
    and go2: "rotate_session ?S t id user w2 = (Inr r, w')"
    using assms(2) by (auto simp: ret_def split: if_splits)
  have "same_sys (w_sys w) (w_sys w2)"
    using same_sys_in_sys [OF sys_total_ParseRefreshToken 1(1)] sys_keptD [OF off_cache_sys_kept [OF off_cache_find(4)] 2(1)]
    by (rule same_sys_trans)
  then have sha: "sys_sha256 (w_sys w2) = sys_sha256 (w_sys w)" using same_sys_fields by metis
  obtain s1 where p: "ParseRefreshToken ?c t (w_sys w) = (Inr pr, s1)"
    using 1(1) by (auto simp: in_sys_def zoom_def split: prod.splits)
  obtain h b where hb:
    "t = h @ ''.'' @ b @ ''.'' @ Base64UrlEncode (sys_hmac (w_sys w) (jwt_secret ?c) (h @ ''.'' @ b))"
    "let claims = ParseJson (Base64UrlDecode b) in
        map_of claims ''iss'' \<in> {None, Some (jwt_issuer ?c)} \<and>
        map_of claims ''sub'' \<in> {None, Some ''refresh''} \<and> stoll (claim_value claims ''uid'') = Inr id \<and>
        (case map_of claims ''exp'' of None \<Rightarrow> True | Some e \<Rightarrow>
          (case stoll e of Inl _ \<Rightarrow> False | Inr x \<Rightarrow> clock_of (w_sys w) \<le> from_time_t x))"
    "data pr = Some (claim_value (ParseJson (Base64UrlDecode b)) ''uid'')"
    using ParseRefreshToken_accepted [OF p 1(2)] 1(3) id by (auto simp: Let_def)
  from rotate_session_IsOk [OF go2 assms(2), unfolded sha] obtain v w3 d w4 pair w5 st where
    3: "IsTokenValid (hex_bytes (sys_sha256 (w_sys w) t)) w2 = (Inr v, w3)" "IsOk v" "data v = Some True"
      "DeleteByTokenHash (hex_bytes (sys_sha256 (w_sys w) t)) w3 = (Inr d, w4)"
      "in_sys (GenerateTokenPair ?c user) w4 = (Inr pair, w5)"
      "StoreRefreshToken ?S id (refresh_token pair) w5 = (Inr st, w')" "r = Result_Ok pair"
    by (elim exE conjE) (rule that)
  show ?thesis
    by (intro exI conjI) (rule hb(1), rule hb(2), rule 1, rule 1, rule hb(3), rule w1, rule w1, rule 2, rule 2, rule 2, rule 2,
      rule 3, rule 3, rule 3, rule 3, rule 3, rule 3, rule 3)
qed


lemma ParseRefreshToken_text:
  fixes config :: SecurityConfig and u :: UserEntity and now jti :: int
  defines "m \<equiv> refresh_claims config u now (plus_seconds now (refresh_token_ttl_seconds config)) jti"
    and "x \<equiv> expiry_instant now (refresh_token_ttl_seconds config)"
  assumes iss: "json_safe (''iss'', jwt_issuer config)" and range: "expiry_in_range now (refresh_token_ttl_seconds config)"
  shows "\<exists>s'. ParseRefreshToken config (jwt_text (sys_hmac s) m (jwt_secret config)) s =
    (Inr (if clock_of s > x then Result_Fail TokenExpired [] else Result_Ok (to_string (u_id u))), s') \<and> same_sys s s'"
proof -
  let ?e = "plus_seconds now (refresh_token_ttl_seconds config)"
  note of_m = refresh_claims_of [of config u now ?e jti, folded m_def]
  note wf = refresh_claims_ok [OF iss, of u now ?e jti, folded m_def]
  note t = expiry_in_range_facts [OF range, folded x_def]
  obtain s1 where 1: "check_expiry m s = (Inr (if clock_of s > x then jwt_failed TokenExpired m
      else \<lparr>jv_success = True, jv_error_code = Ok, jv_claims = m\<rparr>), s1)" "same_sys s s1"
    using check_expiry_run [OF of_m(4) t(1), of s] t(2) by metis
  then show ?thesis
    unfolding ParseRefreshToken_def
    by (simp add: bindE_def VerifyJwt_text [OF wf] 1 jwt_failed_def ret_def claim_differs_def
        claim_missing_def claim_value_def of_m)
qed

lemma sessions_row:
  fixes w :: "(nat list \<times> nat, 'e, 'r) world"
  assumes w: "w_pool w = row_pool u [7]"
  shows "IsTokenValid x w = (Inr (Result_Ok True), w)" "DeleteByTokenHash x w = (Inr (Result_Ok ()), w)"
proof -
  let ?body = "\<lambda>conn. bindE (in_pool (MySQLConnection_Query conn
       (''SELECT 1 FROM user_sessions '' @ ''WHERE token_hash = ? AND expires_at > NOW() '' @
        ''LIMIT 1'') [PString x])) (\<lambda>res. ret (Result_Ok (fst (MySQLResult_Next res))))"
  have "?body 7 (w\<lparr>w_pool := row_pool u []\<rparr>) = (Inr (Result_Ok True), w\<lparr>w_pool := row_pool u []\<rparr>)"
    using row_query(1) by (simp add: bindE_def ret_def in_pool_def zoom_def MySQLResult_Next_def MySQLResult_new_def)
  from row_with_conn [OF w, of ?body, OF this] w show "IsTokenValid x w = (Inr (Result_Ok True), w)"
    by (simp add: IsTokenValid_def db_try_def try_catch_def)
  let ?body = "\<lambda>conn. bindE (in_pool (MySQLConnection_Execute conn
       ''DELETE FROM user_sessions WHERE token_hash = ?'' [PString x])) (\<lambda>affected. ret (Result_Ok ()))"
  have "?body 7 (w\<lparr>w_pool := row_pool u []\<rparr>) = (Inr (Result_Ok ()), w\<lparr>w_pool := row_pool u []\<rparr>)"
    using row_query(2) by (simp add: bindE_def ret_def in_pool_def zoom_def)
  from row_with_conn [OF w, of ?body, OF this] w show "DeleteByTokenHash x w = (Inr (Result_Ok ()), w)"
    by (simp add: DeleteByTokenHash_def db_try_def try_catch_def)
qed

lemma in_sys_example:
  fixes w :: "(nat list \<times> nat, unit, 'r) world"
  assumes "w_sys w = sys_example t" and "m (sys_example t) = (r, s)" and "same_sys (sys_example t) s"
  shows "in_sys m w = (r, w)"
proof -
  have "s = sys_example t" using assms(3) by (auto simp: same_sys_def sys_example_def)
  then show ?thesis using assms by (simp add: in_sys_def zoom_def)
qed

theorem refresh_needs_live_session_witness:
  "\<exists>t h b tokens w'. AuthService_RefreshToken (auth_service config_once) t (world_row 0) = (Inr (Result_Ok tokens), w')
    \<and> t = h @ ''.'' @ b @ ''.'' @ Base64UrlEncode ''mac'' \<and> stoll (claim_value (ParseJson (Base64UrlDecode b)) ''uid'') = Inr 42
    \<and> (\<exists>w4 w5 st :: unit Result. IsTokenValid (hex_bytes (replicate 32 (CHR ''h''))) (world_row 0) = (Inr (Result_Ok True), world_row 0)
      \<and> DeleteByTokenHash (hex_bytes (replicate 32 (CHR ''h''))) (world_row 0) = (Inr (Result_Ok ()), w4)
      \<and> in_sys (GenerateTokenPair (cfg_security config_once) user_row) w4 = (Inr tokens, w5)
      \<and> StoreRefreshToken (auth_service config_once) 42 (refresh_token tokens) w5 = (Inr st, w'))"
proof -
  let ?S = "auth_service config_once :: (nat list \<times> nat, unit, string \<rightharpoonup> string) world AuthService" and ?w = "world_row 0"
  let ?c = "cfg_security config_once"
  let ?t = "jwt_text (sys_hmac (sys_example 0)) (refresh_claims ?c user_row 0
    (plus_seconds 0 (refresh_token_ttl_seconds ?c)) 7) (jwt_secret ?c)"
  have c: "?c = SecurityConfig_default" by (simp add: config_once_def Config_default_def)
  have iss: "json_safe (''iss'', jwt_issuer ?c)" using jwt_user_ok_example by (simp add: c jwt_user_ok_def)
  have range: "expiry_in_range 0 (refresh_token_ttl_seconds ?c)"
    by (simp add: c expiry_in_range_def SecurityConfig_default_def NANOS_def)
  have w: "w_pool ?w = row_pool user_row [7]" "w_sys ?w = sys_example 0" by (simp_all add: world_row_def)
  obtain s' where "ParseRefreshToken ?c ?t (sys_example 0) = (Inr (Result_Ok (to_string (u_id user_row))), s')" "same_sys (sys_example 0) s'"
    using ParseRefreshToken_text [OF iss range, of "sys_example 0" user_row 7]
    by (auto simp: c expiry_instant_def clock_of_def sys_example_def NANOS_def SecurityConfig_default_def)
  note p = in_sys_example [where m = "ParseRefreshToken ?c ?t", OF w(2) this]
  have f: "UserDB_FindById (u_id user_row) ?w = (Inr (Result_Ok user_row), ?w)"
    unfolding UserDB_FindById_def by (rule FindByField_row [OF w(1) user_row_facts(1)]) simp
  have h: "in_sys (HashToken x) ?w = (Inr (hex_bytes (replicate 32 (CHR ''h''))), ?w)" for x
    using w(2) by (simp add: in_sys_def zoom_def HashToken_def ask_def bindE_def ret_def sys_example_def world_row_def)
  obtain tokens s2 where "GenerateTokenPair ?c user_row (sys_example 0) = (Inr tokens, s2)" "same_sys (sys_example 0) s2"
    by (rule sys_totalE [OF sys_total_GenerateTokenPair])
  note g = in_sys_example [where m = "GenerateTokenPair ?c user_row", OF w(2) this]
  have st: "stoll (to_string (u_id user_row)) = Inr (u_id user_row)" using user_row_facts(1) by (simp add: user_ok_def)
  have ne: "?t \<noteq> []" by (simp add: jwt_text_def)
  have "AuthService_RefreshToken ?S ?t ?w = (Inr (Result_Ok tokens), ?w)"
    using ne p f h g st user_row_facts(2) sessions_row [OF w(1)] SaveRefreshToken_row [OF w]
    by (simp add: AuthService_RefreshToken_def rotate_session_def StoreRefreshToken_def jwt_service_def user_db_def
        token_repo_def bindR_def bindE_def lift_def ret_def value_or_def)
  note run = this
  have mac: "sys_hmac (w_sys ?w) k d = ''mac''" "sys_sha256 (w_sys ?w) d = replicate 32 (CHR ''h'')" for k d
    by (simp_all add: w(2) sys_example_def)
  obtain h b id pr and w1 w2 w3 w4 w5 :: "(nat list \<times> nat, unit, string \<rightharpoonup> string) world" and res user v d pair and st :: "unit Result"
    where t: "?t = h @ ''.'' @ b @ ''.'' @ Base64UrlEncode ''mac''"
      "let claims = ParseJson (Base64UrlDecode b) in
        map_of claims ''iss'' \<in> {None, Some (jwt_issuer ?c)} \<and>
        map_of claims ''sub'' \<in> {None, Some ''refresh''} \<and> stoll (claim_value claims ''uid'') = Inr id \<and>
        (case map_of claims ''exp'' of None \<Rightarrow> True | Some e \<Rightarrow>
          (case stoll e of Inl _ \<Rightarrow> False | Inr x \<Rightarrow> clock_of (w_sys ?w) \<le> from_time_t x))"
    and u: "in_sys (ParseRefreshToken ?c ?t) ?w = (Inr pr, w1)" "data pr = Some (claim_value (ParseJson (Base64UrlDecode b)) ''uid'')"
      "UserDB_FindById id w1 = (Inr res, w2)" "data res = Some user"
      "IsTokenValid (hex_bytes (replicate 32 (CHR ''h''))) w2 = (Inr v, w3)"
      "DeleteByTokenHash (hex_bytes (replicate 32 (CHR ''h''))) w3 = (Inr d, w4)"
      "in_sys (GenerateTokenPair ?c user) w4 = (Inr pair, w5)"
      "StoreRefreshToken ?S id (refresh_token pair) w5 = (Inr st, ?w)" "Result_Ok tokens = Result_Ok pair"
    using refresh_needs_live_session [OF run IsOk_Ok, unfolded mac] by (elim exE conjE) (rule that)
  have w1: "w1 = ?w" and uid: "claim_value (ParseJson (Base64UrlDecode b)) ''uid'' = to_string (u_id user_row)"
    using u(1,2) p by auto
  have id: "id = u_id user_row" using t(2) st unfolding Let_def uid by simp
  have eqs: "user = user_row" "w2 = ?w" using u(3,4) f unfolding id w1 by auto
  have more: "w3 = ?w" "w4 = ?w" using u(5,6) sessions_row [OF w(1)] unfolding eqs by auto
  have prs: "pair = tokens" using u(9) by simp
  have facts: "u_id user_row = 42" by (simp add: user_row_def user_example_def)
  have id42: "stoll (claim_value (ParseJson (Base64UrlDecode b)) ''uid'') = Inr 42"
    using st unfolding uid facts .
  note u' = u(7) [unfolded eqs more prs] u(8) [unfolded id facts more prs]
  show ?thesis
    by (intro exI conjI) (rule run, rule t(1), rule id42, rule sessions_row [OF w(1)],
      rule sessions_row [OF w(1)], rule u', rule u')
qed

end
