(* ===== verification/Proto_Converter.thy ===== *)
theory Proto_Converter
  imports Entities
begin

section \<open>Conversion to the messages of the wire\<close>

text \<open>
  \<open>include/common/proto_converter.h\<close>, over the messages and enumerations of \<open>api/proto\<close>.
  Enumerations of proto3 are open: a peer can send a number that none of the enumerators has.
  A field of message type has presence and is an option. The time zone of the process enters
  as two functions of the C library: \<open>mktime\<close>, and \<open>localtime\<close> followed by \<open>strftime\<close>.
\<close>

subsection \<open>Messages\<close>

datatype pb_SmsScene = SMS_SCENE_UNKNOWN | SMS_SCENE_REGISTER | SMS_SCENE_LOGIN
  | SMS_SCENE_RESET_PASSWORD | SMS_SCENE_DELETE_USER | SMS_SCENE_other int

datatype pb_UserRole = USER_ROLE_USER | USER_ROLE_ADMIN | USER_ROLE_SUPER_ADMIN | USER_ROLE_other int

record pb_Result =
  rc_code :: int
  rc_msg :: string

record pb_Timestamp =
  ts_seconds :: int
  ts_nanos :: int

record pb_UserInfo =
  ui_id :: string
  ui_mobile :: string
  ui_display_name :: string
  ui_role :: pb_UserRole
  ui_disabled :: bool
  ui_created_at :: pb_Timestamp

record pb_TokenPair =
  tp_access_token :: string
  tp_refresh_token :: string
  tp_expires_in :: int

record pb_User =
  pu_id :: string
  pu_mobile :: string
  pu_role :: pb_UserRole
  pu_display_name :: string
  pu_disabled :: bool
  pu_created_at :: pb_Timestamp
  pu_updated_at :: pb_Timestamp

record pb_PageRequest =
  pq_page :: int
  pq_page_size :: int

record pb_PageResponse =
  pp_total_records :: int
  pp_total_pages :: int
  pp_page :: int
  pp_page_size :: int

record ValidateTokenResponse =
  vt_result :: pb_Result
  vt_user_id :: string
  vt_user_uuid :: string
  vt_mobile :: string
  vt_role :: pb_UserRole
  vt_expires_at :: "pb_Timestamp option"

subsection \<open>Results\<close>

definition ToProtoErrorCode :: "ErrorCode \<Rightarrow> int" where
  "ToProtoErrorCode c = ErrorCode_int c"

definition FromProtoErrorCode :: "int \<Rightarrow> ErrorCode" where
  "FromProtoErrorCode n = ErrorCode_of_int n"

definition SetResultOk :: pb_Result where
  "SetResultOk = \<lparr>rc_code = 0, rc_msg = utf8 [0x6210, 0x529F]\<rparr>"

definition SetResultError_code :: "ErrorCode \<Rightarrow> pb_Result" where
  "SetResultError_code c = \<lparr>rc_code = ToProtoErrorCode c, rc_msg = GetErrorMessage c\<rparr>"

definition SetResultError :: "ErrorCode \<Rightarrow> string \<Rightarrow> pb_Result" where
  "SetResultError c msg = \<lparr>rc_code = ToProtoErrorCode c, rc_msg = msg\<rparr>"

subsection \<open>Times\<close>

record tm =
  tm_year :: int
  tm_mon :: int
  tm_mday :: int
  tm_hour :: int
  tm_min :: int
  tm_sec :: int

definition digit_val :: "char \<Rightarrow> int" where
  "digit_val c = int (ord c) - 48"

text \<open>A number as \<open>strptime\<close> of the GNU C library reads it: blanks, then at most \<open>n\<close> digits, no
  more than can still lie below \<open>hi\<close>; the value must lie between \<open>lo\<close> and \<open>hi\<close>.\<close>

fun get_digits :: "int \<Rightarrow> nat \<Rightarrow> int \<Rightarrow> string \<Rightarrow> int \<times> string" where
  "get_digits hi n v [] = (v, [])"
| "get_digits hi n v (c # s) =
     (if 0 < n \<and> v * 10 \<le> hi \<and> isdigit c then get_digits hi (n - 1) (v * 10 + digit_val c) s else (v, c # s))"

definition get_number :: "int \<Rightarrow> int \<Rightarrow> nat \<Rightarrow> string \<Rightarrow> (int \<times> string) option" where
  "get_number lo hi n s = (case dropWhile (\<lambda>c. c = CHR '' '') s of
       [] \<Rightarrow> None
     | c # s' \<Rightarrow>
         if \<not> isdigit c then None
         else (case get_digits hi (n - 1) (digit_val c) s' of
             (v, rest) \<Rightarrow> if lo \<le> v \<and> v \<le> hi then Some (v, rest) else None))"

definition match_char :: "char \<Rightarrow> string \<Rightarrow> string option" where
  "match_char c s = (case s of [] \<Rightarrow> None | x # s' \<Rightarrow> if x = c then Some s' else None)"

text \<open>\<open>"%Y-%m-%d %H:%M:%S"\<close>; what is left of the text is ignored.\<close>

definition get_time :: "string \<Rightarrow> tm option" where
  "get_time str =
     Option.bind (get_number 0 9999 4 str) (\<lambda>(y, s).
     Option.bind (match_char (CHR ''-'') s) (\<lambda>s.
     Option.bind (get_number 1 12 2 s) (\<lambda>(mo, s).
     Option.bind (match_char (CHR ''-'') s) (\<lambda>s.
     Option.bind (get_number 1 31 2 s) (\<lambda>(d, s).
     Option.bind (get_number 0 23 2 (dropWhile isspace s)) (\<lambda>(h, s).
     Option.bind (match_char (CHR '':'') s) (\<lambda>s.
     Option.bind (get_number 0 59 2 s) (\<lambda>(mi, s).
     Option.bind (match_char (CHR '':'') s) (\<lambda>s.
     Option.bind (get_number 0 61 2 s) (\<lambda>(sec, s).
     Some \<lparr>tm_year = y - 1900, tm_mon = mo - 1, tm_mday = d, tm_hour = h, tm_min = mi, tm_sec = sec\<rparr>))))))))))"

text \<open>\<open>strptime(s, "%Y-%m-%d %H:%M:%S", &tm)\<close>: a C string ends at the first NUL.\<close>

definition strptime :: "string \<Rightarrow> tm option" where
  "strptime str = get_time (takeWhile (\<lambda>c. c \<noteq> CHR 0x00) str)"

definition ToProtoTimestamp :: "(tm \<Rightarrow> int) \<Rightarrow> string \<Rightarrow> pb_Timestamp" where
  "ToProtoTimestamp mktime datetime_str =
     (if datetime_str = [] then \<lparr>ts_seconds = 0, ts_nanos = 0\<rparr>
      else (case strptime datetime_str of
          Some t \<Rightarrow> \<lparr>ts_seconds = mktime t, ts_nanos = 0\<rparr>
        | None \<Rightarrow> \<lparr>ts_seconds = 0, ts_nanos = 0\<rparr>))"

definition FromProtoTimestamp :: "(int \<Rightarrow> string) \<Rightarrow> pb_Timestamp \<Rightarrow> string" where
  "FromProtoTimestamp strftime_local ts = strftime_local (ts_seconds ts)"

text \<open>For a time point, in nanoseconds; \<open>duration_cast\<close> truncates.\<close>

definition ToProtoTimestamp_tp :: "int \<Rightarrow> pb_Timestamp" where
  "ToProtoTimestamp_tp tp =
     (let seconds = cdiv tp 1000000000
      in \<lparr>ts_seconds = seconds, ts_nanos = wrap32 (tp - seconds * 1000000000)\<rparr>)"

subsection \<open>Enumerations\<close>

fun ToProtoSmsScene :: "SmsScene \<Rightarrow> pb_SmsScene" where
  "ToProtoSmsScene Register = SMS_SCENE_REGISTER"
| "ToProtoSmsScene Login = SMS_SCENE_LOGIN"
| "ToProtoSmsScene ResetPassword = SMS_SCENE_RESET_PASSWORD"
| "ToProtoSmsScene DeleteUser = SMS_SCENE_DELETE_USER"
| "ToProtoSmsScene UnKnow = SMS_SCENE_UNKNOWN"

fun FromProtoSmsScene :: "pb_SmsScene \<Rightarrow> SmsScene" where
  "FromProtoSmsScene SMS_SCENE_REGISTER = Register"
| "FromProtoSmsScene SMS_SCENE_LOGIN = Login"
| "FromProtoSmsScene SMS_SCENE_RESET_PASSWORD = ResetPassword"
| "FromProtoSmsScene SMS_SCENE_DELETE_USER = DeleteUser"
| "FromProtoSmsScene _ = UnKnow"

fun ToProtoUserRole :: "UserRole \<Rightarrow> pb_UserRole" where
  "ToProtoUserRole User = USER_ROLE_USER"
| "ToProtoUserRole Admin = USER_ROLE_ADMIN"
| "ToProtoUserRole SuperAdmin = USER_ROLE_SUPER_ADMIN"
| "ToProtoUserRole (UnnamedRole _) = USER_ROLE_USER"

fun FromProtoUserRole :: "pb_UserRole \<Rightarrow> UserRole" where
  "FromProtoUserRole USER_ROLE_ADMIN = Admin"
| "FromProtoUserRole USER_ROLE_SUPER_ADMIN = SuperAdmin"
| "FromProtoUserRole _ = User"

subsection \<open>Tokens, users and pages\<close>

definition ToProtoTokenPair :: "TokenPair \<Rightarrow> pb_TokenPair" where
  "ToProtoTokenPair src = \<lparr>tp_access_token = access_token src, tp_refresh_token = refresh_token src,
     tp_expires_in = expires_in src\<rparr>"

definition FromProtoTokenPair :: "pb_TokenPair \<Rightarrow> TokenPair" where
  "FromProtoTokenPair src = \<lparr>access_token = tp_access_token src, refresh_token = tp_refresh_token src,
     expires_in = tp_expires_in src\<rparr>"

definition SetValidateTokenResponse ::
  "TokenValidationResult \<Rightarrow> ValidateTokenResponse \<Rightarrow> ValidateTokenResponse" where
  "SetValidateTokenResponse src response = response\<lparr>vt_user_id := to_string (v_user_id src),
     vt_user_uuid := v_user_uuid src, vt_mobile := v_mobile src, vt_role := ToProtoUserRole (v_role src),
     vt_expires_at := Some (ToProtoTimestamp_tp (v_expires_at src))\<rparr>"

definition ToProtoUserInfo :: "(tm \<Rightarrow> int) \<Rightarrow> UserEntity \<Rightarrow> pb_UserInfo" where
  "ToProtoUserInfo mktime src = \<lparr>ui_id = u_uuid src, ui_mobile = u_mobile src,
     ui_display_name = u_display_name src, ui_role = ToProtoUserRole (u_role src), ui_disabled = u_disabled src,
     ui_created_at = ToProtoTimestamp mktime (u_created_at src)\<rparr>"

definition ToProtoUser :: "(tm \<Rightarrow> int) \<Rightarrow> UserEntity \<Rightarrow> pb_User" where
  "ToProtoUser mktime src = \<lparr>pu_id = u_uuid src, pu_mobile = u_mobile src,
     pu_role = ToProtoUserRole (u_role src), pu_display_name = u_display_name src, pu_disabled = u_disabled src,
     pu_created_at = ToProtoTimestamp mktime (u_created_at src),
     pu_updated_at = ToProtoTimestamp mktime (u_updated_at src)\<rparr>"

definition FromProtoUserInfo :: "(int \<Rightarrow> string) \<Rightarrow> pb_UserInfo \<Rightarrow> UserEntity" where
  "FromProtoUserInfo strftime_local src = UserEntity_default\<lparr>u_uuid := ui_id src, u_mobile := ui_mobile src,
     u_display_name := ui_display_name src, u_role := FromProtoUserRole (ui_role src),
     u_disabled := ui_disabled src, u_created_at := FromProtoTimestamp strftime_local (ui_created_at src)\<rparr>"

definition FromProtoUser :: "(int \<Rightarrow> string) \<Rightarrow> pb_User \<Rightarrow> UserEntity" where
  "FromProtoUser strftime_local src = UserEntity_default\<lparr>u_uuid := pu_id src, u_mobile := pu_mobile src,
     u_display_name := pu_display_name src, u_role := FromProtoUserRole (pu_role src),
     u_disabled := pu_disabled src, u_created_at := FromProtoTimestamp strftime_local (pu_created_at src),
     u_updated_at := FromProtoTimestamp strftime_local (pu_updated_at src)\<rparr>"

definition SetAuthResponse :: "(tm \<Rightarrow> int) \<Rightarrow> AuthResult \<Rightarrow> pb_UserInfo \<times> pb_TokenPair" where
  "SetAuthResponse mktime result = (ToProtoUserInfo mktime (auth_user result), ToProtoTokenPair (auth_tokens result))"

definition FromProtoPageRequest :: "pb_PageRequest \<Rightarrow> PageParams" where
  "FromProtoPageRequest src = PageParams_Validate \<lparr>page = pq_page src, page_size = pq_page_size src\<rparr>"

definition ToProtoPageResponse :: "PageResult \<Rightarrow> pb_PageResponse" where
  "ToProtoPageResponse src = \<lparr>pp_total_records = total_records src, pp_total_pages = total_pages src,
     pp_page = pr_page src, pp_page_size = pr_page_size src\<rparr>"

text \<open>Where the second argument of \<open>HasValue\<close> points to is its second result.\<close>

definition HasValue :: "string \<Rightarrow> bool" where
  "HasValue wrapped \<longleftrightarrow> wrapped \<noteq> []"

definition HasValue_bool :: "bool \<Rightarrow> bool \<times> bool" where
  "HasValue_bool wrapped = (True, wrapped)"

definition GetValueOr :: "string \<Rightarrow> string \<Rightarrow> string" where
  "GetValueOr wrapped default_value = (if wrapped = [] then default_value else wrapped)"


subsection \<open>Lemmas\<close>

lemma scene_roundtrip [simp]: "FromProtoSmsScene (ToProtoSmsScene s) = s"
  by (cases s) simp_all

lemma scene_known: "FromProtoSmsScene p \<noteq> UnKnow \<Longrightarrow> ToProtoSmsScene (FromProtoSmsScene p) = p"
  by (cases p) simp_all

lemma role_roundtrip: "FromProtoUserRole (ToProtoUserRole r) = (case r of UnnamedRole _ \<Rightarrow> User | _ \<Rightarrow> r)"
  by (cases r) simp_all

lemma error_code_zero: "rc_code (SetResultError c m) = 0 \<longleftrightarrow> c = Ok"
  using ErrorCode_int_inj [of c Ok] by (auto simp: SetResultError_def ToProtoErrorCode_def)

text \<open>The text \<open>strftime\<close> writes with the same format.\<close>

definition two_digits :: "int \<Rightarrow> string" where
  "two_digits n = [digit_char (nat n div 10), digit_char (nat n mod 10)]"

definition datetime_text :: "tm \<Rightarrow> string" where
  "datetime_text t = two_digits ((tm_year t + 1900) div 100) @ two_digits ((tm_year t + 1900) mod 100) @ ''-'' @
     two_digits (tm_mon t + 1) @ ''-'' @ two_digits (tm_mday t) @ '' '' @
     two_digits (tm_hour t) @ '':'' @ two_digits (tm_min t) @ '':'' @ two_digits (tm_sec t)"

definition tm_ok :: "tm \<Rightarrow> bool" where
  "tm_ok t \<longleftrightarrow> - 1900 \<le> tm_year t \<and> tm_year t \<le> 8099 \<and> 0 \<le> tm_mon t \<and> tm_mon t \<le> 11
     \<and> 1 \<le> tm_mday t \<and> tm_mday t \<le> 31 \<and> 0 \<le> tm_hour t \<and> tm_hour t \<le> 23
     \<and> 0 \<le> tm_min t \<and> tm_min t \<le> 59 \<and> 0 \<le> tm_sec t \<and> tm_sec t \<le> 60"

lemma digit_val_char [simp]: "d < 10 \<Longrightarrow> digit_val (digit_char d) = int d"
  by (simp add: digit_val_def)

lemma digit_char_neq [simp]:
  assumes "d < 10"
  shows "digit_char d \<noteq> CHR '' ''" "digit_char d \<noteq> CHR 0x00" "\<not> isspace (digit_char d)"
proof -
  have o: "ord (digit_char d) = 48 + d" using assms by simp
  show "\<not> isspace (digit_char d)" using o by (simp add: isspace_def)
  show "digit_char d \<noteq> CHR '' ''" "digit_char d \<noteq> CHR 0x00" using o by auto
qed

lemma get_digits_0 [simp]: "get_digits hi 0 v s = (v, s)"
  by (cases s) simp_all

lemma two_digits_facts:
  assumes "0 \<le> v" and "v \<le> 99"
  shows "nat v div 10 < 10" "nat v mod 10 < 10" "int (nat v div 10) * 10 + int (nat v mod 10) = v"
    "int (nat v div 10) * 10 \<le> v"
  using assms by (simp_all add: div_less_iff_less_mult zdiv_int zmod_int minus_mod_eq_div_mult [symmetric])

lemma get_number_two:
  assumes "lo \<le> v" and "v \<le> hi" and "0 \<le> v" and "v \<le> 99"
  shows "get_number lo hi 2 (two_digits v @ s) = Some (v, s)"
  using assms two_digits_facts [OF assms(3,4)] by (simp add: get_number_def two_digits_def)

lemma get_number_four_chars:
  assumes "a < 10" "b < 10" "c < 10" "d < 10"
  shows "get_number 0 9999 4 (digit_char a # digit_char b # digit_char c # digit_char d # s) =
    Some (((int a * 10 + int b) * 10 + int c) * 10 + int d, s)"
proof -
  have bound: "x * 10 + y \<le> 10 * m + 9" if "x \<le> m" "y < 10" for x y m :: int using that by simp
  have i: "int a < 10" "int b < 10" "int c < 10" "int d < 10" using assms by simp_all
  have ab: "int a * 10 + int b \<le> 99" using bound [of "int a" 9 "int b"] i by simp
  have abc: "(int a * 10 + int b) * 10 + int c \<le> 999" using bound [OF ab i(3)] by simp
  have "((int a * 10 + int b) * 10 + int c) * 10 + int d \<le> 9999" using bound [OF abc i(4)] by simp
  moreover have "int a * 10 \<le> 9999" "(int a * 10 + int b) * 10 \<le> 9999" "((int a * 10 + int b) * 10 + int c) * 10 \<le> 9999"
    using i mult_right_mono [OF ab, of 10] mult_right_mono [OF abc, of 10] by simp_all
  ultimately show ?thesis using assms by (simp add: get_number_def)
qed

lemma get_number_four:
  assumes "0 \<le> v" and "v \<le> 9999"
  shows "get_number 0 9999 4 (two_digits (v div 100) @ two_digits (v mod 100) @ s) = Some (v, s)"
proof -
  have h: "0 \<le> v div 100" "v div 100 \<le> 99" "0 \<le> v mod 100" "v mod 100 \<le> 99" using assms by auto
  note a = two_digits_facts [OF h(1,2)] and b = two_digits_facts [OF h(3,4)]
  have sum: "((x * 10 + y) * 10 + z) * 10 + w = A * 100 + B" if "x * 10 + y = A" "z * 10 + w = B" for x y z w A B :: int
    using that by (simp add: distrib_right)
  from sum [OF a(3) b(3)] have "((int (nat (v div 100) div 10) * 10 + int (nat (v div 100) mod 10)) * 10 + int (nat (v mod 100) div 10)) * 10 +
      int (nat (v mod 100) mod 10) = v" by simp
  then show ?thesis using get_number_four_chars [OF a(1,2) b(1,2), of s] unfolding two_digits_def append_Cons append_Nil
    by metis
qed

lemma dropWhile_two:
  "isspace (CHR '' '')" "0 \<le> v \<Longrightarrow> v \<le> 99 \<Longrightarrow> dropWhile isspace (two_digits v @ s) = two_digits v @ s"
  using two_digits_facts [of v] by (simp_all add: two_digits_def isspace_def)

lemma two_digits_no_nul: "0 \<le> v \<Longrightarrow> v \<le> 99 \<Longrightarrow> \<forall>c\<in>set (two_digits v). c \<noteq> CHR 0x00"
  using two_digits_facts [of v] by (auto simp: two_digits_def)

lemma datetime_no_nul: "tm_ok t \<Longrightarrow> takeWhile (\<lambda>c. c \<noteq> CHR 0x00) (datetime_text t) = datetime_text t"
proof -
  assume t: "tm_ok t"
  have y: "0 \<le> (tm_year t + 1900) div 100" "(tm_year t + 1900) div 100 \<le> 99"
    "0 \<le> (tm_year t + 1900) mod 100" "(tm_year t + 1900) mod 100 \<le> 99"
    using t by (auto simp: tm_ok_def)
  have "\<forall>c\<in>set (datetime_text t). c \<noteq> CHR 0x00"
    unfolding datetime_text_def set_append ball_Un
    using t y by (intro conjI two_digits_no_nul) (simp_all add: tm_ok_def)
  then show ?thesis by (simp add: takeWhile_eq_all_conv)
qed

text \<open>\<open>strptime\<close> reads back what \<open>strftime\<close> writes.\<close>

lemma get_time_datetime_text:
  assumes t: "tm_ok t"
  shows "get_time (datetime_text t) = Some t"
proof -
  have "get_number 0 9999 4 (datetime_text t) = Some (tm_year t + 1900, ''-'' @
     two_digits (tm_mon t + 1) @ ''-'' @ two_digits (tm_mday t) @ '' '' @
     two_digits (tm_hour t) @ '':'' @ two_digits (tm_min t) @ '':'' @ two_digits (tm_sec t))"
    unfolding datetime_text_def using t by (intro get_number_four) (simp_all add: tm_ok_def)
  moreover have "get_number 0 61 2 (two_digits (tm_sec t)) = Some (tm_sec t, [])"
    using get_number_two [of 0 "tm_sec t" 61 "[]"] t by (simp add: tm_ok_def)
  ultimately show ?thesis
    using t by (simp add: get_time_def match_char_def get_number_two dropWhile_two tm_ok_def)
qed

lemma strptime_datetime_text: "tm_ok t \<Longrightarrow> strptime (datetime_text t) = Some t"
  by (simp add: strptime_def datetime_no_nul get_time_datetime_text)

subsection \<open>Properties\<close>

text \<open>What a peer reads from the messages is the account that was put in: a user sent as a \<open>User\<close>
  message and read back is the same account with the same named role, without its database
  identifier and its password hash, which no message has; the times survive when they have the
  format of a \<open>DATETIME\<close> column and the time zone of the process maps the instant back to the
  same civil time. Scenes and tokens survive unchanged, and a role outside the enumeration is
  sent as an ordinary user.\<close>

lemma user_message_roundtrip:
  assumes "tm_ok c" and "u_created_at u = datetime_text c" and "strftime_local (mktime c) = datetime_text c"
    and "tm_ok d" and "u_updated_at u = datetime_text d" and "strftime_local (mktime d) = datetime_text d"
  shows "FromProtoUser strftime_local (ToProtoUser mktime u) = u\<lparr>u_id := 0, u_password_hash := [],
      u_role := (case u_role u of UnnamedRole _ \<Rightarrow> User | r \<Rightarrow> r)\<rparr>
    \<and> FromProtoUserInfo strftime_local (ToProtoUserInfo mktime u) = u\<lparr>u_id := 0, u_password_hash := [],
      u_updated_at := [], u_role := (case u_role u of UnnamedRole _ \<Rightarrow> User | r \<Rightarrow> r)\<rparr>
    \<and> FromProtoTokenPair (ToProtoTokenPair tokens) = tokens
    \<and> FromProtoSmsScene (ToProtoSmsScene scene) = scene"
proof -
  have ne: "datetime_text t \<noteq> []" for t by (simp add: datetime_text_def)
  have ts: "ToProtoTimestamp mktime (datetime_text t) = \<lparr>ts_seconds = mktime t, ts_nanos = 0\<rparr>" if "tm_ok t" for t
    using that ne by (simp add: ToProtoTimestamp_def strptime_datetime_text)
  show ?thesis
    using assms
    by (cases u; cases "u_role u") (simp_all add: FromProtoUser_def ToProtoUser_def FromProtoUserInfo_def ToProtoUserInfo_def FromProtoTokenPair_def
        ToProtoTokenPair_def FromProtoTimestamp_def ts role_roundtrip UserEntity_default_def)
qed

lemma user_message_roundtrip_example:
  "\<exists>u :: UserEntity. u_created_at u = ''2025-01-31 23:59:60'' \<and>
     FromProtoUser (\<lambda>_. ''2025-01-31 23:59:60'') (ToProtoUser (\<lambda>t. tm_year t) u) = u\<lparr>u_id := 0, u_password_hash := []\<rparr>"
proof -
  let ?c = "\<lparr>tm_year = 125, tm_mon = 0, tm_mday = 31, tm_hour = 23, tm_min = 59, tm_sec = 60\<rparr>"
  let ?u = "UserEntity_default\<lparr>u_id := 3, u_created_at := ''2025-01-31 23:59:60'', u_updated_at := ''2025-01-31 23:59:60''\<rparr>"
  have d: "datetime_text ?c = ''2025-01-31 23:59:60''" by code_simp
  have ok: "tm_ok ?c" by (simp add: tm_ok_def)
  from user_message_roundtrip [OF ok, of ?u "\<lambda>_. ''2025-01-31 23:59:60''" "\<lambda>t. tm_year t" ?c] ok
  have "FromProtoUser (\<lambda>_. ''2025-01-31 23:59:60'') (ToProtoUser (\<lambda>t. tm_year t) ?u) = ?u\<lparr>u_id := 0, u_password_hash := []\<rparr>"
    unfolding d by (simp add: UserEntity_default_def)
  then show ?thesis by (intro exI [of _ ?u]) simp
qed

end
