(* ===== verification/Handlers.thy ===== *)
theory Handlers
  imports Proto_Converter Auth_Service User_Service
begin

section \<open>The handlers of the remote calls\<close>

text \<open>
  \<open>src/handlers/auth_handler.cpp\<close>, \<open>src/handlers/user_handler.cpp\<close> and the authenticator of
  \<open>include/auth/jwt_authenticator.h\<close>. A handler takes the request and the metadata of the call
  and returns the gRPC status with the response; an error of the business logic is the \<open>result\<close>
  member of a response that is sent with status \<open>OK\<close>.
\<close>

subsection \<open>Authentication of a call\<close>

record AuthContext =
  ac_user_id :: int
  ac_user_uuid :: string
  ac_mobile :: string
  ac_role :: UserRole

text \<open>The metadata of a call, in the order of the multimap; \<open>find\<close> gives the first entry of a key.\<close>

type_synonym metadata = "(string \<times> string) list"

record 'w Authenticator =
  au_Authenticate :: "metadata \<Rightarrow> ('w, AuthContext Result) io"

definition context_of :: "AccessTokenPayload \<Rightarrow> AuthContext" where
  "context_of payload = \<lparr>ac_user_id = p_user_id payload, ac_user_uuid = p_user_uuid payload,
     ac_mobile = p_mobile payload, ac_role = p_role payload\<rparr>"

definition JwtAuthenticator_Authenticate :: "'w JwtService \<Rightarrow> metadata \<Rightarrow> ('w, AuthContext Result) io" where
  "JwtAuthenticator_Authenticate jwt metadata =
     (case map_of metadata ''authorization'' of
        None \<Rightarrow> ret (Result_Fail Unauthenticated (utf8 [0x7F3A, 0x5C11, 0x8BA4, 0x8BC1, 0x4FE1, 0x606F]))
      | Some auth_header \<Rightarrow>
          if take 7 auth_header \<noteq> ''Bearer '' then ret (Result_Fail Unauthenticated (utf8 [0x8BA4, 0x8BC1, 0x683C, 0x5F0F, 0x9519, 0x8BEF]))
          else
            let token = drop 7 auth_header in
            if token = [] then ret (Result_Fail Unauthenticated (''Token '' @ (utf8 [0x4E0D, 0x80FD, 0x4E3A, 0x7A7A])))
            else bindR (jwt_VerifyAccessToken jwt token) (\<lambda>payload. ret (Result_Ok (context_of payload))))"

definition RequireAdmin :: "AuthContext \<Rightarrow> unit Result" where
  "RequireAdmin auth =
     (if ac_role auth \<noteq> Admin \<and> ac_role auth \<noteq> SuperAdmin
      then Result_Fail AdminRequired (utf8 [0x9700, 0x8981, 0x7BA1, 0x7406, 0x5458, 0x6743, 0x9650]) else Result_Ok ())"

subsection \<open>Requests and responses\<close>

record SendVerifyCodeRequest =
  sq_mobile :: string
  sq_scene :: pb_SmsScene

record SendVerifyCodeResponse =
  sv_result :: pb_Result
  sv_retry_after :: int

record RegisterRequest =
  rq_mobile :: string
  rq_verify_code :: string
  rq_password :: string
  rq_display_name :: string

text \<open>\<open>RegisterResponse\<close>, \<open>LoginByPasswordResponse\<close> and \<open>LoginByCodeResponse\<close> have the same fields.\<close>

record AuthResponse =
  ar_result :: pb_Result
  ar_user :: "pb_UserInfo option"
  ar_tokens :: "pb_TokenPair option"

record LoginByPasswordRequest =
  lq_mobile :: string
  lq_password :: string

record LoginByCodeRequest =
  cq_mobile :: string
  cq_verify_code :: string

record RefreshTokenResponse =
  rt_result :: pb_Result
  rt_tokens :: "pb_TokenPair option"

record ResetPasswordRequest =
  wq_mobile :: string
  wq_verify_code :: string
  wq_new_password :: string

text \<open>\<open>LogoutResponse\<close>, \<open>ResetPasswordResponse\<close>, \<open>ChangePasswordResponse\<close> and \<open>DeleteUserResponse\<close>
  have only the result.\<close>

record ResultResponse =
  rr_result :: pb_Result

text \<open>\<open>GetCurrentUserResponse\<close>, \<open>GetUserResponse\<close> and \<open>UpdateUserResponse\<close>.\<close>

record UserResponse =
  ur_result :: pb_Result
  ur_user :: "pb_User option"

record ChangePasswordRequest =
  pq_old_password :: string
  pq_new_password :: string

record ListUsersRequest =
  uq_page :: "pb_PageRequest option"
  uq_mobile_filter :: string
  uq_disabled_filter :: "bool option"

record ListUsersResponse =
  lr_result :: pb_Result
  lr_users :: "pb_User list"
  lr_page_info :: "pb_PageResponse option"

text \<open>The responses with nothing but a result: every other field has its default.\<close>

definition code_response :: "pb_Result \<Rightarrow> SendVerifyCodeResponse" where
  "code_response res = \<lparr>sv_result = res, sv_retry_after = 0\<rparr>"

definition auth_response :: "pb_Result \<Rightarrow> AuthResponse" where
  "auth_response res = \<lparr>ar_result = res, ar_user = None, ar_tokens = None\<rparr>"

definition refresh_response :: "pb_Result \<Rightarrow> RefreshTokenResponse" where
  "refresh_response res = \<lparr>rt_result = res, rt_tokens = None\<rparr>"

definition result_response :: "pb_Result \<Rightarrow> ResultResponse" where
  "result_response res = \<lparr>rr_result = res\<rparr>"

definition validate_response :: "pb_Result \<Rightarrow> ValidateTokenResponse" where
  "validate_response res = \<lparr>vt_result = res, vt_user_id = [], vt_user_uuid = [], vt_mobile = [],
     vt_role = USER_ROLE_USER, vt_expires_at = None\<rparr>"

definition user_response :: "pb_Result \<Rightarrow> UserResponse" where
  "user_response res = \<lparr>ur_result = res, ur_user = None\<rparr>"

definition list_response :: "pb_Result \<Rightarrow> ListUsersResponse" where
  "list_response res = \<lparr>lr_result = res, lr_users = [], lr_page_info = None\<rparr>"

subsection \<open>How a handler answers\<close>

text \<open>\<open>SetResultError(\<dots>); return Status::OK;\<close> on a response that has nothing else.\<close>

definition refuse :: "(pb_Result \<Rightarrow> 'r) \<Rightarrow> ErrorCode \<Rightarrow> string \<Rightarrow> ('w, StatusCode \<times> 'r) io" where
  "refuse response c msg = ret (OK, response (SetResultError c msg))"

text \<open>\<open>if (!IsValid\<dots>(\<dots>, error)) { SetResultError(\<dots>, InvalidArgument, error); return Status::OK; }\<close>\<close>

definition check_argument ::
  "(pb_Result \<Rightarrow> 'r) \<Rightarrow> string option \<Rightarrow> ('w, StatusCode \<times> 'r) io \<Rightarrow> ('w, StatusCode \<times> 'r) io" where
  "check_argument response v k = (case v of Some error \<Rightarrow> refuse response InvalidArgument error | None \<Rightarrow> k)"

text \<open>The call of the business logic: the result of the response is the result of the call, and the
  data is set where the call succeeded.\<close>

definition answer ::
  "(pb_Result \<Rightarrow> 'r) \<Rightarrow> ('r \<Rightarrow> 'a \<Rightarrow> 'r) \<Rightarrow> ('w, 'a Result) io \<Rightarrow> ('w, StatusCode \<times> 'r) io" where
  "answer response set_data call =
     bindE call (\<lambda>result.
     let resp = response (SetResultError (code result) (message result)) in
     if IsOk result then bindE (Value result) (\<lambda>v. ret (OK, set_data resp v)) else ret (OK, resp))"

definition no_data :: "'r \<Rightarrow> unit \<Rightarrow> 'r" where
  "no_data resp _ = resp"

definition set_auth :: "(tm \<Rightarrow> int) \<Rightarrow> AuthResponse \<Rightarrow> AuthResult \<Rightarrow> AuthResponse" where
  "set_auth mktime resp auth_result = resp\<lparr>ar_user := Some (ToProtoUserInfo mktime (auth_user auth_result)),
     ar_tokens := Some (ToProtoTokenPair (auth_tokens auth_result))\<rparr>"

definition set_user :: "(tm \<Rightarrow> int) \<Rightarrow> UserResponse \<Rightarrow> UserEntity \<Rightarrow> UserResponse" where
  "set_user mktime resp user = resp\<lparr>ur_user := Some (ToProtoUser mktime user)\<rparr>"

definition set_users :: "(tm \<Rightarrow> int) \<Rightarrow> ListUsersResponse \<Rightarrow> ListUsersResult \<Rightarrow> ListUsersResponse" where
  "set_users mktime resp list_result = resp\<lparr>lr_users := map (ToProtoUser mktime) (lu_users list_result),
     lr_page_info := Some \<lparr>pp_total_records = total_records (lu_page_res list_result),
       pp_total_pages = total_pages (lu_page_res list_result), pp_page = pr_page (lu_page_res list_result),
       pp_page_size = pr_page_size (lu_page_res list_result)\<rparr>\<rparr>"

subsection \<open>The authentication handler\<close>

record 'w AuthHandler =
  ah_auth_service :: "'w AuthService"

definition AuthHandler_SendVerifyCode ::
  "'w AuthHandler \<Rightarrow> SendVerifyCodeRequest \<Rightarrow> ('w, StatusCode \<times> SendVerifyCodeResponse) io" where
  "AuthHandler_SendVerifyCode this request =
     check_argument code_response (IsValidMobile (sq_mobile request)) (
     let scene = FromProtoSmsScene (sq_scene request) in
     if scene = UnKnow then refuse code_response InvalidArgument (utf8 [0x65E0, 0x6548, 0x7684, 0x9A8C, 0x8BC1, 0x7801])
     else answer code_response (\<lambda>resp retry_after. resp\<lparr>sv_retry_after := retry_after\<rparr>)
       (SendVerifyCode (ah_auth_service this) (sq_mobile request) scene))"

definition AuthHandler_Register ::
  "(tm \<Rightarrow> int) \<Rightarrow> 'w AuthHandler \<Rightarrow> RegisterRequest \<Rightarrow> ('w, StatusCode \<times> AuthResponse) io" where
  "AuthHandler_Register mktime this request =
     check_argument auth_response (IsValidMobile (rq_mobile request)) (
     check_argument auth_response (IsValidVerifyCode_default (rq_verify_code request)) (
     check_argument auth_response (IsValidPassword_default (rq_password request)) (
     check_argument auth_response
       (if rq_display_name request \<noteq> [] then IsValidDisplayName (rq_display_name request) else None) (
     answer auth_response (set_auth mktime)
       (AuthService_Register (ah_auth_service this) (rq_mobile request) (rq_verify_code request)
         (rq_password request) (rq_display_name request))))))"

definition AuthHandler_LoginByPassword ::
  "(tm \<Rightarrow> int) \<Rightarrow> 'w AuthHandler \<Rightarrow> LoginByPasswordRequest \<Rightarrow> ('w, StatusCode \<times> AuthResponse) io" where
  "AuthHandler_LoginByPassword mktime this request =
     check_argument auth_response (IsValidMobile (lq_mobile request)) (
     if lq_password request = [] then refuse auth_response InvalidArgument (utf8 [0x5BC6, 0x7801, 0x4E0D, 0x80FD, 0x4E3A, 0x7A7A])
     else answer auth_response (set_auth mktime)
       (LoginByPassword (ah_auth_service this) (lq_mobile request) (lq_password request)))"

definition AuthHandler_LoginByCode ::
  "(tm \<Rightarrow> int) \<Rightarrow> 'w AuthHandler \<Rightarrow> LoginByCodeRequest \<Rightarrow> ('w, StatusCode \<times> AuthResponse) io" where
  "AuthHandler_LoginByCode mktime this request =
     check_argument auth_response (IsValidMobile (cq_mobile request)) (
     check_argument auth_response (IsValidVerifyCode_default (cq_verify_code request)) (
     answer auth_response (set_auth mktime)
       (LoginByCode (ah_auth_service this) (cq_mobile request) (cq_verify_code request))))"

definition AuthHandler_RefreshToken ::
  "'w AuthHandler \<Rightarrow> string \<Rightarrow> ('w, StatusCode \<times> RefreshTokenResponse) io" where
  "AuthHandler_RefreshToken this refresh_tok =
     (if refresh_tok = [] then refuse refresh_response InvalidArgument (''refresh_token '' @ (utf8 [0x4E0D, 0x80FD, 0x4E3A, 0x7A7A]))
      else answer refresh_response (\<lambda>resp token_pair. resp\<lparr>rt_tokens := Some (ToProtoTokenPair token_pair)\<rparr>)
        (AuthService_RefreshToken (ah_auth_service this) refresh_tok))"

definition AuthHandler_Logout :: "'w AuthHandler \<Rightarrow> string \<Rightarrow> ('w, StatusCode \<times> ResultResponse) io" where
  "AuthHandler_Logout this refresh_tok =
     (if refresh_tok = [] then refuse result_response InvalidArgument (''refresh_token '' @ (utf8 [0x4E0D, 0x80FD, 0x4E3A, 0x7A7A]))
      else answer result_response no_data (Logout (ah_auth_service this) refresh_tok))"

definition AuthHandler_ResetPassword ::
  "'w AuthHandler \<Rightarrow> ResetPasswordRequest \<Rightarrow> ('w, StatusCode \<times> ResultResponse) io" where
  "AuthHandler_ResetPassword this request =
     check_argument result_response (IsValidMobile (wq_mobile request)) (
     check_argument result_response (IsValidVerifyCode_default (wq_verify_code request)) (
     check_argument result_response (IsValidPassword_default (wq_new_password request)) (
     answer result_response no_data
       (AuthService_ResetPassword (ah_auth_service this) (wq_mobile request) (wq_verify_code request)
         (wq_new_password request)))))"

text \<open>Here the message of a success is the one of \<open>SetResultOk\<close>.\<close>

definition AuthHandler_ValidateToken ::
  "UserRole \<Rightarrow> 'w AuthHandler \<Rightarrow> string \<Rightarrow> ('w, StatusCode \<times> ValidateTokenResponse) io" where
  "AuthHandler_ValidateToken indeterminate this access_tok =
     (if access_tok = [] then refuse validate_response InvalidArgument (''access_token '' @ (utf8 [0x4E0D, 0x80FD, 0x4E3A, 0x7A7A]))
      else
        bindE (ValidateAccessToken indeterminate (ah_auth_service this) access_tok) (\<lambda>verify_res.
        if \<not> IsOk verify_res then refuse validate_response (code verify_res) (message verify_res)
        else bindE (Value verify_res) (\<lambda>v.
          ret (OK, SetValidateTokenResponse v (validate_response SetResultOk)))))"

subsection \<open>The user handler\<close>

record 'w UserHandler =
  uh_user_service :: "'w UserService"
  uh_authenticator :: "'w Authenticator"

text \<open>The first step of every handler: who calls.\<close>

definition authenticated ::
  "'w UserHandler \<Rightarrow> metadata \<Rightarrow> (pb_Result \<Rightarrow> 'r) \<Rightarrow> (AuthContext \<Rightarrow> ('w, StatusCode \<times> 'r) io)
     \<Rightarrow> ('w, StatusCode \<times> 'r) io" where
  "authenticated this metadata response k =
     bindE (au_Authenticate (uh_authenticator this) metadata) (\<lambda>auth_ctx.
     if \<not> IsOk auth_ctx then refuse response (code auth_ctx) (message auth_ctx)
     else bindE (Value auth_ctx) k)"

definition admin_only ::
  "AuthContext \<Rightarrow> (pb_Result \<Rightarrow> 'r) \<Rightarrow> ('w, StatusCode \<times> 'r) io \<Rightarrow> ('w, StatusCode \<times> 'r) io" where
  "admin_only auth response k =
     (let admin_check = RequireAdmin auth in
      if \<not> IsOk admin_check then refuse response (code admin_check) (message admin_check) else k)"

definition UserHandler_GetCurrentUser ::
  "(tm \<Rightarrow> int) \<Rightarrow> 'w UserHandler \<Rightarrow> metadata \<Rightarrow> ('w, StatusCode \<times> UserResponse) io" where
  "UserHandler_GetCurrentUser mktime this metadata =
     authenticated this metadata user_response (\<lambda>auth.
     answer user_response (set_user mktime) (GetCurrentUser (uh_user_service this) (ac_user_uuid auth)))"

definition UserHandler_UpdateUser ::
  "(tm \<Rightarrow> int) \<Rightarrow> 'w UserHandler \<Rightarrow> metadata \<Rightarrow> string option \<Rightarrow> ('w, StatusCode \<times> UserResponse) io" where
  "UserHandler_UpdateUser mktime this metadata display_name =
     authenticated this metadata user_response (\<lambda>auth.
     answer user_response (set_user mktime) (UpdateUser (uh_user_service this) (ac_user_uuid auth) display_name))"

definition UserHandler_ChangePassword ::
  "'w UserHandler \<Rightarrow> metadata \<Rightarrow> ChangePasswordRequest \<Rightarrow> ('w, StatusCode \<times> ResultResponse) io" where
  "UserHandler_ChangePassword this metadata request =
     authenticated this metadata result_response (\<lambda>auth.
     if pq_old_password request = [] then refuse result_response InvalidArgument (utf8 [0x65E7, 0x5BC6, 0x7801, 0x4E0D, 0x80FD, 0x4E3A, 0x7A7A])
     else if pq_new_password request = [] then refuse result_response InvalidArgument (utf8 [0x65B0, 0x5BC6, 0x7801, 0x4E0D, 0x80FD, 0x4E3A, 0x7A7A])
     else check_argument result_response (IsValidPassword_default (pq_new_password request)) (
     answer result_response no_data
       (ChangePassword (uh_user_service this) (ac_user_uuid auth) (pq_old_password request)
         (pq_new_password request))))"

definition UserHandler_DeleteUser ::
  "'w UserHandler \<Rightarrow> metadata \<Rightarrow> string \<Rightarrow> ('w, StatusCode \<times> ResultResponse) io" where
  "UserHandler_DeleteUser this metadata verify_code =
     authenticated this metadata result_response (\<lambda>auth.
     check_argument result_response (IsValidVerifyCode_default verify_code) (
     answer result_response no_data
       (UserService_DeleteUser (uh_user_service this) (ac_user_uuid auth) verify_code)))"

definition UserHandler_GetUser ::
  "(tm \<Rightarrow> int) \<Rightarrow> 'w UserHandler \<Rightarrow> metadata \<Rightarrow> string \<Rightarrow> ('w, StatusCode \<times> UserResponse) io" where
  "UserHandler_GetUser mktime this metadata uid =
     authenticated this metadata user_response (\<lambda>auth.
     admin_only auth user_response (
     if uid = [] then refuse user_response InvalidArgument ((utf8 [0x7528, 0x6237]) @ ''ID'' @ (utf8 [0x4E0D, 0x80FD, 0x4E3A, 0x7A7A]))
     else answer user_response (set_user mktime) (GetUser (uh_user_service this) uid)))"

definition UserHandler_ListUsers ::
  "(tm \<Rightarrow> int) \<Rightarrow> 'w UserHandler \<Rightarrow> metadata \<Rightarrow> ListUsersRequest \<Rightarrow> ('w, StatusCode \<times> ListUsersResponse) io" where
  "UserHandler_ListUsers mktime this metadata request =
     authenticated this metadata list_response (\<lambda>auth.
     admin_only auth list_response (
     let pg = (case uq_page request of Some p \<Rightarrow> pq_page p | None \<Rightarrow> 1);
         pg_size = (case uq_page request of Some p \<Rightarrow> pq_page_size p | None \<Rightarrow> 20);
         mobile_filter = (if uq_mobile_filter request \<noteq> [] then Some (uq_mobile_filter request) else None)
     in answer list_response (set_users mktime)
       (ListUsers (uh_user_service this) mobile_filter (uq_disabled_filter request) pg pg_size)))"

subsection \<open>The production handlers\<close>

definition jwt_authenticator :: "SecurityConfig \<Rightarrow> ('s, 'e, 'r) world Authenticator" where
  "jwt_authenticator config = \<lparr>au_Authenticate = JwtAuthenticator_Authenticate (jwt_service config)\<rparr>"

definition auth_handler :: "Config \<Rightarrow> ('s, 'e, 'r) world AuthHandler" where
  "auth_handler config = \<lparr>ah_auth_service = auth_service config\<rparr>"

definition user_handler :: "Config \<Rightarrow> ('s, 'e, 'r) world UserHandler" where
  "user_handler config = \<lparr>uh_user_service = user_service config,
     uh_authenticator = jwt_authenticator (cfg_security config)\<rparr>"


lemma handler_sel [simp]:
  "ah_auth_service (auth_handler config) = auth_service config" "uh_user_service (user_handler config) = user_service config"
  "uh_authenticator (user_handler config) = jwt_authenticator (cfg_security config)"
  "au_Authenticate (jwt_authenticator c) = JwtAuthenticator_Authenticate (jwt_service c)"
  by (simp_all add: auth_handler_def user_handler_def jwt_authenticator_def)

subsection \<open>The contract of an authenticator\<close>

text \<open>A call is refused when its answer is an error and nothing else.\<close>

definition refused :: "(pb_Result \<Rightarrow> 'r) \<Rightarrow> exn + StatusCode \<times> 'r \<Rightarrow> bool" where
  "refused response res \<longleftrightarrow> (\<exists>c m. c \<noteq> Ok \<and> res = Inr (OK, response (SetResultError c m)))"

text \<open>What the handlers rely on: an authenticator always answers, vouches for the context it gives and
  leaves the shared state alone.\<close>

locale authenticator =
  fixes authenticate :: "metadata \<Rightarrow> ('w, AuthContext Result) io"
    and vouched :: "'w \<Rightarrow> metadata \<Rightarrow> AuthContext \<Rightarrow> bool"
    and shared :: "'w \<Rightarrow> 'k"
  assumes answers: "\<exists>r w'. authenticate md w = (Inr r, w') \<and> Result_wf r \<and> shared w' = shared w"
    and vouches: "authenticate md w = (Inr r, w') \<Longrightarrow> data r = Some ctx \<Longrightarrow> vouched w md ctx"
begin

lemma authenticated_reaches:
  assumes "au_Authenticate (uh_authenticator this) = authenticate"
    and run: "authenticated this md response k w = (res, w')"
  shows "(shared w' = shared w \<and> refused response res)
    \<or> (\<exists>ctx w1. vouched w md ctx \<and> shared w1 = shared w \<and> k ctx w1 = (res, w'))"
proof -
  obtain r w1 where r: "authenticate md w = (Inr r, w1)" "Result_wf r" "shared w1 = shared w" using answers by blast
  show ?thesis
  proof (cases "IsOk r")
    case True
    then obtain ctx where d: "data r = Some ctx" using r(2) wf_data by blast
    then have "k ctx w1 = (res, w')" using run assms(1) r(1) True by (simp add: authenticated_def bindE_def Value_def ret_def)
    then show ?thesis using vouches [OF r(1) d] r(3) by blast
  next
    case False
    then show ?thesis using run assms(1) r
      by (auto simp: authenticated_def bindE_def refuse_def ret_def refused_def IsOk_def)
  qed
qed

lemma admin_reaches:
  assumes "au_Authenticate (uh_authenticator this) = authenticate"
    and run: "authenticated this md response (\<lambda>auth. admin_only auth response k) w = (res, w')"
  shows "(shared w' = shared w \<and> refused response res)
    \<or> (\<exists>ctx w1. vouched w md ctx \<and> IsAdmin (ac_role ctx) \<and> shared w1 = shared w \<and> k w1 = (res, w'))"
proof -
  have admin: "(IsAdmin (ac_role ctx) \<and> k w1 = (res, w')) \<or> (w' = w1 \<and> refused response res)"
    if "admin_only ctx response k w1 = (res, w')" for ctx w1
    using that by (auto simp: admin_only_def RequireAdmin_def Let_def IsAdmin_def refuse_def ret_def refused_def split: if_splits)
  from authenticated_reaches [OF assms(1) run] admin show ?thesis by metis
qed

end

text \<open>The caller a call's metadata proves: a bearer token of the form \<open>header.payload.signature\<close> with
  the HMAC of the server's secret, of the right issuer and kind, not expired, whose claims are
  the identity in the context.\<close>

definition caller :: "SecurityConfig \<Rightarrow> 'e sys \<Rightarrow> metadata \<Rightarrow> AuthContext \<Rightarrow> bool" where
  "caller config s md ctx \<longleftrightarrow> (\<exists>h b. map_of md ''authorization'' =
       Some (''Bearer '' @ h @ ''.'' @ b @ ''.'' @ Base64UrlEncode (sys_hmac s (jwt_secret config) (h @ ''.'' @ b)))
     \<and> (let claims = ParseJson (Base64UrlDecode b) in
        map_of claims ''iss'' \<in> {None, Some (jwt_issuer config)} \<and>
        map_of claims ''sub'' \<in> {None, Some ''access''} \<and>
        stoll (claim_value claims ''id'') = Inr (ac_user_id ctx) \<and>
        claim_value claims ''uid'' = ac_user_uuid ctx \<and> ac_user_uuid ctx \<noteq> [] \<and>
        ac_role ctx = StringToUserRole (claim_value claims ''role'') \<and>
        ac_mobile ctx = claim_value claims ''mobile'' \<and>
        (case map_of claims ''exp'' of None \<Rightarrow> True | Some e \<Rightarrow>
          (case stoll e of Inl _ \<Rightarrow> False | Inr t \<Rightarrow> clock_of s \<le> from_time_t t))))"

lemma caller_verified:
  assumes md: "map_of md ''authorization'' = Some (''Bearer '' @ t)"
    and v: "VerifyAccessToken config t s = (Inr (Result_Ok p), s')"
  shows "caller config s md (context_of p)"
proof -
  from VerifyAccessToken_accepted [OF v] obtain h b where
    t: "t = h @ ''.'' @ b @ ''.'' @ Base64UrlEncode (sys_hmac s (jwt_secret config) (h @ ''.'' @ b))"
    and c: "let claims = ParseJson (Base64UrlDecode b) in
        map_of claims ''iss'' \<in> {None, Some (jwt_issuer config)} \<and>
        map_of claims ''sub'' \<in> {None, Some ''access''} \<and>
        stoll (claim_value claims ''id'') = Inr (p_user_id p) \<and>
        claim_value claims ''uid'' = p_user_uuid p \<and> p_user_uuid p \<noteq> [] \<and>
        p_role p = StringToUserRole (claim_value claims ''role'') \<and>
        p_mobile p = claim_value claims ''mobile'' \<and>
        (case map_of claims ''exp'' of None \<Rightarrow> True | Some e \<Rightarrow>
          (case stoll e of Inl _ \<Rightarrow> False | Inr t \<Rightarrow> p_expires_at p = from_time_t t \<and> clock_of s \<le> from_time_t t))"
    by blast
  from c show ?thesis
    unfolding caller_def using md t
    by (intro exI [of _ h] exI [of _ b]) (auto simp: context_of_def Let_def split: option.splits sum.splits)
qed

lemma Authenticate_run:
  fixes w :: "('s, 'e, 'r) world"
  shows "\<exists>r w'. JwtAuthenticator_Authenticate (jwt_service config) md w = (Inr r, w') \<and> Result_wf r
    \<and> (w_pool w', w_redis w') = (w_pool w, w_redis w)
    \<and> (case data r of None \<Rightarrow> True | Some ctx \<Rightarrow> caller config (w_sys w) md ctx)"
proof (cases "\<exists>t. map_of md ''authorization'' = Some (''Bearer '' @ t) \<and> t \<noteq> []")
  case True
  then obtain t where t: "map_of md ''authorization'' = Some (''Bearer '' @ t)" "t \<noteq> []" by blast
  obtain r s' where r: "VerifyAccessToken config t (w_sys w) = (Inr r, s')" by (rule sys_totalE [OF sys_total_VerifyAccessToken])
  note wf = VerifyAccessToken_wf [OF r]
  have "bindR (jwt_VerifyAccessToken (jwt_service config) t) (\<lambda>payload. ret (Result_Ok (context_of payload))) w =
      (Inr (if IsOk r then Result_Ok (context_of (the (data r))) else Result_Fail (code r) (message r)), w\<lparr>w_sys := s'\<rparr>)"
    using r wf wf_data [OF wf] by (auto simp: bindR_def bindE_def jwt_service_def in_sys_def zoom_def ret_def)
  moreover have "caller config (w_sys w) md (context_of (the (data r)))" if "IsOk r"
    using caller_verified [OF t(1)] VerifyAccessToken_data [OF r] r wf_data [OF wf that] by auto
  ultimately show ?thesis using t wf
    by (auto simp: JwtAuthenticator_Authenticate_def Let_def Result_wf_def IsOk_def)
next
  case False
  have "take 7 x \<noteq> ''Bearer '' \<or> drop 7 x = []" if "map_of md ''authorization'' = Some x" for x
    using False that append_take_drop_id [of 7 x] by metis
  then show ?thesis
    by (auto simp: JwtAuthenticator_Authenticate_def ret_def Let_def split: option.splits)
qed

interpretation jwt_auth: authenticator "JwtAuthenticator_Authenticate (jwt_service config)"
  "\<lambda>w. caller config (w_sys w)" "\<lambda>w. (w_pool w, w_redis w)" for config
proof
  fix md and w :: "('s, 'e, 'r) world"
  show "\<exists>r w'. JwtAuthenticator_Authenticate (jwt_service config) md w = (Inr r, w') \<and> Result_wf r
      \<and> (w_pool w', w_redis w') = (w_pool w, w_redis w)" using Authenticate_run by blast
next
  fix md and w w' :: "('s, 'e, 'r) world" and r ctx
  assume "JwtAuthenticator_Authenticate (jwt_service config) md w = (Inr r, w')" "data r = Some ctx"
  then show "caller config (w_sys w) md ctx" using Authenticate_run [of config md w] by auto
qed


subsection \<open>Messages with data\<close>

text \<open>A response is coherent when the status is \<open>OK\<close>, the code of the result is that of an \<open>ErrorCode\<close>, and
  it is complete (every message that the data consists of is there) where the code is that of
  success, blank (nothing but the result) where it is not.\<close>

definition coherent :: "(pb_Result \<Rightarrow> 'r) \<Rightarrow> ('r \<Rightarrow> bool) \<Rightarrow> ('r \<Rightarrow> pb_Result) \<Rightarrow> StatusCode \<times> 'r \<Rightarrow> bool" where
  "coherent response complete result = (\<lambda>(st, resp). st = OK \<and> (\<exists>c. rc_code (result resp) = ToProtoErrorCode c)
     \<and> (if rc_code (result resp) = 0 then complete resp else resp = response (result resp)))"

lemma ToProtoErrorCode_Ok: "\<exists>c. ToProtoErrorCode c = 0" "\<exists>c. 0 = ToProtoErrorCode c"
  by (rule exI [of _ Ok], simp add: ToProtoErrorCode_def)+

text \<open>The interface of a response message: a blank one keeps the result, and setting the data completes it and
  leaves the result alone.\<close>

locale response_message =
  fixes response :: "pb_Result \<Rightarrow> 'r" and set_data :: "'r \<Rightarrow> 'a \<Rightarrow> 'r"
    and complete :: "'r \<Rightarrow> bool" and result :: "'r \<Rightarrow> pb_Result"
  assumes blank: "result (response res) = res"
    and filled: "complete (set_data resp v)" "result (set_data resp v) = result resp"
begin

lemma code_known: "\<exists>c'. rc_code (SetResultError c m) = ToProtoErrorCode c'"
  by (auto simp: SetResultError_def)

lemma refuse_coherent: "c \<noteq> Ok \<Longrightarrow> gives (coherent response complete result) (refuse response c m)"
  by (auto simp: gives_def refuse_def ret_def coherent_def blank error_code_zero code_known)

lemma answer_coherent: "gives (coherent response complete result) (answer response set_data call)"
  unfolding gives_def answer_def coherent_def
  by (auto simp: bindE_Inr_iff Let_def ret_def blank filled error_code_zero code_known ToProtoErrorCode_Ok IsOk_def split: if_splits)

lemma check_coherent:
  "gives (coherent response complete result) k \<Longrightarrow> gives (coherent response complete result) (check_argument response v k)"
  by (cases v) (simp_all add: check_argument_def refuse_coherent)

lemma authenticated_coherent:
  "(\<And>ctx. gives (coherent response complete result) (k ctx))
    \<Longrightarrow> gives (coherent response complete result) (authenticated this md response k)"
  unfolding authenticated_def by (rule gives_bindE) (auto simp: IsOk_def intro!: refuse_coherent gives_bindE)

lemma admin_coherent:
  "gives (coherent response complete result) k \<Longrightarrow> gives (coherent response complete result) (admin_only ctx response k)"
  by (auto simp: admin_only_def Let_def IsOk_def intro!: refuse_coherent)

lemmas coherent_rules = refuse_coherent answer_coherent check_coherent authenticated_coherent admin_coherent

end

definition auth_complete :: "AuthResponse \<Rightarrow> bool" where
  "auth_complete resp \<longleftrightarrow> ar_user resp \<noteq> None \<and> ar_tokens resp \<noteq> None"

definition refresh_complete :: "RefreshTokenResponse \<Rightarrow> bool" where
  "refresh_complete resp \<longleftrightarrow> rt_tokens resp \<noteq> None"

definition validate_complete :: "ValidateTokenResponse \<Rightarrow> bool" where
  "validate_complete resp \<longleftrightarrow> vt_user_id resp \<noteq> [] \<and> vt_expires_at resp \<noteq> None"

definition user_complete :: "UserResponse \<Rightarrow> bool" where
  "user_complete resp \<longleftrightarrow> ur_user resp \<noteq> None"

definition list_complete :: "ListUsersResponse \<Rightarrow> bool" where
  "list_complete resp \<longleftrightarrow> lr_page_info resp \<noteq> None"

interpretation auth_msg: response_message auth_response "set_auth mktime" auth_complete ar_result for mktime
  by unfold_locales (simp_all add: auth_response_def set_auth_def auth_complete_def)

interpretation refresh_msg: response_message refresh_response
  "\<lambda>resp token_pair. resp\<lparr>rt_tokens := Some (ToProtoTokenPair token_pair)\<rparr>" refresh_complete rt_result
  by unfold_locales (simp_all add: refresh_response_def refresh_complete_def)

interpretation user_msg: response_message user_response "set_user mktime" user_complete ur_result for mktime
  by unfold_locales (simp_all add: user_response_def set_user_def user_complete_def)

interpretation list_msg: response_message list_response "set_users mktime" list_complete lr_result for mktime
  by unfold_locales (simp_all add: list_response_def set_users_def list_complete_def)

interpretation code_msg: response_message code_response
  "\<lambda>resp retry_after. resp\<lparr>sv_retry_after := retry_after\<rparr>" "\<lambda>_. True" sv_result
  by unfold_locales (simp_all add: code_response_def)

interpretation result_msg: response_message result_response no_data "\<lambda>_. True" rr_result
  by unfold_locales (simp_all add: result_response_def no_data_def)

subsection \<open>Properties\<close>

text \<open>C6: Only administrators see other accounts: whatever a call to \<open>GetUser\<close> or \<open>ListUsers\<close> carries,
  either it is refused (an error code, no data, neither the database nor the cache touched) or
  its metadata has a bearer token with the server's HMAC, unexpired, of the kind \<open>access\<close>, whose
  role claim is that of an administrator.\<close>

theorem admin_operations_need_admin:
  fixes w :: "('s, 'e, 'r) world"
  shows "(case UserHandler_GetUser mktime (user_handler config) md uid w of (res, w') \<Rightarrow>
        (w_pool w', w_redis w') = (w_pool w, w_redis w) \<and> refused user_response res
        \<or> (\<exists>ctx. caller (cfg_security config) (w_sys w) md ctx \<and> IsAdmin (ac_role ctx)))
    \<and> (case UserHandler_ListUsers mktime (user_handler config) md request w of (res, w') \<Rightarrow>
        (w_pool w', w_redis w') = (w_pool w, w_redis w) \<and> refused list_response res
        \<or> (\<exists>ctx. caller (cfg_security config) (w_sys w) md ctx \<and> IsAdmin (ac_role ctx)))"
proof -
  obtain r1 w1 where 1: "UserHandler_GetUser mktime (user_handler config) md uid w = (r1, w1)" by fastforce
  obtain r2 w2 where 2: "UserHandler_ListUsers mktime (user_handler config) md request w = (r2, w2)" by fastforce
  show ?thesis
    using jwt_auth.admin_reaches [OF handler_sel(4) [of "cfg_security config", folded handler_sel(3)] 1 [unfolded UserHandler_GetUser_def]]
      jwt_auth.admin_reaches [OF handler_sel(4) [of "cfg_security config", folded handler_sel(3)] 2 [unfolded UserHandler_ListUsers_def]]
    unfolding 1 2 prod.case by blast
qed

text \<open>C7: The calls on the own account act on no other: \<open>GetCurrentUser\<close>, \<open>UpdateUser\<close>,
  \<open>ChangePassword\<close> and \<open>DeleteUser\<close> either are refused without touching the database or the
  cache, or are exactly the operation of the user service on the UUID that the caller's signed
  token names, whatever the request contains.\<close>

theorem self_service_own_account:
  fixes w :: "('s, 'e, 'r) world"
  shows "(case UserHandler_GetCurrentUser mktime (user_handler config) md w of (res, w') \<Rightarrow>
        (w_pool w', w_redis w') = (w_pool w, w_redis w) \<and> refused user_response res
        \<or> (\<exists>ctx w1. caller (cfg_security config) (w_sys w) md ctx \<and> (w_pool w1, w_redis w1) = (w_pool w, w_redis w)
            \<and> answer user_response (set_user mktime) (GetCurrentUser (user_service config) (ac_user_uuid ctx)) w1 = (res, w')))
    \<and> (case UserHandler_UpdateUser mktime (user_handler config) md name w of (res, w') \<Rightarrow>
        (w_pool w', w_redis w') = (w_pool w, w_redis w) \<and> refused user_response res
        \<or> (\<exists>ctx w1. caller (cfg_security config) (w_sys w) md ctx \<and> (w_pool w1, w_redis w1) = (w_pool w, w_redis w)
            \<and> answer user_response (set_user mktime) (UpdateUser (user_service config) (ac_user_uuid ctx) name) w1 = (res, w')))
    \<and> (case UserHandler_ChangePassword (user_handler config) md request w of (res, w') \<Rightarrow>
        (w_pool w', w_redis w') = (w_pool w, w_redis w) \<and> refused result_response res
        \<or> (\<exists>ctx w1. caller (cfg_security config) (w_sys w) md ctx \<and> (w_pool w1, w_redis w1) = (w_pool w, w_redis w)
            \<and> answer result_response no_data (ChangePassword (user_service config) (ac_user_uuid ctx)
                (pq_old_password request) (pq_new_password request)) w1 = (res, w')))
    \<and> (case UserHandler_DeleteUser (user_handler config) md c w of (res, w') \<Rightarrow>
        (w_pool w', w_redis w') = (w_pool w, w_redis w) \<and> refused result_response res
        \<or> (\<exists>ctx w1. caller (cfg_security config) (w_sys w) md ctx \<and> (w_pool w1, w_redis w1) = (w_pool w, w_redis w)
            \<and> answer result_response no_data (UserService_DeleteUser (user_service config) (ac_user_uuid ctx) c) w1 = (res, w')))"
proof -
  note au = handler_sel(4) [of "cfg_security config", folded handler_sel(3)]
  obtain r1 w1 where 1: "UserHandler_GetCurrentUser mktime (user_handler config) md w = (r1, w1)" by fastforce
  obtain r2 w2 where 2: "UserHandler_UpdateUser mktime (user_handler config) md name w = (r2, w2)" by fastforce
  obtain r3 w3 where 3: "UserHandler_ChangePassword (user_handler config) md request w = (r3, w3)" by fastforce
  obtain r4 w4 where 4: "UserHandler_DeleteUser (user_handler config) md c w = (r4, w4)" by fastforce
  have check: "(v' = v \<and> refused response q) \<or> k v = (q, v')"
    if "check_argument response arg k v = (q, v')"
    for response :: "pb_Result \<Rightarrow> 'x" and arg k q and v v' :: "('s, 'e, 'r) world"
    using that by (auto simp: check_argument_def refuse_def ret_def refused_def split: option.splits)
  have deny: "v' = v \<and> refused response q" if "refuse response InvalidArgument m v = (q, v')"
    for response :: "pb_Result \<Rightarrow> 'x" and q m and v v' :: "('s, 'e, 'r) world"
    using that by (auto simp: refuse_def ret_def refused_def)
  show ?thesis
    using jwt_auth.authenticated_reaches [OF au 1 [unfolded UserHandler_GetCurrentUser_def]]
      jwt_auth.authenticated_reaches [OF au 2 [unfolded UserHandler_UpdateUser_def]]
      jwt_auth.authenticated_reaches [OF au 3 [unfolded UserHandler_ChangePassword_def]]
      jwt_auth.authenticated_reaches [OF au 4 [unfolded UserHandler_DeleteUser_def]]
    unfolding 1 2 3 4 prod.case handler_sel
    by (intro conjI) (blast, blast, (auto split: if_splits dest!: check deny) [1], (auto dest!: check) [1])
qed


text \<open>C9: Whoever registers or logs in can use the account at once: a call that carries the issued access
  token as its bearer token is authenticated, for as long as the clock stays within the token's
  lifetime, as exactly the account that was answered, with its identifier, UUID and mobile
  number, and has the rights of an administrator if and only if the account has them.\<close>

theorem login_token_authenticates:
  fixes w z :: "('s, 'e, 'r) world"
  assumes "LoginByPassword (auth_service config) mobile pw w = (Inr r, w')
      \<or> LoginByCode (auth_service config) mobile verify_code w = (Inr r, w')
      \<or> AuthService_Register (auth_service config) mobile verify_code pw name w = (Inr r, w')"
    and "data r = Some a" and "jwt_user_ok (cfg_security config) (auth_user a)"
    and "same_sys (w_sys w) (w_sys z)" and "clock_within lo hi (w_sys w)"
    and "lifetime_ok (cfg_security config) lo hi"
    and "map_of md ''authorization'' = Some (''Bearer '' @ access_token (auth_tokens a))"
  shows "\<exists>ctx z'. JwtAuthenticator_Authenticate (jwt_service (cfg_security config)) md z = (Inr (Result_Ok ctx), z')
    \<and> ac_user_id ctx = u_id (auth_user a) \<and> ac_user_uuid ctx = u_uuid (auth_user a)
    \<and> ac_mobile ctx = u_mobile (auth_user a) \<and> (IsOk (RequireAdmin ctx) \<longleftrightarrow> IsAdmin (u_role (auth_user a)))"
proof -
  obtain user v where v: "same_sys (w_sys w) (w_sys v)" "issue_tokens (auth_service config) user v = (Inr r, w')"
    using assms(1,2) issues_operations [unfolded issues_def] by (metis option.distinct(1))
  have "same_sys (w_sys v) (w_sys z)" using v(1) assms(4) by (rule same_sys_euclid)
  moreover have "clock_within lo hi (w_sys v)" using assms(5) clock_within_same [OF v(1)] by simp
  ultimately obtain x s' where p: "VerifyAccessToken (cfg_security config) (access_token (auth_tokens a)) (w_sys z) = (Inr (Result_Ok
      \<lparr>p_user_id = u_id (auth_user a), p_user_uuid = u_uuid (auth_user a), p_mobile = u_mobile (auth_user a),
        p_role = StringToUserRole (UserRoleToString (u_role (auth_user a))), p_expires_at = x\<rparr>), s')"
    using issue_tokens_verify [OF v(2) assms(2,3)] assms(6) by blast
  have "IsOk (RequireAdmin ctx) \<longleftrightarrow> IsAdmin (ac_role ctx)" for ctx
    by (simp add: RequireAdmin_def IsAdmin_def)
  with p VerifyAccessToken_nonempty [OF p] assms(7) IsAdmin_roundtrip [of "u_role (auth_user a)"] show ?thesis
    by (simp add: JwtAuthenticator_Authenticate_def bindR_def bindE_def jwt_service_def in_sys_def zoom_def ret_def context_of_def)
qed

theorem login_token_authenticates_witness:
  "\<exists>r w' a ctx z'. LoginByPassword (auth_service config_once) ''13800138000'' ''abc12345'' (world_row 1000000000) = (Inr r, w')
    \<and> data r = Some a
    \<and> JwtAuthenticator_Authenticate (jwt_service (cfg_security config_once))
        [(''authorization'', ''Bearer '' @ access_token (auth_tokens a))] (world_row 1000000000) = (Inr (Result_Ok ctx), z')
    \<and> ac_user_id ctx = 42 \<and> ac_mobile ctx = ''13800138000'' \<and> IsOk (RequireAdmin ctx)"
proof -
  let ?w = "world_row 1000000000"
  obtain tokens w' where run: "LoginByPassword (auth_service config_once) ''13800138000'' ''abc12345'' ?w =
      (Inr (Result_Ok \<lparr>auth_user = user_row\<lparr>u_password_hash := []\<rparr>, auth_tokens = tokens\<rparr>), w')"
    using login_row_example by blast
  let ?a = "\<lparr>auth_user = user_row\<lparr>u_password_hash := []\<rparr>, auth_tokens = tokens\<rparr>"
  have u: "user_row\<lparr>u_password_hash := []\<rparr> = user_example"
    by (simp add: user_row_def user_example_def UserEntity_default_def)
  have "clock_within 1000000000 1000000000 (w_sys ?w)"
    by (simp add: clock_within_def world_row_def sys_example_def)
  moreover have "lifetime_ok (cfg_security config_once) 1000000000 1000000000"
    by (simp add: lifetime_ok_def expiry_instant_def NANOS_def config_once_def Config_default_def SecurityConfig_default_def)
  moreover have "jwt_user_ok (cfg_security config_once) (auth_user ?a)"
    using jwt_user_ok_example u by (simp add: config_once_def Config_default_def)
  ultimately obtain ctx z' where "JwtAuthenticator_Authenticate (jwt_service (cfg_security config_once))
        [(''authorization'', ''Bearer '' @ access_token (auth_tokens ?a))] ?w = (Inr (Result_Ok ctx), z')"
    "ac_user_id ctx = u_id (auth_user ?a)" "ac_mobile ctx = u_mobile (auth_user ?a)"
    "IsOk (RequireAdmin ctx) \<longleftrightarrow> IsAdmin (u_role (auth_user ?a))"
    using login_token_authenticates [OF disjI1 [OF run], of ?a ?w 1000000000 1000000000
        "[(''authorization'', ''Bearer '' @ access_token (auth_tokens ?a))]"] by auto
  then show ?thesis using run u by (fastforce simp: user_example_def IsAdmin_def)
qed

end
