(* ===== verification/Cleanup_Task.thy ===== *)
theory Cleanup_Task
  imports Interfaces
begin

section \<open>The task that deletes expired sessions\<close>

text \<open>
  \<open>src/auth/token_cleanup_task.cpp\<close>: a worker thread that calls \<open>CleanExpiredTokens\<close> at an
  interval, started and stopped from any number of other threads. The statements of \<open>Start\<close>,
  \<open>Stop\<close> and the thread's loop are the steps of a transition system that interleaves them; the
  destructor is a call of \<open>Stop\<close>.
\<close>

subsection \<open>State\<close>

text \<open>Where the worker is: at the head of the loop, about to clean, in the \<open>i\<close>-th second of its sleep,
  or returned.\<close>

datatype worker_pc = AtLoop | AtClean | Asleep int | Returned

text \<open>Where a calling thread is: outside, waiting for the mutex, or at a statement of \<open>Start\<close> or
  \<open>Stop\<close>, which hold the mutex.\<close>

datatype caller_pc = Outside | WantStart | StartCheck | StartJoin | StartStore | StartSpawn
  | WantStop | StopStore | StopJoin | Unlocking

record 'w TokenCleanupTask =
  tc_token_repo :: "'w TokenRepository"
  tc_interval :: int
  tc_running :: bool
  tc_thread :: "worker_pc option"
  tc_mutex :: "nat option"
  tc_callers :: "nat \<Rightarrow> caller_pc"
  tc_aborted :: bool
  tc_world :: 'w

text \<open>\<open>thread_\<close> is joinable exactly when it is \<open>Some\<close>.\<close>

definition TokenCleanupTask_new :: "'w TokenRepository \<Rightarrow> int \<Rightarrow> 'w \<Rightarrow> 'w TokenCleanupTask" where
  "TokenCleanupTask_new repo interval_minutes w = \<lparr>tc_token_repo = repo, tc_interval = interval_minutes,
     tc_running = False, tc_thread = None, tc_mutex = None, tc_callers = (\<lambda>_. Outside), tc_aborted = False, tc_world = w\<rparr>"

text \<open>One round of cleaning: the result is only logged, and an exception is caught.\<close>

definition clean_round :: "'w TokenRepository \<Rightarrow> ('w, unit) io" where
  "clean_round repo =
     try_catch (bindE (tr_CleanExpiredTokens repo) (\<lambda>result.
       if IsOk result then bindE (Value result) (\<lambda>removed. ret ()) else ret ())) (\<lambda>e. ret ())"

subsection \<open>Steps\<close>

datatype actor = Worker | Caller nat

abbreviation goto :: "nat \<Rightarrow> caller_pc \<Rightarrow> 'w TokenCleanupTask \<Rightarrow> 'w TokenCleanupTask" where
  "goto t pc s \<equiv> s\<lparr>tc_callers := (tc_callers s)(t := pc)\<rparr>"

inductive task_step :: "'w TokenCleanupTask \<Rightarrow> actor \<Rightarrow> 'w TokenCleanupTask \<Rightarrow> bool" where
  call_Start: "tc_callers s t = Outside \<Longrightarrow> task_step s (Caller t) (goto t WantStart s)"
| call_Stop: "tc_callers s t = Outside \<Longrightarrow> task_step s (Caller t) (goto t WantStop s)"
| lock_Start: "tc_callers s t = WantStart \<Longrightarrow> tc_mutex s = None
    \<Longrightarrow> task_step s (Caller t) (goto t StartCheck s\<lparr>tc_mutex := Some t\<rparr>)"
| already_running: "tc_callers s t = StartCheck \<Longrightarrow> tc_running s
    \<Longrightarrow> task_step s (Caller t) (goto t Unlocking s)"
| not_running: "tc_callers s t = StartCheck \<Longrightarrow> \<not> tc_running s
    \<Longrightarrow> task_step s (Caller t) (goto t StartJoin s)"
| Start_join: "tc_callers s t = StartJoin \<Longrightarrow> tc_thread s = Some Returned
    \<Longrightarrow> task_step s (Caller t) (goto t StartStore s\<lparr>tc_thread := None\<rparr>)"
| Start_no_join: "tc_callers s t = StartJoin \<Longrightarrow> tc_thread s = None
    \<Longrightarrow> task_step s (Caller t) (goto t StartStore s)"
| Start_store: "tc_callers s t = StartStore
    \<Longrightarrow> task_step s (Caller t) (goto t StartSpawn s\<lparr>tc_running := True\<rparr>)"
| spawn: "tc_callers s t = StartSpawn \<Longrightarrow> tc_thread s = None
    \<Longrightarrow> task_step s (Caller t) (goto t Unlocking s\<lparr>tc_thread := Some AtLoop\<rparr>)"
| spawn_over: "tc_callers s t = StartSpawn \<Longrightarrow> tc_thread s = Some p
    \<Longrightarrow> task_step s (Caller t) (s\<lparr>tc_aborted := True\<rparr>)"
| lock_Stop: "tc_callers s t = WantStop \<Longrightarrow> tc_mutex s = None
    \<Longrightarrow> task_step s (Caller t) (goto t StopStore s\<lparr>tc_mutex := Some t\<rparr>)"
| Stop_store: "tc_callers s t = StopStore
    \<Longrightarrow> task_step s (Caller t) (goto t StopJoin s\<lparr>tc_running := False\<rparr>)"
| Stop_join: "tc_callers s t = StopJoin \<Longrightarrow> tc_thread s = Some Returned
    \<Longrightarrow> task_step s (Caller t) (goto t Unlocking s\<lparr>tc_thread := None\<rparr>)"
| Stop_no_join: "tc_callers s t = StopJoin \<Longrightarrow> tc_thread s = None
    \<Longrightarrow> task_step s (Caller t) (goto t Unlocking s)"
| unlock: "tc_callers s t = Unlocking
    \<Longrightarrow> task_step s (Caller t) (goto t Outside s\<lparr>tc_mutex := None\<rparr>)"
| loop_on: "tc_thread s = Some AtLoop \<Longrightarrow> tc_running s
    \<Longrightarrow> task_step s Worker (s\<lparr>tc_thread := Some AtClean\<rparr>)"
| loop_end: "tc_thread s = Some AtLoop \<Longrightarrow> \<not> tc_running s
    \<Longrightarrow> task_step s Worker (s\<lparr>tc_thread := Some Returned\<rparr>)"
| clean: "tc_thread s = Some AtClean \<Longrightarrow> clean_round (tc_token_repo s) (tc_world s) = (Inr (), w')
    \<Longrightarrow> task_step s Worker (s\<lparr>tc_thread := Some (Asleep 0), tc_world := w'\<rparr>)"
| sleep_on: "tc_thread s = Some (Asleep i) \<Longrightarrow> i < wrap32 (tc_interval s * 60) \<Longrightarrow> tc_running s
    \<Longrightarrow> task_step s Worker (s\<lparr>tc_thread := Some (Asleep (i + 1))\<rparr>)"
| sleep_end: "tc_thread s = Some (Asleep i) \<Longrightarrow> \<not> (i < wrap32 (tc_interval s * 60) \<and> tc_running s)
    \<Longrightarrow> task_step s Worker (s\<lparr>tc_thread := Some AtLoop\<rparr>)"

inductive_cases task_step_Worker: "task_step s Worker s'"
inductive_cases task_step_Caller: "task_step s (Caller t) s'"

text \<open>What is reached from a new task whose surroundings may change between the steps.\<close>

inductive task_reachable :: "'w TokenCleanupTask \<Rightarrow> bool" where
  created: "task_reachable (TokenCleanupTask_new repo interval_minutes w)"
| stepped: "task_reachable s \<Longrightarrow> task_step s a s' \<Longrightarrow> task_reachable s'"
| elsewhere: "task_reachable s \<Longrightarrow> task_reachable (s\<lparr>tc_world := w'\<rparr>)"

subsection \<open>The invariant\<close>

definition holding :: "caller_pc \<Rightarrow> bool" where
  "holding pc \<longleftrightarrow> pc \<notin> {Outside, WantStart, WantStop}"

definition alive :: "worker_pc option \<Rightarrow> bool" where
  "alive th \<longleftrightarrow> th \<noteq> None \<and> th \<noteq> Some Returned"

text \<open>What the position of the holder of the mutex says of the flag and the thread; where nobody holds
  it, the flag says exactly whether there is a worker.\<close>

fun expects :: "caller_pc \<Rightarrow> bool \<Rightarrow> worker_pc option \<Rightarrow> bool" where
  "expects StartSpawn run th = (run \<and> th = None)"
| "expects StopJoin run th = (\<not> run)"
| "expects StartJoin run th = (\<not> run \<and> th = None)"
| "expects StartStore run th = (\<not> run \<and> th = None)"
| "expects _ run th = (if run then alive th else th = None)"

definition position :: "nat option \<Rightarrow> (nat \<Rightarrow> caller_pc) \<Rightarrow> caller_pc" where
  "position m cs = (case m of None \<Rightarrow> Outside | Some t \<Rightarrow> cs t)"

definition task_inv :: "'w TokenCleanupTask \<Rightarrow> bool" where
  "task_inv s \<longleftrightarrow> \<not> tc_aborted s
     \<and> (\<forall>t. holding (tc_callers s t) \<longleftrightarrow> tc_mutex s = Some t)
     \<and> expects (position (tc_mutex s) (tc_callers s)) (tc_running s) (tc_thread s)"

lemma task_inv_holder:
  assumes "task_inv s" and "holding (tc_callers s t)"
  shows "tc_mutex s = Some t" and "position (tc_mutex s) (tc_callers s) = tc_callers s t"
  using assms by (auto simp: task_inv_def position_def)

lemma task_inv_outside:
  assumes "task_inv s" and "\<not> holding (tc_callers s t)" and "\<not> holding pc"
  shows "task_inv (goto t pc s)"
proof -
  have "tc_mutex s \<noteq> Some t" using assms(1,2) by (auto simp: task_inv_def)
  then have "position (tc_mutex s) ((tc_callers s)(t := pc)) = position (tc_mutex s) (tc_callers s)"
    by (auto simp: position_def split: option.splits)
  then show ?thesis using assms by (auto simp: task_inv_def)
qed

lemma task_inv_inside:
  assumes "task_inv s" and "holding (tc_callers s t)" and "holding pc"
    and "tc_callers s' = (tc_callers s)(t := pc)" and "tc_mutex s' = tc_mutex s" and "tc_aborted s' = tc_aborted s"
    and "expects pc (tc_running s') (tc_thread s')"
  shows "task_inv s'"
  using task_inv_holder(1) [OF assms(1,2)] assms by (auto simp: task_inv_def position_def)

lemma task_inv_lock:
  assumes "task_inv s" and "tc_mutex s = None" and "pc \<in> {StartCheck, StopStore}"
  shows "task_inv (goto t pc s\<lparr>tc_mutex := Some t\<rparr>)"
  using assms by (auto simp: task_inv_def position_def holding_def)

lemma task_inv_unlock:
  assumes "task_inv s" and "tc_callers s t = Unlocking"
  shows "task_inv (goto t Outside s\<lparr>tc_mutex := None\<rparr>)"
  using task_inv_holder [OF assms(1), of t] assms by (auto simp: task_inv_def holding_def position_def)

lemma task_inv_worker:
  assumes "task_inv s" and "alive (tc_thread s)" and "alive (tc_thread s') \<or> \<not> tc_running s \<and> tc_thread s' = Some Returned"
    and "tc_callers s' = tc_callers s" and "tc_mutex s' = tc_mutex s" and "tc_aborted s' = tc_aborted s"
    and "tc_running s' = tc_running s"
  shows "task_inv s'"
  using assms by (cases "position (tc_mutex s) (tc_callers s)") (auto simp: task_inv_def alive_def)

lemma task_inv_world: "task_inv s \<Longrightarrow> task_inv (s\<lparr>tc_world := w'\<rparr>)"
  by (simp add: task_inv_def)

lemmas task_inv_facts = holding_def alive_def

text \<open>The steps of the holder, short of the release of the mutex.\<close>

lemma task_inv_holder_step:
  assumes step: "task_step s (Caller t) s'" and inv: "task_inv s"
    and hold: "holding (tc_callers s t)" "tc_callers s t \<noteq> Unlocking"
  shows "task_inv s'"
proof -
  have at: "expects (tc_callers s t) (tc_running s) (tc_thread s)"
    using inv task_inv_holder(2) [OF inv hold(1)] by (simp add: task_inv_def)
  note inside = task_inv_inside [OF inv hold(1)] and facts = task_inv_facts
  from step show ?thesis
  proof (cases rule: task_step.cases)
    case already_running
    then show ?thesis using at by (intro inside [of Unlocking]) (simp_all add: facts)
  next
    case not_running
    then show ?thesis using at by (intro inside [of StartJoin]) (simp_all add: facts)
  next
    case Start_join
    then show ?thesis using at by (intro inside [of StartStore]) (simp_all add: facts)
  next
    case Start_no_join
    then show ?thesis using at by (intro inside [of StartStore]) (simp_all add: facts)
  next
    case Start_store
    then show ?thesis using at by (intro inside [of StartSpawn]) (simp_all add: facts)
  next
    case spawn
    then show ?thesis using at by (intro inside [of Unlocking]) (simp_all add: facts)
  next
    case Stop_store
    then show ?thesis using at by (intro inside [of StopJoin]) (simp_all add: facts)
  next
    case Stop_join
    then show ?thesis using at by (intro inside [of Unlocking]) (simp_all add: facts)
  next
    case Stop_no_join
    then show ?thesis using at by (intro inside [of Unlocking]) (simp_all add: facts)
  qed (use hold at in \<open>simp_all add: facts\<close>)
qed

lemma task_inv_step:
  assumes step: "task_step s a s'" and inv: "task_inv s"
  shows "task_inv s'"
proof (cases "\<exists>t. a = Caller t \<and> holding (tc_callers s t) \<and> tc_callers s t \<noteq> Unlocking")
  case True
  then show ?thesis using step task_inv_holder_step [OF _ inv] by blast
next
  case False
  from step show ?thesis
  proof cases
    case (call_Start t)
    then show ?thesis using task_inv_outside [OF inv, of t WantStart] by (simp add: task_inv_facts)
  next
    case (call_Stop t)
    then show ?thesis using task_inv_outside [OF inv, of t WantStop] by (simp add: task_inv_facts)
  next
    case (lock_Start t)
    then show ?thesis using task_inv_lock [OF inv, of StartCheck t] by simp
  next
    case (lock_Stop t)
    then show ?thesis using task_inv_lock [OF inv, of StopStore t] by simp
  next
    case (unlock t)
    then show ?thesis using task_inv_unlock [OF inv] by simp
  qed (use False in \<open>auto simp: task_inv_facts intro: task_inv_worker [OF inv]\<close>)
qed

lemma task_reachable_inv: "task_reachable s \<Longrightarrow> task_inv s"
proof (induction rule: task_reachable.induct)
  case (created repo interval_minutes w)
  then show ?case by (simp add: TokenCleanupTask_new_def task_inv_def holding_def position_def)
qed (auto intro: task_inv_step task_inv_world)


subsection \<open>Stopping\<close>

text \<open>How many steps the worker is from returning once the flag is down.\<close>

fun worker_left :: "worker_pc option \<Rightarrow> nat" where
  "worker_left None = 0"
| "worker_left (Some Returned) = 0"
| "worker_left (Some AtLoop) = 1"
| "worker_left (Some (Asleep i)) = 2"
| "worker_left (Some AtClean) = 3"

lemma clean_round_contained: "clean_round repo w = (Inl e, w') \<Longrightarrow> e = Terminate"
  unfolding clean_round_def by (auto simp: try_catch_def ret_def split: prod.splits sum.splits if_splits)

lemma worker_steps:
  assumes "\<not> tc_running s" and "0 < worker_left (tc_thread s)"
    and "\<And>w. \<exists>w'. clean_round (tc_token_repo s) w = (Inr (), w')"
  shows "\<exists>s'. task_step s Worker s' \<and> worker_left (tc_thread s') < worker_left (tc_thread s)"
proof -
  obtain p where p: "tc_thread s = Some p" using assms(2) by (cases "tc_thread s") simp_all
  show ?thesis
  proof (cases p)
    case AtLoop
    then show ?thesis using p assms(1) loop_end [of s] by fastforce
  next
    case AtClean
    obtain w' where "clean_round (tc_token_repo s) (tc_world s) = (Inr (), w')" using assms(3) by blast
    then show ?thesis using p AtClean clean [of s w'] by fastforce
  next
    case (Asleep i)
    then show ?thesis using p assms(1) sleep_end [of s i] by fastforce
  next
    case Returned
    then show ?thesis using p assms(2) by simp
  qed
qed

lemma worker_step_decreases:
  assumes "task_step s Worker s'" and "\<not> tc_running s"
  shows "worker_left (tc_thread s') < worker_left (tc_thread s)"
  using assms by (auto elim: task_step_Worker)

text \<open>While somebody holds the mutex, no other caller changes the flag, the thread or the holder's
  position.\<close>

lemma other_caller_waits:
  assumes "task_inv s" and "holding (tc_callers s t)" and "t' \<noteq> t" and "task_step s (Caller t') s'"
  shows "tc_callers s' t = tc_callers s t" and "tc_thread s' = tc_thread s" and "tc_running s' = tc_running s"
proof -
  have m: "tc_mutex s = Some t" using task_inv_holder(1) [OF assms(1,2)] .
  then have "\<not> holding (tc_callers s t')" using assms(1,3) by (auto simp: task_inv_def)
  then show "tc_callers s' t = tc_callers s t" and "tc_thread s' = tc_thread s" and "tc_running s' = tc_running s"
    using assms(3,4) m by (auto simp: holding_def elim!: task_step_Caller)
qed

subsection \<open>Calls that nobody disturbs\<close>

text \<open>What \<open>Start\<close> and \<open>Stop\<close> do where no other call is in progress: \<open>Start\<close> by the steps of its own
  thread, \<open>Stop\<close> together with the worker it waits for.\<close>

definition TokenCleanupTask_Start :: "'w TokenCleanupTask \<Rightarrow> 'w TokenCleanupTask" where
  "TokenCleanupTask_Start s = (if tc_running s then s else s\<lparr>tc_running := True, tc_thread := Some AtLoop\<rparr>)"

definition TokenCleanupTask_Stop :: "'w TokenCleanupTask \<Rightarrow> 'w TokenCleanupTask" where
  "TokenCleanupTask_Stop s = s\<lparr>tc_running := False, tc_thread := None\<rparr>"

abbreviation steps_of :: "nat \<Rightarrow> 'w TokenCleanupTask \<Rightarrow> 'w TokenCleanupTask \<Rightarrow> bool" where
  "steps_of t \<equiv> (\<lambda>s s'. task_step s (Caller t) s')\<^sup>*\<^sup>*"

abbreviation task_steps :: "'w TokenCleanupTask \<Rightarrow> 'w TokenCleanupTask \<Rightarrow> bool" where
  "task_steps \<equiv> (\<lambda>s s'. \<exists>a. task_step s a s')\<^sup>*\<^sup>*"

lemma task_steps_into: "task_step s a s' \<Longrightarrow> task_steps s' s'' \<Longrightarrow> task_steps s s''"
  by (rule converse_rtranclp_into_rtranclp) auto

lemma Start_steps:
  assumes "tc_mutex s = None" and "tc_callers s t = Outside" and "\<not> tc_running s \<Longrightarrow> tc_thread s = None"
  shows "steps_of t s (TokenCleanupTask_Start s)"
proof -
  have m: "s\<lparr>tc_mutex := None\<rparr> = s" using assms(1) by (cases s) simp
  let ?s1 = "goto t WantStart s" and ?s2 = "goto t StartCheck s\<lparr>tc_mutex := Some t\<rparr>"
  have "task_step s (Caller t) ?s1" using assms(2) by (rule call_Start)
  moreover have "task_step ?s1 (Caller t) ?s2" using lock_Start [of ?s1 t] assms(1) by simp
  moreover have "steps_of t ?s2 (TokenCleanupTask_Start s)"
  proof (cases "tc_running s")
    case True
    let ?s3 = "goto t Unlocking ?s2"
    have "task_step ?s2 (Caller t) ?s3" using already_running [of ?s2 t] True by simp
    moreover have "task_step ?s3 (Caller t) s"
      using unlock [of ?s3 t] assms(2) m by (simp add: fun_upd_idem)
    ultimately have "steps_of t ?s2 s" by (meson converse_rtranclp_into_rtranclp rtranclp.rtrancl_refl)
    then show ?thesis using True by (simp add: TokenCleanupTask_Start_def)
  next
    case False
    let ?s3 = "goto t StartJoin ?s2" and ?s4 = "goto t StartStore ?s2"
    let ?s5 = "goto t StartSpawn ?s2\<lparr>tc_running := True\<rparr>"
    let ?s6 = "goto t Unlocking ?s5\<lparr>tc_thread := Some AtLoop\<rparr>"
    have "task_step ?s2 (Caller t) ?s3" using not_running [of ?s2 t] False by simp
    moreover have "task_step ?s3 (Caller t) ?s4" using Start_no_join [of ?s3 t] assms(3) False by simp
    moreover have "task_step ?s4 (Caller t) ?s5" using Start_store [of ?s4 t] by simp
    moreover have "task_step ?s5 (Caller t) ?s6" using spawn [of ?s5 t] assms(3) False by simp
    moreover have "goto t Outside ?s6\<lparr>tc_mutex := None\<rparr> = TokenCleanupTask_Start s"
      using assms(1,2) False by (cases s) (simp add: fun_upd_idem TokenCleanupTask_Start_def)
    then have "task_step ?s6 (Caller t) (TokenCleanupTask_Start s)" using unlock [of ?s6 t] by simp
    ultimately show ?thesis by (meson converse_rtranclp_into_rtranclp rtranclp.rtrancl_refl)
  qed
  ultimately show ?thesis by (meson converse_rtranclp_into_rtranclp)
qed

lemma worker_ends:
  assumes "\<And>w. \<exists>w'. clean_round (tc_token_repo s) w = (Inr (), w')" and "\<not> tc_running s" and "tc_thread s \<noteq> None"
  shows "\<exists>w'. task_steps s (s\<lparr>tc_thread := Some Returned, tc_world := w'\<rparr>)"
  using assms
proof (induction "worker_left (tc_thread s)" arbitrary: s rule: less_induct)
  case less
  show ?case
  proof (cases "worker_left (tc_thread s) = 0")
    case True
    then have "tc_thread s = Some Returned" using less.prems(3) by (cases "tc_thread s" rule: worker_left.cases) simp_all
    then have "s\<lparr>tc_thread := Some Returned, tc_world := tc_world s\<rparr> = s" by simp
    then show ?thesis by (metis rtranclp.rtrancl_refl)
  next
    case False
    then obtain s1 where s1: "task_step s Worker s1" "worker_left (tc_thread s1) < worker_left (tc_thread s)"
      using worker_steps [OF less.prems(2) _ less.prems(1)] by auto
    then obtain th w1 where eq: "s1 = s\<lparr>tc_thread := Some th, tc_world := w1\<rparr>"
      by (auto elim!: task_step_Worker intro: that [where ?w1.0 = "tc_world s"])
    obtain w' where "task_steps s1 (s1\<lparr>tc_thread := Some Returned, tc_world := w'\<rparr>)"
      using less.hyps [OF s1(2)] less.prems eq by auto
    then have "task_steps s1 (s\<lparr>tc_thread := Some Returned, tc_world := w'\<rparr>)" using eq by simp
    then show ?thesis using task_steps_into [OF s1(1)] by blast
  qed
qed

lemma Stop_steps:
  assumes "tc_mutex s = None" and "tc_callers s t = Outside"
    and "\<And>w. \<exists>w'. clean_round (tc_token_repo s) w = (Inr (), w')"
  shows "\<exists>w'. task_steps s (TokenCleanupTask_Stop s\<lparr>tc_world := w'\<rparr>)"
proof -
  let ?s1 = "goto t WantStop s" and ?s2 = "goto t StopStore s\<lparr>tc_mutex := Some t\<rparr>"
  let ?s3 = "goto t StopJoin ?s2\<lparr>tc_running := False\<rparr>"
  have 1: "task_step s (Caller t) ?s1" using assms(2) by (rule call_Stop)
  have 2: "task_step ?s1 (Caller t) ?s2" using lock_Stop [of ?s1 t] assms(1) by simp
  have 3: "task_step ?s2 (Caller t) ?s3" using Stop_store [of ?s2 t] by simp
  have to3: "task_steps s ?s3"
    by (rule task_steps_into [OF 1 task_steps_into [OF 2 task_steps_into [OF 3]]]) (rule rtranclp.rtrancl_refl)
  obtain w' x th where rest: "task_steps ?s3 x" and x: "x = ?s3\<lparr>tc_thread := th, tc_world := w'\<rparr>"
    and th: "th = None \<or> th = Some Returned"
  proof (cases "tc_thread s = None")
    case True
    show ?thesis by (rule that [where x = ?s3 and th = None and w' = "tc_world s"]) (use True in \<open>cases s, simp_all\<close>)
  next
    case False
    obtain w' where "task_steps ?s3 (?s3\<lparr>tc_thread := Some Returned, tc_world := w'\<rparr>)"
      using worker_ends [of ?s3] assms(3) False by auto
    then show ?thesis by (rule that [OF _ refl]) simp
  qed
  have at: "tc_callers x t = StopJoin" and thx: "tc_thread x = th" by (simp_all add: x)
  let ?y = "goto t Unlocking x\<lparr>tc_thread := None\<rparr>"
  have 4: "task_step x (Caller t) ?y"
    using th [folded thx]
  proof
    assume no: "tc_thread x = None"
    then have "?y = goto t Unlocking x" by (cases x) simp
    then show ?thesis using Stop_no_join [OF at no] by simp
  next
    assume "tc_thread x = Some Returned"
    then show ?thesis using Stop_join [OF at] by simp
  qed
  have "goto t Outside ?y\<lparr>tc_mutex := None\<rparr> = TokenCleanupTask_Stop s\<lparr>tc_world := w'\<rparr>"
    using assms(1,2) unfolding x by (cases s) (simp add: TokenCleanupTask_Stop_def fun_upd_idem)
  then have 5: "task_step ?y (Caller t) (TokenCleanupTask_Stop s\<lparr>tc_world := w'\<rparr>)"
    using unlock [of ?y t] by simp
  have "task_steps x (TokenCleanupTask_Stop s\<lparr>tc_world := w'\<rparr>)"
    by (rule task_steps_into [OF 4 task_steps_into [OF 5]]) (rule rtranclp.rtrancl_refl)
  with to3 rest show ?thesis by (intro exI) (rule rtranclp_trans, assumption, rule rtranclp_trans, assumption+)
qed

subsection \<open>An example run\<close>

text \<open>A table with nothing to delete.\<close>

definition empty_repo :: "(nat list \<times> nat, unit, string \<rightharpoonup> string) world TokenRepository" where
  "empty_repo = token_repo\<lparr>tr_CleanExpiredTokens := ret (Result_Ok 0)\<rparr>"

lemma clean_round_empty: "clean_round empty_repo w = (Inr (), w)"
  by (simp add: clean_round_def empty_repo_def try_catch_def bindE_def ret_def)

definition task_at :: "bool \<Rightarrow> worker_pc option \<Rightarrow> nat option \<Rightarrow> caller_pc
    \<Rightarrow> (nat list \<times> nat, unit, string \<rightharpoonup> string) world TokenCleanupTask" where
  "task_at run th m pc = (TokenCleanupTask_new empty_repo 60 (world_example 0))\<lparr>tc_running := run, tc_thread := th,
     tc_mutex := m, tc_callers := (\<lambda>_. Outside)(0 := pc)\<rparr>"

text \<open>One thread calls \<open>Start\<close>, the worker comes to its first round, the thread calls \<open>Stop\<close>.\<close>

lemma task_example:
  "task_reachable (task_at True (Some AtClean) None Outside)" "task_reachable (task_at False (Some AtClean) (Some 0) StopJoin)"
proof -
  note facts = task_at_def TokenCleanupTask_new_def
  have go: "task_reachable s'" if "task_reachable s" "task_step s a s'" for s s' :: "(nat list \<times> nat, unit, string \<rightharpoonup> string) world TokenCleanupTask" and a
    using that by (rule stepped)
  have 0: "task_reachable (task_at False None None Outside)"
    using created [of empty_repo 60 "world_example 0"] by (simp add: facts fun_upd_idem)
  have 1: "task_reachable (task_at False None None WantStart)"
    by (rule go [OF 0]) (use call_Start [of "task_at False None None Outside" 0] in \<open>simp add: facts\<close>)
  have 2: "task_reachable (task_at False None (Some 0) StartCheck)"
    by (rule go [OF 1]) (use lock_Start [of "task_at False None None WantStart" 0] in \<open>simp add: facts\<close>)
  have 3: "task_reachable (task_at False None (Some 0) StartJoin)"
    by (rule go [OF 2]) (use not_running [of "task_at False None (Some 0) StartCheck" 0] in \<open>simp add: facts\<close>)
  have 4: "task_reachable (task_at False None (Some 0) StartStore)"
    by (rule go [OF 3]) (use Start_no_join [of "task_at False None (Some 0) StartJoin" 0] in \<open>simp add: facts\<close>)
  have 5: "task_reachable (task_at True None (Some 0) StartSpawn)"
    by (rule go [OF 4]) (use Start_store [of "task_at False None (Some 0) StartStore" 0] in \<open>simp add: facts\<close>)
  have 6: "task_reachable (task_at True (Some AtLoop) (Some 0) Unlocking)"
    by (rule go [OF 5]) (use spawn [of "task_at True None (Some 0) StartSpawn" 0] in \<open>simp add: facts\<close>)
  have 7: "task_reachable (task_at True (Some AtLoop) None Outside)"
    by (rule go [OF 6]) (use unlock [of "task_at True (Some AtLoop) (Some 0) Unlocking" 0] in \<open>simp add: facts\<close>)
  show 8: "task_reachable (task_at True (Some AtClean) None Outside)"
    by (rule go [OF 7]) (use loop_on [of "task_at True (Some AtLoop) None Outside"] in \<open>simp add: facts\<close>)
  have 9: "task_reachable (task_at True (Some AtClean) None WantStop)"
    by (rule go [OF 8]) (use call_Stop [of "task_at True (Some AtClean) None Outside" 0] in \<open>simp add: facts\<close>)
  have 10: "task_reachable (task_at True (Some AtClean) (Some 0) StopStore)"
    by (rule go [OF 9]) (use lock_Stop [of "task_at True (Some AtClean) None WantStop" 0] in \<open>simp add: facts\<close>)
  show "task_reachable (task_at False (Some AtClean) (Some 0) StopJoin)"
    by (rule go [OF 10]) (use Stop_store [of "task_at True (Some AtClean) (Some 0) StopStore" 0] in \<open>simp add: facts\<close>)
qed

subsection \<open>Properties\<close>

text \<open>C14: However \<open>Start\<close> and \<open>Stop\<close> are called from however many threads, the assignment to \<open>thread_\<close>
  never hits a thread that is still joinable (which would end the program), at most one caller
  is inside, and whenever no call is in progress the task has a live worker exactly if it is
  running and no thread left to join otherwise.\<close>

theorem cleanup_task_safe:
  assumes "task_reachable s"
  shows "\<not> tc_aborted s
    \<and> (holding (tc_callers s t) \<longrightarrow> holding (tc_callers s t') \<longrightarrow> t = t')
    \<and> (tc_mutex s = None \<longrightarrow> (if tc_running s then alive (tc_thread s) else tc_thread s = None))
    \<and> (tc_callers s t = StartSpawn \<longrightarrow> tc_thread s = None)"
proof -
  note inv = task_reachable_inv [OF assms]
  have "tc_thread s = None" if "tc_callers s t = StartSpawn"
    using inv task_inv_holder(2) [OF inv, of t] that by (simp add: task_inv_def holding_def)
  then show ?thesis using inv by (auto simp: task_inv_def position_def)
qed

theorem cleanup_task_safe_witness:
  "\<not> tc_aborted (task_at True (Some AtClean) None Outside)
    \<and> (if tc_running (task_at True (Some AtClean) None Outside) then alive (tc_thread (task_at True (Some AtClean) None Outside))
       else tc_thread (task_at True (Some AtClean) None Outside) = None)"
  using cleanup_task_safe [OF task_example(1), of 0 0] by (simp add: task_at_def)

text \<open>C13: \<open>Stop\<close> returns: once it has cleared the flag and waits for the worker, the worker is at most
  three steps from its end; it can always take the next one (where a round of cleaning returns),
  each brings it nearer, no other thread can raise the flag again or start another worker, and
  when it has ended \<open>Stop\<close> can go on.\<close>

theorem cleanup_stop_returns:
  fixes s :: "'w TokenCleanupTask"
  assumes "task_reachable s" and "tc_callers s t = StopJoin"
    and "\<And>w. \<exists>w'. clean_round (tc_token_repo s) w = (Inr (), w')"
  shows "worker_left (tc_thread s) \<le> 3
    \<and> (0 < worker_left (tc_thread s) \<longrightarrow>
        (\<exists>s'. task_step s Worker s' \<and> worker_left (tc_thread s') < worker_left (tc_thread s)))
    \<and> (worker_left (tc_thread s) = 0 \<longrightarrow> (\<exists>s'. task_step s (Caller t) s' \<and> tc_callers s' t = Unlocking \<and> tc_thread s' = None))
    \<and> (\<forall>a s'. task_step s a s' \<longrightarrow> a = Caller t \<or> tc_callers s' t = StopJoin \<and>
        (if a = Worker then worker_left (tc_thread s') < worker_left (tc_thread s) else tc_thread s' = tc_thread s))"
proof -
  note inv = task_reachable_inv [OF assms(1)]
  have hold: "holding (tc_callers s t)" using assms(2) by (simp add: holding_def)
  have down: "\<not> tc_running s" using inv task_inv_holder(2) [OF inv hold] assms(2) by (simp add: task_inv_def)
  have "worker_left (tc_thread s) \<le> 3" by (cases "tc_thread s" rule: worker_left.cases) simp_all
  moreover have "\<exists>s'. task_step s (Caller t) s' \<and> tc_callers s' t = Unlocking \<and> tc_thread s' = None"
    if "worker_left (tc_thread s) = 0"
    using that Stop_join [OF assms(2)] Stop_no_join [OF assms(2)]
    by (cases "tc_thread s" rule: worker_left.cases) fastforce+
  moreover have "a = Caller t \<or> tc_callers s' t = StopJoin \<and>
        (if a = Worker then worker_left (tc_thread s') < worker_left (tc_thread s) else tc_thread s' = tc_thread s)"
    if st: "task_step s a s'" for a s'
  proof (cases a)
    case Worker
    then show ?thesis using st down worker_step_decreases [of s s'] assms(2) by (auto elim: task_step_Worker)
  next
    case (Caller t')
    then show ?thesis using st other_caller_waits [OF inv hold, of t' s'] assms(2) by auto
  qed
  ultimately show ?thesis using worker_steps [OF down _ assms(3)] by blast
qed


theorem cleanup_stop_returns_witness:
  "\<exists>s'. task_step (task_at False (Some AtClean) (Some 0) StopJoin) Worker s' \<and> worker_left (tc_thread s') < 3"
proof -
  let ?s = "task_at False (Some AtClean) (Some 0) StopJoin"
  have s: "tc_callers ?s 0 = StopJoin" "tc_token_repo ?s = empty_repo" "tc_thread ?s = Some AtClean"
    by (simp_all add: task_at_def TokenCleanupTask_new_def)
  have "\<exists>w'. clean_round (tc_token_repo ?s) w = (Inr (), w')" for w by (simp add: s(2) clean_round_empty)
  from cleanup_stop_returns [OF task_example(2) s(1) this] s(3) show ?thesis by auto
qed

end
