(* ===== verification/Zk_Client.thy ===== *)
theory Zk_Client
  imports Errors
begin

section \<open>The ZooKeeper client\<close>

text \<open>
  \<open>src/discovery/zk_client.cpp\<close>: the wrapper around the C client of ZooKeeper with the watches it
  keeps. The C library with the server behind it is a parameter: functions on some state, as
  members of the record. \<open>zoo_wait\<close> stands for the wait on the condition variable: the session
  states the event thread delivers before the waiting thread goes on. The operations run to
  their end one after the other; the events of the library are operations of their own.
\<close>

subsection \<open>The library\<close>

text \<open>The return codes and states the code compares with.\<close>

definition ZOK :: int where "ZOK = 0"
definition ZNONODE :: int where "ZNONODE = - 101"
definition ZNODEEXISTS :: int where "ZNODEEXISTS = - 110"
definition ZOO_EXPIRED_SESSION_STATE :: int where "ZOO_EXPIRED_SESSION_STATE = - 112"
definition ZOO_CONNECTING_STATE :: int where "ZOO_CONNECTING_STATE = 1"
definition ZOO_ASSOCIATING_STATE :: int where "ZOO_ASSOCIATING_STATE = 2"
definition ZOO_CONNECTED_STATE :: int where "ZOO_CONNECTED_STATE = 3"
definition ZOO_CHILD_EVENT :: int where "ZOO_CHILD_EVENT = 4"
definition ZOO_SESSION_EVENT :: int where "ZOO_SESSION_EVENT = - 1"

lemmas zoo_codes = ZOK_def ZNONODE_def ZNODEEXISTS_def ZOO_EXPIRED_SESSION_STATE_def ZOO_CONNECTING_STATE_def
  ZOO_ASSOCIATING_STATE_def ZOO_CONNECTED_STATE_def ZOO_CHILD_EVENT_def ZOO_SESSION_EVENT_def

record 'z zookeeper =
  zoo_init :: "string \<Rightarrow> int \<Rightarrow> 'z \<Rightarrow> bool \<times> 'z"
  zoo_wait :: "int \<Rightarrow> 'z \<Rightarrow> int list \<times> 'z"
  zoo_close :: "'z \<Rightarrow> unit \<times> 'z"
  zoo_state :: "'z \<Rightarrow> int \<times> 'z"
  zoo_create :: "string \<Rightarrow> string \<Rightarrow> bool \<Rightarrow> 'z \<Rightarrow> int \<times> 'z"
  zoo_delete :: "string \<Rightarrow> 'z \<Rightarrow> int \<times> 'z"
  zoo_exists :: "string \<Rightarrow> 'z \<Rightarrow> int \<times> 'z"
  zoo_set :: "string \<Rightarrow> string \<Rightarrow> 'z \<Rightarrow> int \<times> 'z"
  zoo_get :: "string \<Rightarrow> nat \<Rightarrow> 'z \<Rightarrow> (int \<times> string) \<times> 'z"
  zoo_get_children :: "string \<Rightarrow> 'z \<Rightarrow> (int \<times> string list) \<times> 'z"
  zoo_wget_children :: "string \<Rightarrow> 'z \<Rightarrow> (int \<times> string list) \<times> 'z"
  zoo_env :: 'z

subsection \<open>The client\<close>

text \<open>The handle \<open>zh_\<close> is only compared with null. The type \<open>'c\<close> is that of the callbacks.\<close>

record ('z, 'c) ZooKeeperClient = "'z zookeeper" +
  zc_hosts :: string
  zc_session_timeout_ms :: int
  zc_zh :: bool
  zc_connected :: bool
  zc_closing :: bool
  zc_watches :: "'c cmap"

definition zcall :: "(('z, 'c) ZooKeeperClient \<Rightarrow> 'z \<Rightarrow> 'a \<times> 'z) \<Rightarrow> (('z, 'c) ZooKeeperClient, 'a) io" where
  "zcall f = (\<lambda>c. case f c (zoo_env c) of (a, e) \<Rightarrow> (Inr a, c\<lparr>zoo_env := e\<rparr>))"

text \<open>A C string ends at the first NUL.\<close>

definition c_str :: "string \<Rightarrow> string" where
  "c_str s = takeWhile (\<lambda>c. c \<noteq> CHR 0x00) s"

subsection \<open>Events\<close>

definition HandleSessionEvent :: "int \<Rightarrow> ('z, 'c) ZooKeeperClient \<Rightarrow> ('z, 'c) ZooKeeperClient" where
  "HandleSessionEvent st c =
     (if zc_closing c then c
      else if st = ZOO_CONNECTED_STATE then c\<lparr>zc_connected := True\<rparr>
      else if st = ZOO_EXPIRED_SESSION_STATE then c\<lparr>zc_connected := False\<rparr>
      else if st = ZOO_CONNECTING_STATE then c\<lparr>zc_connected := False\<rparr>
      else c)"

subsection \<open>Connection\<close>

definition Connect :: "int \<Rightarrow> (('z, 'c) ZooKeeperClient, bool) io" where
  "Connect timeout_ms =
     bindE (asks (\<lambda>c. zc_zh c \<and> zc_connected c)) (\<lambda>already.
     if already then ret True else
     bindE (asks zc_zh) (\<lambda>zh.
     bindE (if zh then bindE (zcall (\<lambda>c. zoo_close c)) (\<lambda>_. modify (\<lambda>c. c\<lparr>zc_zh := False\<rparr>)) else ret ()) (\<lambda>_.
     bindE (modify (\<lambda>c. c\<lparr>zc_connected := False, zc_closing := False\<rparr>)) (\<lambda>_.
     bindE (zcall (\<lambda>c. zoo_init c (c_str (zc_hosts c)) (zc_session_timeout_ms c))) (\<lambda>made.
     bindE (modify (\<lambda>c. c\<lparr>zc_zh := made\<rparr>)) (\<lambda>_.
     if \<not> made then ret False else
     bindE (zcall (\<lambda>c. zoo_wait c timeout_ms)) (\<lambda>events.
     bindE (modify (fold HandleSessionEvent events)) (\<lambda>_.
     bindE (asks zc_connected) (\<lambda>success.
     if \<not> success then
       bindE (zcall (\<lambda>c. zoo_close c)) (\<lambda>_.
       bindE (modify (\<lambda>c. c\<lparr>zc_zh := False\<rparr>)) (\<lambda>_. ret False))
     else ret True)))))))))"

definition Close :: "(('z, 'c) ZooKeeperClient, unit) io" where
  "Close =
     bindE (modify (\<lambda>c. c\<lparr>zc_closing := True\<rparr>)) (\<lambda>_.
     bindE (modify (\<lambda>c. c\<lparr>zc_watches := []\<rparr>)) (\<lambda>_.
     bindE (asks zc_zh) (\<lambda>zh.
     if zh then
       bindE (zcall (\<lambda>c. zoo_close c)) (\<lambda>_. modify (\<lambda>c. c\<lparr>zc_zh := False, zc_connected := False\<rparr>))
     else ret ())))"

text \<open>The constructor, on what the library is, and the destructor.\<close>

definition ZooKeeperClient_new :: "'z zookeeper \<Rightarrow> string \<Rightarrow> int \<Rightarrow> ('z, 'c) ZooKeeperClient" where
  "ZooKeeperClient_new lib hosts session_timeout_ms = zookeeper.extend lib
     \<lparr>zc_hosts = hosts, zc_session_timeout_ms = session_timeout_ms, zc_zh = False, zc_connected = False,
       zc_closing = False, zc_watches = []\<rparr>"

definition ZooKeeperClient_delete :: "(('z, 'c) ZooKeeperClient, unit) io" where
  "ZooKeeperClient_delete = Close"

definition IsConnected :: "(('z, 'c) ZooKeeperClient, bool) io" where
  "IsConnected =
     bindE (asks (\<lambda>c. zc_zh c \<and> zc_connected c \<and> \<not> zc_closing c)) (\<lambda>flags.
     if \<not> flags then ret False
     else bindE (zcall (\<lambda>c. zoo_state c)) (\<lambda>st. ret (st = ZOO_CONNECTED_STATE)))"

subsection \<open>Nodes\<close>

definition DeleteNode :: "string \<Rightarrow> (('z, 'c) ZooKeeperClient, bool) io" where
  "DeleteNode path =
     bindE IsConnected (\<lambda>up.
     if \<not> up then ret False else
     bindE (zcall (\<lambda>c. zoo_delete c (c_str path))) (\<lambda>rc.
     ret (rc = ZOK \<or> rc = ZNONODE)))"

definition Exists :: "string \<Rightarrow> (('z, 'c) ZooKeeperClient, bool) io" where
  "Exists path =
     bindE IsConnected (\<lambda>up.
     if \<not> up then ret False else
     bindE (zcall (\<lambda>c. zoo_exists c (c_str path))) (\<lambda>rc. ret (rc = ZOK)))"

definition SetData :: "string \<Rightarrow> string \<Rightarrow> (('z, 'c) ZooKeeperClient, bool) io" where
  "SetData path dat =
     bindE IsConnected (\<lambda>up.
     if \<not> up then ret False else
     bindE (zcall (\<lambda>c. zoo_set c (c_str path) dat)) (\<lambda>rc. ret (rc = ZOK)))"

definition recover_ephemeral :: "string \<Rightarrow> string \<Rightarrow> (('z, 'c) ZooKeeperClient, bool) io" where
  "recover_ephemeral path dat =
     bindE (DeleteNode path) (\<lambda>deleted.
     bindE (if deleted
            then bindE (zcall (\<lambda>c. zoo_create c (c_str path) dat True)) (\<lambda>rc. ret (rc = ZOK))
            else ret False) (\<lambda>recreated.
     if recreated then ret True else SetData path dat))"

definition CreateNode :: "string \<Rightarrow> string \<Rightarrow> bool \<Rightarrow> (('z, 'c) ZooKeeperClient, bool) io" where
  "CreateNode path dat ephemeral =
     bindE IsConnected (\<lambda>up.
     if \<not> up then ret False else
     bindE (zcall (\<lambda>c. zoo_create c (c_str path) dat ephemeral)) (\<lambda>rc.
     if rc = ZOK then ret True
     else if rc = ZNODEEXISTS then (if ephemeral then recover_ephemeral path dat else ret True)
     else ret False))"

text \<open>The tokens \<open>std::getline(ss, token, '/')\<close> gives: nothing follows a final separator.\<close>

function getlines :: "string \<Rightarrow> string list" where
  "getlines s = (if s = [] then [] else
     takeWhile (\<lambda>c. c \<noteq> CHR ''/'') s #
     (case dropWhile (\<lambda>c. c \<noteq> CHR ''/'') s of [] \<Rightarrow> [] | _ # rest \<Rightarrow> getlines rest))"
  by pat_completeness auto

termination
proof (relation "measure length")
  fix s x21 x22
  assume "dropWhile (\<lambda>c. c \<noteq> CHR ''/'') s = x21 # (x22 :: string)"
  then have "Suc (length x22) \<le> length s" using length_dropWhile_le [of "\<lambda>c. c \<noteq> CHR ''/''" s] by simp
  then show "(x22, s) \<in> measure length" by simp
qed simp

declare getlines.simps [simp del]

fun create_path :: "string \<Rightarrow> string list \<Rightarrow> (('z, 'c) ZooKeeperClient, bool) io" where
  "create_path current [] = ret True"
| "create_path current (token # tokens) =
     (if token = [] then create_path current tokens else
      let current' = current @ ''/'' @ token in
      bindE (Exists current') (\<lambda>there.
      bindE (if \<not> there then CreateNode current' [] False else ret True) (\<lambda>made.
      if \<not> made then ret False else create_path current' tokens)))"

definition CreateServicePath :: "string \<Rightarrow> (('z, 'c) ZooKeeperClient, bool) io" where
  "CreateServicePath path =
     bindE IsConnected (\<lambda>up.
     if \<not> up then ret False else create_path [] (getlines path))"

definition kMaxDataSize :: nat where "kMaxDataSize = 65536"

definition GetData :: "string \<Rightarrow> (('z, 'c) ZooKeeperClient, string) io" where
  "GetData path =
     bindE IsConnected (\<lambda>up.
     if \<not> up then ret [] else
     bindE (zcall (\<lambda>c. zoo_get c (c_str path) kMaxDataSize)) (\<lambda>(rc, buffer).
     ret (if rc = ZOK \<and> buffer \<noteq> [] then buffer else [])))"

definition GetChildren :: "string \<Rightarrow> (('z, 'c) ZooKeeperClient, string list) io" where
  "GetChildren path =
     bindE IsConnected (\<lambda>up.
     if \<not> up then ret [] else
     bindE (zcall (\<lambda>c. zoo_get_children c (c_str path))) (\<lambda>(rc, children).
     ret (if rc = ZOK then children else [])))"

subsection \<open>Watches\<close>

definition WatchChildren :: "string \<Rightarrow> 'c \<Rightarrow> (('z, 'c) ZooKeeperClient, unit) io" where
  "WatchChildren path callback =
     bindE IsConnected (\<lambda>up.
     bindE (asks zc_closing) (\<lambda>closing.
     if \<not> up \<or> closing then ret () else
     bindE (modify (\<lambda>c. c\<lparr>zc_watches := map_put path callback (zc_watches c)\<rparr>)) (\<lambda>_.
     bindE (zcall (\<lambda>c. zoo_wget_children c (c_str path))) (\<lambda>_. ret ()))))"

definition map_erase :: "string \<Rightarrow> 'v cmap \<Rightarrow> 'v cmap" where
  "map_erase k m = filter (\<lambda>kv. fst kv \<noteq> k) m"

definition UnwatchChildren :: "string \<Rightarrow> (('z, 'c) ZooKeeperClient, unit) io" where
  "UnwatchChildren path = modify (\<lambda>c. c\<lparr>zc_watches := map_erase path (zc_watches c)\<rparr>)"

definition ResetWatch :: "string \<Rightarrow> (('z, 'c) ZooKeeperClient, unit) io" where
  "ResetWatch path =
     bindE (asks (\<lambda>c. zc_closing c \<or> map_of (zc_watches c) path = None)) (\<lambda>stop.
     if stop then ret () else
     bindE IsConnected (\<lambda>up.
     if \<not> up then ret () else
     bindE (zcall (\<lambda>c. zoo_wget_children c (c_str path))) (\<lambda>_. ret ())))"

text \<open>A child event copies the callback, runs it, whatever it throws, and sets the watch again. The
  callback \<open>run cb\<close> belongs to a larger object, of which the client is the member \<open>g\<close>.\<close>

definition HandleChildEvent ::
  "('w \<Rightarrow> ('z, 'c) ZooKeeperClient) \<Rightarrow> (('z, 'c) ZooKeeperClient \<Rightarrow> 'w \<Rightarrow> 'w) \<Rightarrow> ('c \<Rightarrow> string \<Rightarrow> ('w, unit) io)
     \<Rightarrow> string \<Rightarrow> ('w, unit) io" where
  "HandleChildEvent g p run path =
     bindE (asks (\<lambda>w. if zc_closing (g w) then None else map_of (zc_watches (g w)) path)) (\<lambda>callback.
     case callback of
       None \<Rightarrow> ret ()
     | Some cb \<Rightarrow>
         bindE (try_catch (run cb path) (\<lambda>e. ret ())) (\<lambda>_.
         bindE (asks (\<lambda>w. zc_closing (g w))) (\<lambda>closing.
         if closing then ret () else zoom g p (ResetWatch path))))"

definition GlobalWatcher ::
  "('w \<Rightarrow> ('z, 'c) ZooKeeperClient) \<Rightarrow> (('z, 'c) ZooKeeperClient \<Rightarrow> 'w \<Rightarrow> 'w) \<Rightarrow> ('c \<Rightarrow> string \<Rightarrow> ('w, unit) io)
     \<Rightarrow> int \<Rightarrow> int \<Rightarrow> string option \<Rightarrow> ('w, unit) io" where
  "GlobalWatcher g p run ty st path =
     bindE (asks (\<lambda>w. zc_closing (g w))) (\<lambda>closing.
     if closing then ret ()
     else if ty = ZOO_SESSION_EVENT then modify (\<lambda>w. p (HandleSessionEvent st (g w)) w)
     else if ty = ZOO_CHILD_EVENT then (case path of None \<Rightarrow> ret () | Some x \<Rightarrow> HandleChildEvent g p run x)
     else ret ())"

subsection \<open>The methods other components call\<close>

record ('w, 'c) zk_methods =
  zk_IsConnected :: "('w, bool) io"
  zk_CreateNode :: "string \<Rightarrow> string \<Rightarrow> bool \<Rightarrow> ('w, bool) io"
  zk_CreateServicePath :: "string \<Rightarrow> ('w, bool) io"
  zk_DeleteNode :: "string \<Rightarrow> ('w, bool) io"
  zk_SetData :: "string \<Rightarrow> string \<Rightarrow> ('w, bool) io"
  zk_GetData :: "string \<Rightarrow> ('w, string) io"
  zk_GetChildren :: "string \<Rightarrow> ('w, string list) io"
  zk_WatchChildren :: "string \<Rightarrow> 'c \<Rightarrow> ('w, unit) io"
  zk_UnwatchChildren :: "string \<Rightarrow> ('w, unit) io"

definition zk_client :: "(('z, 'c) ZooKeeperClient, 'c) zk_methods" where
  "zk_client = \<lparr>zk_IsConnected = IsConnected, zk_CreateNode = CreateNode, zk_CreateServicePath = CreateServicePath,
     zk_DeleteNode = DeleteNode, zk_SetData = SetData, zk_GetData = GetData, zk_GetChildren = GetChildren,
     zk_WatchChildren = WatchChildren, zk_UnwatchChildren = UnwatchChildren\<rparr>"


subsection \<open>A reachable server\<close>

text \<open>\<open>V s\<close> is the tree of nodes in state \<open>s\<close>: the data of each path and whether the node is
  ephemeral. In a state that is \<open>up\<close> the session is connected and every call has its documented
  outcome; nobody else changes the tree meanwhile.\<close>

definition child_names :: "(string \<rightharpoonup> string \<times> bool) \<Rightarrow> string \<Rightarrow> string set" where
  "child_names T q = {t. t \<noteq> [] \<and> CHR ''/'' \<notin> set t \<and> T (q @ ''/'' @ t) \<noteq> None}"

definition plain :: "string \<Rightarrow> bool" where
  "plain s \<longleftrightarrow> CHR 0x00 \<notin> set s"

definition zoo_prompt :: "('z \<Rightarrow> string \<rightharpoonup> string \<times> bool) \<Rightarrow> ('z \<Rightarrow> bool) \<Rightarrow> ('z, 'x) zookeeper_scheme \<Rightarrow> bool" where
  "zoo_prompt V up h \<longleftrightarrow>
     (\<forall>s. up s \<longrightarrow> (\<exists>s'. zoo_state h s = (ZOO_CONNECTED_STATE, s') \<and> up s' \<and> V s' = V s)) \<and>
     (\<forall>p t d e s. up s \<longrightarrow> t \<noteq> [] \<longrightarrow> CHR ''/'' \<notin> set t \<longrightarrow> plain (p @ ''/'' @ t) \<longrightarrow> V s (p @ ''/'' @ t) = None
        \<longrightarrow> p = [] \<or> (\<exists>x. V s p = Some (x, False))
        \<longrightarrow> (\<exists>s'. zoo_create h (p @ ''/'' @ t) d e s = (ZOK, s') \<and> up s' \<and> V s' = (V s)(p @ ''/'' @ t \<mapsto> (d, e)))) \<and>
     (\<forall>q d e s. up s \<longrightarrow> V s q \<noteq> None \<longrightarrow> (\<exists>s'. zoo_create h q d e s = (ZNODEEXISTS, s') \<and> up s' \<and> V s' = V s)) \<and>
     (\<forall>q x s. up s \<longrightarrow> V s q = Some (x, True) \<longrightarrow> (\<exists>s'. zoo_delete h q s = (ZOK, s') \<and> up s' \<and> V s' = (V s)(q := None))) \<and>
     (\<forall>q s. up s \<longrightarrow> V s q = None \<longrightarrow> (\<exists>s'. zoo_delete h q s = (ZNONODE, s') \<and> up s' \<and> V s' = V s)) \<and>
     (\<forall>q s. up s \<longrightarrow> (\<exists>s'. zoo_exists h q s = ((if V s q = None then ZNONODE else ZOK), s') \<and> up s' \<and> V s' = V s)) \<and>
     (\<forall>q x e d s. up s \<longrightarrow> V s q = Some (x, e) \<longrightarrow> (\<exists>s'. zoo_set h q d s = (ZOK, s') \<and> up s' \<and> V s' = (V s)(q \<mapsto> (d, e)))) \<and>
     (\<forall>q n s. up s \<longrightarrow> (\<exists>b s'. zoo_get h q n s =
        ((case V s q of None \<Rightarrow> (ZNONODE, b) | Some (d, e) \<Rightarrow> (ZOK, take n d)), s') \<and> up s' \<and> V s' = V s)) \<and>
     (\<forall>q s. up s \<longrightarrow> V s q \<noteq> None \<longrightarrow> (\<exists>names s'. zoo_get_children h q s = ((ZOK, names), s') \<and> up s' \<and> V s' = V s
        \<and> set names = child_names (V s) q \<and> list_all plain names)) \<and>
     (\<forall>q s. up s \<longrightarrow> (\<exists>a s'. zoo_wget_children h q s = (a, s') \<and> up s' \<and> V s' = V s))"

lemmas zoo_promptD =
  zoo_prompt_def [THEN iffD1, THEN conjunct1, rule_format]
  zoo_prompt_def [THEN iffD1, THEN conjunct2, THEN conjunct1, rule_format]
  zoo_prompt_def [THEN iffD1, THEN conjunct2, THEN conjunct2, THEN conjunct1, rule_format]
  zoo_prompt_def [THEN iffD1, THEN conjunct2, THEN conjunct2, THEN conjunct2, THEN conjunct1, rule_format]
  zoo_prompt_def [THEN iffD1, THEN conjunct2, THEN conjunct2, THEN conjunct2, THEN conjunct2, THEN conjunct1, rule_format]
  zoo_prompt_def [THEN iffD1, THEN conjunct2, THEN conjunct2, THEN conjunct2, THEN conjunct2, THEN conjunct2, THEN conjunct1, rule_format]
  zoo_prompt_def [THEN iffD1, THEN conjunct2, THEN conjunct2, THEN conjunct2, THEN conjunct2, THEN conjunct2, THEN conjunct2, THEN conjunct1, rule_format]
  zoo_prompt_def [THEN iffD1, THEN conjunct2, THEN conjunct2, THEN conjunct2, THEN conjunct2, THEN conjunct2, THEN conjunct2, THEN conjunct2, THEN conjunct1, rule_format]
  zoo_prompt_def [THEN iffD1, THEN conjunct2, THEN conjunct2, THEN conjunct2, THEN conjunct2, THEN conjunct2, THEN conjunct2, THEN conjunct2, THEN conjunct2, THEN conjunct1, rule_format]
  zoo_prompt_def [THEN iffD1, THEN conjunct2, THEN conjunct2, THEN conjunct2, THEN conjunct2, THEN conjunct2, THEN conjunct2, THEN conjunct2, THEN conjunct2, THEN conjunct2, rule_format]

lemma zoo_prompt_env [simp]: "zoo_prompt V up (c\<lparr>zoo_env := s\<rparr>) = zoo_prompt V up c"
  by (simp add: zoo_prompt_def)

lemma zoo_prompt_watches [simp]: "zoo_prompt V up (c\<lparr>zc_watches := x\<rparr>) = zoo_prompt V up c"
  by (simp add: zoo_prompt_def)

text \<open>A client with an open session to such a server.\<close>

definition zk_live :: "('z \<Rightarrow> string \<rightharpoonup> string \<times> bool) \<Rightarrow> ('z \<Rightarrow> bool) \<Rightarrow> ('z, 'c) ZooKeeperClient \<Rightarrow> bool" where
  "zk_live V up c \<longleftrightarrow> zoo_prompt V up c \<and> up (zoo_env c) \<and> zc_zh c \<and> zc_connected c \<and> \<not> zc_closing c"

lemma zk_live_env: "zk_live V up c \<Longrightarrow> up s \<Longrightarrow> zk_live V up (c\<lparr>zoo_env := s\<rparr>)"
  by (simp add: zk_live_def)

lemma IsConnected_live:
  assumes "zk_live V up c"
  shows "\<exists>s. IsConnected c = (Inr True, c\<lparr>zoo_env := s\<rparr>) \<and> up s \<and> V s = V (zoo_env c)"
  using zoo_promptD(1) [of V up c "zoo_env c"] assms
  by (auto simp: IsConnected_def zk_live_def asks_def zcall_def bindE_def ret_def)

lemma c_str_plain [simp]: "plain s \<Longrightarrow> c_str s = s"
  unfolding plain_def c_str_def by (rule takeWhile_eq_all_conv [THEN iffD2]) auto

lemma plain_append [simp]: "plain (a @ b) \<longleftrightarrow> plain a \<and> plain b"
  by (auto simp: plain_def)

lemma plain_slash [simp]: "plain (CHR ''/'' # s) = plain s"
  by (simp add: plain_def)

text \<open>What an operation on a live client leaves: a live client on the tree \<open>T\<close>.\<close>

definition zk_on :: "('z \<Rightarrow> string \<rightharpoonup> string \<times> bool) \<Rightarrow> ('z \<Rightarrow> bool) \<Rightarrow> (string \<rightharpoonup> string \<times> bool)
    \<Rightarrow> ('z, 'c) ZooKeeperClient \<Rightarrow> bool" where
  "zk_on V up T c \<longleftrightarrow> zk_live V up c \<and> V (zoo_env c) = T"

lemma zk_on_env:
  "zk_on V up T c \<Longrightarrow> up s \<Longrightarrow> V s = T' \<Longrightarrow> zk_on V up T' (c\<lparr>zoo_env := s\<rparr>)"
  by (simp add: zk_on_def zk_live_env)

text \<open>One call of the library in such a state.\<close>

lemma zk_on_call:
  assumes on: "zk_on V up T c"
    and outcome: "\<And>s. zoo_prompt V up c \<Longrightarrow> up s \<Longrightarrow> V s = T \<Longrightarrow> \<exists>s'. f s = (a, s') \<and> up s' \<and> V s' = T'"
    and f: "\<And>s. f' (c\<lparr>zoo_env := s\<rparr>) = f" "f' c = f"
  shows "\<exists>c'. zcall f' c = (Inr a, c') \<and> zk_on V up T' c'"
proof -
  have "zoo_prompt V up c" "up (zoo_env c)" "V (zoo_env c) = T"
    using on by (simp_all add: zk_on_def zk_live_def)
  from outcome [OF this] obtain s' where s': "f (zoo_env c) = (a, s')" "up s'" "V s' = T'" by blast
  have "zcall f' c = (Inr a, c\<lparr>zoo_env := s'\<rparr>)" using s'(1) f(2) by (simp add: zcall_def)
  moreover have "zk_on V up T' (c\<lparr>zoo_env := s'\<rparr>)" using on s'(2,3) by (rule zk_on_env)
  ultimately show ?thesis by blast
qed

lemma IsConnected_on:
  assumes "zk_on V up T c"
  shows "\<exists>c'. IsConnected c = (Inr True, c') \<and> zk_on V up T c'"
proof -
  obtain s where s: "IsConnected c = (Inr True, c\<lparr>zoo_env := s\<rparr>)" "up s" "V s = V (zoo_env c)"
    using IsConnected_live [of V up c] assms unfolding zk_on_def by blast
  have "zk_on V up T (c\<lparr>zoo_env := s\<rparr>)"
    using assms s(2) by (rule zk_on_env) (use assms s(3) in \<open>simp add: zk_on_def\<close>)
  then show ?thesis using s(1) by blast
qed

lemma on_connected:
  assumes on: "zk_on V up T c"
    and call: "\<And>c. zk_on V up T c \<Longrightarrow> \<exists>c'. k c = (Inr a, c') \<and> zk_on V up T' c'"
  shows "\<exists>c'. bindE IsConnected (\<lambda>up. if \<not> up then no else k) c = (Inr a, c') \<and> zk_on V up T' c'"
proof -
  obtain c1 where c1: "IsConnected c = (Inr True, c1)" "zk_on V up T c1"
    using IsConnected_on [OF on] by blast
  then show ?thesis using call [OF c1(2)] by (simp add: bindE_def)
qed

lemma on_bind:
  assumes "\<exists>c'. m c = (Inr a, c') \<and> P c'"
    and "\<And>c'. P c' \<Longrightarrow> \<exists>c''. k a c' = (Inr b, c'') \<and> Q c''"
  shows "\<exists>c''. bindE m k c = (Inr b, c'') \<and> Q c''"
  using assms by (force simp: bindE_def)

lemma on_ret: "P c \<Longrightarrow> a = b \<Longrightarrow> \<exists>c'. ret a c = (Inr b, c') \<and> P c'"
  by (simp add: ret_def)

text \<open>The operations that ask for the connection and make one call.\<close>

lemma on_single:
  assumes on: "zk_on V up T c"
    and outcome: "\<And>c s. zoo_prompt V up c \<Longrightarrow> up s \<Longrightarrow> V s = T \<Longrightarrow> \<exists>s'. f c s = (rc, s') \<and> up s' \<and> V s' = T'"
    and f: "\<And>c s. f (c\<lparr>zoo_env := s\<rparr>) = f c"
    and g: "g rc = ret b"
  shows "\<exists>c'. bindE IsConnected (\<lambda>up. if \<not> up then no else bindE (zcall f) g) c = (Inr b, c') \<and> zk_on V up T' c'"
proof (rule on_connected [OF on])
  fix c :: "('a, 'b) ZooKeeperClient"
  assume on: "zk_on V up T c"
  have "\<exists>c'. zcall f c = (Inr rc, c') \<and> zk_on V up T' c'"
    by (rule zk_on_call [OF on, where f = "f c"]) (use outcome f in auto)
  then show "\<exists>c'. bindE (zcall f) g c = (Inr b, c') \<and> zk_on V up T' c'"
    by (rule on_bind) (simp add: g on_ret)
qed

lemma DeleteNode_on:
  assumes on: "zk_on V up T c" and q: "plain q" "T q = Some (x, True)"
  shows "\<exists>c'. DeleteNode q c = (Inr True, c') \<and> zk_on V up (T(q := None)) c'"
  unfolding DeleteNode_def
  by (rule on_single [OF on, where rc = ZOK]) (use q in \<open>auto intro: zoo_promptD(4)\<close>)

lemma zoo_exists_answer:
  assumes "zoo_prompt V up h" "up s" "V s = T"
  shows "\<exists>s'. zoo_exists h q s = (if T q = None then ZNONODE else ZOK, s') \<and> up s' \<and> V s' = T"
  using zoo_promptD(6) [OF assms(1,2)] assms(3) by simp

lemma Exists_on:
  assumes on: "zk_on V up T c" and q: "plain q"
  shows "\<exists>c'. Exists q c = (Inr (T q \<noteq> None), c') \<and> zk_on V up T c'"
  unfolding Exists_def c_str_plain [OF q]
  by (rule on_single [OF on, where f = "\<lambda>c. zoo_exists c q", OF zoo_exists_answer]) (simp_all add: zoo_codes)

lemma SetData_on:
  assumes on: "zk_on V up T c" and q: "plain q" "T q = Some (x, e)"
  shows "\<exists>c'. SetData q d c = (Inr True, c') \<and> zk_on V up (T(q \<mapsto> (d, e))) c'"
  unfolding SetData_def
  by (rule on_single [OF on, where rc = ZOK]) (use q in \<open>auto intro: zoo_promptD(7)\<close>)

lemma zoo_get_answer:
  assumes "zoo_prompt V up h" "up s" "V s = T" "T q = Some (d, e)" "length d \<le> n"
  shows "\<exists>s'. zoo_get h q n s = ((ZOK, d), s') \<and> up s' \<and> V s' = T"
  using zoo_promptD(8) [OF assms(1,2), of q n] assms(3-) by auto

lemma GetData_on:
  assumes on: "zk_on V up T c" and q: "plain q" "T q = Some (d, e)" and d: "length d \<le> kMaxDataSize"
  shows "\<exists>c'. GetData q c = (Inr d, c') \<and> zk_on V up T c'"
  unfolding GetData_def c_str_plain [OF q(1)]
  by (rule on_single [OF on, where f = "\<lambda>c. zoo_get c q kMaxDataSize", OF zoo_get_answer])
    (use q(2) d in auto)

lemma GetChildren_on:
  assumes on: "zk_on V up T c" and q: "plain q" "T q \<noteq> None"
  shows "\<exists>names c'. GetChildren q c = (Inr names, c') \<and> zk_on V up T c'
    \<and> set names = child_names T q \<and> list_all plain names"
proof -
  obtain c1 where c1: "IsConnected c = (Inr True, c1)" "zk_on V up T c1"
    using IsConnected_on [OF on] by blast
  then have up: "zoo_prompt V up c1" "up (zoo_env c1)" "V (zoo_env c1) = T"
    by (simp_all add: zk_on_def zk_live_def)
  obtain names s' where s': "zoo_get_children c1 q (zoo_env c1) = ((ZOK, names), s')" "up s'" "V s' = T"
      and names: "set names = child_names T q" "list_all plain names"
    using zoo_promptD(9) [OF up(1,2), of q] q(2) up(3) by auto
  have "GetChildren q c = (Inr names, c1\<lparr>zoo_env := s'\<rparr>)"
    using c1(1) s'(1) q(1) by (simp add: GetChildren_def bindE_def zcall_def ret_def)
  then show ?thesis using zk_on_env [OF c1(2) s'(2,3)] names by blast
qed

lemma WatchChildren_on:
  assumes on: "zk_on V up T c"
  shows "\<exists>c'. WatchChildren q cb c = (Inr (), c') \<and> zk_on V up T c'"
proof -
  obtain c1 where c1: "IsConnected c = (Inr True, c1)" "zk_on V up T c1"
    using IsConnected_on [OF on] by blast
  let ?c2 = "c1\<lparr>zc_watches := map_put q cb (zc_watches c1)\<rparr>"
  have c2: "zk_on V up T ?c2" using c1(2) by (simp add: zk_on_def zk_live_def)
  then obtain a s' where s': "zoo_wget_children c1 (c_str q) (zoo_env c1) = (a, s')" "up s'" "V s' = T"
    using zoo_promptD(10) [of V up ?c2 "zoo_env c1" "c_str q"] by (auto simp: zk_on_def zk_live_def)
  have "WatchChildren q cb c = (Inr (), ?c2\<lparr>zoo_env := s'\<rparr>)"
    using c1 s'(1) by (simp add: WatchChildren_def bindE_def asks_def modify_def zcall_def ret_def zk_on_def zk_live_def)
  then show ?thesis using zk_on_env [OF c2 s'(2,3)] by blast
qed

text \<open>\<open>CreateNode\<close>: a new node below an existing one (or the root), and an ephemeral node that is
  already there, which is replaced.\<close>

definition token :: "string \<Rightarrow> bool" where
  "token t \<longleftrightarrow> t \<noteq> [] \<and> CHR ''/'' \<notin> set t \<and> plain t"

definition persistent :: "(string \<rightharpoonup> string \<times> bool) \<Rightarrow> string \<Rightarrow> bool" where
  "persistent T p \<longleftrightarrow> p = [] \<or> (\<exists>x. T p = Some (x, False))"

lemma zoo_create_call:
  assumes on: "zk_on V up T c" and t: "token t" "plain p" "persistent T p" and new: "T (p @ ''/'' @ t) = None"
  shows "\<exists>c'. zcall (\<lambda>c. zoo_create c (c_str (p @ ''/'' @ t)) d e) c = (Inr ZOK, c')
    \<and> zk_on V up (T(p @ ''/'' @ t \<mapsto> (d, e))) c'"
  by (rule zk_on_call [OF on, where f = "zoo_create c (p @ ''/'' @ t) d e"])
    (use t new in \<open>auto simp: token_def persistent_def intro!: zoo_promptD(2) [simplified]\<close>)

lemma CreateNode_new:
  assumes on: "zk_on V up T c" and t: "token t" "plain p" "persistent T p" and new: "T (p @ ''/'' @ t) = None"
  shows "\<exists>c'. CreateNode (p @ ''/'' @ t) d e c = (Inr True, c') \<and> zk_on V up (T(p @ ''/'' @ t \<mapsto> (d, e))) c'"
  unfolding CreateNode_def
proof (rule on_connected [OF on])
  fix c :: "('a, 'b) ZooKeeperClient"
  assume "zk_on V up T c"
  from zoo_create_call [OF this t new]
  show "\<exists>c'. bindE (zcall (\<lambda>c. zoo_create c (c_str (p @ ''/'' @ t)) d e)) (\<lambda>rc. if rc = ZOK then ret True
       else if rc = ZNODEEXISTS then (if e then recover_ephemeral (p @ ''/'' @ t) d else ret True) else ret False) c
     = (Inr True, c') \<and> zk_on V up (T(p @ ''/'' @ t \<mapsto> (d, e))) c'"
    by (rule on_bind) (simp add: on_ret)
qed

lemma recover_ephemeral_on:
  assumes on: "zk_on V up T c" and t: "token t" "plain p" "persistent T p"
    and there: "T (p @ ''/'' @ t) = Some (x, True)"
  shows "\<exists>c'. recover_ephemeral (p @ ''/'' @ t) d c = (Inr True, c')
    \<and> zk_on V up (T(p @ ''/'' @ t \<mapsto> (d, True))) c'"
proof -
  let ?q = "p @ ''/'' @ t"
  have q: "plain ?q" using t by (simp add: token_def)
  obtain c1 where c1: "DeleteNode ?q c = (Inr True, c1)" "zk_on V up (T(?q := None)) c1"
    using DeleteNode_on [OF on q there] by blast
  have "persistent (T(?q := None)) p" using t by (auto simp: persistent_def)
  then obtain c2 where "zcall (\<lambda>c. zoo_create c (c_str ?q) d True) c1 = (Inr ZOK, c2)"
      "zk_on V up (T(?q := None, ?q \<mapsto> (d, True))) c2"
    using zoo_create_call [OF c1(2) t(1,2), where d = d and e = True] by auto
  then show ?thesis using c1(1) by (simp add: recover_ephemeral_def bindE_def ret_def)
qed

lemma CreateNode_again:
  assumes on: "zk_on V up T c" and t: "token t" "plain p" "persistent T p"
    and there: "T (p @ ''/'' @ t) = Some (x, True)"
  shows "\<exists>c'. CreateNode (p @ ''/'' @ t) d True c = (Inr True, c') \<and> zk_on V up (T(p @ ''/'' @ t \<mapsto> (d, True))) c'"
  unfolding CreateNode_def
proof (rule on_connected [OF on])
  let ?q = "p @ ''/'' @ t"
  fix c :: "('a, 'b) ZooKeeperClient"
  assume on: "zk_on V up T c"
  have "\<exists>c'. zcall (\<lambda>c. zoo_create c (c_str ?q) d True) c = (Inr ZNODEEXISTS, c') \<and> zk_on V up T c'"
    by (rule zk_on_call [OF on, where f = "zoo_create c ?q d True"])
      (use t there in \<open>auto simp: token_def intro!: zoo_promptD(3)\<close>)
  then show "\<exists>c'. bindE (zcall (\<lambda>c. zoo_create c (c_str ?q) d True)) (\<lambda>rc. if rc = ZOK then ret True
       else if rc = ZNODEEXISTS then (if True then recover_ephemeral ?q d else ret True) else ret False) c
     = (Inr True, c') \<and> zk_on V up (T(?q \<mapsto> (d, True))) c'"
    by (rule on_bind) (use recover_ephemeral_on [OF _ t there] in \<open>simp add: zoo_codes\<close>)
qed

text \<open>\<open>CreateServicePath\<close> makes the nodes of a path that are not there yet.\<close>

definition join :: "string list \<Rightarrow> string" where
  "join ts = concat (map (\<lambda>t. CHR ''/'' # t) ts)"

lemma join_simps [simp]: "join [] = []" "join (t # ts) = CHR ''/'' # t @ join ts" "join (ts @ us) = join ts @ join us"
  by (simp_all add: join_def)

lemma getlines_Nil [simp]: "getlines [] = []"
  by (simp add: getlines.simps)

lemma getlines_slash [simp]: "getlines (CHR ''/'' # s) = [] # getlines s"
  by (simp add: getlines.simps [of "CHR ''/'' # s"])

lemma getlines_token: "token t \<Longrightarrow> list_all token ts \<Longrightarrow> getlines (t @ join ts) = t # ts"
proof (induction ts arbitrary: t)
  case Nil
  then have "\<forall>c\<in>set t. c \<noteq> CHR ''/''" "t \<noteq> []" by (auto simp: token_def)
  then have "takeWhile (\<lambda>c. c \<noteq> CHR ''/'') t = t" "dropWhile (\<lambda>c. c \<noteq> CHR ''/'') t = []" "t \<noteq> []"
    by simp_all
  then show ?case by (subst getlines.simps) (simp del: dropWhile_eq_Nil_conv takeWhile_eq_all_conv)
next
  case (Cons u us)
  have "\<forall>c\<in>set t. c \<noteq> CHR ''/''" using Cons.prems by (auto simp: token_def)
  then have "takeWhile (\<lambda>c. c \<noteq> CHR ''/'') (t @ join (u # us)) = t"
    "dropWhile (\<lambda>c. c \<noteq> CHR ''/'') (t @ join (u # us)) = join (u # us)"
    by (simp_all add: takeWhile_append2 dropWhile_append2)
  then show ?case using Cons by (subst getlines.simps) simp
qed

fun path_free :: "(string \<rightharpoonup> string \<times> bool) \<Rightarrow> string \<Rightarrow> string list \<Rightarrow> bool" where
  "path_free T p [] \<longleftrightarrow> True"
| "path_free T p (t # ts) \<longleftrightarrow> token t \<and> (T (p @ ''/'' @ t) = None \<or> persistent T (p @ ''/'' @ t))
     \<and> path_free T (p @ ''/'' @ t) ts"

fun with_path :: "(string \<rightharpoonup> string \<times> bool) \<Rightarrow> string \<Rightarrow> string list \<Rightarrow> (string \<rightharpoonup> string \<times> bool)" where
  "with_path T p [] = T"
| "with_path T p (t # ts) =
     with_path (if T (p @ ''/'' @ t) = None then T(p @ ''/'' @ t \<mapsto> ([], False)) else T) (p @ ''/'' @ t) ts"

lemma path_free_upd: "path_free T p ts \<Longrightarrow> path_free (T(q \<mapsto> ([], False))) p ts"
  by (induction T p ts rule: path_free.induct) (auto simp: persistent_def)

lemma path_free_tokens: "path_free T p ts \<Longrightarrow> list_all token ts"
  by (induction T p ts rule: path_free.induct) auto

lemma create_path_on:
  assumes "zk_on V up T c" "path_free T p ts" "plain p" "persistent T p"
  shows "\<exists>c'. create_path p ts c = (Inr True, c') \<and> zk_on V up (with_path T p ts) c'"
  using assms
proof (induction ts arbitrary: T p c)
  case Nil
  then show ?case by (simp add: ret_def)
next
  case (Cons t ts)
  let ?q = "p @ ''/'' @ t" and ?T' = "if T (p @ ''/'' @ t) = None then T(p @ ''/'' @ t \<mapsto> ([], False)) else T"
  have t: "token t" and q: "plain ?q" and free: "path_free T ?q ts" using Cons.prems by (auto simp: token_def)
  obtain c1 where c1: "Exists ?q c = (Inr (T ?q \<noteq> None), c1)" "zk_on V up T c1"
    using Exists_on [OF Cons.prems(1) q] by blast
  have "\<exists>c'. (if \<not> (T ?q \<noteq> None) then CreateNode ?q [] False else ret True) c1 = (Inr True, c') \<and> zk_on V up ?T' c'"
  proof (cases "T ?q = None")
    case True
    then show ?thesis using CreateNode_new [OF c1(2) t Cons.prems(3,4) True] by simp
  next
    case False
    then show ?thesis using c1(2) by (auto simp: ret_def)
  qed
  then obtain c2 where c2: "(if \<not> (T ?q \<noteq> None) then CreateNode ?q [] False else ret True) c1 = (Inr True, c2)"
      "zk_on V up ?T' c2" by blast
  have "path_free ?T' ?q ts" "persistent ?T' ?q"
    using free path_free_upd [OF free] Cons.prems(2) by (auto simp: persistent_def)
  note rest = Cons.IH [OF c2(2) this(1) q this(2)]
  have "t \<noteq> []" using t by (simp add: token_def)
  then have "create_path p (t # ts) c = create_path ?q ts c2"
    by (simp only: create_path.simps Let_def if_False bindE_Inr [where m = "Exists ?q", OF c1(1)]
        bindE_Inr [where m = "if \<not> (T ?q \<noteq> None) then CreateNode ?q [] False else ret True", OF c2(1)] not_True_eq_False)
  then show ?case using rest by (simp only: with_path.simps)
qed

lemma CreateServicePath_on:
  assumes on: "zk_on V up T c" and free: "path_free T [] ts"
  shows "\<exists>c'. CreateServicePath (join ts) c = (Inr True, c') \<and> zk_on V up (with_path T [] ts) c'"
  unfolding CreateServicePath_def
proof (rule on_connected [OF on])
  fix c :: "('a, 'b) ZooKeeperClient"
  assume on: "zk_on V up T c"
  have "create_path [] (getlines (join ts)) = (create_path [] ts :: (('a, 'b) ZooKeeperClient, bool) io)"
    using getlines_token path_free_tokens [OF free] by (cases ts) auto
  then show "\<exists>c'. create_path [] (getlines (join ts)) c = (Inr True, c') \<and> zk_on V up (with_path T [] ts) c'"
    using create_path_on [OF on free] by (simp add: plain_def persistent_def)
qed

subsection \<open>The interface\<close>

text \<open>What registration and discovery rely on: \<open>on T w\<close> says that in the state \<open>w\<close> the client
  has a session and the tree of nodes is \<open>T\<close>.\<close>

locale znode_store =
  fixes zk :: "('w, unit) zk_methods" and "on" :: "(string \<rightharpoonup> string \<times> bool) \<Rightarrow> 'w \<Rightarrow> bool"
  assumes connected: "on T w \<Longrightarrow> \<exists>w'. zk_IsConnected zk w = (Inr True, w') \<and> on T w'"
    and make_path: "on T w \<Longrightarrow> path_free T [] ts
      \<Longrightarrow> \<exists>w'. zk_CreateServicePath zk (join ts) w = (Inr True, w') \<and> on (with_path T [] ts) w'"
    and make_node: "on T w \<Longrightarrow> token t \<Longrightarrow> plain p \<Longrightarrow> persistent T p
      \<Longrightarrow> T (p @ ''/'' @ t) = None \<or> (\<exists>x. T (p @ ''/'' @ t) = Some (x, True))
      \<Longrightarrow> \<exists>w'. zk_CreateNode zk (p @ ''/'' @ t) dat True w = (Inr True, w') \<and> on (T(p @ ''/'' @ t \<mapsto> (dat, True))) w'"
    and delete_node: "on T w \<Longrightarrow> plain q \<Longrightarrow> T q = Some (x, True)
      \<Longrightarrow> \<exists>w'. zk_DeleteNode zk q w = (Inr True, w') \<and> on (T(q := None)) w'"
    and set_data: "on T w \<Longrightarrow> plain q \<Longrightarrow> T q = Some (x, e)
      \<Longrightarrow> \<exists>w'. zk_SetData zk q dat w = (Inr True, w') \<and> on (T(q \<mapsto> (dat, e))) w'"
    and get_data: "on T w \<Longrightarrow> plain q \<Longrightarrow> T q = Some (dat, e) \<Longrightarrow> length dat \<le> kMaxDataSize
      \<Longrightarrow> \<exists>w'. zk_GetData zk q w = (Inr dat, w') \<and> on T w'"
    and get_children: "on T w \<Longrightarrow> plain q \<Longrightarrow> T q \<noteq> None
      \<Longrightarrow> \<exists>names w'. zk_GetChildren zk q w = (Inr names, w') \<and> on T w'
           \<and> set names = child_names T q \<and> list_all plain names"
    and watch: "on T w \<Longrightarrow> \<exists>w'. zk_WatchChildren zk q cb w = (Inr (), w') \<and> on T w'"

lemma CreateNode_on:
  assumes "zk_on V up T c" "token t" "plain p" "persistent T p"
    and "T (p @ ''/'' @ t) = None \<or> (\<exists>x. T (p @ ''/'' @ t) = Some (x, True))"
  shows "\<exists>c'. CreateNode (p @ ''/'' @ t) d True c = (Inr True, c') \<and> zk_on V up (T(p @ ''/'' @ t \<mapsto> (d, True))) c'"
  using assms(5)
proof (elim disjE exE)
  assume "T (p @ ''/'' @ t) = None"
  with assms show ?thesis by (intro CreateNode_new)
next
  fix x assume "T (p @ ''/'' @ t) = Some (x, True)"
  with assms show ?thesis by (intro CreateNode_again)
qed

interpretation zk_store: znode_store zk_client "zk_on V up" for V up
  by (unfold_locales; unfold zk_client_def zk_methods.simps)
    (rule IsConnected_on CreateServicePath_on CreateNode_on DeleteNode_on SetData_on GetData_on GetChildren_on
      WatchChildren_on; assumption)+

end
