(* ===== verification/Discovery.thy ===== *)
theory Discovery
  imports Zk_Client
begin

section \<open>Service registration and discovery\<close>

text \<open>
  \<open>include/discovery/service_instance.h\<close>, \<open>src/discovery/service_registry.cpp\<close> and
  \<open>src/discovery/service_discovery.cpp\<close>. The JSON library is a parameter: \<open>dump\<close>, which
  throws at a string that is not UTF-8, and \<open>parse\<close>, on JSON values. The random number of a selection is a parameter of the same kind as the other
  functions of the system.
\<close>

subsection \<open>Service instances\<close>

text \<open>JSON values; a number that is not an integer is given by its integer part, which is what a
  conversion to \<open>int\<close> takes.\<close>

datatype json = JNull | JBool bool | JInt int | JFloat int | JString string | JArray "json list" | JObject "json cmap"

record ServiceInstance =
  si_service_name :: string
  si_instance_id :: string
  si_host :: string
  si_port :: int
  si_weight :: int
  si_metadata :: "string cmap"

definition GetAddress :: "ServiceInstance \<Rightarrow> string" where
  "GetAddress i = si_host i @ '':'' @ to_string (si_port i)"

definition ServiceInstance_ToJson :: "(json \<Rightarrow> exn + string) \<Rightarrow> ServiceInstance \<Rightarrow> exn + string" where
  "ServiceInstance_ToJson dump i = dump (JObject
     (map_put ''metadata'' (JObject (map (\<lambda>(k, v). (k, JString v)) (si_metadata i)))
     (map_put ''weight'' (JInt (si_weight i))
     (map_put ''port'' (JInt (si_port i))
     (map_put ''host'' (JString (si_host i))
     (map_put ''instance_id'' (JString (si_instance_id i))
     (map_put ''service_name'' (JString (si_service_name i)) [])))))))"

text \<open>\<open>j.value(key, default)\<close> and \<open>get<std::map<std::string, std::string>>()\<close>; \<open>None\<close> where they throw.\<close>

definition value_string :: "json \<Rightarrow> string \<Rightarrow> string \<Rightarrow> string option" where
  "value_string j key d = (case j of
       JObject m \<Rightarrow> (case map_of m key of None \<Rightarrow> Some d | Some (JString s) \<Rightarrow> Some s | Some _ \<Rightarrow> None)
     | _ \<Rightarrow> None)"

definition value_int :: "json \<Rightarrow> string \<Rightarrow> int \<Rightarrow> int option" where
  "value_int j key d = (case j of
       JObject m \<Rightarrow> (case map_of m key of
           None \<Rightarrow> Some d
         | Some (JInt n) \<Rightarrow> Some (wrap32 n)
         | Some (JFloat n) \<Rightarrow> Some (wrap32 n)
         | Some (JBool b) \<Rightarrow> Some (if b then 1 else 0)
         | Some _ \<Rightarrow> None)
     | _ \<Rightarrow> None)"

fun strings_of :: "json cmap \<Rightarrow> string cmap option" where
  "strings_of [] = Some []"
| "strings_of ((k, j) # m) =
     (case j of JString s \<Rightarrow> map_option (\<lambda>m'. (k, s) # m') (strings_of m) | _ \<Rightarrow> None)"

definition value_metadata :: "json \<Rightarrow> string cmap option" where
  "value_metadata j = (case j of
       JObject m \<Rightarrow> (case map_of m ''metadata'' of
           None \<Rightarrow> Some []
         | Some (JObject md) \<Rightarrow> strings_of md
         | Some _ \<Rightarrow> None)
     | _ \<Rightarrow> Some [])"

text \<open>An assignment inside the \<open>try\<close> block: once one has thrown, the later ones do not happen, and
  what was assigned stays.\<close>

definition assign :: "('a \<Rightarrow> 'i \<Rightarrow> 'i) \<Rightarrow> 'a option \<Rightarrow> 'i \<times> bool \<Rightarrow> 'i \<times> bool" where
  "assign f v st = (case st of (i, thrown) \<Rightarrow>
     if thrown then (i, True) else (case v of None \<Rightarrow> (i, True) | Some a \<Rightarrow> (f a i, False)))"

text \<open>The member \<open>port\<close> has no initialiser: where it is not assigned it is \<open>indeterminate\<close>.\<close>

definition ServiceInstance_FromJson :: "(string \<Rightarrow> json option) \<Rightarrow> int \<Rightarrow> string \<Rightarrow> ServiceInstance" where
  "ServiceInstance_FromJson parse indeterminate json_str =
     (let blank = \<lparr>si_service_name = [], si_instance_id = [], si_host = [], si_port = indeterminate,
            si_weight = 100, si_metadata = []\<rparr>
      in case parse json_str of
           None \<Rightarrow> blank
         | Some j \<Rightarrow> fst (
             assign (\<lambda>v i. i\<lparr>si_metadata := v\<rparr>) (value_metadata j) (
             assign (\<lambda>v i. i\<lparr>si_weight := v\<rparr>) (value_int j ''weight'' 100) (
             assign (\<lambda>v i. i\<lparr>si_port := v\<rparr>) (value_int j ''port'' 0) (
             assign (\<lambda>v i. i\<lparr>si_host := v\<rparr>) (value_string j ''host'' []) (
             assign (\<lambda>v i. i\<lparr>si_instance_id := v\<rparr>) (value_string j ''instance_id'' []) (
             assign (\<lambda>v i. i\<lparr>si_service_name := v\<rparr>) (value_string j ''service_name'' []) (blank, False))))))))"

definition ServiceInstance_IsValid :: "ServiceInstance \<Rightarrow> bool" where
  "ServiceInstance_IsValid i \<longleftrightarrow> si_host i \<noteq> [] \<and> si_port i > 0"

subsection \<open>The registry\<close>

text \<open>The pointer to the client may be null; \<open>sr_world\<close> is what the methods of the client act on.\<close>

record ('w, 'c) ServiceRegistry =
  sr_zk_client :: "('w, 'c) zk_methods option"
  sr_root_path :: string
  sr_current_instance :: ServiceInstance
  sr_current_path :: string
  sr_registered :: bool
  sr_world :: 'w

abbreviation on_zk :: "('w, 'a) io \<Rightarrow> (('w, 'c) ServiceRegistry, 'a) io" where
  "on_zk \<equiv> zoom sr_world (\<lambda>w r. r\<lparr>sr_world := w\<rparr>)"

definition BuildServicePath :: "string \<Rightarrow> string \<Rightarrow> string" where
  "BuildServicePath root_path service_name = root_path @ ''/'' @ service_name"

definition BuildInstancePath :: "string \<Rightarrow> ServiceInstance \<Rightarrow> string" where
  "BuildInstancePath root_path i = root_path @ ''/'' @ si_service_name i @ ''/'' @ GetAddress i"

definition ServiceRegistry_Register ::
  "(json \<Rightarrow> exn + string) \<Rightarrow> ServiceInstance \<Rightarrow> (('w, 'c) ServiceRegistry, bool) io" where
  "ServiceRegistry_Register dump instance_v =
     bindE (asks sr_zk_client) (\<lambda>client.
     bindE (asks sr_root_path) (\<lambda>root_path.
     case client of
       None \<Rightarrow> ret False
     | Some zk \<Rightarrow>
         bindE (on_zk (zk_IsConnected zk)) (\<lambda>up.
         if \<not> up then ret False
         else if \<not> ServiceInstance_IsValid instance_v then ret False else
         bindE (on_zk (zk_CreateServicePath zk (BuildServicePath root_path (si_service_name instance_v)))) (\<lambda>path_ok.
         if \<not> path_ok then ret False else
         bindE (lift (ServiceInstance_ToJson dump instance_v)) (\<lambda>dat.
         bindE (on_zk (zk_CreateNode zk (BuildInstancePath root_path instance_v) dat True)) (\<lambda>node_ok.
         if \<not> node_ok then ret False else
         bindE (modify (\<lambda>r. r\<lparr>sr_current_instance := instance_v,
           sr_current_path := BuildInstancePath root_path instance_v, sr_registered := True\<rparr>)) (\<lambda>_.
         ret True)))))))"

definition ServiceRegistry_Unregister :: "(('w, 'c) ServiceRegistry, bool) io" where
  "ServiceRegistry_Unregister =
     bindE (asks sr_registered) (\<lambda>registered.
     if \<not> registered then ret True else
     bindE (asks sr_zk_client) (\<lambda>client.
     case client of
       None \<Rightarrow> bindE (modify (\<lambda>r. r\<lparr>sr_registered := False\<rparr>)) (\<lambda>_. ret True)
     | Some zk \<Rightarrow>
         bindE (asks sr_current_path) (\<lambda>path.
         bindE (on_zk (zk_DeleteNode zk path)) (\<lambda>success.
         bindE (modify (\<lambda>r. r\<lparr>sr_registered := False, sr_current_path := []\<rparr>)) (\<lambda>_.
         ret True)))))"

text \<open>The constructor (\<open>none\<close> is the instance the object holds before one is registered, whose port is
  indeterminate) and the destructor.\<close>

definition ServiceRegistry_new :: "('w, 'c) zk_methods option \<Rightarrow> string \<Rightarrow> ServiceInstance \<Rightarrow> 'w \<Rightarrow> ('w, 'c) ServiceRegistry" where
  "ServiceRegistry_new zk root_path none w = \<lparr>sr_zk_client = zk, sr_root_path = root_path, sr_current_instance = none,
     sr_current_path = [], sr_registered = False, sr_world = w\<rparr>"

definition ServiceRegistry_delete :: "(('w, 'c) ServiceRegistry, unit) io" where
  "ServiceRegistry_delete = bindE ServiceRegistry_Unregister (\<lambda>_. ret ())"

definition ServiceRegistry_Update ::
  "(json \<Rightarrow> exn + string) \<Rightarrow> ServiceInstance \<Rightarrow> (('w, 'c) ServiceRegistry, bool) io" where
  "ServiceRegistry_Update dump instance_v =
     bindE (asks sr_registered) (\<lambda>registered.
     if \<not> registered then ret False else
     bindE (asks sr_zk_client) (\<lambda>client.
     case client of
       None \<Rightarrow> ret False
     | Some zk \<Rightarrow>
         bindE (on_zk (zk_IsConnected zk)) (\<lambda>up.
         if \<not> up then ret False else
         bindE (asks sr_current_path) (\<lambda>path.
         bindE (lift (ServiceInstance_ToJson dump instance_v)) (\<lambda>dat.
         bindE (on_zk (zk_SetData zk path dat)) (\<lambda>set_ok.
         if \<not> set_ok then ret False else
         bindE (modify (\<lambda>r. r\<lparr>sr_current_instance := instance_v\<rparr>)) (\<lambda>_. ret True)))))))"

subsection \<open>Discovery\<close>

text \<open>The one watch callback is the closure that calls \<open>OnChildrenChanged\<close>, so its type is \<open>unit\<close>;
  \<open>'u\<close> is the type of the callbacks of the user.\<close>

record ('w, 'u) ServiceDiscovery =
  sd_zk_client :: "('w, unit) zk_methods option"
  sd_root_path :: string
  sd_instance_cache :: "ServiceInstance list cmap"
  sd_callbacks :: "'u cmap"
  sd_world :: 'w

abbreviation in_zk :: "('w, 'a) io \<Rightarrow> (('w, 'u) ServiceDiscovery, 'a) io" where
  "in_zk \<equiv> zoom sd_world (\<lambda>w d. d\<lparr>sd_world := w\<rparr>)"

definition ServiceDiscovery_new :: "('w, unit) zk_methods option \<Rightarrow> string \<Rightarrow> 'w \<Rightarrow> ('w, 'u) ServiceDiscovery" where
  "ServiceDiscovery_new zk root_path w = \<lparr>sd_zk_client = zk, sd_root_path = root_path, sd_instance_cache = [],
     sd_callbacks = [], sd_world = w\<rparr>"

definition ExtractServiceName :: "string \<Rightarrow> string \<Rightarrow> string" where
  "ExtractServiceName root_path path =
     (if length path \<le> length root_path + 1 then [] else drop (length root_path + 1) path)"

text \<open>The loop over the children.\<close>

fun read_instances :: "(string \<Rightarrow> json option) \<Rightarrow> int \<Rightarrow> ('w, unit) zk_methods \<Rightarrow> string \<Rightarrow> string list
    \<Rightarrow> ('w, ServiceInstance list) io" where
  "read_instances parse ind zk service_path [] = ret []"
| "read_instances parse ind zk service_path (child # children) =
     bindE (zk_GetData zk (service_path @ ''/'' @ child)) (\<lambda>dat.
     bindE (read_instances parse ind zk service_path children) (\<lambda>others.
     if dat \<noteq> [] then
       let i = ServiceInstance_FromJson parse ind dat in
       if ServiceInstance_IsValid i then ret (i # others) else ret others
     else ret others))"

definition RefreshInstances ::
  "(string \<Rightarrow> json option) \<Rightarrow> int \<Rightarrow> string \<Rightarrow> (('w, 'u) ServiceDiscovery, unit) io" where
  "RefreshInstances parse ind service_name =
     bindE (asks sd_zk_client) (\<lambda>client.
     bindE (asks sd_root_path) (\<lambda>root_path.
     case client of
       None \<Rightarrow> ret ()
     | Some zk \<Rightarrow>
         bindE (in_zk (zk_IsConnected zk)) (\<lambda>up.
         if \<not> up then ret () else
         bindE (in_zk (zk_GetChildren zk (BuildServicePath root_path service_name))) (\<lambda>children.
         bindE (in_zk (read_instances parse ind zk (BuildServicePath root_path service_name) children)) (\<lambda>instances.
         modify (\<lambda>d. d\<lparr>sd_instance_cache := map_put service_name instances (sd_instance_cache d)\<rparr>))))))"

definition OnChildrenChanged ::
  "('u \<Rightarrow> string \<Rightarrow> (('w, 'u) ServiceDiscovery, unit) io) \<Rightarrow> (string \<Rightarrow> json option) \<Rightarrow> int \<Rightarrow> string
     \<Rightarrow> (('w, 'u) ServiceDiscovery, unit) io" where
  "OnChildrenChanged notify parse ind path =
     bindE (asks sd_root_path) (\<lambda>root_path.
     let service_name = ExtractServiceName root_path path in
     if service_name = [] then ret () else
     bindE (RefreshInstances parse ind service_name) (\<lambda>_.
     bindE (asks (\<lambda>d. map_of (sd_callbacks d) service_name)) (\<lambda>callback.
     case callback of None \<Rightarrow> ret () | Some cb \<Rightarrow> notify cb service_name)))"

definition Subscribe ::
  "(string \<Rightarrow> json option) \<Rightarrow> int \<Rightarrow> string \<Rightarrow> 'u option \<Rightarrow> (('w, 'u) ServiceDiscovery, unit) io" where
  "Subscribe parse ind service_name callback =
     bindE (asks sd_zk_client) (\<lambda>client.
     bindE (asks sd_root_path) (\<lambda>root_path.
     case client of
       None \<Rightarrow> ret ()
     | Some zk \<Rightarrow>
         bindE (in_zk (zk_IsConnected zk)) (\<lambda>up.
         if \<not> up then ret () else
         bindE (case callback of
             None \<Rightarrow> ret ()
           | Some cb \<Rightarrow> modify (\<lambda>d. d\<lparr>sd_callbacks := map_put service_name cb (sd_callbacks d)\<rparr>)) (\<lambda>_.
         bindE (RefreshInstances parse ind service_name) (\<lambda>_.
         in_zk (zk_WatchChildren zk (BuildServicePath root_path service_name) ()))))))"

definition Unsubscribe :: "string \<Rightarrow> (('w, 'u) ServiceDiscovery, unit) io" where
  "Unsubscribe service_name =
     bindE (asks sd_zk_client) (\<lambda>client.
     bindE (asks sd_root_path) (\<lambda>root_path.
     bindE (case client of
         None \<Rightarrow> ret ()
       | Some zk \<Rightarrow> in_zk (zk_UnwatchChildren zk (BuildServicePath root_path service_name))) (\<lambda>_.
     modify (\<lambda>d. d\<lparr>sd_callbacks := map_erase service_name (sd_callbacks d),
       sd_instance_cache := map_erase service_name (sd_instance_cache d)\<rparr>))))"

definition GetInstances :: "string \<Rightarrow> ('w, 'u) ServiceDiscovery \<Rightarrow> ServiceInstance list" where
  "GetInstances service_name d = (case map_of (sd_instance_cache d) service_name of Some is \<Rightarrow> is | None \<Rightarrow> [])"

text \<open>\<open>draw a b\<close> is the value of \<open>std::uniform_int_distribution(a, b)\<close>.\<close>

definition SelectInstance :: "(int \<Rightarrow> int \<Rightarrow> int) \<Rightarrow> string \<Rightarrow> ('w, 'u) ServiceDiscovery \<Rightarrow> ServiceInstance option" where
  "SelectInstance draw service_name d =
     (let instances = GetInstances service_name d in
      if instances = [] then None else Some (instances ! nat (draw 0 (int (length instances) - 1))))"

fun sum_weights :: "int \<Rightarrow> ServiceInstance list \<Rightarrow> int" where
  "sum_weights acc [] = acc"
| "sum_weights acc (i # is) = sum_weights (wrap32 (acc + si_weight i)) is"

fun pick_weighted :: "int \<Rightarrow> int \<Rightarrow> ServiceInstance list \<Rightarrow> ServiceInstance option" where
  "pick_weighted random_weight current [] = None"
| "pick_weighted random_weight current (i # is) =
     (let current' = wrap32 (current + si_weight i) in
      if random_weight \<le> current' then Some i else pick_weighted random_weight current' is)"

definition SelectInstanceWeighted ::
  "(int \<Rightarrow> int \<Rightarrow> int) \<Rightarrow> string \<Rightarrow> ('w, 'u) ServiceDiscovery \<Rightarrow> ServiceInstance option" where
  "SelectInstanceWeighted draw service_name d =
     (let instances = GetInstances service_name d in
      if instances = [] then None else
      let total_weight = sum_weights 0 instances in
      if total_weight \<le> 0 then SelectInstance draw service_name d else
      (case pick_weighted (draw 1 total_weight) 0 instances of
         Some i \<Rightarrow> Some i
       | None \<Rightarrow> Some (last instances)))"

text \<open>The destructor cancels every subscription the cache knows.\<close>

definition ServiceDiscovery_delete :: "(('w, 'u) ServiceDiscovery, unit) io" where
  "ServiceDiscovery_delete =
     bindE (asks (\<lambda>d. map fst (sd_instance_cache d))) (\<lambda>services.
     foldr (\<lambda>service k. bindE (Unsubscribe service) (\<lambda>_. k)) services (ret ()))"

subsection \<open>Lemmas on instances\<close>

text \<open>The conversions of the fields \<open>ToJson\<close> writes.\<close>

definition instance_json :: "ServiceInstance \<Rightarrow> json" where
  "instance_json i = JObject
     (map_put ''metadata'' (JObject (map (\<lambda>(k, v). (k, JString v)) (si_metadata i)))
     (map_put ''weight'' (JInt (si_weight i))
     (map_put ''port'' (JInt (si_port i))
     (map_put ''host'' (JString (si_host i))
     (map_put ''instance_id'' (JString (si_instance_id i))
     (map_put ''service_name'' (JString (si_service_name i)) []))))))"

lemma strings_of_strings [simp]: "strings_of (map (\<lambda>(k, v). (k, JString v)) m) = Some m"
  by (induction m) auto

lemma instance_json_values [simp]:
  "value_string (instance_json i) ''service_name'' d = Some (si_service_name i)"
  "value_string (instance_json i) ''instance_id'' d = Some (si_instance_id i)"
  "value_string (instance_json i) ''host'' d = Some (si_host i)"
  "value_int (instance_json i) ''port'' n = Some (wrap32 (si_port i))"
  "value_int (instance_json i) ''weight'' n = Some (wrap32 (si_weight i))"
  "value_metadata (instance_json i) = Some (si_metadata i)"
  by (simp_all add: instance_json_def value_string_def value_int_def value_metadata_def)

lemma FromJson_ToJson:
  assumes "ServiceInstance_ToJson dump i = Inr s" and "parse s = Some (instance_json i)"
    and "in_int32 (si_port i)" "in_int32 (si_weight i)"
  shows "ServiceInstance_FromJson parse ind s = i"
  using assms(2-) by (simp add: ServiceInstance_FromJson_def assign_def Let_def)

lemma ToJson_dump: "ServiceInstance_ToJson dump i = dump (instance_json i)"
  by (simp only: ServiceInstance_ToJson_def instance_json_def)

lemma ExtractServiceName_Build: "ExtractServiceName r (BuildServicePath r s) = s"
  by (simp add: ExtractServiceName_def BuildServicePath_def)

subsection \<open>Registration on a live server\<close>

lemma with_path_longer: "length p + length (join ts) < length q \<Longrightarrow> with_path T p ts q = T q"
  by (induction T p ts rule: with_path.induct) auto

lemma with_path_there:
  "path_free T p ts \<Longrightarrow> persistent T p \<Longrightarrow> persistent (with_path T p ts) (p @ join ts)"
proof (induction ts arbitrary: T p)
  case (Cons t ts)
  let ?q = "p @ ''/'' @ t" and ?T' = "if T (p @ ''/'' @ t) = None then T(p @ ''/'' @ t \<mapsto> ([], False)) else T"
  have "path_free T ?q ts" using Cons.prems by simp
  from path_free_upd [OF this, of ?q] this have "path_free ?T' ?q ts" by simp
  moreover have "persistent ?T' ?q" using Cons.prems(1) by (auto simp: persistent_def)
  ultimately show ?case using Cons.IH [of ?T' ?q] by simp
qed simp

lemma plain_join: "list_all token ts \<Longrightarrow> plain (join ts)"
  by (induction ts) (auto simp: token_def plain_def)

lemma paths_of_join:
  "BuildServicePath (join rs) s = join (rs @ [s])"
  "BuildInstancePath (join rs) i = join (rs @ [si_service_name i]) @ ''/'' @ GetAddress i"
  by (simp_all add: BuildServicePath_def BuildInstancePath_def)

text \<open>The tree after the registration of \<open>i\<close> below \<open>rs\<close> with the data \<open>s\<close>.\<close>

definition registered_tree ::
  "(string \<rightharpoonup> string \<times> bool) \<Rightarrow> string list \<Rightarrow> ServiceInstance \<Rightarrow> string \<Rightarrow> (string \<rightharpoonup> string \<times> bool)" where
  "registered_tree T rs i s = (with_path T [] (rs @ [si_service_name i]))(BuildInstancePath (join rs) i \<mapsto> (s, True))"

definition node_free :: "(string \<rightharpoonup> string \<times> bool) \<Rightarrow> string \<Rightarrow> bool" where
  "node_free T q \<longleftrightarrow> T q = None \<or> (\<exists>x. T q = Some (x, True))"

context znode_store
begin

lemma Register_live:
  assumes w: "on T (sr_world r)" and zk: "sr_zk_client r = Some zk" and root: "sr_root_path r = join rs"
    and i: "ServiceInstance_IsValid i" "token (GetAddress i)" "ServiceInstance_ToJson dump i = Inr s"
    and free: "path_free T [] (rs @ [si_service_name i])" "node_free T (BuildInstancePath (join rs) i)"
  shows "\<exists>w'. ServiceRegistry_Register dump i r = (Inr True, r\<lparr>sr_world := w', sr_current_instance := i,
      sr_current_path := BuildInstancePath (join rs) i, sr_registered := True\<rparr>)
    \<and> on (registered_tree T rs i s) w'"
proof -
  let ?ts = "rs @ [si_service_name i]" and ?T1 = "with_path T [] (rs @ [si_service_name i])"
  obtain w1 where w1: "zk_IsConnected zk (sr_world r) = (Inr True, w1)" "on T w1" using connected [OF w] by blast
  obtain w2 where w2: "zk_CreateServicePath zk (join ?ts) w1 = (Inr True, w2)" "on ?T1 w2"
    using make_path [OF w1(2) free(1)] by blast
  have "?T1 (join ?ts @ ''/'' @ GetAddress i) = T (join ?ts @ ''/'' @ GetAddress i)"
    by (rule with_path_longer) simp
  then have "?T1 (join ?ts @ ''/'' @ GetAddress i) = None \<or> (\<exists>x. ?T1 (join ?ts @ ''/'' @ GetAddress i) = Some (x, True))"
    using free(2) by (simp only: paths_of_join node_free_def)
  moreover have "persistent ?T1 (join ?ts)" using with_path_there [OF free(1)] by (simp add: persistent_def)
  ultimately obtain w3 where w3: "zk_CreateNode zk (join ?ts @ ''/'' @ GetAddress i) s True w2 = (Inr True, w3)"
      "on (?T1(join ?ts @ ''/'' @ GetAddress i \<mapsto> (s, True))) w3"
    using make_node [OF w2(2) i(2) plain_join [OF path_free_tokens [OF free(1)]], where dat = s] by blast
  have "ServiceRegistry_Register dump i r = (Inr True, r\<lparr>sr_world := w3, sr_current_instance := i,
      sr_current_path := BuildInstancePath (join rs) i, sr_registered := True\<rparr>)"
    using w1(1) w2(1) w3(1) i(1,3)
    by (simp add: ServiceRegistry_Register_def asks_def modify_def zoom_def bindE_def ret_def lift_def zk root
        paths_of_join del: join_simps append.simps append_assoc)
  then show ?thesis using w3(2) unfolding registered_tree_def paths_of_join by blast
qed

lemma Unregister_live:
  assumes w: "on T (sr_world r)" and zk: "sr_zk_client r = Some zk" and reg: "sr_registered r"
    and q: "sr_current_path r = q" "plain q" "T q = Some (x, True)"
  shows "\<exists>w'. ServiceRegistry_Unregister r = (Inr True, r\<lparr>sr_world := w', sr_registered := False, sr_current_path := []\<rparr>)
    \<and> on (T(q := None)) w'"
proof -
  obtain w1 where "zk_DeleteNode zk q (sr_world r) = (Inr True, w1)" "on (T(q := None)) w1"
    using delete_node [OF w q(2,3)] by blast
  then show ?thesis using reg q(1)
    by (intro exI [of _ w1])
      (simp add: ServiceRegistry_Unregister_def asks_def modify_def zoom_def bindE_def ret_def zk)
qed

end

subsection \<open>Discovery on a live server\<close>

text \<open>The instances the nodes \<open>names\<close> below \<open>sp\<close> hold.\<close>

definition node_instances ::
  "(string \<Rightarrow> json option) \<Rightarrow> int \<Rightarrow> (string \<rightharpoonup> string \<times> bool) \<Rightarrow> string \<Rightarrow> string list \<Rightarrow> ServiceInstance list" where
  "node_instances parse ind T sp names =
     filter ServiceInstance_IsValid (map (ServiceInstance_FromJson parse ind)
       (filter (\<lambda>dat. dat \<noteq> []) (map (\<lambda>t. fst (the (T (sp @ ''/'' @ t)))) names)))"

definition data_fits :: "(string \<rightharpoonup> string \<times> bool) \<Rightarrow> bool" where
  "data_fits T \<longleftrightarrow> (\<forall>q dat e. T q = Some (dat, e) \<longrightarrow> length dat \<le> kMaxDataSize)"

lemma set_node_instances:
  assumes "set names = child_names T sp"
  shows "j \<in> set (node_instances parse ind T sp names) \<longleftrightarrow> ServiceInstance_IsValid j \<and>
    (\<exists>t dat e. t \<noteq> [] \<and> CHR ''/'' \<notin> set t \<and> T (sp @ ''/'' @ t) = Some (dat, e) \<and> dat \<noteq> []
       \<and> j = ServiceInstance_FromJson parse ind dat)"
proof -
  let ?dat = "\<lambda>t. fst (the (T (sp @ ''/'' @ t)))"
  have "j \<in> set (node_instances parse ind T sp names) \<longleftrightarrow> ServiceInstance_IsValid j \<and>
      (\<exists>t\<in>set names. ?dat t \<noteq> [] \<and> j = ServiceInstance_FromJson parse ind (?dat t))"
    unfolding node_instances_def by auto
  also have "(\<exists>t\<in>set names. ?dat t \<noteq> [] \<and> j = ServiceInstance_FromJson parse ind (?dat t)) \<longleftrightarrow>
      (\<exists>t dat e. t \<noteq> [] \<and> CHR ''/'' \<notin> set t \<and> T (sp @ ''/'' @ t) = Some (dat, e) \<and> dat \<noteq> []
         \<and> j = ServiceInstance_FromJson parse ind dat)"
  proof (intro iffI; elim bexE exE conjE)
    fix t assume t: "t \<in> set names" "?dat t \<noteq> []" "j = ServiceInstance_FromJson parse ind (?dat t)"
    then obtain dat e where q: "T (sp @ ''/'' @ t) = Some (dat, e)" "t \<noteq> []" "CHR ''/'' \<notin> set t"
      using assms by (auto simp: child_names_def)
    then show "\<exists>t dat e. t \<noteq> [] \<and> CHR ''/'' \<notin> set t \<and> T (sp @ ''/'' @ t) = Some (dat, e) \<and> dat \<noteq> []
         \<and> j = ServiceInstance_FromJson parse ind dat"
      using t(2,3) by (intro exI [of _ t] exI [of _ dat] exI [of _ e]) simp
  next
    fix t dat e
    assume t: "t \<noteq> []" "CHR ''/'' \<notin> set t" "T (sp @ ''/'' @ t) = Some (dat, e)"
      and "dat \<noteq> []" "j = ServiceInstance_FromJson parse ind dat"
    moreover have "t \<in> set names" using t by (simp add: assms child_names_def)
    ultimately show "\<exists>t\<in>set names. ?dat t \<noteq> [] \<and> j = ServiceInstance_FromJson parse ind (?dat t)"
      by (intro bexI [of _ t]) simp_all
  qed
  finally show ?thesis .
qed

context znode_store
begin

lemma read_instances_live:
  assumes "on T w" and "plain sp" "list_all plain names" "data_fits T"
    and "\<And>t. t \<in> set names \<Longrightarrow> T (sp @ ''/'' @ t) \<noteq> None"
  shows "\<exists>w'. read_instances parse ind zk sp names w = (Inr (node_instances parse ind T sp names), w') \<and> on T w'"
  using assms
proof (induction names arbitrary: w)
  case Nil
  then show ?case by (simp add: node_instances_def ret_def)
next
  case (Cons t names)
  obtain dat e where q: "T (sp @ ''/'' @ t) = Some (dat, e)" using Cons.prems(5) [of t] by auto
  have "plain (sp @ ''/'' @ t)" using Cons.prems(2,3) by simp
  moreover have "length dat \<le> kMaxDataSize" using q Cons.prems(4) by (auto simp: data_fits_def)
  ultimately obtain w1 where w1: "zk_GetData zk (sp @ ''/'' @ t) w = (Inr dat, w1)" "on T w1"
    using get_data [OF Cons.prems(1) _ q] by blast
  have "list_all plain names" "\<And>t. t \<in> set names \<Longrightarrow> T (sp @ ''/'' @ t) \<noteq> None"
    using Cons.prems(3,5) by simp_all
  from Cons.IH [OF w1(2) Cons.prems(2) this(1) Cons.prems(4) this(2)]
  obtain w2 where w2: "read_instances parse ind zk sp names w1 = (Inr (node_instances parse ind T sp names), w2)"
      "on T w2" by blast
  show ?case
    using w1(1) w2 q by (intro exI [of _ w2]) (simp add: bindE_def Let_def node_instances_def ret_def)
qed

lemma Refresh_live:
  assumes w: "on T (sd_world d)" and zk: "sd_zk_client d = Some zk" and root: "sd_root_path d = join rs"
    and ts: "list_all token (rs @ [s])" and there: "T (join (rs @ [s])) \<noteq> None" and fits: "data_fits T"
  shows "\<exists>names w'. RefreshInstances parse ind s d = (Inr (), d\<lparr>sd_world := w', sd_instance_cache :=
      map_put s (node_instances parse ind T (join (rs @ [s])) names) (sd_instance_cache d)\<rparr>)
    \<and> on T w' \<and> set names = child_names T (join (rs @ [s]))"
proof -
  let ?sp = "join (rs @ [s])"
  have sp: "plain ?sp" using plain_join [OF ts] .
  obtain w1 where w1: "zk_IsConnected zk (sd_world d) = (Inr True, w1)" "on T w1" using connected [OF w] by blast
  obtain names w2 where w2: "zk_GetChildren zk ?sp w1 = (Inr names, w2)" "on T w2"
      and names: "set names = child_names T ?sp" "list_all plain names"
    using get_children [OF w1(2) sp there] by blast
  have "T (?sp @ ''/'' @ t) \<noteq> None" if "t \<in> set names" for t
    using that names(1) by (simp add: child_names_def)
  from read_instances_live [OF w2(2) sp names(2) fits this]
  obtain w3 where w3: "read_instances parse ind zk ?sp names w2 = (Inr (node_instances parse ind T ?sp names), w3)"
      "on T w3" by blast
  have "RefreshInstances parse ind s d = (Inr (), d\<lparr>sd_world := w3, sd_instance_cache :=
      map_put s (node_instances parse ind T ?sp names) (sd_instance_cache d)\<rparr>)"
    using w1(1) w2(1) w3(1)
    by (simp add: RefreshInstances_def asks_def modify_def zoom_def bindE_def ret_def zk root
        paths_of_join del: join_simps append.simps append_assoc)
  then show ?thesis using w3(2) names(1) by blast
qed

text \<open>After a subscription the instances of the service are those of its nodes.\<close>

lemma Subscribe_live:
  assumes w: "on T (sd_world d)" and zk: "sd_zk_client d = Some zk" and root: "sd_root_path d = join rs"
    and ts: "list_all token (rs @ [s])" and there: "T (join (rs @ [s])) \<noteq> None" and fits: "data_fits T"
  shows "\<exists>d'. Subscribe parse ind s cb d = (Inr (), d') \<and> on T (sd_world d') \<and>
    (\<forall>j. j \<in> set (GetInstances s d') \<longleftrightarrow> ServiceInstance_IsValid j \<and>
       (\<exists>t dat e. t \<noteq> [] \<and> CHR ''/'' \<notin> set t \<and> T (join (rs @ [s]) @ ''/'' @ t) = Some (dat, e) \<and> dat \<noteq> []
          \<and> j = ServiceInstance_FromJson parse ind dat))"
proof -
  obtain w1 where w1: "zk_IsConnected zk (sd_world d) = (Inr True, w1)" "on T w1" using connected [OF w] by blast
  let ?d1 = "d\<lparr>sd_world := w1, sd_callbacks :=
    (case cb of None \<Rightarrow> sd_callbacks d | Some f \<Rightarrow> map_put s f (sd_callbacks d))\<rparr>"
  obtain names w2 where r: "RefreshInstances parse ind s ?d1 = (Inr (), ?d1\<lparr>sd_world := w2, sd_instance_cache :=
      map_put s (node_instances parse ind T (join (rs @ [s])) names) (sd_instance_cache d)\<rparr>)"
    and w2: "on T w2" and names: "set names = child_names T (join (rs @ [s]))"
    using Refresh_live [of T ?d1 rs s parse ind] w1(2) zk root ts there fits by auto
  obtain w3 where w3: "zk_WatchChildren zk (join (rs @ [s])) () w2 = (Inr (), w3)" "on T w3"
    using watch [OF w2] by blast
  have r': "Subscribe parse ind s cb d = (Inr (), ?d1\<lparr>sd_world := w3, sd_instance_cache :=
      map_put s (node_instances parse ind T (join (rs @ [s])) names) (sd_instance_cache d)\<rparr>)"
    using w1(1) r w3(1)
    by (cases cb) (simp_all add: Subscribe_def asks_def modify_def zoom_def bindE_def ret_def zk root
        paths_of_join del: join_simps append.simps append_assoc)
  show ?thesis
    by (rule exI, rule conjI, rule r')
      (simp add: w3(2) GetInstances_def set_node_instances [OF names] del: join_simps append.simps append_assoc)
qed

end

subsection \<open>Registration and discovery together\<close>

lemma token_address: "token (si_host i) \<Longrightarrow> token (GetAddress i)"
  using to_string_chars [of "CHR ''/''" "si_port i"] to_string_chars [of "CHR 0x00" "si_port i"]
  by (auto simp: GetAddress_def token_def plain_def isdigit_def)

lemma registered_tree_node [simp]:
  "registered_tree T rs i s (BuildInstancePath (join rs) i) = Some (s, True)"
  by (simp add: registered_tree_def)

lemma registered_tree_fits:
  assumes "data_fits T" "length s \<le> kMaxDataSize"
  shows "data_fits (registered_tree T rs i s)"
proof -
  have step: "data_fits (T(q \<mapsto> (x, e)))" if "data_fits T" "length x \<le> kMaxDataSize" for T q x e
    using that by (auto simp: data_fits_def)
  have "data_fits (with_path T p ts)" if "data_fits T" for p ts
    using that by (induction T p ts rule: with_path.induct) (simp_all add: step)
  then show ?thesis using assms step by (simp add: registered_tree_def)
qed

lemma registered_tree_service:
  assumes "path_free T [] (rs @ [si_service_name i])"
  shows "registered_tree T rs i s (join (rs @ [si_service_name i])) \<noteq> None"
proof -
  have "join (rs @ [si_service_name i]) \<noteq> BuildInstancePath (join rs) i"
    by (simp add: BuildInstancePath_def)
  moreover have "persistent (with_path T [] (rs @ [si_service_name i])) ([] @ join (rs @ [si_service_name i]))"
    by (rule with_path_there [OF assms]) (simp add: persistent_def)
  ultimately show ?thesis by (auto simp: registered_tree_def persistent_def)
qed

context znode_store
begin

lemma registered_found:
  assumes w: "on (registered_tree T rs i s) (sd_world d)" and zk: "sd_zk_client d = Some zk" and root: "sd_root_path d = join rs"
    and i: "ServiceInstance_IsValid i" "token (GetAddress i)" and free: "path_free T [] (rs @ [si_service_name i])"
    and json: "ServiceInstance_FromJson parse ind s = i" "s \<noteq> []" and fits: "data_fits T" "length s \<le> kMaxDataSize"
  shows "\<exists>d'. Subscribe parse ind (si_service_name i) cb d = (Inr (), d') \<and> i \<in> set (GetInstances (si_service_name i) d')"
proof -
  let ?ts = "rs @ [si_service_name i]"
  have "registered_tree T rs i s (join ?ts @ ''/'' @ GetAddress i) = Some (s, True)"
    using registered_tree_node [of T rs i s] by (simp only: paths_of_join)
  moreover have "GetAddress i \<noteq> []" "CHR ''/'' \<notin> set (GetAddress i)" using i(2) by (simp_all add: token_def)
  moreover note json(2) json(1) [symmetric] i(1)
  ultimately show ?thesis
    using Subscribe_live [OF w zk root path_free_tokens [OF free] registered_tree_service [OF free]
        registered_tree_fits [OF fits], where parse = parse and ind = ind and cb = cb]
    by blast
qed

lemma unregistered_gone:
  assumes w: "on ((registered_tree T rs i s)(BuildInstancePath (join rs) i := None)) (sd_world d)"
    and zk: "sd_zk_client d = Some zk" and root: "sd_root_path d = join rs"
    and free: "path_free T [] (rs @ [si_service_name i])" and fits: "data_fits T" "length s \<le> kMaxDataSize"
  shows "\<exists>d'. Subscribe parse ind (si_service_name i) cb d = (Inr (), d') \<and>
    (\<forall>j \<in> set (GetInstances (si_service_name i) d'). \<exists>t dat e. t \<noteq> GetAddress i
       \<and> registered_tree T rs i s (join (rs @ [si_service_name i]) @ ''/'' @ t) = Some (dat, e)
       \<and> j = ServiceInstance_FromJson parse ind dat)"
proof -
  let ?ts = "rs @ [si_service_name i]" and ?U = "(registered_tree T rs i s)(BuildInstancePath (join rs) i := None)"
  have fitsU: "data_fits ?U" using registered_tree_fits [OF fits, of rs i] by (auto simp: data_fits_def)
  have there: "?U (join ?ts) \<noteq> None"
    using registered_tree_service [OF free, of s] by (auto simp: BuildInstancePath_def)
  have other: "t \<noteq> GetAddress i \<and> registered_tree T rs i s (join ?ts @ ''/'' @ t) = Some (dat, e)"
    if "?U (join ?ts @ ''/'' @ t) = Some (dat, e)" for t dat e
    using that by (auto simp: paths_of_join simp del: join_simps append.simps append_assoc split: if_splits)
  obtain d' where d': "Subscribe parse ind (si_service_name i) cb d = (Inr (), d')"
      and all: "\<forall>j. j \<in> set (GetInstances (si_service_name i) d') \<longleftrightarrow> ServiceInstance_IsValid j \<and>
       (\<exists>t dat e. t \<noteq> [] \<and> CHR ''/'' \<notin> set t \<and> ?U (join ?ts @ ''/'' @ t) = Some (dat, e) \<and> dat \<noteq> []
          \<and> j = ServiceInstance_FromJson parse ind dat)"
    using Subscribe_live [OF w zk root path_free_tokens [OF free] there fitsU, where parse = parse and ind = ind and cb = cb]
    by (elim exE conjE)
  show ?thesis
  proof (rule exI, rule conjI, rule d', rule ballI)
    fix j assume "j \<in> set (GetInstances (si_service_name i) d')"
    then obtain t dat e where u: "?U (join ?ts @ ''/'' @ t) = Some (dat, e)" "j = ServiceInstance_FromJson parse ind dat"
      using all by (simp only:) (elim exE conjE)
    show "\<exists>t dat e. t \<noteq> GetAddress i \<and> registered_tree T rs i s (join ?ts @ ''/'' @ t) = Some (dat, e)
       \<and> j = ServiceInstance_FromJson parse ind dat"
      by (intro exI conjI, rule other [OF u(1), THEN conjunct1], rule other [OF u(1), THEN conjunct2], rule u(2))
  qed
qed

end

text \<open>C15: a valid instance that is registered can be discovered: \<open>ServiceRegistry::Register\<close> returns
  true, and from then on a subscription to the service, by any discoverer with a live session to
  the same tree of nodes, has exactly this instance (every field read back from the node) in the
  list \<open>GetInstances\<close> gives. After \<open>Unregister\<close> a subscription gives only instances read from the
  nodes of other addresses. The JSON library reads back what it wrote for this instance, and the
  data of each node fits the 64 KiB buffer of \<open>GetData\<close>.\<close>

theorem registered_instance_discoverable:
  fixes r :: "(('z, unit) ZooKeeperClient, unit) ServiceRegistry"
    and V' :: "'y \<Rightarrow> string \<rightharpoonup> string \<times> bool"
  assumes w: "zk_on V up T (sr_world r)" and zk: "sr_zk_client r = Some zk_client" and root: "sr_root_path r = join rs"
    and i: "ServiceInstance_IsValid i" "token (si_host i)" "in_int32 (si_port i)" "in_int32 (si_weight i)"
    and free: "path_free T [] (rs @ [si_service_name i])" "node_free T (BuildInstancePath (join rs) i)"
    and json: "dump (instance_json i) = Inr s" "parse s = Some (instance_json i)" "s \<noteq> []"
    and fits: "data_fits T" "length s \<le> kMaxDataSize"
  shows "\<exists>r1 r2. ServiceRegistry_Register dump i r = (Inr True, r1)
    \<and> zk_on V up (registered_tree T rs i s) (sr_world r1)
    \<and> (\<forall>d cb. zk_on V' up' (registered_tree T rs i s) (sd_world d) \<longrightarrow> sd_zk_client d = Some zk_client
         \<longrightarrow> sd_root_path d = join rs
         \<longrightarrow> (\<exists>d'. Subscribe parse ind (si_service_name i) cb d = (Inr (), d')
               \<and> i \<in> set (GetInstances (si_service_name i) d')))
    \<and> ServiceRegistry_Unregister r1 = (Inr True, r2)
    \<and> zk_on V up ((registered_tree T rs i s)(BuildInstancePath (join rs) i := None)) (sr_world r2)
    \<and> (\<forall>d cb. zk_on V' up' ((registered_tree T rs i s)(BuildInstancePath (join rs) i := None)) (sd_world d)
         \<longrightarrow> sd_zk_client d = Some zk_client \<longrightarrow> sd_root_path d = join rs
         \<longrightarrow> (\<exists>d'. Subscribe parse ind (si_service_name i) cb d = (Inr (), d')
               \<and> (\<forall>j \<in> set (GetInstances (si_service_name i) d'). \<exists>t dat e. t \<noteq> GetAddress i
                    \<and> registered_tree T rs i s (join (rs @ [si_service_name i]) @ ''/'' @ t) = Some (dat, e)
                    \<and> j = ServiceInstance_FromJson parse ind dat)))"
proof -
  let ?T = "registered_tree T rs i s" and ?q = "BuildInstancePath (join rs) i"
  let ?r1 = "\<lambda>w. r\<lparr>sr_world := w, sr_current_instance := i, sr_current_path := ?q, sr_registered := True\<rparr>"
  have tj: "ServiceInstance_ToJson dump i = Inr s" using json(1) by (simp add: ToJson_dump)
  note reread = FromJson_ToJson [where parse = parse and dump = dump, OF tj json(2) i(3,4), of ind]
  have q: "plain ?q" using plain_join [OF path_free_tokens [OF free(1)]] token_address [OF i(2)] by (simp add: BuildInstancePath_def token_def)
  obtain w1 where w1: "ServiceRegistry_Register dump i r = (Inr True, ?r1 w1)" "zk_on V up ?T w1"
    using zk_store.Register_live [OF w zk root i(1) token_address [OF i(2)] tj free] by blast
  obtain w2 where w2: "ServiceRegistry_Unregister (?r1 w1) =
      (Inr True, (?r1 w1)\<lparr>sr_world := w2, sr_registered := False, sr_current_path := []\<rparr>)"
      "zk_on V up (?T(?q := None)) w2"
    using zk_store.Unregister_live [of V up ?T "?r1 w1" ?q s] w1(2) zk q by auto
  show ?thesis
    by (intro exI conjI, rule w1(1), simp add: w1(2), intro allI impI,
        rule zk_store.registered_found [OF _ _ _ i(1) token_address [OF i(2)] free(1) reread json(3) fits], assumption+,
        rule w2(1), simp add: w2(2), intro allI impI,
        rule zk_store.unregistered_gone [OF _ _ _ free(1) fits], assumption+)
qed

text \<open>A server in memory on which the hypotheses hold: the list of its nodes.\<close>

type_synonym mem_nodes = "(string \<times> string \<times> bool) list"

definition mem_children :: "string \<Rightarrow> mem_nodes \<Rightarrow> string list" where
  "mem_children q s = filter (\<lambda>t. t \<noteq> [] \<and> CHR ''/'' \<notin> set t)
     (map (\<lambda>n. drop (length q + 1) (fst n)) (filter (\<lambda>n. take (length q + 1) (fst n) = q @ ''/'') s))"

definition mem_client :: "(mem_nodes, unit) ZooKeeperClient" where
  "mem_client = \<lparr>
     zoo_init = (\<lambda>hosts t s. (True, s)), zoo_wait = (\<lambda>t s. ([ZOO_CONNECTED_STATE], s)), zoo_close = (\<lambda>s. ((), s)),
     zoo_state = (\<lambda>s. (ZOO_CONNECTED_STATE, s)),
     zoo_create = (\<lambda>q d e s. if map_of s q = None then (ZOK, (q, d, e) # s) else (ZNODEEXISTS, s)),
     zoo_delete = (\<lambda>q s. if map_of s q = None then (ZNONODE, s) else (ZOK, filter (\<lambda>n. fst n \<noteq> q) s)),
     zoo_exists = (\<lambda>q s. (if map_of s q = None then ZNONODE else ZOK, s)),
     zoo_set = (\<lambda>q d s. case map_of s q of None \<Rightarrow> (ZNONODE, s) | Some (x, e) \<Rightarrow> (ZOK, (q, d, e) # s)),
     zoo_get = (\<lambda>q n s. (case map_of s q of None \<Rightarrow> (ZNONODE, []) | Some (d, e) \<Rightarrow> (ZOK, take n d), s)),
     zoo_get_children = (\<lambda>q s. ((ZOK, mem_children q s), s)),
     zoo_wget_children = (\<lambda>q s. ((ZOK, mem_children q s), s)),
     zoo_env = [], zc_hosts = ''localhost:2181'', zc_session_timeout_ms = 30000, zc_zh = True, zc_connected = True,
     zc_closing = False, zc_watches = []\<rparr>"

definition mem_up :: "mem_nodes \<Rightarrow> bool" where
  "mem_up s \<longleftrightarrow> list_all (\<lambda>n. plain (fst n)) s"

lemma below_iff: "take (length q + 1) p = q @ ''/'' \<and> drop (length q + 1) p = t \<longleftrightarrow> p = q @ ''/'' @ t"
proof
  assume "take (length q + 1) p = q @ ''/'' \<and> drop (length q + 1) p = t"
  then show "p = q @ ''/'' @ t" using append_take_drop_id [of "length q + 1" p] by (simp del: append_take_drop_id)
qed simp

lemma mem_children_names: "set (mem_children q s) = child_names (map_of s) q"
proof -
  have "t \<in> (\<lambda>n. drop (length q + 1) (fst n)) ` {n \<in> set s. take (length q + 1) (fst n) = q @ ''/''} \<longleftrightarrow>
      map_of s (q @ ''/'' @ t) \<noteq> None" for t
  proof -
    have "t \<in> (\<lambda>n. drop (length q + 1) (fst n)) ` {n \<in> set s. take (length q + 1) (fst n) = q @ ''/''} \<longleftrightarrow>
        (\<exists>n\<in>set s. take (length q + 1) (fst n) = q @ ''/'' \<and> drop (length q + 1) (fst n) = t)" by auto
    also have "\<dots> \<longleftrightarrow> map_of s (q @ ''/'' @ t) \<noteq> None"
      unfolding below_iff map_of_eq_None_iff by (simp add: image_iff Bex_def eq_commute)
    finally show ?thesis .
  qed
  then show ?thesis unfolding mem_children_def child_names_def by (auto simp del: One_nat_def add_Suc_right)
qed

lemma mem_upD: "mem_up s \<Longrightarrow> map_of s q = Some v \<Longrightarrow> plain q"
  by (auto simp: mem_up_def list_all_iff dest!: map_of_SomeD)

lemma map_of_filter_not: "map_of (filter (\<lambda>n. fst n \<noteq> q) s) = (map_of s)(q := None)"
  by (induction s) auto

lemma mem_children_plain: "mem_up s \<Longrightarrow> list_all plain (mem_children q s)"
  unfolding list_all_iff mem_children_names by (auto simp: child_names_def dest!: mem_upD)

lemma mem_up_steps [simp]:
  "mem_up ((q, v) # s) \<longleftrightarrow> plain q \<and> mem_up s" "mem_up s \<Longrightarrow> mem_up (filter P s)"
  by (auto simp: mem_up_def list_all_iff)

lemma mem_prompt: "zoo_prompt map_of mem_up mem_client"
  unfolding zoo_prompt_def
  by (intro conjI)
    (auto simp: mem_client_def mem_children_names mem_children_plain map_of_filter_not mem_upD split: option.splits)

definition demo_instance :: ServiceInstance where
  "demo_instance = \<lparr>si_service_name = ''user-service'', si_instance_id = ''10.0.0.1:50051'', si_host = ''10.0.0.1'',
     si_port = 50051, si_weight = 100, si_metadata = []\<rparr>"

definition demo_registry :: "((mem_nodes, unit) ZooKeeperClient, unit) ServiceRegistry" where
  "demo_registry = ServiceRegistry_new (Some zk_client) ''/services'' demo_instance mem_client"

definition demo_discovery :: "(mem_nodes, unit) ZooKeeperClient \<Rightarrow> ((mem_nodes, unit) ZooKeeperClient, unit) ServiceDiscovery" where
  "demo_discovery w = ServiceDiscovery_new (Some zk_client) ''/services'' w"

lemma demo_registrable:
  "zk_on map_of mem_up Map.empty (sr_world demo_registry)"
  "sr_zk_client demo_registry = Some zk_client" "sr_root_path demo_registry = join [''services'']"
  "ServiceInstance_IsValid demo_instance" "token (si_host demo_instance)"
  "in_int32 (si_port demo_instance)" "in_int32 (si_weight demo_instance)"
  "path_free Map.empty [] ([''services''] @ [si_service_name demo_instance])"
  "node_free Map.empty q" "data_fits Map.empty" "length ''{}'' \<le> kMaxDataSize"
proof -
  show "zk_on map_of mem_up Map.empty (sr_world demo_registry)"
    using mem_prompt by (simp add: zk_on_def zk_live_def demo_registry_def ServiceRegistry_new_def) (simp add: mem_client_def mem_up_def)
qed (simp_all add: demo_registry_def ServiceRegistry_new_def demo_instance_def ServiceInstance_IsValid_def token_def plain_def in_int32_def
      node_free_def data_fits_def kMaxDataSize_def)

theorem registered_instance_discoverable_witness:
  "\<exists>r1 d1. ServiceRegistry_Register (\<lambda>j. Inr ''{}'') demo_instance demo_registry = (Inr True, r1)
    \<and> Subscribe (\<lambda>s. Some (instance_json demo_instance)) 0 ''user-service'' None (demo_discovery (sr_world r1)) = (Inr (), d1)
    \<and> demo_instance \<in> set (GetInstances ''user-service'' d1)"
proof -
  have name: "si_service_name demo_instance = ''user-service''" by (simp add: demo_instance_def)
  note main = registered_instance_discoverable [OF demo_registrable(1-9),
      where dump = "\<lambda>j. Inr ''{}''" and s = "''{}''" and parse = "\<lambda>s. Some (instance_json demo_instance)"
        and V' = map_of and up' = mem_up and ind = 0, OF refl refl list.distinct(2) demo_registrable(10,11), unfolded name]
  from main obtain r1 where r1: "ServiceRegistry_Register (\<lambda>j. Inr ''{}'') demo_instance demo_registry = (Inr True, r1)"
      "zk_on map_of mem_up (registered_tree Map.empty [''services''] demo_instance ''{}'') (sr_world r1)"
    and found: "\<forall>d cb. zk_on map_of mem_up (registered_tree Map.empty [''services''] demo_instance ''{}'') (sd_world d) \<longrightarrow>
      sd_zk_client d = Some zk_client \<longrightarrow> sd_root_path d = join [''services''] \<longrightarrow>
      (\<exists>d'. Subscribe (\<lambda>s. Some (instance_json demo_instance)) 0 ''user-service'' (cb :: unit option) d = (Inr (), d')
         \<and> demo_instance \<in> set (GetInstances ''user-service'' d'))"
    by (elim exE conjE)
  from found [rule_format, of "demo_discovery (sr_world r1)" None] r1
  show ?thesis by (auto simp: demo_discovery_def ServiceDiscovery_new_def)
qed

subsection \<open>Weighted selection\<close>

abbreviation total_weight :: "ServiceInstance list \<Rightarrow> int" where
  "total_weight is \<equiv> sum_list (map si_weight is)"

lemma total_weight_nonneg: "list_all (\<lambda>i. 0 \<le> si_weight i) is \<Longrightarrow> 0 \<le> total_weight is"
  by (induction "is") auto

lemma sum_weights_total:
  assumes "list_all (\<lambda>i. 0 \<le> si_weight i) is" "0 \<le> acc" "acc + total_weight is < 2 ^ 31"
  shows "sum_weights acc is = acc + total_weight is"
  using assms
proof (induction "is" arbitrary: acc)
  case (Cons i "is")
  have "0 \<le> total_weight is" using Cons.prems(1) by (intro total_weight_nonneg) simp
  then have "wrap32 (acc + si_weight i) = acc + si_weight i"
    using Cons.prems by (intro wrap32_id) (simp add: in_int32_def)
  then show ?case using Cons by simp
qed simp

lemma pick_weighted_member: "pick_weighted r cur is = Some i \<Longrightarrow> i \<in> set is"
  by (induction r cur "is" rule: pick_weighted.induct) (auto simp: Let_def split: if_splits)

lemma pick_weighted_above:
  assumes "list_all (\<lambda>i. 0 \<le> si_weight i) is" "0 \<le> cur" "cur + total_weight is < 2 ^ 31" "cur < r" "r \<le> cur + total_weight is"
  shows "pick_weighted r cur is \<noteq> None"
  using assms
proof (induction "is" arbitrary: cur)
  case (Cons i "is")
  have "0 \<le> total_weight is" using Cons.prems(1) by (intro total_weight_nonneg) simp
  then have "wrap32 (cur + si_weight i) = cur + si_weight i"
    using Cons.prems by (intro wrap32_id) (simp add: in_int32_def)
  then show ?case using Cons.IH [of "cur + si_weight i"] Cons.prems by (simp add: Let_def)
qed simp

lemma card_draws:
  assumes "list_all (\<lambda>i. 0 \<le> si_weight i) is" "0 \<le> cur" "cur + total_weight is < 2 ^ 31" "distinct is" "i \<in> set is"
  shows "card {r. cur < r \<and> r \<le> cur + total_weight is \<and> pick_weighted r cur is = Some i} = nat (si_weight i)"
  using assms
proof (induction "is" arbitrary: cur)
  case (Cons x xs)
  have rest: "0 \<le> total_weight xs" using Cons.prems(1) by (intro total_weight_nonneg) simp
  then have w: "wrap32 (cur + si_weight x) = cur + si_weight x"
    using Cons.prems by (intro wrap32_id) (simp add: in_int32_def)
  show ?case
  proof (cases "i = x")
    case True
    then have "i \<notin> set xs" using Cons.prems(4) by simp
    then have "{r. cur < r \<and> r \<le> cur + total_weight (x # xs) \<and> pick_weighted r cur (x # xs) = Some i} = {cur<..cur + si_weight x}"
      using True w rest pick_weighted_member by (auto simp: Let_def split: if_splits)
    then show ?thesis using True by simp
  next
    case False
    have "{r. cur < r \<and> r \<le> cur + total_weight (x # xs) \<and> pick_weighted r cur (x # xs) = Some i} =
        {r. cur + si_weight x < r \<and> r \<le> cur + si_weight x + total_weight xs \<and> pick_weighted r (cur + si_weight x) xs = Some i}"
      using False w Cons.prems(1) by (auto simp: Let_def)
    then show ?thesis using Cons.IH [of "cur + si_weight x"] Cons.prems False by simp
  qed
qed simp

text \<open>C16: \<open>SelectInstanceWeighted\<close> chooses in proportion to the weights: of the numbers from 1 to the
  total weight that the generator can draw, exactly \<open>weight\<close> many select a given instance, where
  the weights are not negative and their sum is positive and fits an \<open>int\<close>. It never falls through
  to the last instance by default.\<close>

theorem weighted_selection_proportional:
  assumes "GetInstances s d = is" and "list_all (\<lambda>i. 0 \<le> si_weight i) is" and "0 < total_weight is" "total_weight is < 2 ^ 31"
    and "distinct is" "i \<in> set is"
  shows "card {r. 1 \<le> r \<and> r \<le> total_weight is \<and>
      SelectInstanceWeighted (\<lambda>a b. if a = 1 \<and> b = total_weight is then r else 0) s d = Some i} = nat (si_weight i)"
proof -
  have sum: "sum_weights 0 is = total_weight is" using sum_weights_total [OF assms(2), of 0] assms(4) by simp
  have "pick_weighted r 0 is \<noteq> None" if "1 \<le> r" "r \<le> total_weight is" for r
    using pick_weighted_above [OF assms(2), of 0 r] assms(4) that by simp
  moreover have "is \<noteq> []" using assms(6) by auto
  ultimately have "{r. 1 \<le> r \<and> r \<le> total_weight is \<and>
      SelectInstanceWeighted (\<lambda>a b. if a = 1 \<and> b = total_weight is then r else 0) s d = Some i} =
    {r. 0 < r \<and> r \<le> 0 + total_weight is \<and> pick_weighted r 0 is = Some i}"
    using assms(1,3) sum by (fastforce simp: SelectInstanceWeighted_def Let_def split: option.splits)
  then show ?thesis using card_draws [OF assms(2), of 0 i] assms(4-) by simp
qed

text \<open>The three instances of the witness: weights 1, 0 and 3.\<close>

definition demo_cache :: "((mem_nodes, unit) ZooKeeperClient, unit) ServiceDiscovery" where
  "demo_cache = (demo_discovery mem_client)\<lparr>sd_instance_cache := [(''user-service'',
     [demo_instance\<lparr>si_weight := 1\<rparr>, demo_instance\<lparr>si_weight := 0\<rparr>, demo_instance\<lparr>si_weight := 3\<rparr>])]\<rparr>"

theorem weighted_selection_proportional_witness:
  "card {r. 1 \<le> r \<and> r \<le> 4 \<and> SelectInstanceWeighted (\<lambda>a b. if a = 1 \<and> b = 4 then r else 0) ''user-service'' demo_cache
     = Some (demo_instance\<lparr>si_weight := 3\<rparr>)} = 3"
  using weighted_selection_proportional [of "''user-service''" demo_cache
      "[demo_instance\<lparr>si_weight := 1\<rparr>, demo_instance\<lparr>si_weight := 0\<rparr>, demo_instance\<lparr>si_weight := 3\<rparr>]"
      "demo_instance\<lparr>si_weight := 3\<rparr>"]
  by (simp add: demo_cache_def demo_instance_def GetInstances_def)

subsection \<open>What the cache can hold\<close>

definition cached_valid :: "('w, 'u) ServiceDiscovery \<Rightarrow> bool" where
  "cached_valid d \<longleftrightarrow> list_all (\<lambda>(s, is). list_all ServiceInstance_IsValid is) (sd_instance_cache d)"

lemma read_instances_valid:
  "read_instances parse ind zk sp names w = (Inr is, w') \<Longrightarrow> list_all ServiceInstance_IsValid is"
proof (induction names arbitrary: w "is" w')
  case Nil
  then show ?case by (simp add: ret_def)
next
  case (Cons t names)
  then show ?case by (auto simp: bindE_Inr_iff ret_def Let_def split: if_splits)
qed

lemma list_all_map_put:
  "list_all (\<lambda>(k, v). P v) m \<Longrightarrow> P v \<Longrightarrow> list_all (\<lambda>(k, v). P v) (map_put k v m)"
  by (induction k v m rule: map_put.induct) auto

lemma cached_valid_put:
  "cached_valid d \<Longrightarrow> list_all ServiceInstance_IsValid is
     \<Longrightarrow> cached_valid (d\<lparr>sd_instance_cache := map_put s is (sd_instance_cache d)\<rparr>)"
  by (simp add: cached_valid_def list_all_map_put)

lemma cached_valid_other [simp]:
  "cached_valid (d\<lparr>sd_world := w\<rparr>) = cached_valid d" "cached_valid (d\<lparr>sd_callbacks := c\<rparr>) = cached_valid d"
  by (simp_all add: cached_valid_def)

lemma RefreshInstances_valid:
  "RefreshInstances parse ind s d = (r, d') \<Longrightarrow> cached_valid d \<Longrightarrow> cached_valid d'"
  by (auto simp: RefreshInstances_def asks_def modify_def zoom_def bindE_def ret_def
      intro!: cached_valid_put [of "d\<lparr>sd_world := w\<rparr>" for w, simplified] dest!: read_instances_valid
      split: option.splits prod.splits sum.splits if_splits)

lemma Subscribe_valid:
  "Subscribe parse ind s cb d = (r, d') \<Longrightarrow> cached_valid d \<Longrightarrow> cached_valid d'"
  by (auto simp: Subscribe_def asks_def modify_def zoom_def bindE_def ret_def dest!: RefreshInstances_valid
      split: option.splits prod.splits sum.splits if_splits)

lemma Unsubscribe_valid: "Unsubscribe s d = (r, d') \<Longrightarrow> cached_valid d \<Longrightarrow> cached_valid d'"
  by (auto simp: Unsubscribe_def asks_def modify_def zoom_def bindE_def ret_def cached_valid_def map_erase_def list_all_iff
      split: option.splits prod.splits sum.splits if_splits)

text \<open>A discoverer during its life: the subscriptions its user makes and cancels; the events of
  ZooKeeper, whose callback of the user may itself subscribe and unsubscribe; and what the
  client underneath does meanwhile.\<close>

inductive user_step :: "(string \<Rightarrow> json option) \<Rightarrow> int \<Rightarrow> ('w, 'u) ServiceDiscovery \<Rightarrow> ('w, 'u) ServiceDiscovery \<Rightarrow> bool"
  for parse ind where
    subscribes: "Subscribe parse ind s cb d = (r, d') \<Longrightarrow> user_step parse ind d d'"
  | unsubscribes: "Unsubscribe s d = (r, d') \<Longrightarrow> user_step parse ind d d'"

inductive discovery_step ::
  "('u \<Rightarrow> string \<Rightarrow> (('w, 'u) ServiceDiscovery, unit) io) \<Rightarrow> (string \<Rightarrow> json option) \<Rightarrow> int
     \<Rightarrow> ('w, 'u) ServiceDiscovery \<Rightarrow> ('w, 'u) ServiceDiscovery \<Rightarrow> bool"
  for notify parse ind where
    user: "user_step parse ind d d' \<Longrightarrow> discovery_step notify parse ind d d'"
  | children: "OnChildrenChanged notify parse ind path d = (r, d') \<Longrightarrow> discovery_step notify parse ind d d'"
  | client: "discovery_step notify parse ind d (d\<lparr>sd_world := w\<rparr>)"

lemma user_steps_valid: "(user_step parse ind)\<^sup>*\<^sup>* d d' \<Longrightarrow> cached_valid d \<Longrightarrow> cached_valid d'"
  by (induction rule: rtranclp_induct) (auto elim!: user_step.cases dest: Subscribe_valid Unsubscribe_valid)

lemma discovery_step_valid:
  assumes cb: "\<And>cb s d r d'. notify cb s d = (r, d') \<Longrightarrow> (user_step parse ind)\<^sup>*\<^sup>* d d'"
    and step: "discovery_step notify parse ind d d'" and valid: "cached_valid d"
  shows "cached_valid d'"
  using step
proof cases
  case user
  then show ?thesis using user_steps_valid [OF r_into_rtranclp] valid by blast
next
  case (children path r)
  then show ?thesis using valid cb user_steps_valid RefreshInstances_valid
    by (auto simp: OnChildrenChanged_def asks_def bindE_def ret_def Let_def split: if_splits option.splits prod.splits sum.splits)
      blast+
qed (use valid in simp)

lemma GetInstances_valid: "cached_valid d \<Longrightarrow> i \<in> set (GetInstances s d) \<Longrightarrow> ServiceInstance_IsValid i"
  by (cases "map_of (sd_instance_cache d) s") (auto simp: GetInstances_def cached_valid_def list_all_iff dest!: map_of_SomeD)

lemma SelectInstance_member:
  assumes draw: "\<And>a b. a \<le> b \<Longrightarrow> a \<le> draw a b \<and> draw a b \<le> b" and sel: "SelectInstance draw s d = Some i"
  shows "i \<in> set (GetInstances s d)"
proof -
  let ?n = "length (GetInstances s d)"
  have "0 < ?n" using sel by (auto simp: SelectInstance_def Let_def split: if_splits)
  then have "0 \<le> draw 0 (int ?n - 1) \<and> draw 0 (int ?n - 1) \<le> int ?n - 1" by (intro draw) linarith
  then have "nat (draw 0 (int ?n - 1)) < ?n" using \<open>0 < ?n\<close> by linarith
  then show ?thesis using sel by (auto simp: SelectInstance_def Let_def split: if_splits)
qed

text \<open>C17: whatever ZooKeeper answers, whatever data its nodes hold and whatever events arrive, an
  instance that \<open>SelectInstance\<close> or \<open>SelectInstanceWeighted\<close> returns is one of the cached instances
  of that service and is valid (it has a host and a positive port); and both return an instance whenever there is one.\<close>

theorem selected_instances_valid:
  assumes cb: "\<And>cb s d r d'. notify cb s d = (r, d') \<Longrightarrow> (user_step parse ind)\<^sup>*\<^sup>* d d'"
    and draw: "\<And>a b. a \<le> b \<Longrightarrow> a \<le> draw a b \<and> draw a b \<le> b"
    and steps: "(discovery_step notify parse ind)\<^sup>*\<^sup>* (ServiceDiscovery_new zk root w) d"
  shows "(\<forall>i. SelectInstance draw s d = Some i \<or> SelectInstanceWeighted draw s d = Some i
        \<longrightarrow> i \<in> set (GetInstances s d) \<and> ServiceInstance_IsValid i)
    \<and> (GetInstances s d \<noteq> [] \<longrightarrow> SelectInstance draw s d \<noteq> None \<and> SelectInstanceWeighted draw s d \<noteq> None)"
proof -
  from steps have valid: "cached_valid d"
  proof (induction rule: rtranclp_induct)
    case base
    show ?case by (simp add: cached_valid_def ServiceDiscovery_new_def)
  next
    case (step y z)
    show ?case by (rule discovery_step_valid [OF cb step(2,3)])
  qed
  have member: "i \<in> set (GetInstances s d)"
    if "SelectInstance draw s d = Some i \<or> SelectInstanceWeighted draw s d = Some i" for i
    using that SelectInstance_member [of draw s d i, OF draw] pick_weighted_member
    by (auto simp: SelectInstanceWeighted_def Let_def split: if_splits option.splits)
  moreover have "SelectInstance draw s d \<noteq> None" "SelectInstanceWeighted draw s d \<noteq> None" if "GetInstances s d \<noteq> []"
    using that by (simp_all add: SelectInstance_def SelectInstanceWeighted_def Let_def split: option.splits)
  ultimately show ?thesis using GetInstances_valid [OF valid] by blast
qed

definition demo_server :: "(mem_nodes, unit) ZooKeeperClient" where
  "demo_server = mem_client\<lparr>zoo_env := [(BuildInstancePath (join [''services'']) demo_instance, ''{}'', True),
     (''/services/user-service'', [], False), (''/services'', [], False)]\<rparr>"

lemma demo_server_on: "zk_on map_of mem_up (registered_tree Map.empty [''services''] demo_instance ''{}'') demo_server"
proof -
  have "plain (BuildInstancePath (join [''services'']) demo_instance)"
    using token_address [OF demo_registrable(5)] demo_registrable(8) by (simp add: BuildInstancePath_def token_def plain_def)
  then have "mem_up (zoo_env demo_server)" by (simp add: demo_server_def) (simp add: mem_up_def plain_def)
  moreover have "zoo_prompt map_of mem_up demo_server" using mem_prompt by (simp add: demo_server_def)
  moreover have "map_of (zoo_env demo_server) = registered_tree Map.empty [''services''] demo_instance ''{}''"
    by (rule ext) (simp add: demo_server_def registered_tree_def demo_instance_def BuildInstancePath_def)
  ultimately show ?thesis by (simp add: zk_on_def zk_live_def) (simp add: demo_server_def mem_client_def)
qed

theorem selected_instances_valid_witness:
  "\<exists>d. (discovery_step (\<lambda>cb s. ret ()) (\<lambda>s. Some (instance_json demo_instance)) 0)\<^sup>*\<^sup>* (demo_discovery demo_server) d
     \<and> GetInstances ''user-service'' d \<noteq> [] \<and> (\<exists>i. SelectInstance (\<lambda>a b. a) ''user-service'' d = Some i \<and> ServiceInstance_IsValid i)"
proof -
  let ?parse = "\<lambda>s. Some (instance_json demo_instance)"
  have json: "ServiceInstance_FromJson ?parse 0 ''{}'' = demo_instance"
    by (rule FromJson_ToJson [of "\<lambda>j. Inr ''{}''"]) (simp_all add: ToJson_dump demo_registrable)
  have name: "si_service_name demo_instance = ''user-service''" by (simp add: demo_instance_def)
  have d0: "sd_world (demo_discovery demo_server) = demo_server" "sd_zk_client (demo_discovery demo_server) = Some zk_client"
      "sd_root_path (demo_discovery demo_server) = join [''services'']"
    by (simp_all add: demo_discovery_def ServiceDiscovery_new_def)
  obtain d where d: "Subscribe ?parse 0 ''user-service'' None (demo_discovery demo_server) = (Inr (), d)"
      "demo_instance \<in> set (GetInstances ''user-service'' d)"
    using zk_store.registered_found [OF _ d0(2,3) demo_registrable(4) token_address [OF demo_registrable(5)]
        demo_registrable(8) json list.distinct(2) demo_registrable(10,11), where V = map_of and up = mem_up and cb = None]
      demo_server_on unfolding d0(1) name by blast
  have steps: "(discovery_step (\<lambda>cb s. ret ()) ?parse 0)\<^sup>*\<^sup>* (demo_discovery demo_server) d"
    by (rule r_into_rtranclp, rule discovery_step.user, rule user_step.subscribes, rule d(1))
  have "GetInstances ''user-service'' d \<noteq> []" using d(2) by auto
  then show ?thesis
    using selected_instances_valid [OF _ _ steps [unfolded demo_discovery_def], of "\<lambda>a b. a" "''user-service''"] steps by (auto simp: ret_def)
qed

end
