(* ===== verification/Clients.thy ===== *)
theory Clients
  imports Handlers
begin

section \<open>The remote clients\<close>

text \<open>
  \<open>src/client/auth_client.cpp\<close>, \<open>src/client/user_client.cpp\<close> and \<open>include/client/client_options.h\<close>.
  The stub that the protocol compiler generates, with the channel under it, is a parameter: a
  record of remote methods, each on the context of the call and the request. Of a
  \<open>grpc::Status\<close> the code reads \<open>ok()\<close> and \<open>error_message()\<close>. The time a call starts and the time
  zone of the client are arguments.
\<close>

subsection \<open>Calls\<close>

record grpc_Status =
  st_ok :: bool
  st_error_message :: string

record ClientContext =
  cc_deadline :: int
  cc_metadata :: metadata

type_synonym ('w, 'q, 'r) remote = "ClientContext \<Rightarrow> 'q \<Rightarrow> ('w, grpc_Status \<times> 'r) io"

record 'w AuthStub =
  as_SendVerifyCode :: "('w, SendVerifyCodeRequest, SendVerifyCodeResponse) remote"
  as_Register :: "('w, RegisterRequest, AuthResponse) remote"
  as_LoginByPassword :: "('w, LoginByPasswordRequest, AuthResponse) remote"
  as_LoginByCode :: "('w, LoginByCodeRequest, AuthResponse) remote"
  as_RefreshToken :: "('w, string, RefreshTokenResponse) remote"
  as_Logout :: "('w, string, ResultResponse) remote"
  as_ResetPassword :: "('w, ResetPasswordRequest, ResultResponse) remote"
  as_ValidateToken :: "('w, string, ValidateTokenResponse) remote"

record 'w UserStub =
  us_GetCurrentUser :: "('w, unit, UserResponse) remote"
  us_UpdateUser :: "('w, string option, UserResponse) remote"
  us_ChangePassword :: "('w, ChangePasswordRequest, ResultResponse) remote"
  us_DeleteUser :: "('w, string, ResultResponse) remote"
  us_GetUser :: "('w, string, UserResponse) remote"
  us_ListUsers :: "('w, ListUsersRequest, ListUsersResponse) remote"

subsection \<open>Options and objects\<close>

record ClientOptions =
  co_target :: string
  co_timeout :: int
  co_connect_timeout :: int
  co_max_retries :: int
  co_retry_interval :: int
  co_access_token :: string
  co_use_tls :: bool
  co_ca_cert_path :: string
  co_client_cert_path :: string
  co_client_key_path :: string
  co_max_connections :: int

definition ClientOptions_default :: ClientOptions where
  "ClientOptions_default = \<lparr>co_target = [], co_timeout = 5000, co_connect_timeout = 3000, co_max_retries = 3,
     co_retry_interval = 100, co_access_token = [], co_use_tls = False, co_ca_cert_path = [],
     co_client_cert_path = [], co_client_key_path = [], co_max_connections = 10\<rparr>"

text \<open>The credentials of the channel: TLS, or none.\<close>

definition CreateCredentials :: "ClientOptions \<Rightarrow> bool" where
  "CreateCredentials options \<longleftrightarrow> co_use_tls options \<and> co_ca_cert_path options \<noteq> []"

record 'w AuthClient =
  ac_stub :: "'w AuthStub"
  ac_timeout :: int

record 'w UserClient =
  uc_stub :: "'w UserStub"
  uc_access_token :: string
  uc_timeout :: int

text \<open>The constructors: from a target or a channel, and from options; the stub is what the library
  makes of the target and the credentials.\<close>

definition AuthClient_target :: "'w AuthStub \<Rightarrow> 'w AuthClient" where
  "AuthClient_target stub = \<lparr>ac_stub = stub, ac_timeout = 5000\<rparr>"

definition AuthClient_options :: "(string \<Rightarrow> bool \<Rightarrow> 'w AuthStub) \<Rightarrow> ClientOptions \<Rightarrow> 'w AuthClient" where
  "AuthClient_options channel options =
     \<lparr>ac_stub = channel (co_target options) (CreateCredentials options), ac_timeout = co_timeout options\<rparr>"

definition UserClient_target :: "'w UserStub \<Rightarrow> 'w UserClient" where
  "UserClient_target stub = \<lparr>uc_stub = stub, uc_access_token = [], uc_timeout = 5000\<rparr>"

definition UserClient_options :: "(string \<Rightarrow> bool \<Rightarrow> 'w UserStub) \<Rightarrow> ClientOptions \<Rightarrow> 'w UserClient" where
  "UserClient_options channel options =
     \<lparr>uc_stub = channel (co_target options) (CreateCredentials options), uc_access_token = co_access_token options,
       uc_timeout = co_timeout options\<rparr>"

definition SetAccessToken :: "string \<Rightarrow> 'w UserClient \<Rightarrow> 'w UserClient" where
  "SetAccessToken token c = c\<lparr>uc_access_token := token\<rparr>"

text \<open>Times are in milliseconds here.\<close>

definition AuthClient_CreateContext :: "int \<Rightarrow> 'w AuthClient \<Rightarrow> ClientContext" where
  "AuthClient_CreateContext now c = \<lparr>cc_deadline = now + ac_timeout c, cc_metadata = []\<rparr>"

definition UserClient_CreateContext :: "int \<Rightarrow> 'w UserClient \<Rightarrow> ClientContext" where
  "UserClient_CreateContext now c = \<lparr>cc_deadline = now + uc_timeout c,
     cc_metadata = (if uc_access_token c \<noteq> [] then [(''authorization'', ''Bearer '' @ uc_access_token c)] else [])\<rparr>"

subsection \<open>How a client reads a reply\<close>

text \<open>The two checks every method makes on the status and on the result of the response, and what
  it takes out of a good response.\<close>

definition reply :: "('r \<Rightarrow> pb_Result) \<Rightarrow> ('r \<Rightarrow> ('w, 'a) io) \<Rightarrow> ('w, grpc_Status \<times> 'r) io \<Rightarrow> ('w, 'a Result) io" where
  "reply result extract call =
     bindE call (\<lambda>(status, response).
     if \<not> st_ok status then ret (Result_Fail ServiceUnavailable (st_error_message status))
     else if rc_code (result response) \<noteq> 0
     then ret (Result_Fail (FromProtoErrorCode (rc_code (result response))) (rc_msg (result response)))
     else bindE (extract response) (\<lambda>a. ret (Result_Ok a)))"

text \<open>A field of message type that is absent reads as its default.\<close>

definition pb_Timestamp_default :: pb_Timestamp where
  "pb_Timestamp_default = \<lparr>ts_seconds = 0, ts_nanos = 0\<rparr>"

definition pb_UserInfo_default :: pb_UserInfo where
  "pb_UserInfo_default = \<lparr>ui_id = [], ui_mobile = [], ui_display_name = [], ui_role = USER_ROLE_USER,
     ui_disabled = False, ui_created_at = pb_Timestamp_default\<rparr>"

definition pb_TokenPair_default :: pb_TokenPair where
  "pb_TokenPair_default = \<lparr>tp_access_token = [], tp_refresh_token = [], tp_expires_in = 0\<rparr>"

definition pb_User_default :: pb_User where
  "pb_User_default = \<lparr>pu_id = [], pu_mobile = [], pu_role = USER_ROLE_USER, pu_display_name = [],
     pu_disabled = False, pu_created_at = pb_Timestamp_default, pu_updated_at = pb_Timestamp_default\<rparr>"

definition pb_PageResponse_default :: pb_PageResponse where
  "pb_PageResponse_default = \<lparr>pp_total_records = 0, pp_total_pages = 0, pp_page = 0, pp_page_size = 0\<rparr>"

definition field_or :: "'a \<Rightarrow> 'a option \<Rightarrow> 'a" where
  "field_or d f = (case f of Some a \<Rightarrow> a | None \<Rightarrow> d)"

definition read_auth :: "(int \<Rightarrow> string) \<Rightarrow> AuthResponse \<Rightarrow> ('w, AuthResult) io" where
  "read_auth strftime_local response = ret
     \<lparr>auth_user = FromProtoUserInfo strftime_local (field_or pb_UserInfo_default (ar_user response)),
      auth_tokens = FromProtoTokenPair (field_or pb_TokenPair_default (ar_tokens response))\<rparr>"

definition read_user :: "(int \<Rightarrow> string) \<Rightarrow> UserResponse \<Rightarrow> ('w, UserEntity) io" where
  "read_user strftime_local response = ret (FromProtoUser strftime_local (field_or pb_User_default (ur_user response)))"

subsection \<open>The authentication client\<close>

definition AuthClient_SendVerifyCode :: "int \<Rightarrow> 'w AuthClient \<Rightarrow> string \<Rightarrow> SmsScene \<Rightarrow> ('w, int Result) io" where
  "AuthClient_SendVerifyCode now c mobile scene =
     reply sv_result (\<lambda>response. ret (sv_retry_after response))
       (as_SendVerifyCode (ac_stub c) (AuthClient_CreateContext now c)
         \<lparr>sq_mobile = mobile, sq_scene = ToProtoSmsScene scene\<rparr>)"

definition AuthClient_Register ::
  "(int \<Rightarrow> string) \<Rightarrow> int \<Rightarrow> 'w AuthClient \<Rightarrow> string \<Rightarrow> string \<Rightarrow> string \<Rightarrow> string \<Rightarrow> ('w, AuthResult Result) io" where
  "AuthClient_Register strftime_local now c mobile verify_code password display_name =
     reply ar_result (read_auth strftime_local)
       (as_Register (ac_stub c) (AuthClient_CreateContext now c)
         \<lparr>rq_mobile = mobile, rq_verify_code = verify_code, rq_password = password,
          rq_display_name = (if display_name \<noteq> [] then display_name else [])\<rparr>)"

definition AuthClient_LoginByPassword ::
  "(int \<Rightarrow> string) \<Rightarrow> int \<Rightarrow> 'w AuthClient \<Rightarrow> string \<Rightarrow> string \<Rightarrow> ('w, AuthResult Result) io" where
  "AuthClient_LoginByPassword strftime_local now c mobile password =
     reply ar_result (read_auth strftime_local)
       (as_LoginByPassword (ac_stub c) (AuthClient_CreateContext now c)
         \<lparr>lq_mobile = mobile, lq_password = password\<rparr>)"

definition AuthClient_LoginByCode ::
  "(int \<Rightarrow> string) \<Rightarrow> int \<Rightarrow> 'w AuthClient \<Rightarrow> string \<Rightarrow> string \<Rightarrow> ('w, AuthResult Result) io" where
  "AuthClient_LoginByCode strftime_local now c mobile verify_code =
     reply ar_result (read_auth strftime_local)
       (as_LoginByCode (ac_stub c) (AuthClient_CreateContext now c)
         \<lparr>cq_mobile = mobile, cq_verify_code = verify_code\<rparr>)"

definition AuthClient_RefreshToken :: "int \<Rightarrow> 'w AuthClient \<Rightarrow> string \<Rightarrow> ('w, TokenPair Result) io" where
  "AuthClient_RefreshToken now c refresh_tok =
     reply rt_result (\<lambda>response. ret (FromProtoTokenPair (field_or pb_TokenPair_default (rt_tokens response))))
       (as_RefreshToken (ac_stub c) (AuthClient_CreateContext now c) refresh_tok)"

definition AuthClient_Logout :: "int \<Rightarrow> 'w AuthClient \<Rightarrow> string \<Rightarrow> ('w, unit Result) io" where
  "AuthClient_Logout now c refresh_tok =
     reply rr_result (\<lambda>_. ret ()) (as_Logout (ac_stub c) (AuthClient_CreateContext now c) refresh_tok)"

definition AuthClient_ResetPassword ::
  "int \<Rightarrow> 'w AuthClient \<Rightarrow> string \<Rightarrow> string \<Rightarrow> string \<Rightarrow> ('w, unit Result) io" where
  "AuthClient_ResetPassword now c mobile verify_code new_password =
     reply rr_result (\<lambda>_. ret ())
       (as_ResetPassword (ac_stub c) (AuthClient_CreateContext now c)
         \<lparr>wq_mobile = mobile, wq_verify_code = verify_code, wq_new_password = new_password\<rparr>)"

text \<open>The identifier is read with \<open>std::stoll\<close>, outside any \<open>try\<close>. The time point is in
  nanoseconds and is that of the epoch where the response has none.\<close>

definition read_validation :: "ValidateTokenResponse \<Rightarrow> ('w, TokenValidationResult) io" where
  "read_validation response = bindE (lift (stoll (vt_user_id response))) (\<lambda>user_id.
       ret \<lparr>v_user_id = user_id, v_user_uuid = vt_user_uuid response, v_mobile = vt_mobile response,
         v_role = FromProtoUserRole (vt_role response),
         v_expires_at = (case vt_expires_at response of Some ts \<Rightarrow> wrap64 (ts_seconds ts * 1000000000) | None \<Rightarrow> 0)\<rparr>)"

definition AuthClient_ValidateToken :: "int \<Rightarrow> 'w AuthClient \<Rightarrow> string \<Rightarrow> ('w, TokenValidationResult Result) io" where
  "AuthClient_ValidateToken now c access_tok =
     reply vt_result read_validation
       (as_ValidateToken (ac_stub c) (AuthClient_CreateContext now c) access_tok)"

subsection \<open>The user client\<close>

definition UserClient_GetCurrentUser :: "(int \<Rightarrow> string) \<Rightarrow> int \<Rightarrow> 'w UserClient \<Rightarrow> ('w, UserEntity Result) io" where
  "UserClient_GetCurrentUser strftime_local now c =
     reply ur_result (read_user strftime_local)
       (us_GetCurrentUser (uc_stub c) (UserClient_CreateContext now c) ())"

definition UserClient_UpdateUser ::
  "(int \<Rightarrow> string) \<Rightarrow> int \<Rightarrow> 'w UserClient \<Rightarrow> string option \<Rightarrow> ('w, UserEntity Result) io" where
  "UserClient_UpdateUser strftime_local now c display_name =
     reply ur_result (read_user strftime_local)
       (us_UpdateUser (uc_stub c) (UserClient_CreateContext now c) display_name)"

definition UserClient_ChangePassword :: "int \<Rightarrow> 'w UserClient \<Rightarrow> string \<Rightarrow> string \<Rightarrow> ('w, unit Result) io" where
  "UserClient_ChangePassword now c old_password new_password =
     reply rr_result (\<lambda>_. ret ())
       (us_ChangePassword (uc_stub c) (UserClient_CreateContext now c)
         \<lparr>pq_old_password = old_password, pq_new_password = new_password\<rparr>)"

definition UserClient_DeleteUser :: "int \<Rightarrow> 'w UserClient \<Rightarrow> string \<Rightarrow> ('w, unit Result) io" where
  "UserClient_DeleteUser now c verify_code =
     reply rr_result (\<lambda>_. ret ()) (us_DeleteUser (uc_stub c) (UserClient_CreateContext now c) verify_code)"

definition UserClient_GetUser ::
  "(int \<Rightarrow> string) \<Rightarrow> int \<Rightarrow> 'w UserClient \<Rightarrow> string \<Rightarrow> ('w, UserEntity Result) io" where
  "UserClient_GetUser strftime_local now c uid =
     reply ur_result (read_user strftime_local)
       (us_GetUser (uc_stub c) (UserClient_CreateContext now c) uid)"

definition read_users :: "(int \<Rightarrow> string) \<Rightarrow> ListUsersResponse \<Rightarrow> ('w, UserEntity list \<times> PageResult) io" where
  "read_users strftime_local response =
     (let info = field_or pb_PageResponse_default (lr_page_info response) in
       ret (map (FromProtoUser strftime_local) (lr_users response),
         \<lparr>total_records = pp_total_records info, total_pages = pp_total_pages info, pr_page = pp_page info,
          pr_page_size = pp_page_size info\<rparr>))"

definition UserClient_ListUsers ::
  "(int \<Rightarrow> string) \<Rightarrow> int \<Rightarrow> 'w UserClient \<Rightarrow> string option \<Rightarrow> bool option \<Rightarrow> int \<Rightarrow> int
     \<Rightarrow> ('w, (UserEntity list \<times> PageResult) Result) io" where
  "UserClient_ListUsers strftime_local now c mobile_filter disabled_filter pg pg_size =
     reply lr_result (read_users strftime_local)
       (us_ListUsers (uc_stub c) (UserClient_CreateContext now c)
         \<lparr>uq_page = Some \<lparr>pq_page = pg, pq_page_size = pg_size\<rparr>,
          uq_mobile_filter = (case mobile_filter of Some f \<Rightarrow> f | None \<Rightarrow> []), uq_disabled_filter = disabled_filter\<rparr>)"

subsection \<open>Handlers seen through the wire\<close>

text \<open>What a client makes of a response that arrives; a handler mirrors a computation when the client
  reads that computation's result out of its response.\<close>

definition readback :: "('r \<Rightarrow> pb_Result) \<Rightarrow> ('r \<Rightarrow> ('w, 'a) io) \<Rightarrow> 'r \<Rightarrow> ('w, 'a Result) io" where
  "readback result extract response =
     (if rc_code (result response) \<noteq> 0
      then ret (Result_Fail (FromProtoErrorCode (rc_code (result response))) (rc_msg (result response)))
      else bindE (extract response) (\<lambda>a. ret (Result_Ok a)))"

definition mirrors :: "('r \<Rightarrow> pb_Result) \<Rightarrow> ('r \<Rightarrow> ('w, 'a) io) \<Rightarrow> ('w, StatusCode \<times> 'r) io \<Rightarrow> ('w, 'a Result) io \<Rightarrow> bool" where
  "mirrors result extract h s \<longleftrightarrow> (\<forall>w x w'. s w = (Inr x, w') \<longrightarrow>
     (\<exists>response w1. h w = (Inr (OK, response), w1) \<and> readback result extract response w1 = (Inr x, w')))"

text \<open>The channel brings the response of a handler that returns to the client as it is. Of a handler
  that ends with an exception nothing is said.\<close>

definition delivered :: "('w, StatusCode \<times> 'r) io \<Rightarrow> ('w, grpc_Status \<times> 'r) io \<Rightarrow> bool" where
  "delivered h call \<longleftrightarrow> (\<forall>w response w'. h w = (Inr (OK, response), w')
     \<longrightarrow> call w = (Inr (\<lparr>st_ok = True, st_error_message = []\<rparr>, response), w'))"

text \<open>A computation simulates another when it has its result wherever that one returns.\<close>

definition simulates :: "('w, 'a) io \<Rightarrow> ('w, 'a) io \<Rightarrow> bool" where
  "simulates m s \<longleftrightarrow> (\<forall>w x w'. s w = (Inr x, w') \<longrightarrow> m w = (Inr x, w'))"

lemma reply_simulates:
  assumes "delivered h call" and "mirrors result extract h s"
  shows "simulates (reply result extract call) s"
  using assms unfolding simulates_def mirrors_def delivered_def
  by (fastforce simp: reply_def readback_def bindE_def split: if_splits)

lemma mirrors_refuse:
  assumes "c \<noteq> Ok" and "\<And>p. result (response p) = p"
  shows "mirrors result extract (refuse response c m) (ret (Result_Fail c m))"
  using assms error_code_zero [of c m]
  by (simp add: mirrors_def refuse_def ret_def readback_def FromProtoErrorCode_def SetResultError_def ToProtoErrorCode_def)

lemma mirrors_check:
  assumes "mirrors result extract k s" and "\<And>p. result (response p) = p"
  shows "mirrors result extract (check_argument response v k) (require v s)"
  using assms mirrors_refuse [of InvalidArgument result response "extract"]
  by (cases v) (simp_all add: check_argument_def require_def)

lemma mirrors_If:
  "mirrors result extract h s \<Longrightarrow> mirrors result extract h' s'
     \<Longrightarrow> mirrors result extract (if b then h else h') (if b then s else s')"
  by simp

lemma mirrors_answer:
  assumes "\<And>p. result (response p) = p" "\<And>p v. result (set_data (response p) v) = p"
    and ex: "\<And>p v. extract (set_data (response p) v) = view v"
  shows "mirrors result extract (answer response set_data svc) (bindR svc (\<lambda>v. bindE (view v) (\<lambda>a. ret (Result_Ok a))))"
  unfolding mirrors_def
proof (intro allI impI)
  fix w x w'
  assume run: "bindR svc (\<lambda>v. bindE (view v) (\<lambda>a. ret (Result_Ok a))) w = (Inr x, w')"
  then obtain r w1 where r: "svc w = (Inr r, w1)" by (auto simp: bindR_def bindE_Inr_iff)
  show "\<exists>resp w1. answer response set_data svc w = (Inr (OK, resp), w1) \<and> readback result extract resp w1 = (Inr x, w')"
  proof (cases "IsOk r")
    case False
    then have "rc_code (SetResultError (code r) (message r)) \<noteq> 0" by (simp add: error_code_zero IsOk_def)
    moreover have "x = Result_Fail (code r) (message r) \<and> w' = w1"
      using run r False by (simp add: bindR_def bindE_def ret_def)
    ultimately show ?thesis using r False assms(1)
      by (simp add: answer_def bindE_def ret_def readback_def FromProtoErrorCode_def)
        (simp add: SetResultError_def ToProtoErrorCode_def)
  next
    case True
    then obtain v where v: "data r = Some v" "bindE (view v) (\<lambda>a. ret (Result_Ok a)) w1 = (Inr x, w')"
      using run r by (auto simp: bindR_def bindE_def throw_def split: option.splits)
    have "rc_code (SetResultError (code r) (message r)) = 0" using True by (simp add: error_code_zero IsOk_def)
    then show ?thesis using r True v assms(2) ex
      by (simp add: answer_def bindE_def ret_def readback_def Value_def)
  qed
qed

lemma mirrors_authenticated:
  assumes k: "\<And>ctx. mirrors result extract (k ctx) (s ctx)" and "\<And>p. result (response p) = p"
  shows "mirrors result extract (authenticated this md response k) (bindR (au_Authenticate (uh_authenticator this) md) s)"
  unfolding mirrors_def
proof (intro allI impI)
  fix w x w'
  assume run: "bindR (au_Authenticate (uh_authenticator this) md) s w = (Inr x, w')"
  then obtain r w1 where r: "au_Authenticate (uh_authenticator this) md w = (Inr r, w1)" by (auto simp: bindR_def bindE_Inr_iff)
  show "\<exists>resp w1. authenticated this md response k w = (Inr (OK, resp), w1) \<and> readback result extract resp w1 = (Inr x, w')"
  proof (cases "IsOk r")
    case False
    then have "ret (Result_Fail (code r) (message r)) w1 = (Inr x, w')" "code r \<noteq> Ok"
      using run r by (simp_all add: bindR_def bindE_def IsOk_def)
    then show ?thesis using r False mirrors_refuse [of "code r" result response "extract" "message r"] assms(2)
      by (simp add: authenticated_def bindE_def mirrors_def)
  next
    case True
    then obtain ctx where "data r = Some ctx" "s ctx w1 = (Inr x, w')"
      using run r by (auto simp: bindR_def bindE_def throw_def split: option.splits)
    then show ?thesis using r True k [of ctx]
      by (simp add: authenticated_def bindE_def mirrors_def Value_def ret_def)
  qed
qed

lemma mirrors_admin:
  assumes "mirrors result extract k s" and "\<And>p. result (response p) = p"
  shows "mirrors result extract (admin_only ctx response k) (bindV (ret (RequireAdmin ctx)) s)"
  using assms mirrors_refuse [of "code (RequireAdmin ctx)" result response "extract" "message (RequireAdmin ctx)"]
  by (auto simp: admin_only_def bindV_def Let_def IsOk_def)

subsection \<open>What survives the wire\<close>

definition wire_time :: "(tm \<Rightarrow> int) \<Rightarrow> (int \<Rightarrow> string) \<Rightarrow> string \<Rightarrow> string" where
  "wire_time mktime strftime_local t = strftime_local (ts_seconds (ToProtoTimestamp mktime t))"

definition known_role :: "UserRole \<Rightarrow> UserRole" where
  "known_role r = (case r of UnnamedRole _ \<Rightarrow> User | _ \<Rightarrow> r)"

definition seen_user :: "(tm \<Rightarrow> int) \<Rightarrow> (int \<Rightarrow> string) \<Rightarrow> UserEntity \<Rightarrow> UserEntity" where
  "seen_user mktime strftime_local u = u\<lparr>u_id := 0, u_password_hash := [], u_role := known_role (u_role u),
     u_created_at := wire_time mktime strftime_local (u_created_at u),
     u_updated_at := wire_time mktime strftime_local (u_updated_at u)\<rparr>"

definition seen_auth :: "(tm \<Rightarrow> int) \<Rightarrow> (int \<Rightarrow> string) \<Rightarrow> AuthResult \<Rightarrow> AuthResult" where
  "seen_auth mktime strftime_local a = a\<lparr>auth_user := (seen_user mktime strftime_local (auth_user a))\<lparr>u_updated_at := []\<rparr>\<rparr>"

text \<open>Instants are sent in seconds and nanoseconds; the client keeps the seconds.\<close>

definition seen_validation :: "TokenValidationResult \<Rightarrow> TokenValidationResult" where
  "seen_validation v = v\<lparr>v_role := known_role (v_role v), v_expires_at := cdiv (v_expires_at v) 1000000000 * 1000000000\<rparr>"

lemma seen_user_eq: "FromProtoUser strf (ToProtoUser mktime u) = seen_user mktime strf u"
  by (cases u) (simp add: FromProtoUser_def ToProtoUser_def seen_user_def wire_time_def known_role_def role_roundtrip
      FromProtoTimestamp_def UserEntity_default_def)

lemma seen_tokens [simp]: "FromProtoTokenPair (ToProtoTokenPair t) = t"
  by (cases t) (simp add: FromProtoTokenPair_def ToProtoTokenPair_def)

lemma read_auth_set: "read_auth strf (set_auth mktime (auth_response p) a) = ret (seen_auth mktime strf a)"
proof -
  have "FromProtoUserInfo strf (ToProtoUserInfo mktime u) = (seen_user mktime strf u)\<lparr>u_updated_at := []\<rparr>" for u
    by (cases u) (simp add: FromProtoUserInfo_def ToProtoUserInfo_def seen_user_def wire_time_def known_role_def
        role_roundtrip FromProtoTimestamp_def UserEntity_default_def)
  then show ?thesis
    by (cases a) (simp add: read_auth_def set_auth_def auth_response_def field_or_def seen_auth_def)
qed

lemma read_user_set: "read_user strf (set_user mktime (user_response p) u) = ret (seen_user mktime strf u)"
  by (simp add: read_user_def set_user_def user_response_def field_or_def seen_user_eq)

lemmas response_results = code_response_def auth_response_def refresh_response_def result_response_def
  user_response_def list_response_def set_auth_def set_user_def set_users_def no_data_def

text \<open>The answers of each kind.\<close>

lemma mirrors_auth:
  "mirrors ar_result (read_auth strf) (answer auth_response (set_auth mktime) svc)
     (bindR svc (\<lambda>a. ret (Result_Ok (seen_auth mktime strf a))))"
  by (rule mirrors_answer [where view = "\<lambda>a. ret (seen_auth mktime strf a)", simplified bindE_ret])
    (simp add: response_results, simp add: response_results, rule read_auth_set)

lemma mirrors_user:
  "mirrors ur_result (read_user strf) (answer user_response (set_user mktime) svc)
     (bindR svc (\<lambda>u. ret (Result_Ok (seen_user mktime strf u))))"
  by (rule mirrors_answer [where view = "\<lambda>u. ret (seen_user mktime strf u)", simplified bindE_ret])
    (simp add: response_results, simp add: response_results, rule read_user_set)

lemma mirrors_void:
  "mirrors rr_result (\<lambda>_. ret ()) (answer result_response no_data svc) (bindR svc (\<lambda>_. ret (Result_Ok ())))"
  by (rule mirrors_answer [where view = "\<lambda>_. ret ()", simplified bindE_ret]) (simp_all add: response_results)

subsection \<open>Remote calls are local calls\<close>

text \<open>The server behind a stub: each remote method reaches the handler of its name with the request
  and, for the user service, the metadata of the call.\<close>

definition auth_channel :: "(tm \<Rightarrow> int) \<Rightarrow> UserRole \<Rightarrow> 'w AuthHandler \<Rightarrow> 'w AuthStub \<Rightarrow> bool" where
  "auth_channel mktime indeterminate h stub \<longleftrightarrow>
     (\<forall>ctx q. delivered (AuthHandler_SendVerifyCode h q) (as_SendVerifyCode stub ctx q)) \<and>
     (\<forall>ctx q. delivered (AuthHandler_Register mktime h q) (as_Register stub ctx q)) \<and>
     (\<forall>ctx q. delivered (AuthHandler_LoginByPassword mktime h q) (as_LoginByPassword stub ctx q)) \<and>
     (\<forall>ctx q. delivered (AuthHandler_LoginByCode mktime h q) (as_LoginByCode stub ctx q)) \<and>
     (\<forall>ctx q. delivered (AuthHandler_RefreshToken h q) (as_RefreshToken stub ctx q)) \<and>
     (\<forall>ctx q. delivered (AuthHandler_Logout h q) (as_Logout stub ctx q)) \<and>
     (\<forall>ctx q. delivered (AuthHandler_ResetPassword h q) (as_ResetPassword stub ctx q)) \<and>
     (\<forall>ctx q. delivered (AuthHandler_ValidateToken indeterminate h q) (as_ValidateToken stub ctx q))"

definition user_channel :: "(tm \<Rightarrow> int) \<Rightarrow> 'w UserHandler \<Rightarrow> 'w UserStub \<Rightarrow> bool" where
  "user_channel mktime h stub \<longleftrightarrow>
     (\<forall>ctx q. delivered (UserHandler_GetCurrentUser mktime h (cc_metadata ctx)) (us_GetCurrentUser stub ctx q)) \<and>
     (\<forall>ctx q. delivered (UserHandler_UpdateUser mktime h (cc_metadata ctx) q) (us_UpdateUser stub ctx q)) \<and>
     (\<forall>ctx q. delivered (UserHandler_ChangePassword h (cc_metadata ctx) q) (us_ChangePassword stub ctx q)) \<and>
     (\<forall>ctx q. delivered (UserHandler_DeleteUser h (cc_metadata ctx) q) (us_DeleteUser stub ctx q)) \<and>
     (\<forall>ctx q. delivered (UserHandler_GetUser mktime h (cc_metadata ctx) q) (us_GetUser stub ctx q)) \<and>
     (\<forall>ctx q. delivered (UserHandler_ListUsers mktime h (cc_metadata ctx) q) (us_ListUsers stub ctx q))"

lemma mirrors_validate:
  "mirrors vt_result read_validation
     (bindE svc (\<lambda>verify_res.
        if \<not> IsOk verify_res then refuse validate_response (code verify_res) (message verify_res)
        else bindE (Value verify_res) (\<lambda>v. ret (OK, SetValidateTokenResponse v (validate_response SetResultOk)))))
     (bindR svc (\<lambda>v. if in_int64 (v_user_id v) \<and> in_int64 (v_expires_at v) then ret (Result_Ok (seen_validation v))
        else throw (StdOutOfRange ''stoll'')))"
  unfolding mirrors_def
proof (intro allI impI)
  fix w x w'
  assume run: "bindR svc (\<lambda>v. if in_int64 (v_user_id v) \<and> in_int64 (v_expires_at v) then ret (Result_Ok (seen_validation v))
        else throw (StdOutOfRange ''stoll'')) w = (Inr x, w')"
  then obtain r w1 where r: "svc w = (Inr r, w1)" by (auto simp: bindR_def bindE_Inr_iff)
  show "\<exists>response w1. bindE svc (\<lambda>verify_res.
        if \<not> IsOk verify_res then refuse validate_response (code verify_res) (message verify_res)
        else bindE (Value verify_res) (\<lambda>v. ret (OK, SetValidateTokenResponse v (validate_response SetResultOk)))) w
      = (Inr (OK, response), w1) \<and> readback vt_result read_validation response w1 = (Inr x, w')"
  proof (cases "IsOk r")
    case False
    then have "ret (Result_Fail (code r) (message r)) w1 = (Inr x, w')" "code r \<noteq> Ok"
      using run r by (simp_all add: bindR_def bindE_def IsOk_def)
    then have "\<exists>response w2. refuse validate_response (code r) (message r) w1 = (Inr (OK, response), w2)
        \<and> readback vt_result read_validation response w2 = (Inr x, w')"
      by (intro mirrors_refuse [unfolded mirrors_def, rule_format]) (simp_all add: validate_response_def)
    then show ?thesis using r False by (simp add: bindE_def)
  next
    case True
    then obtain v where v: "data r = Some v" "in_int64 (v_user_id v)" "in_int64 (v_expires_at v)"
        "x = Result_Ok (seen_validation v)" "w' = w1"
      using run r by (auto simp: bindR_def bindE_def throw_def ret_def split: option.splits if_splits)
    have reads: "read_validation (SetValidateTokenResponse v (validate_response SetResultOk)) w1 = (Inr (seen_validation v), w1)"
      using v(2) in_int64_seconds [OF v(3)]
      by (cases v) (simp add: read_validation_def SetValidateTokenResponse_def validate_response_def lift_def bindE_def ret_def seen_validation_def
          known_role_def role_roundtrip ToProtoTimestamp_tp_def Let_def)
    moreover have "rc_code (vt_result (SetValidateTokenResponse v (validate_response SetResultOk))) = 0"
      by (simp add: SetValidateTokenResponse_def validate_response_def SetResultOk_def)
    ultimately show ?thesis using r True v(1,4,5)
      by (simp add: bindE_def Value_def ret_def readback_def)
  qed
qed

text \<open>The lists of users.\<close>

definition seen_users :: "(tm \<Rightarrow> int) \<Rightarrow> (int \<Rightarrow> string) \<Rightarrow> ListUsersResult \<Rightarrow> UserEntity list \<times> PageResult" where
  "seen_users mktime strftime_local l = (map (seen_user mktime strftime_local) (lu_users l), lu_page_res l)"

lemma page_result_eq:
  "\<lparr>total_records = total_records p, total_pages = total_pages p, pr_page = pr_page p, pr_page_size = pr_page_size p\<rparr> = p"
  by (cases p) simp

lemma mirrors_list:
  "mirrors lr_result (read_users strf)
     (answer list_response (set_users mktime) svc) (bindR svc (\<lambda>l. ret (Result_Ok (seen_users mktime strf l))))"
  by (rule mirrors_answer [where view = "\<lambda>l. ret (seen_users mktime strf l)", simplified bindE_ret])
    (simp_all add: read_users_def response_results field_or_def Let_def seen_users_def seen_user_eq comp_def, simp add: page_result_eq)

lemma mirrors_code:
  "mirrors sv_result (\<lambda>response. ret (sv_retry_after response))
     (answer code_response (\<lambda>resp retry_after. resp\<lparr>sv_retry_after := retry_after\<rparr>) svc) (bindR svc (\<lambda>n. ret (Result_Ok n)))"
  by (rule mirrors_answer [where view = ret, simplified bindE_ret]) (simp_all add: response_results)

lemma mirrors_refresh:
  "mirrors rt_result (\<lambda>response. ret (FromProtoTokenPair (field_or pb_TokenPair_default (rt_tokens response))))
     (answer refresh_response (\<lambda>resp token_pair. resp\<lparr>rt_tokens := Some (ToProtoTokenPair token_pair)\<rparr>) svc)
     (bindR svc (\<lambda>t. ret (Result_Ok t)))"
  by (rule mirrors_answer [where view = ret, simplified bindE_ret]) (simp_all add: response_results field_or_def)

lemmas mirrors_rules = mirrors_check mirrors_If mirrors_refuse mirrors_authenticated mirrors_admin mirrors_auth
  mirrors_user mirrors_void mirrors_list mirrors_code mirrors_refresh

lemmas auth_channelD =
  auth_channel_def [THEN iffD1, THEN conjunct1, rule_format]
  auth_channel_def [THEN iffD1, THEN conjunct2, THEN conjunct1, rule_format]
  auth_channel_def [THEN iffD1, THEN conjunct2, THEN conjunct2, THEN conjunct1, rule_format]
  auth_channel_def [THEN iffD1, THEN conjunct2, THEN conjunct2, THEN conjunct2, THEN conjunct1, rule_format]
  auth_channel_def [THEN iffD1, THEN conjunct2, THEN conjunct2, THEN conjunct2, THEN conjunct2, THEN conjunct1, rule_format]
  auth_channel_def [THEN iffD1, THEN conjunct2, THEN conjunct2, THEN conjunct2, THEN conjunct2, THEN conjunct2, THEN conjunct1, rule_format]
  auth_channel_def [THEN iffD1, THEN conjunct2, THEN conjunct2, THEN conjunct2, THEN conjunct2, THEN conjunct2, THEN conjunct2, THEN conjunct1, rule_format]
  auth_channel_def [THEN iffD1, THEN conjunct2, THEN conjunct2, THEN conjunct2, THEN conjunct2, THEN conjunct2, THEN conjunct2, THEN conjunct2, rule_format]

lemmas user_channelD =
  user_channel_def [THEN iffD1, THEN conjunct1, rule_format]
  user_channel_def [THEN iffD1, THEN conjunct2, THEN conjunct1, rule_format]
  user_channel_def [THEN iffD1, THEN conjunct2, THEN conjunct2, THEN conjunct1, rule_format]
  user_channel_def [THEN iffD1, THEN conjunct2, THEN conjunct2, THEN conjunct2, THEN conjunct1, rule_format]
  user_channel_def [THEN iffD1, THEN conjunct2, THEN conjunct2, THEN conjunct2, THEN conjunct2, THEN conjunct1, rule_format]
  user_channel_def [THEN iffD1, THEN conjunct2, THEN conjunct2, THEN conjunct2, THEN conjunct2, THEN conjunct2, rule_format]

lemma same_name: "(if name \<noteq> [] then name else []) = name"
  by simp

lemmas auth_client_defs = AuthClient_SendVerifyCode_def AuthClient_Register_def AuthClient_LoginByPassword_def
  AuthClient_LoginByCode_def AuthClient_RefreshToken_def AuthClient_Logout_def AuthClient_ResetPassword_def
  AuthClient_ValidateToken_def

lemmas auth_handler_defs = AuthHandler_SendVerifyCode_def AuthHandler_Register_def AuthHandler_LoginByPassword_def
  AuthHandler_LoginByCode_def AuthHandler_RefreshToken_def AuthHandler_Logout_def AuthHandler_ResetPassword_def
  AuthHandler_ValidateToken_def SendVerifyCodeRequest.simps RegisterRequest.simps LoginByPasswordRequest.simps
  LoginByCodeRequest.simps ResetPasswordRequest.simps scene_roundtrip Let_def same_name

text \<open>C25: A call of the authentication client is a call of the authentication service: through the
  request message, the handler, the response message and the client's reading of it, each method
  returns what the service returns for the same arguments on the same state, with the same error
  codes and messages, after the argument checks of the handler. An account loses exactly its
  database identifier, its hash and its time of update; an expiry is cut to seconds.\<close>

theorem remote_auth_transparent:
  fixes c :: "'w AuthClient"
  assumes channel: "auth_channel mktime indeterminate h (ac_stub c)"
  shows "simulates (AuthClient_SendVerifyCode now c mobile scene)
      (require (IsValidMobile mobile) (
       if scene = UnKnow then ret (Result_Fail InvalidArgument (utf8 [0x65E0, 0x6548, 0x7684, 0x9A8C, 0x8BC1, 0x7801]))
       else bindR (SendVerifyCode (ah_auth_service h) mobile scene) (\<lambda>n. ret (Result_Ok n))))
    \<and> simulates (AuthClient_Register strf now c mobile vcode pw name)
      (require (IsValidMobile mobile) (require (IsValidVerifyCode_default vcode) (require (IsValidPassword_default pw) (
       require (if name \<noteq> [] then IsValidDisplayName name else None) (
       bindR (AuthService_Register (ah_auth_service h) mobile vcode pw name) (\<lambda>a. ret (Result_Ok (seen_auth mktime strf a))))))))
    \<and> simulates (AuthClient_LoginByPassword strf now c mobile pw)
      (require (IsValidMobile mobile) (
       if pw = [] then ret (Result_Fail InvalidArgument (utf8 [0x5BC6, 0x7801, 0x4E0D, 0x80FD, 0x4E3A, 0x7A7A]))
       else bindR (LoginByPassword (ah_auth_service h) mobile pw) (\<lambda>a. ret (Result_Ok (seen_auth mktime strf a)))))
    \<and> simulates (AuthClient_LoginByCode strf now c mobile vcode)
      (require (IsValidMobile mobile) (require (IsValidVerifyCode_default vcode) (
       bindR (LoginByCode (ah_auth_service h) mobile vcode) (\<lambda>a. ret (Result_Ok (seen_auth mktime strf a))))))
    \<and> simulates (AuthClient_RefreshToken now c token)
      (if token = [] then ret (Result_Fail InvalidArgument (''refresh_token '' @ utf8 [0x4E0D, 0x80FD, 0x4E3A, 0x7A7A]))
       else bindR (AuthService_RefreshToken (ah_auth_service h) token) (\<lambda>t. ret (Result_Ok t)))
    \<and> simulates (AuthClient_Logout now c token)
      (if token = [] then ret (Result_Fail InvalidArgument (''refresh_token '' @ utf8 [0x4E0D, 0x80FD, 0x4E3A, 0x7A7A]))
       else bindR (Logout (ah_auth_service h) token) (\<lambda>_. ret (Result_Ok ())))
    \<and> simulates (AuthClient_ResetPassword now c mobile vcode pw)
      (require (IsValidMobile mobile) (require (IsValidVerifyCode_default vcode) (require (IsValidPassword_default pw) (
       bindR (AuthService_ResetPassword (ah_auth_service h) mobile vcode pw) (\<lambda>_. ret (Result_Ok ()))))))
    \<and> simulates (AuthClient_ValidateToken now c token)
      (if token = [] then ret (Result_Fail InvalidArgument (''access_token '' @ utf8 [0x4E0D, 0x80FD, 0x4E3A, 0x7A7A]))
       else bindR (ValidateAccessToken indeterminate (ah_auth_service h) token) (\<lambda>v.
         if in_int64 (v_user_id v) \<and> in_int64 (v_expires_at v) then ret (Result_Ok (seen_validation v))
         else throw (StdOutOfRange ''stoll'')))"
proof -
  note reach = auth_channelD [OF channel, THEN reply_simulates]
  show ?thesis
    by (intro conjI; unfold auth_client_defs; rule reach; unfold auth_handler_defs; intro mirrors_rules mirrors_validate)
      (simp_all add: response_results validate_response_def)
qed

lemmas user_client_defs = UserClient_GetCurrentUser_def UserClient_UpdateUser_def UserClient_ChangePassword_def
  UserClient_DeleteUser_def UserClient_GetUser_def UserClient_ListUsers_def

lemma filter_text:
  "(if (case f of Some m \<Rightarrow> m | None \<Rightarrow> []) \<noteq> [] then Some (case f of Some m \<Rightarrow> m | None \<Rightarrow> []) else None)
     = (if f = Some [] then None else f)"
  by (cases f) simp_all

lemmas user_handler_defs = UserHandler_GetCurrentUser_def UserHandler_UpdateUser_def UserHandler_ChangePassword_def
  UserHandler_DeleteUser_def UserHandler_GetUser_def UserHandler_ListUsers_def ChangePasswordRequest.simps
  ListUsersRequest.simps pb_PageRequest.simps option.case Let_def

text \<open>C26: A call of the user client is a call of the user service for the account that the handler's
  authenticator finds for the client's access token: the metadata of the call is the bearer header
  with exactly that token, or nothing when the client has none; each method fails with the code and
  message of the authenticator, the check for administrators or the argument checks, and
  otherwise returns what the service returns for the account that the authenticator gave, on the
  same state. An account loses exactly its database identifier and its hash; an empty filter is
  no filter.\<close>

theorem remote_user_transparent:
  fixes c :: "'w UserClient"
  assumes channel: "user_channel mktime h (uc_stub c)"
  defines "md \<equiv> if uc_access_token c = [] then [] else [(''authorization'', ''Bearer '' @ uc_access_token c)]"
  shows "simulates (UserClient_GetCurrentUser strf now c)
      (bindR (au_Authenticate (uh_authenticator h) md) (\<lambda>ctx.
       bindR (GetCurrentUser (uh_user_service h) (ac_user_uuid ctx)) (\<lambda>u. ret (Result_Ok (seen_user mktime strf u)))))
    \<and> simulates (UserClient_UpdateUser strf now c name)
      (bindR (au_Authenticate (uh_authenticator h) md) (\<lambda>ctx.
       bindR (UpdateUser (uh_user_service h) (ac_user_uuid ctx) name) (\<lambda>u. ret (Result_Ok (seen_user mktime strf u)))))
    \<and> simulates (UserClient_ChangePassword now c old new)
      (bindR (au_Authenticate (uh_authenticator h) md) (\<lambda>ctx.
       if old = [] then ret (Result_Fail InvalidArgument (utf8 [0x65E7, 0x5BC6, 0x7801, 0x4E0D, 0x80FD, 0x4E3A, 0x7A7A]))
       else if new = [] then ret (Result_Fail InvalidArgument (utf8 [0x65B0, 0x5BC6, 0x7801, 0x4E0D, 0x80FD, 0x4E3A, 0x7A7A]))
       else require (IsValidPassword_default new) (
         bindR (ChangePassword (uh_user_service h) (ac_user_uuid ctx) old new) (\<lambda>_. ret (Result_Ok ())))))
    \<and> simulates (UserClient_DeleteUser now c vcode)
      (bindR (au_Authenticate (uh_authenticator h) md) (\<lambda>ctx.
       require (IsValidVerifyCode_default vcode) (
       bindR (UserService_DeleteUser (uh_user_service h) (ac_user_uuid ctx) vcode) (\<lambda>_. ret (Result_Ok ())))))
    \<and> simulates (UserClient_GetUser strf now c uid)
      (bindR (au_Authenticate (uh_authenticator h) md) (\<lambda>ctx.
       bindV (ret (RequireAdmin ctx)) (
       if uid = [] then ret (Result_Fail InvalidArgument (utf8 [0x7528, 0x6237] @ ''ID'' @ utf8 [0x4E0D, 0x80FD, 0x4E3A, 0x7A7A]))
       else bindR (GetUser (uh_user_service h) uid) (\<lambda>u. ret (Result_Ok (seen_user mktime strf u))))))
    \<and> simulates (UserClient_ListUsers strf now c f disabled pg sz)
      (bindR (au_Authenticate (uh_authenticator h) md) (\<lambda>ctx.
       bindV (ret (RequireAdmin ctx)) (
       bindR (ListUsers (uh_user_service h) (if f = Some [] then None else f) disabled pg sz)
         (\<lambda>l. ret (Result_Ok (seen_users mktime strf l))))))"
proof -
  note reach = user_channelD [OF channel, THEN reply_simulates]
  have md: "md = cc_metadata (UserClient_CreateContext now c)"
    by (simp add: md_def UserClient_CreateContext_def)
  show ?thesis
    unfolding md filter_text [symmetric]
    by (intro conjI; unfold user_client_defs; rule reach; unfold user_handler_defs; intro mirrors_rules)
      (simp_all add: response_results)
qed

text \<open>A channel within one process, on which the hypotheses hold.\<close>

definition loopback :: "('w, StatusCode \<times> 'r) io \<Rightarrow> ('w, grpc_Status \<times> 'r) io" where
  "loopback h = bindE h (\<lambda>(st, response). ret (\<lparr>st_ok = (st = OK), st_error_message = []\<rparr>, response))"

lemma loopback_delivers: "delivered h (loopback h)"
  by (simp add: delivered_def loopback_def bindE_def ret_def)

definition auth_loopback :: "(tm \<Rightarrow> int) \<Rightarrow> UserRole \<Rightarrow> 'w AuthHandler \<Rightarrow> 'w AuthStub" where
  "auth_loopback mktime indeterminate h = \<lparr>
     as_SendVerifyCode = (\<lambda>ctx q. loopback (AuthHandler_SendVerifyCode h q)),
     as_Register = (\<lambda>ctx q. loopback (AuthHandler_Register mktime h q)),
     as_LoginByPassword = (\<lambda>ctx q. loopback (AuthHandler_LoginByPassword mktime h q)),
     as_LoginByCode = (\<lambda>ctx q. loopback (AuthHandler_LoginByCode mktime h q)),
     as_RefreshToken = (\<lambda>ctx q. loopback (AuthHandler_RefreshToken h q)),
     as_Logout = (\<lambda>ctx q. loopback (AuthHandler_Logout h q)),
     as_ResetPassword = (\<lambda>ctx q. loopback (AuthHandler_ResetPassword h q)),
     as_ValidateToken = (\<lambda>ctx q. loopback (AuthHandler_ValidateToken indeterminate h q))\<rparr>"

definition user_loopback :: "(tm \<Rightarrow> int) \<Rightarrow> 'w UserHandler \<Rightarrow> 'w UserStub" where
  "user_loopback mktime h = \<lparr>
     us_GetCurrentUser = (\<lambda>ctx q. loopback (UserHandler_GetCurrentUser mktime h (cc_metadata ctx))),
     us_UpdateUser = (\<lambda>ctx q. loopback (UserHandler_UpdateUser mktime h (cc_metadata ctx) q)),
     us_ChangePassword = (\<lambda>ctx q. loopback (UserHandler_ChangePassword h (cc_metadata ctx) q)),
     us_DeleteUser = (\<lambda>ctx q. loopback (UserHandler_DeleteUser h (cc_metadata ctx) q)),
     us_GetUser = (\<lambda>ctx q. loopback (UserHandler_GetUser mktime h (cc_metadata ctx) q)),
     us_ListUsers = (\<lambda>ctx q. loopback (UserHandler_ListUsers mktime h (cc_metadata ctx) q))\<rparr>"

lemma loopback_channels:
  "auth_channel mktime indeterminate h (auth_loopback mktime indeterminate h)"
  "user_channel mktime uh (user_loopback mktime uh)"
  by (simp_all add: auth_channel_def auth_loopback_def user_channel_def user_loopback_def loopback_delivers)

theorem remote_auth_transparent_witness:
  "\<exists>a w'. AuthClient_LoginByPassword (\<lambda>_. []) 0
       (AuthClient_target (auth_loopback (\<lambda>_. 0) User (auth_handler config_once))) ''13800138000'' ''abc12345''
       (world_row 1000000000) = (Inr (Result_Ok a), w')
     \<and> u_mobile (auth_user a) = ''13800138000'' \<and> u_id (auth_user a) = 0"
proof -
  let ?c = "AuthClient_target (auth_loopback (\<lambda>_. 0) User (auth_handler config_once))"
  obtain tokens w' where run: "LoginByPassword (auth_service config_once) ''13800138000'' ''abc12345'' (world_row 1000000000) =
      (Inr (Result_Ok \<lparr>auth_user = user_row\<lparr>u_password_hash := []\<rparr>, auth_tokens = tokens\<rparr>), w')"
    using login_row_example by blast
  have ok: "IsValidMobile ''13800138000'' = None" by code_simp
  have "auth_channel (\<lambda>_. 0) User (auth_handler config_once) (ac_stub ?c)"
    by (simp add: AuthClient_target_def loopback_channels)
  note remote_auth_transparent [where strf = "\<lambda>_. []" and now = 0 and mobile = "''13800138000''" and pw = "''abc12345''",
      OF this, THEN conjunct2, THEN conjunct2, THEN conjunct1, unfolded simulates_def ok require_def option.case, rule_format]
  moreover have "(if ''abc12345'' = [] then ret (Result_Fail InvalidArgument (utf8 [0x5BC6, 0x7801, 0x4E0D, 0x80FD, 0x4E3A, 0x7A7A]))
      else bindR (LoginByPassword (ah_auth_service (auth_handler config_once)) ''13800138000'' ''abc12345'')
        (\<lambda>a. ret (Result_Ok (seen_auth (\<lambda>_. 0) (\<lambda>_. []) a)))) (world_row 1000000000) =
      (Inr (Result_Ok (seen_auth (\<lambda>_. 0) (\<lambda>_. []) \<lparr>auth_user = user_row\<lparr>u_password_hash := []\<rparr>, auth_tokens = tokens\<rparr>)), w')"
    using run by (simp add: bindR_Ok ret_def)
  ultimately have "AuthClient_LoginByPassword (\<lambda>_. []) 0 ?c ''13800138000'' ''abc12345'' (world_row 1000000000) =
      (Inr (Result_Ok (seen_auth (\<lambda>_. 0) (\<lambda>_. []) \<lparr>auth_user = user_row\<lparr>u_password_hash := []\<rparr>, auth_tokens = tokens\<rparr>)), w')"
    by blast
  then show ?thesis by (intro exI conjI) (assumption, simp_all add: seen_auth_def seen_user_def user_row_def user_example_def)
qed

text \<open>An access token of \<open>user_row\<close> as the server signs it, with the client that carries it.\<close>

definition row_token :: string where
  "row_token = jwt_text (sys_hmac (sys_example 0)) (access_claims (cfg_security config_once) user_row 0
     (plus_seconds 0 (access_token_ttl_seconds (cfg_security config_once))) 7) (jwt_secret (cfg_security config_once))"

lemma row_token_authenticates:
  "\<exists>ctx. JwtAuthenticator_Authenticate (jwt_service (cfg_security config_once)) [(''authorization'', ''Bearer '' @ row_token)]
      (world_row 0) = (Inr (Result_Ok ctx), world_row 0) \<and> ac_user_uuid ctx = u_uuid user_row"
proof -
  let ?c = "cfg_security config_once"
  have c: "?c = SecurityConfig_default" by (simp add: config_once_def Config_default_def)
  have ok: "jwt_user_ok ?c user_row" using jwt_user_ok_example by (simp add: c jwt_user_ok_def user_row_def)
  have range: "expiry_in_range 0 (access_token_ttl_seconds ?c)"
    by (simp add: c expiry_in_range_def SecurityConfig_default_def NANOS_def)
  have now: "\<not> clock_of (sys_example 0) > expiry_instant 0 (access_token_ttl_seconds ?c)"
    by (simp add: c expiry_instant_def clock_of_def sys_example_def NANOS_def SecurityConfig_default_def)
  obtain p s' where run: "VerifyAccessToken ?c row_token (sys_example 0) = (Inr (Result_Ok p), s')"
    and p: "p_user_uuid p = u_uuid user_row"
    using VerifyAccessToken_text [OF ok range, of "sys_example 0" 7] unfolding if_not_P [OF now] row_token_def [symmetric]
    by force
  obtain a s2 where "VerifyAccessToken ?c row_token (sys_example 0) = (Inr a, s2)" "same_sys (sys_example 0) s2"
    by (rule sys_totalE [OF sys_total_VerifyAccessToken])
  then have "s' = sys_example 0" using run by (auto simp: same_sys_def sys_example_def)
  then have "in_sys (VerifyAccessToken ?c row_token) (world_row 0) = (Inr (Result_Ok p), world_row 0)"
    using run by (simp add: in_sys_def zoom_def world_row_def)
  moreover have "row_token \<noteq> []" by (simp add: row_token_def)
  ultimately show ?thesis using p
    by (simp add: JwtAuthenticator_Authenticate_def bindR_def bindE_def jwt_service_def ret_def context_of_def)
qed

theorem remote_user_transparent_witness:
  "UserClient_GetCurrentUser (\<lambda>_. []) 0
       (SetAccessToken row_token (UserClient_target (user_loopback (\<lambda>_. 0) (user_handler config_once)))) (world_row 0)
     = (Inr (Result_Ok (seen_user (\<lambda>_. 0) (\<lambda>_. []) user_row)), world_row 0)
   \<and> UserClient_GetCurrentUser (\<lambda>_. []) 0 (UserClient_target (user_loopback (\<lambda>_. 0) (user_handler config_once))) (world_row 0)
     = (Inr (Result_Fail Unauthenticated (utf8 [0x7F3A, 0x5C11, 0x8BA4, 0x8BC1, 0x4FE1, 0x606F])), world_row 0)"
proof -
  let ?n = "UserClient_target (user_loopback (\<lambda>_. 0) (user_handler config_once))"
  let ?c = "SetAccessToken row_token ?n"
  have ch: "user_channel (\<lambda>_. 0) (user_handler config_once) (uc_stub ?n)" "user_channel (\<lambda>_. 0) (user_handler config_once) (uc_stub ?c)"
    by (simp_all add: UserClient_target_def SetAccessToken_def loopback_channels)
  have tok: "uc_access_token ?n = []" "uc_access_token ?c = row_token" "row_token \<noteq> []"
    by (simp_all add: UserClient_target_def SetAccessToken_def row_token_def)
  note main = remote_user_transparent [where strf = "\<lambda>_. []" and now = 0, THEN conjunct1, unfolded simulates_def, rule_format]
  obtain ctx where ctx: "JwtAuthenticator_Authenticate (jwt_service (cfg_security config_once)) [(''authorization'', ''Bearer '' @ row_token)]
      (world_row 0) = (Inr (Result_Ok ctx), world_row 0)" "ac_user_uuid ctx = u_uuid user_row"
    using row_token_authenticates by blast
  have f: "UserDB_FindByUUID (u_uuid user_row) (world_row 0) = (Inr (Result_Ok user_row), world_row 0)"
    unfolding UserDB_FindByUUID_def by (rule FindByField_row [OF _ user_row_facts(1)]) (simp_all add: world_row_def)
  have uu: "u_uuid user_row \<noteq> []" by (simp add: user_row_def user_example_def)
  have seen: "seen_user (\<lambda>_. 0) (\<lambda>_. []) (user_row\<lparr>u_password_hash := []\<rparr>) = seen_user (\<lambda>_. 0) (\<lambda>_. []) user_row"
    by (simp add: seen_user_def)
  have "UserClient_GetCurrentUser (\<lambda>_. []) 0 ?c (world_row 0) =
      (Inr (Result_Ok (seen_user (\<lambda>_. 0) (\<lambda>_. []) user_row)), world_row 0)"
    using ctx f uu seen
    by (intro main [OF ch(2)]) (simp add: tok bindR_Ok GetCurrentUser_def user_db_def user_service_def ret_def)
  moreover have "UserClient_GetCurrentUser (\<lambda>_. []) 0 ?n (world_row 0) =
      (Inr (Result_Fail Unauthenticated (utf8 [0x7F3A, 0x5C11, 0x8BA4, 0x8BC1, 0x4FE1, 0x606F])), world_row 0)"
    by (intro main [OF ch(1)]) (simp add: tok JwtAuthenticator_Authenticate_def bindR_ret_Fail, simp add: ret_def)
  ultimately show ?thesis ..
qed

end
