(* ===== verification/Grpc_Server.thy ===== *)
theory Grpc_Server
  imports Handlers Cleanup_Task Discovery
begin

section \<open>The gRPC server\<close>

text \<open>
  \<open>include/server/grpc_server.h\<close> and \<open>src/server/grpc_server.cpp\<close>: the object that makes all the
  others, from the configuration and the libraries, registers the process in ZooKeeper, and
  starts, waits for and shuts down the server of the gRPC library. Here: the object, its
  initialization and its registration, as computations on the object.
\<close>

subsection \<open>The object\<close>

text \<open>Where the monitor thread is: at the test of its loop, in the 100 ms of its sleep, after the
  loop, about to shut the server down, or returned.\<close>

datatype monitor_pc = Watching | Sleeping | Checking | Closing | Finished

text \<open>The members; \<open>None\<close> is a null pointer, an empty function or a thread that is not joinable.
  \<open>gs_config\<close> is the address of the configuration, which the object shares with whoever passed
  it. A server of the gRPC library is known by whether it still serves. The registry holds the
  ZooKeeper client (its \<open>sr_world\<close>), which \<open>gs_zk_client\<close> holds before there is a registry.\<close>

record ('s, 'e, 'r, 'z, 'cb) GrpcServer =
  gs_config :: nat
  gs_server :: "bool option"
  gs_running :: bool
  gs_shutdown_requested :: bool
  gs_mysql_pool :: "'s pool option"
  gs_redis_client :: "'r redis option"
  gs_user_db :: "('s, 'e, 'r) world UserDB option"
  gs_token_repo :: "('s, 'e, 'r) world TokenRepository option"
  gs_jwt_service :: "('s, 'e, 'r) world JwtService option"
  gs_sms_service :: "('s, 'e, 'r) world SmsService option"
  gs_auth_service :: "('s, 'e, 'r) world AuthService option"
  gs_user_service :: "('s, 'e, 'r) world UserService option"
  gs_authenticator :: "('s, 'e, 'r) world Authenticator option"
  gs_auth_handler :: "('s, 'e, 'r) world AuthHandler option"
  gs_user_handler :: "('s, 'e, 'r) world UserHandler option"
  gs_zk_client :: "('z, unit) ZooKeeperClient option"
  gs_service_registry :: "(('z, unit) ZooKeeperClient, unit) ServiceRegistry option"
  gs_token_cleanup_task :: "('s, 'e, 'r) world TokenCleanupTask option"
  gs_shutdown_callback :: "'cb option"
  gs_shutdown_monitor_thread :: "monitor_pc option"

definition GrpcServer_new :: "nat option \<Rightarrow> exn + ('s, 'e, 'r, 'z, 'cb) GrpcServer" where
  "GrpcServer_new config = (case config of
       None \<Rightarrow> Inl (StdInvalidArgument ''Config cannot be null'')
     | Some address \<Rightarrow> Inr \<lparr>gs_config = address, gs_server = None, gs_running = False, gs_shutdown_requested = False,
         gs_mysql_pool = None, gs_redis_client = None, gs_user_db = None, gs_token_repo = None,
         gs_jwt_service = None, gs_sms_service = None, gs_auth_service = None, gs_user_service = None,
         gs_authenticator = None, gs_auth_handler = None, gs_user_handler = None,
         gs_zk_client = None, gs_service_registry = None, gs_token_cleanup_task = None,
         gs_shutdown_callback = None, gs_shutdown_monitor_thread = None\<rparr>)"

definition SetShutdownCallback :: "'cb option \<Rightarrow> ('s, 'e, 'r, 'z, 'cb) GrpcServer \<Rightarrow> ('s, 'e, 'r, 'z, 'cb) GrpcServer" where
  "SetShutdownCallback callback s = s\<lparr>gs_shutdown_callback := callback\<rparr>"

definition GrpcServer_GetAddress :: "Config \<Rightarrow> string" where
  "GrpcServer_GetAddress config = server_host (cfg_server config) @ '':'' @ to_string (server_grpc_port (cfg_server config))"

subsection \<open>Initialization\<close>

text \<open>What the object finds outside: the libraries it connects with, the system, and the value of an
  instance that was not assigned.\<close>

record ('s, 'e, 'r, 'z) libraries =
  lib_mysql :: "'s mysql"
  lib_redis :: "ConnectionOptions \<Rightarrow> ConnectionPoolOptions \<Rightarrow> string + 'r redis"
  lib_conn_opt :: ConnectionOptions
  lib_pool_opt :: ConnectionPoolOptions
  lib_zookeeper :: "'z zookeeper"
  lib_sys :: "'e sys"
  lib_no_instance :: ServiceInstance

definition new_pool :: "'s mysql \<Rightarrow> Config \<Rightarrow> exn + 's pool" where
  "new_pool lib config = (case TemplateConnectionPool_new (Some config) (pool_of lib) of
       (Inl e, _) \<Rightarrow> Inl e | (Inr _, p) \<Rightarrow> Inr p)"

definition InitInfrastructure :: "('s, 'e, 'r, 'z) libraries \<Rightarrow> Config \<Rightarrow> (('s, 'e, 'r, 'z, 'cb) GrpcServer, bool) io" where
  "InitInfrastructure lib config =
     bindE (lift (new_pool (lib_mysql lib) config)) (\<lambda>mysql_pool.
     bindE (modify (\<lambda>s. s\<lparr>gs_mysql_pool := Some mysql_pool\<rparr>)) (\<lambda>_.
     bindE (lift (RedisClient_new (lib_redis lib) (lib_conn_opt lib) (lib_pool_opt lib) (cfg_redis config))) (\<lambda>redis_client.
     bindE (modify (\<lambda>s. s\<lparr>gs_redis_client := Some redis_client\<rparr>)) (\<lambda>_.
     bindE (zoom (\<lambda>s. the (gs_redis_client s)) (\<lambda>r s. s\<lparr>gs_redis_client := Some r\<rparr>) RedisClient_Ping) (\<lambda>ping_result.
     if \<not> IsOk ping_result then ret False else ret True)))))"

definition InitRepositories :: "(('s, 'e, 'r, 'z, 'cb) GrpcServer, bool) io" where
  "InitRepositories =
     bindE (modify (\<lambda>s. s\<lparr>gs_user_db := Some user_db\<rparr>)) (\<lambda>_.
     bindE (modify (\<lambda>s. s\<lparr>gs_token_repo := Some token_repo\<rparr>)) (\<lambda>_.
     ret True))"

text \<open>The state the services and the cleanup task work on: the pool, the cache and the system.\<close>

definition world_of :: "'e sys \<Rightarrow> ('s, 'e, 'r, 'z, 'cb) GrpcServer \<Rightarrow> ('s, 'e, 'r) world" where
  "world_of e s = \<lparr>w_pool = the (gs_mysql_pool s), w_sys = e, w_redis = the (gs_redis_client s)\<rparr>"

definition InitServices :: "('s, 'e, 'r, 'z) libraries \<Rightarrow> Config \<Rightarrow> (('s, 'e, 'r, 'z, 'cb) GrpcServer, bool) io" where
  "InitServices lib config =
     bindE (modify (\<lambda>s. s\<lparr>gs_jwt_service := Some (jwt_service (cfg_security config))\<rparr>)) (\<lambda>_.
     bindE (modify (\<lambda>s. s\<lparr>gs_sms_service := Some (sms_service (cfg_sms config))\<rparr>)) (\<lambda>_.
     bindE (modify (\<lambda>s. s\<lparr>gs_auth_service := Some \<lparr>as_config = config, as_user_db = the (gs_user_db s),
       as_redis_cli = redis_cli, as_token_repo = the (gs_token_repo s), as_jwt_srv = the (gs_jwt_service s),
       as_sms_srv = the (gs_sms_service s), as_password = password_helper\<rparr>\<rparr>)) (\<lambda>_.
     bindE (modify (\<lambda>s. s\<lparr>gs_user_service := Some \<lparr>us_config = config, us_user_db = the (gs_user_db s),
       us_token_repo = the (gs_token_repo s), us_sms_srv = the (gs_sms_service s), us_password = password_helper\<rparr>\<rparr>)) (\<lambda>_.
     bindE (modify (\<lambda>s. s\<lparr>gs_token_cleanup_task :=
       Some (TokenCleanupTask_new (the (gs_token_repo s)) 60 (world_of (lib_sys lib) s))\<rparr>)) (\<lambda>_.
     bindE (modify (\<lambda>s. s\<lparr>gs_token_cleanup_task := map_option TokenCleanupTask_Start (gs_token_cleanup_task s)\<rparr>)) (\<lambda>_.
     ret True))))))"

definition InitHandlers :: "(('s, 'e, 'r, 'z, 'cb) GrpcServer, bool) io" where
  "InitHandlers =
     bindE (modify (\<lambda>s. s\<lparr>gs_authenticator :=
       Some \<lparr>au_Authenticate = JwtAuthenticator_Authenticate (the (gs_jwt_service s))\<rparr>\<rparr>)) (\<lambda>_.
     bindE (modify (\<lambda>s. s\<lparr>gs_auth_handler := Some \<lparr>ah_auth_service = the (gs_auth_service s)\<rparr>\<rparr>)) (\<lambda>_.
     bindE (modify (\<lambda>s. s\<lparr>gs_user_handler := Some \<lparr>uh_user_service = the (gs_user_service s),
       uh_authenticator = the (gs_authenticator s)\<rparr>\<rparr>)) (\<lambda>_.
     ret True)))"

definition InitServiceDiscovery :: "('s, 'e, 'r, 'z) libraries \<Rightarrow> Config \<Rightarrow> (('s, 'e, 'r, 'z, 'cb) GrpcServer, bool) io" where
  "InitServiceDiscovery lib config =
     try_catch (
       bindE (modify (\<lambda>s. s\<lparr>gs_zk_client := Some (ZooKeeperClient_new (lib_zookeeper lib)
         (zk_hosts (cfg_zookeeper config)) (zk_session_timeout_ms (cfg_zookeeper config)))\<rparr>)) (\<lambda>_.
       bindE (zoom (\<lambda>s. the (gs_zk_client s)) (\<lambda>c s. s\<lparr>gs_zk_client := Some c\<rparr>)
         (Connect (zk_connect_timeout_ms (cfg_zookeeper config)))) (\<lambda>connected.
       if \<not> connected then ret False else
       bindE (modify (\<lambda>s. s\<lparr>gs_service_registry := Some (ServiceRegistry_new (Some zk_client)
         (zk_root_path (cfg_zookeeper config)) (lib_no_instance lib) (the (gs_zk_client s)))\<rparr>)) (\<lambda>_.
       ret True)))) (\<lambda>e. ret False)"

definition Initialize :: "('s, 'e, 'r, 'z) libraries \<Rightarrow> Config \<Rightarrow> (('s, 'e, 'r, 'z, 'cb) GrpcServer, bool) io" where
  "Initialize lib config =
     try_catch (
       bindE (InitInfrastructure lib config) (\<lambda>infrastructure.
       if \<not> infrastructure then ret False else
       bindE InitRepositories (\<lambda>repositories.
       if \<not> repositories then ret False else
       bindE (InitServices lib config) (\<lambda>services.
       if \<not> services then ret False else
       bindE InitHandlers (\<lambda>handlers.
       if \<not> handlers then ret False else
       bindE (if zk_enabled (cfg_zookeeper config) then bindE (InitServiceDiscovery lib config) (\<lambda>_. ret ()) else ret ()) (\<lambda>_.
       ret True)))))) (\<lambda>e. ret False)"

subsection \<open>Registration\<close>

definition on_registry :: "((('z, unit) ZooKeeperClient, unit) ServiceRegistry, 'a) io
    \<Rightarrow> (('s, 'e, 'r, 'z, 'cb, 'm) GrpcServer_scheme, 'a) io" where
  "on_registry = zoom (\<lambda>s. the (gs_service_registry s)) (\<lambda>r s. s\<lparr>gs_service_registry := Some r\<rparr>)"

definition own_instance :: "Config \<Rightarrow> ServiceInstance" where
  "own_instance config = \<lparr>si_service_name = zk_service_name (cfg_zookeeper config), si_instance_id = [],
     si_host = server_host (cfg_server config), si_port = server_grpc_port (cfg_server config),
     si_weight = zk_weight (cfg_zookeeper config),
     si_metadata = map_put ''zone'' (zk_zone (cfg_zookeeper config))
       (map_put ''region'' (zk_region (cfg_zookeeper config))
       (map_put ''version'' (zk_version (cfg_zookeeper config)) []))\<rparr>"

definition RegisterToZooKeeper :: "(json \<Rightarrow> exn + string) \<Rightarrow> Config \<Rightarrow> (('s, 'e, 'r, 'z, 'cb, 'm) GrpcServer_scheme, bool) io" where
  "RegisterToZooKeeper dump config =
     bindE (asks gs_service_registry) (\<lambda>service_registry.
     if service_registry = None then ret False else
     bindE (on_registry (ServiceRegistry_Register dump (own_instance config))) (\<lambda>registered.
     if registered then ret True else ret False))"

definition UnregisterFromZooKeeper :: "(('s, 'e, 'r, 'z, 'cb, 'm) GrpcServer_scheme, unit) io" where
  "UnregisterFromZooKeeper =
     bindE (asks (\<lambda>s. case gs_service_registry s of Some r \<Rightarrow> sr_registered r | None \<Rightarrow> False)) (\<lambda>there.
     if there then bindE (on_registry ServiceRegistry_Unregister) (\<lambda>_. ret ()) else ret ())"


subsection \<open>What initialization gives\<close>

text \<open>A computation whose exceptions can all be caught.\<close>

definition catchable :: "('w, 'a) io \<Rightarrow> bool" where
  "catchable m \<longleftrightarrow> (\<forall>w w'. m w \<noteq> (Inl Terminate, w'))"

lemma catchable_simps [simp]:
  "catchable (ret a)" "catchable (throw e) \<longleftrightarrow> e \<noteq> Terminate" "catchable (my_call c)" "catchable (my_ask q)"
  "catchable (my_do d)" "catchable (set_opt m mk v)"
  by (auto simp: catchable_def ret_def throw_def my_call_def my_ask_def my_do_def set_opt_def split: prod.splits option.splits)

lemma catchable_bindE: "catchable m \<Longrightarrow> (\<And>a. catchable (f a)) \<Longrightarrow> catchable (bindE m f)"
  by (fastforce simp: catchable_def bindE_def split: prod.splits sum.splits)

lemma catchable_retry: "catchable (retry_loop config n c e)"
  by (induction config n c e rule: retry_loop.induct)
    (auto intro!: catchable_bindE simp: InitAndSetOptions_def split: option.splits)

lemma catchable_new: "catchable (MySQLConnection_new config)"
  unfolding MySQLConnection_new_def ConnectWithRetry_def Let_def
  by (auto intro!: catchable_bindE catchable_retry simp: InitAndSetOptions_def split: option.splits)


lemma catchable_close_all: "catchable (close_all cs :: ('s pool, unit) io)"
proof -
  have "catchable (fold (\<lambda>m k. bindE k (\<lambda>_. MySQLConnection_close m)) cs k)" if "catchable k" for k :: "('s pool, unit) io"
    using that by (induction cs arbitrary: k) (simp_all add: catchable_bindE MySQLConnection_close_def)
  then show ?thesis by (simp add: close_all_def)
qed

lemma InitPool_catchable: "InitPool n h \<noteq> (Inl Terminate, h')"
proof (induction n arbitrary: h)
  case (Suc n)
  obtain v h1 where 1: "MySQLConnection_new (pl_config h) h = (v, h1)" by fastforce
  have "v \<noteq> Inl Terminate" using catchable_new [of "pl_config h"] 1 by (auto simp: catchable_def)
  moreover have "catchable (bindE (close_all cs) (\<lambda>_. throw e :: ('a pool, unit) io))" if "e \<noteq> Terminate" for cs e
    using that by (intro catchable_bindE catchable_close_all) simp
  ultimately show ?case using 1 Suc.IH by (cases v) (auto simp: catchable_def)
qed (simp add: ret_def)

lemma new_pool_catchable: "new_pool lib config \<noteq> Inl Terminate"
  using InitPool_catchable by (auto simp: new_pool_def TemplateConnectionPool_new_def split: prod.splits sum.splits)

lemma RedisClient_new_catchable: "RedisClient_new mk c p config \<noteq> Inl Terminate"
  by (simp add: RedisClient_new_def RedisClient_make_def Let_def split: sum.splits)


text \<open>The infrastructure stands when the pool could be filled and Redis answers.\<close>

definition infrastructure ::
  "('s, 'e, 'r, 'z) libraries \<Rightarrow> Config \<Rightarrow> 's pool \<Rightarrow> 'r redis \<Rightarrow> bool" where
  "infrastructure lib config p r \<longleftrightarrow> new_pool (lib_mysql lib) config = Inr p
     \<and> (\<exists>r0 ping. RedisClient_new (lib_redis lib) (lib_conn_opt lib) (lib_pool_opt lib) (cfg_redis config) = Inr r0
          \<and> RedisClient_Ping r0 = (Inr ping, r) \<and> IsOk ping)"

text \<open>What each part of the server is once they are all made.\<close>

definition wired :: "('s, 'e, 'r, 'z) libraries \<Rightarrow> Config \<Rightarrow> 's pool \<Rightarrow> 'r redis \<Rightarrow> ('s, 'e, 'r, 'z, 'cb) GrpcServer \<Rightarrow> bool" where
  "wired lib config p r s \<longleftrightarrow>
     gs_mysql_pool s = Some p \<and> gs_redis_client s = Some r
     \<and> gs_auth_handler s = Some \<lparr>ah_auth_service = auth_service config\<rparr>
     \<and> gs_user_handler s = Some \<lparr>uh_user_service = user_service config,
         uh_authenticator = jwt_authenticator (cfg_security config)\<rparr>
     \<and> gs_token_cleanup_task s =
         Some (TokenCleanupTask_Start (TokenCleanupTask_new token_repo 60 \<lparr>w_pool = p, w_sys = lib_sys lib, w_redis = r\<rparr>))"

definition zk_reached :: "('s, 'e, 'r, 'z) libraries \<Rightarrow> Config \<Rightarrow> ('z, unit) ZooKeeperClient \<Rightarrow> bool" where
  "zk_reached lib config c \<longleftrightarrow> Connect (zk_connect_timeout_ms (cfg_zookeeper config))
     (ZooKeeperClient_new (lib_zookeeper lib) (zk_hosts (cfg_zookeeper config)) (zk_session_timeout_ms (cfg_zookeeper config)))
     = (Inr True, c)"

lemma Ping_returns: "\<exists>ping r'. RedisClient_Ping r = (Inr ping, r')"
  by (auto simp: RedisClient_Ping_def redis_try_def split: prod.splits sum.splits)

lemma Connect_returns: "\<exists>b c'. Connect t c = (Inr b, c')"
  by (auto simp: Connect_def bindE_def asks_def modify_def ret_def zcall_def split: prod.splits if_splits)

lemma InitInfrastructure_cases:
  fixes s :: "('s, 'e, 'r, 'z, 'cb) GrpcServer"
  obtains (fails) e s' where "InitInfrastructure lib config s = (Inl e, s')" "e \<noteq> Terminate" "\<nexists>p r. infrastructure lib config p r"
  | (down) s' where "InitInfrastructure lib config s = (Inr False, s')" "\<nexists>p r. infrastructure lib config p r"
  | (up) p r where "infrastructure lib config p r"
      "InitInfrastructure lib config s = (Inr True, s\<lparr>gs_mysql_pool := Some p, gs_redis_client := Some r\<rparr>)"
proof (cases "new_pool (lib_mysql lib) config")
  case (Inl e)
  then show thesis
    using new_pool_catchable [of "lib_mysql lib" config]
    by (intro fails [of e s]) (auto simp: InitInfrastructure_def bindE_def lift_def infrastructure_def)
next
  case (Inr p)
  let ?R = "RedisClient_new (lib_redis lib) (lib_conn_opt lib) (lib_pool_opt lib) (cfg_redis config)"
  show thesis
  proof (cases ?R)
    case (Inl e)
    then show thesis
      using Inr RedisClient_new_catchable [of "lib_redis lib" "lib_conn_opt lib" "lib_pool_opt lib" "cfg_redis config"]
      by (intro fails [of e "s\<lparr>gs_mysql_pool := Some p\<rparr>"])
        (auto simp: InitInfrastructure_def bindE_def lift_def modify_def infrastructure_def)
  next
    case r0: (Inr r0)
    obtain ping r where ping: "RedisClient_Ping r0 = (Inr ping, r)" using Ping_returns by blast
    have run: "InitInfrastructure lib config s = (Inr (IsOk ping), s\<lparr>gs_mysql_pool := Some p, gs_redis_client := Some r\<rparr>)"
      using Inr r0 ping by (simp add: InitInfrastructure_def bindE_def lift_def modify_def zoom_def ret_def)
    show thesis
    proof (cases "IsOk ping")
      case True
      then show thesis using run Inr r0 ping by (intro up [of p r]) (auto simp: infrastructure_def)
    next
      case False
      then show thesis using run Inr r0 ping by (intro down) (auto simp: infrastructure_def)
    qed
  qed
qed


text \<open>The steps after the infrastructure cannot fail; only the registry depends on ZooKeeper.\<close>

definition made :: "('s, 'e, 'r, 'z) libraries \<Rightarrow> Config \<Rightarrow> 's pool \<Rightarrow> 'r redis \<Rightarrow> ('s, 'e, 'r, 'z, 'cb) GrpcServer
    \<Rightarrow> ('s, 'e, 'r, 'z, 'cb) GrpcServer" where
  "made lib config p r s = s\<lparr>gs_mysql_pool := Some p, gs_redis_client := Some r, gs_user_db := Some user_db,
     gs_token_repo := Some token_repo, gs_jwt_service := Some (jwt_service (cfg_security config)),
     gs_sms_service := Some (sms_service (cfg_sms config)), gs_auth_service := Some (auth_service config),
     gs_user_service := Some (user_service config),
     gs_token_cleanup_task :=
         Some (TokenCleanupTask_Start (TokenCleanupTask_new token_repo 60 \<lparr>w_pool = p, w_sys = lib_sys lib, w_redis = r\<rparr>)),
     gs_authenticator := Some (jwt_authenticator (cfg_security config)),
     gs_auth_handler := Some \<lparr>ah_auth_service = auth_service config\<rparr>,
     gs_user_handler := Some \<lparr>uh_user_service = user_service config,
         uh_authenticator = jwt_authenticator (cfg_security config)\<rparr>\<rparr>"

lemma Init_rest:
  "bindE InitRepositories (\<lambda>repositories.
       if \<not> repositories then ret False else
       bindE (InitServices lib config) (\<lambda>services.
       if \<not> services then ret False else
       bindE InitHandlers (\<lambda>handlers.
       if \<not> handlers then ret False else k))) (s\<lparr>gs_mysql_pool := Some p, gs_redis_client := Some r\<rparr>)
   = k (made lib config p r s)"
  by (simp add: InitRepositories_def InitServices_def InitHandlers_def bindE_def modify_def ret_def made_def
      auth_service_def user_service_def jwt_authenticator_def world_of_def)

lemma InitServiceDiscovery_outcome:
  "\<exists>b z. InitServiceDiscovery lib config s = (Inr b, s\<lparr>gs_zk_client := Some z,
      gs_service_registry := if b then Some (ServiceRegistry_new (Some zk_client) (zk_root_path (cfg_zookeeper config))
        (lib_no_instance lib) z) else gs_service_registry s\<rparr>)
    \<and> (b \<longleftrightarrow> (\<exists>c. zk_reached lib config c)) \<and> (b \<longrightarrow> zk_reached lib config z)"
proof -
  let ?c = "ZooKeeperClient_new (lib_zookeeper lib) (zk_hosts (cfg_zookeeper config)) (zk_session_timeout_ms (cfg_zookeeper config))"
  obtain b z where c: "Connect (zk_connect_timeout_ms (cfg_zookeeper config)) (?c :: ('a, unit) ZooKeeperClient) = (Inr b, z)"
    using Connect_returns by blast
  show ?thesis
    using c by (intro exI [of _ b] exI [of _ z])
      (auto simp: InitServiceDiscovery_def try_catch_def bindE_def modify_def zoom_def ret_def zk_reached_def)
qed


text \<open>Every way through \<open>Initialize\<close>.\<close>

lemma Initialize_outcome:
  fixes s :: "('s, 'e, 'r, 'z, 'cb) GrpcServer"
  assumes "GrpcServer_new (Some address) = Inr s"
  shows "\<exists>b s'. Initialize lib config s = (Inr b, s') \<and> \<not> gs_running s'
    \<and> (b \<longleftrightarrow> (\<exists>p r. infrastructure lib config p r))
    \<and> (\<forall>p r. infrastructure lib config p r \<longrightarrow> wired lib config p r s'
        \<and> (if zk_enabled (cfg_zookeeper config) \<and> (\<exists>c. zk_reached lib config c)
           then \<exists>c. zk_reached lib config c \<and> gs_service_registry s' = Some (ServiceRegistry_new (Some zk_client)
                  (zk_root_path (cfg_zookeeper config)) (lib_no_instance lib) c)
           else gs_service_registry s' = None))"
proof (cases rule: InitInfrastructure_cases [of lib config s])
  case (fails e s')
  have "\<not> gs_running s'"
    using fails(1) assms by (auto simp: InitInfrastructure_def GrpcServer_new_def bindE_def lift_def modify_def zoom_def ret_def
        split: sum.splits prod.splits if_splits)
  then show ?thesis using fails by (intro exI [of _ False] exI [of _ s']) (auto simp: Initialize_def try_catch_def bindE_def ret_def)
next
  case (down s')
  have "\<not> gs_running s'"
    using down(1) assms by (auto simp: InitInfrastructure_def GrpcServer_new_def bindE_def lift_def modify_def zoom_def ret_def
        split: sum.splits prod.splits if_splits)
  then show ?thesis using down by (intro exI [of _ False] exI [of _ s']) (auto simp: Initialize_def try_catch_def bindE_def ret_def)
next
  case (up p r)
  have one: "p' = p \<and> r' = r" if "infrastructure lib config p' r'" for p' r' using that up(1) by (auto simp: infrastructure_def)
  have fresh: "\<not> gs_running s" "gs_service_registry s = None" using assms by (auto simp: GrpcServer_new_def)
  let ?s = "made lib config p r s"
  let ?d = "if zk_enabled (cfg_zookeeper config) then bindE (InitServiceDiscovery lib config) (\<lambda>_. ret ()) else ret ()"
  have run: "Initialize lib config s = try_catch (\<lambda>_. bindE ?d (\<lambda>_. ret True) ?s) (\<lambda>e. ret False) s"
    unfolding Initialize_def try_catch_def bindE_Inr [of "InitInfrastructure lib config", OF up(2)] by (simp add: Init_rest)
  obtain b z where d: "InitServiceDiscovery lib config ?s = (Inr b, ?s\<lparr>gs_zk_client := Some z,
      gs_service_registry := if b then Some (ServiceRegistry_new (Some zk_client) (zk_root_path (cfg_zookeeper config))
        (lib_no_instance lib) z) else gs_service_registry ?s\<rparr>)"
      "b \<longleftrightarrow> (\<exists>c. zk_reached lib config c)" "b \<longrightarrow> zk_reached lib config z"
    using InitServiceDiscovery_outcome by blast
  have w: "wired lib config p r (?s\<lparr>gs_zk_client := x, gs_service_registry := y\<rparr>)" "wired lib config p r ?s" for x y
    by (simp_all add: wired_def made_def)
  have conclude: ?thesis if "Initialize lib config s = (Inr True, s')" "\<not> gs_running s'" "wired lib config p r s'"
    and "if zk_enabled (cfg_zookeeper config) \<and> (\<exists>c. zk_reached lib config c)
           then \<exists>c. zk_reached lib config c \<and> gs_service_registry s' = Some (ServiceRegistry_new (Some zk_client)
                  (zk_root_path (cfg_zookeeper config)) (lib_no_instance lib) c)
           else gs_service_registry s' = None" for s'
  proof (rule exI [of _ True], rule exI [of _ s'], intro conjI allI impI)
    show "True \<longleftrightarrow> (\<exists>p r. infrastructure lib config p r)" using up(1) by blast
    show "wired lib config p' r' s'" if "infrastructure lib config p' r'" for p' r' using one [OF that] \<open>wired lib config p r s'\<close> by simp
  qed (rule that)+
  show ?thesis
  proof (cases "zk_enabled (cfg_zookeeper config)")
    case False
    then have "Initialize lib config s = (Inr True, ?s)" by (simp add: run try_catch_def bindE_def ret_def)
    then show ?thesis using False w fresh by (intro conclude [of ?s]) (simp_all add: made_def)
  next
    case True
    then have "Initialize lib config s = (Inr True, ?s\<lparr>gs_zk_client := Some z,
      gs_service_registry := if b then Some (ServiceRegistry_new (Some zk_client) (zk_root_path (cfg_zookeeper config))
        (lib_no_instance lib) z) else gs_service_registry ?s\<rparr>)"
      by (simp add: run try_catch_def bindE_def ret_def d(1))
    then show ?thesis
    proof (rule conclude)
    qed (use True w fresh d(2,3) in \<open>auto simp: made_def\<close>)
  qed
qed

text \<open>C18: \<open>Initialize\<close> always returns (every exception is caught), and it returns true exactly if every
  connection of the pool could be made and Redis could be reached and answers \<open>PING\<close>. It has then
  made all the parts and wired them the way the other theories take them: the handler for
  authentication on the authentication service, the handler for users on the user service and on
  an authenticator that checks tokens with the very configuration they are signed with, the
  cleanup task started with an interval of 60 minutes; and there is a registry exactly if
  ZooKeeper is enabled and was reached, on a live client (a failure there is not an error).\<close>

theorem server_initializes:
  fixes s :: "('s, 'e, 'r, 'z, 'cb) GrpcServer"
  assumes "GrpcServer_new (Some address) = Inr s"
  shows "\<exists>b s'. Initialize lib config s = (Inr b, s') \<and> \<not> gs_running s'
    \<and> (b \<longleftrightarrow> (\<exists>p r. infrastructure lib config p r))
    \<and> (\<forall>p r. infrastructure lib config p r \<longrightarrow> wired lib config p r s'
        \<and> (if zk_enabled (cfg_zookeeper config) \<and> (\<exists>c. zk_reached lib config c)
           then \<exists>c. zk_reached lib config c \<and> gs_service_registry s' = Some (ServiceRegistry_new (Some zk_client)
                  (zk_root_path (cfg_zookeeper config)) (lib_no_instance lib) c)
           else gs_service_registry s' = None))"
  by (rule Initialize_outcome [OF assms])

text \<open>A machine where every server answers: MySQL, Redis and ZooKeeper in memory.\<close>

definition demo_libs :: "(nat list \<times> nat, unit, string \<rightharpoonup> string, mem_nodes) libraries" where
  "demo_libs = \<lparr>lib_mysql = mysql_accepting, lib_redis = \<lambda>_ _. Inr (redis_mem Map.empty),
     lib_conn_opt = \<lparr>co_host = [], co_port = 6379, co_password = [], co_db = 0, co_connect_timeout = 0, co_socket_timeout = 0\<rparr>,
     lib_pool_opt = \<lparr>po_size = 1, po_wait_timeout = 0\<rparr>, lib_zookeeper = zookeeper.truncate mem_client,
     lib_sys = sys_example 0, lib_no_instance = demo_instance\<rparr>"

lemma demo_pool: "\<exists>p. new_pool mysql_accepting config_two = Inr p \<and> length (pl_idle p) = 2"
proof -
  have start: "pool_of mysql_accepting = pool_state [] 0 MySQLConfig_default []"
    by (simp add: pool_state_def pool_of_def mysql_accepting_def mysql_refusing_def mysql.defs pool.defs)
  have pool_update: "pool_state hs n c i\<lparr>pl_config := c', pl_idle := i'\<rparr> = pool_state hs n c' i'" for hs n c i c' i'
    by (simp add: pool_state_def)
  show ?thesis
    unfolding new_pool_def start
    by (simp add: TemplateConnectionPool_new_def config_two_def numeral_2_eq_2 pool_update pool_state_new pool_state_sel bindE_def ret_def)
qed

lemma demo_zookeeper:
  "zk_reached demo_libs config_two (mem_client\<lparr>zc_hosts := ''127.0.0.1:2181'', zc_session_timeout_ms := 15000\<rparr>)"
  by (simp add: zk_reached_def demo_libs_def config_two_def Config_default_def ZooKeeperConfig_default_def ZooKeeperClient_new_def
      Connect_def bindE_def asks_def modify_def ret_def zcall_def HandleSessionEvent_def)
    (simp add: mem_client_def zookeeper.defs HandleSessionEvent_def zcall_def bindE_def asks_def modify_def ret_def)

theorem server_initializes_witness:
  "\<exists>s s' p r. GrpcServer_new (Some 0) = Inr (s :: (nat list \<times> nat, unit, string \<rightharpoonup> string, mem_nodes, unit) GrpcServer)
    \<and> Initialize demo_libs config_two s = (Inr True, s') \<and> wired demo_libs config_two p r s' \<and> gs_service_registry s' \<noteq> None"
proof -
  obtain s :: "(nat list \<times> nat, unit, string \<rightharpoonup> string, mem_nodes, unit) GrpcServer" where s: "GrpcServer_new (Some 0) = Inr s"
    by (simp add: GrpcServer_new_def)
  obtain p where p: "new_pool mysql_accepting config_two = Inr p" using demo_pool by blast
  let ?r = "redis_mem Map.empty"
  have up: "infrastructure demo_libs config_two p ?r"
    using p by (simp add: infrastructure_def demo_libs_def RedisClient_new_def RedisClient_make_def Let_def
        RedisClient_Ping_def redis_try_def redis_mem_def)
  have en: "zk_enabled (cfg_zookeeper config_two) \<and> (\<exists>c. zk_reached demo_libs config_two c)"
    using demo_zookeeper by (auto simp: config_two_def Config_default_def ZooKeeperConfig_default_def)
  from server_initializes [OF s, of demo_libs config_two] obtain b s' where b: "Initialize demo_libs config_two s = (Inr b, s')"
    "b \<longleftrightarrow> (\<exists>p r. infrastructure demo_libs config_two p r)"
    and all: "\<forall>p r. infrastructure demo_libs config_two p r \<longrightarrow> wired demo_libs config_two p r s'
      \<and> (\<exists>c. zk_reached demo_libs config_two c \<and> gs_service_registry s' = Some (ServiceRegistry_new (Some zk_client)
                  (zk_root_path (cfg_zookeeper config_two)) (lib_no_instance demo_libs) c))"
    unfolding if_P [OF en] by (elim exE conjE)
  have "b" using b(2) up by blast
  with b(1) all [rule_format, OF up] s show ?thesis by auto
qed

end
