(* ===== verification/Server_Life.thy ===== *)
theory Server_Life
  imports Grpc_Server
begin

section \<open>The life of a server\<close>

text \<open>
  \<open>Start\<close>, \<open>Run\<close>, \<open>Wait\<close>, \<open>Shutdown\<close>, the monitor thread and the destructor of
  \<open>src/server/grpc_server.cpp\<close>, as the steps of a transition system: one thread owns the server,
  \<open>Shutdown\<close> is called from signal handlers and other threads. Of the gRPC server only its
  documented life is modelled: \<open>BuildAndStart\<close> gives a serving server or null, \<open>Wait\<close> returns once
  \<open>Shutdown\<close> was called, \<open>Shutdown\<close> returns. \<open>TokenCleanupTask::Stop\<close> is one step here
  (\<open>Stop_steps\<close> of \<^verbatim>\<open>Cleanup_Task\<close> shows that it is reached); the surroundings of the task may
  change meanwhile.
\<close>

subsection \<open>States and steps\<close>

text \<open>Where the thread that owns the server is: outside; at a statement of \<open>Start\<close> (the argument says
  whether \<open>Run\<close> called it and goes on to \<open>Wait\<close>); at a statement of \<open>Wait\<close>; in an exception that
  left \<open>Start\<close>; in the destructor; or past it. \<open>Terminated\<close> is \<open>std::terminate\<close>.\<close>

datatype owner_pc = Idle | AtRunning bool | AtBuild bool | AtSetRunning bool | AtClearRequest bool | AtRegister bool
  | AtSpawn bool | AtWait | AtJoin | AtStopped | Raised exn | Destroying | Gone | Terminated

text \<open>Where a call of \<open>Shutdown\<close> is. Calls are numbered; call 0 is the one of the destructor.\<close>

datatype shutdown_pc = NotCalled | AtTest | AtRequest | AtUnregister | AtStopTask | AtShutdown | AtCallback

record ('s, 'e, 'r, 'z, 'cb) server_life = "('s, 'e, 'r, 'z, 'cb) GrpcServer" +
  sl_owner :: owner_pc
  sl_calls :: "nat \<Rightarrow> shutdown_pc"
  sl_callbacks :: nat

datatype server_actor = Owner | Monitor | Call nat

abbreviation call_at :: "nat \<Rightarrow> shutdown_pc \<Rightarrow> ('s, 'e, 'r, 'z, 'cb) server_life \<Rightarrow> ('s, 'e, 'r, 'z, 'cb) server_life" where
  "call_at t pc s \<equiv> s\<lparr>sl_calls := (sl_calls s)(t := pc)\<rparr>"

abbreviation after_start :: "bool \<Rightarrow> owner_pc" where
  "after_start run \<equiv> if run then AtWait else Idle"

inductive server_step :: "(json \<Rightarrow> exn + string) \<Rightarrow> Config \<Rightarrow> ('s, 'e, 'r, 'z, 'cb) server_life \<Rightarrow> server_actor
    \<Rightarrow> ('s, 'e, 'r, 'z, 'cb) server_life \<Rightarrow> bool" for dump config where
  call_Start: "sl_owner s = Idle \<Longrightarrow> server_step dump config s Owner (s\<lparr>sl_owner := AtRunning run\<rparr>)"
| runs_already: "sl_owner s = AtRunning run \<Longrightarrow> gs_running s
    \<Longrightarrow> server_step dump config s Owner (s\<lparr>sl_owner := after_start run\<rparr>)"
| runs_not: "sl_owner s = AtRunning run \<Longrightarrow> \<not> gs_running s
    \<Longrightarrow> server_step dump config s Owner (s\<lparr>sl_owner := AtBuild run\<rparr>)"
| build_fails: "sl_owner s = AtBuild run \<Longrightarrow> server_step dump config s Owner (s\<lparr>gs_server := None, sl_owner := Idle\<rparr>)"
| build: "sl_owner s = AtBuild run
    \<Longrightarrow> server_step dump config s Owner (s\<lparr>gs_server := Some True, sl_owner := AtSetRunning run\<rparr>)"
| set_running: "sl_owner s = AtSetRunning run
    \<Longrightarrow> server_step dump config s Owner (s\<lparr>gs_running := True, sl_owner := AtClearRequest run\<rparr>)"
| clear_request: "sl_owner s = AtClearRequest run
    \<Longrightarrow> server_step dump config s Owner (s\<lparr>gs_shutdown_requested := False, sl_owner := AtRegister run\<rparr>)"
| no_register: "sl_owner s = AtRegister run \<Longrightarrow> \<not> (zk_enabled (cfg_zookeeper config) \<and> zk_register_self (cfg_zookeeper config))
    \<Longrightarrow> server_step dump config s Owner (s\<lparr>sl_owner := AtSpawn run\<rparr>)"
| register: "sl_owner s = AtRegister run \<Longrightarrow> zk_enabled (cfg_zookeeper config) \<and> zk_register_self (cfg_zookeeper config)
    \<Longrightarrow> RegisterToZooKeeper dump config s = (Inr b, s')
    \<Longrightarrow> server_step dump config s Owner (s'\<lparr>sl_owner := AtSpawn run\<rparr>)"
| register_raises: "sl_owner s = AtRegister run \<Longrightarrow> zk_enabled (cfg_zookeeper config) \<and> zk_register_self (cfg_zookeeper config)
    \<Longrightarrow> RegisterToZooKeeper dump config s = (Inl e, s')
    \<Longrightarrow> server_step dump config s Owner (s'\<lparr>sl_owner := Raised e\<rparr>)"
| spawn_monitor: "sl_owner s = AtSpawn run \<Longrightarrow> gs_shutdown_monitor_thread s = None
    \<Longrightarrow> server_step dump config s Owner (s\<lparr>gs_shutdown_monitor_thread := Some Watching, sl_owner := after_start run\<rparr>)"
| spawn_over_monitor: "sl_owner s = AtSpawn run \<Longrightarrow> gs_shutdown_monitor_thread s = Some m
    \<Longrightarrow> server_step dump config s Owner (s\<lparr>sl_owner := Terminated\<rparr>)"
| call_Wait: "sl_owner s = Idle \<Longrightarrow> server_step dump config s Owner (s\<lparr>sl_owner := AtWait\<rparr>)"
| waited: "sl_owner s = AtWait \<Longrightarrow> gs_server s \<noteq> Some True
    \<Longrightarrow> server_step dump config s Owner (s\<lparr>sl_owner := AtJoin\<rparr>)"
| join_monitor: "sl_owner s = AtJoin \<Longrightarrow> gs_shutdown_monitor_thread s = Some Finished
    \<Longrightarrow> server_step dump config s Owner (s\<lparr>gs_shutdown_monitor_thread := None, sl_owner := AtStopped\<rparr>)"
| no_monitor: "sl_owner s = AtJoin \<Longrightarrow> gs_shutdown_monitor_thread s = None
    \<Longrightarrow> server_step dump config s Owner (s\<lparr>sl_owner := AtStopped\<rparr>)"
| stopped: "sl_owner s = AtStopped \<Longrightarrow> server_step dump config s Owner (s\<lparr>gs_running := False, sl_owner := Idle\<rparr>)"
| destroy: "sl_owner s = Idle \<or> sl_owner s = Raised e
    \<Longrightarrow> server_step dump config s Owner (call_at 0 AtTest s\<lparr>sl_owner := Destroying\<rparr>)"
| destroyed: "sl_owner s = Destroying \<Longrightarrow> sl_calls s 0 = NotCalled \<Longrightarrow> gs_shutdown_monitor_thread s = None
    \<Longrightarrow> server_step dump config s Owner (s\<lparr>sl_owner := Gone\<rparr>)"
| destroyed_joinable: "sl_owner s = Destroying \<Longrightarrow> sl_calls s 0 = NotCalled \<Longrightarrow> gs_shutdown_monitor_thread s = Some m
    \<Longrightarrow> server_step dump config s Owner (s\<lparr>sl_owner := Terminated\<rparr>)"
| call_Shutdown: "t \<noteq> 0 \<Longrightarrow> sl_calls s t = NotCalled \<Longrightarrow> sl_owner s \<noteq> Gone \<Longrightarrow> sl_owner s \<noteq> Terminated
    \<Longrightarrow> server_step dump config s (Call t) (call_at t AtTest s)"
| not_running: "sl_calls s t = AtTest \<Longrightarrow> \<not> gs_running s
    \<Longrightarrow> server_step dump config s (Call t) (call_at t NotCalled s)"
| running: "sl_calls s t = AtTest \<Longrightarrow> gs_running s
    \<Longrightarrow> server_step dump config s (Call t) (call_at t AtRequest s)"
| request: "sl_calls s t = AtRequest
    \<Longrightarrow> server_step dump config s (Call t) (call_at t AtUnregister s\<lparr>gs_shutdown_requested := True\<rparr>)"
| unregister: "sl_calls s t = AtUnregister \<Longrightarrow> UnregisterFromZooKeeper s = (Inr (), s')
    \<Longrightarrow> server_step dump config s (Call t) (call_at t AtStopTask s')"
| stop_task: "sl_calls s t = AtStopTask \<Longrightarrow> server_step dump config s (Call t)
      (call_at t AtShutdown s\<lparr>gs_token_cleanup_task :=
         map_option (\<lambda>task. TokenCleanupTask_Stop task\<lparr>tc_world := w'\<rparr>) (gs_token_cleanup_task s)\<rparr>)"
| shut_down: "sl_calls s t = AtShutdown \<Longrightarrow> server_step dump config s (Call t)
      (call_at t AtCallback s\<lparr>gs_server := map_option (\<lambda>_. False) (gs_server s)\<rparr>)"
| call_back: "sl_calls s t = AtCallback \<Longrightarrow> server_step dump config s (Call t)
      (call_at t NotCalled s\<lparr>sl_callbacks := sl_callbacks s + (if gs_shutdown_callback s = None then 0 else 1)\<rparr>)"
| watch_on: "gs_shutdown_monitor_thread s = Some Watching \<Longrightarrow> \<not> gs_shutdown_requested s
    \<Longrightarrow> server_step dump config s Monitor (s\<lparr>gs_shutdown_monitor_thread := Some Sleeping\<rparr>)"
| wake: "gs_shutdown_monitor_thread s = Some Sleeping
    \<Longrightarrow> server_step dump config s Monitor (s\<lparr>gs_shutdown_monitor_thread := Some Watching\<rparr>)"
| watch_end: "gs_shutdown_monitor_thread s = Some Watching \<Longrightarrow> gs_shutdown_requested s
    \<Longrightarrow> server_step dump config s Monitor (s\<lparr>gs_shutdown_monitor_thread := Some Checking\<rparr>)"
| monitor_shuts: "gs_shutdown_monitor_thread s = Some Checking \<Longrightarrow> gs_server s \<noteq> None \<and> gs_running s
    \<Longrightarrow> server_step dump config s Monitor (s\<lparr>gs_shutdown_monitor_thread := Some Closing\<rparr>)"
| monitor_idle: "gs_shutdown_monitor_thread s = Some Checking \<Longrightarrow> \<not> (gs_server s \<noteq> None \<and> gs_running s)
    \<Longrightarrow> server_step dump config s Monitor (s\<lparr>gs_shutdown_monitor_thread := Some Finished\<rparr>)"
| monitor_ends: "gs_shutdown_monitor_thread s = Some Closing \<Longrightarrow> server_step dump config s Monitor
      (s\<lparr>gs_server := map_option (\<lambda>_. False) (gs_server s), gs_shutdown_monitor_thread := Some Finished\<rparr>)"

inductive_cases server_step_Owner: "server_step dump config s Owner s'"
inductive_cases server_step_Monitor: "server_step dump config s Monitor s'"
inductive_cases server_step_Call: "server_step dump config s (Call t) s'"

text \<open>A server that was made and initialized, before it is started.\<close>

definition not_started :: "('s, 'e, 'r, 'z, 'cb) server_life \<Rightarrow> bool" where
  "not_started s \<longleftrightarrow> gs_server s = None \<and> \<not> gs_running s \<and> \<not> gs_shutdown_requested s \<and> gs_shutdown_monitor_thread s = None
     \<and> sl_owner s = Idle \<and> sl_calls s = (\<lambda>_. NotCalled) \<and> sl_callbacks s = 0"

inductive server_reachable :: "(json \<Rightarrow> exn + string) \<Rightarrow> Config \<Rightarrow> ('s, 'e, 'r, 'z, 'cb) server_life \<Rightarrow> bool" for dump config where
  at_first: "not_started s \<Longrightarrow> server_reachable dump config s"
| then_step: "server_reachable dump config s \<Longrightarrow> server_step dump config s a s' \<Longrightarrow> server_reachable dump config s'"


subsection \<open>The invariant\<close>

abbreviation monitor :: "('s, 'e, 'r, 'z, 'cb) server_life \<Rightarrow> monitor_pc option" where
  "monitor \<equiv> gs_shutdown_monitor_thread"

text \<open>What the position of the owner says of the server, the flag and the monitor thread.\<close>

fun owner_expects :: "owner_pc \<Rightarrow> bool option \<Rightarrow> bool \<Rightarrow> monitor_pc option \<Rightarrow> bool" where
  "owner_expects (AtBuild _) srv run m = (\<not> run \<and> srv \<noteq> Some True)"
| "owner_expects (AtSetRunning _) srv run m = (\<not> run \<and> srv \<noteq> None)"
| "owner_expects (AtClearRequest _) srv run m = (run \<and> m = None)"
| "owner_expects (AtRegister _) srv run m = (run \<and> m = None)"
| "owner_expects (AtSpawn _) srv run m = (run \<and> m = None)"
| "owner_expects (Raised _) srv run m = (run \<and> m = None)"
| "owner_expects AtJoin srv run m = (srv \<noteq> Some True \<and> (run \<longrightarrow> m \<noteq> None))"
| "owner_expects AtStopped srv run m = (srv \<noteq> Some True \<and> m = None)"
| "owner_expects Destroying srv run m = True"
| "owner_expects Gone srv run m = (m = None)"
| "owner_expects Terminated srv run m = (m \<noteq> None)"
| "owner_expects _ srv run m = (if run then m \<noteq> None else srv \<noteq> Some True)"

definition server_inv :: "('s, 'e, 'r, 'z, 'cb) server_life \<Rightarrow> bool" where
  "server_inv s \<longleftrightarrow> (monitor s \<noteq> None \<longrightarrow> gs_running s) \<and> (gs_running s \<longrightarrow> gs_server s \<noteq> None)
     \<and> (monitor s = Some Finished \<longrightarrow> gs_server s = Some False)
     \<and> owner_expects (sl_owner s) (gs_server s) (gs_running s) (monitor s)"

lemma RegisterToZooKeeper_frame:
  "RegisterToZooKeeper dump config s = (r, s') \<Longrightarrow> \<exists>x. s' = s\<lparr>gs_service_registry := x\<rparr>"
  by (auto simp: RegisterToZooKeeper_def on_registry_def bindE_def asks_def zoom_def ret_def
      split: prod.splits sum.splits if_splits intro: exI [of _ "gs_service_registry s"])

lemma UnregisterFromZooKeeper_frame:
  "UnregisterFromZooKeeper s = (r, s') \<Longrightarrow> \<exists>x. s' = s\<lparr>gs_service_registry := x\<rparr>"
  by (auto simp: UnregisterFromZooKeeper_def on_registry_def bindE_def asks_def zoom_def ret_def
      split: prod.splits sum.splits if_splits intro: exI [of _ "gs_service_registry s"])

text \<open>A call of \<open>Shutdown\<close> leaves the owner, the flag and the monitor alone; it can only raise the
  request and shut the server down.\<close>

lemma Call_frame:
  assumes "server_step dump config s (Call t) s'"
  shows "sl_owner s' = sl_owner s" and "gs_running s' = gs_running s" and "monitor s' = monitor s"
    and "gs_shutdown_requested s \<Longrightarrow> gs_shutdown_requested s'"
    and "gs_server s' = gs_server s \<or> gs_server s' = map_option (\<lambda>_. False) (gs_server s)"
  using assms by (auto elim!: server_step_Call dest!: UnregisterFromZooKeeper_frame)

lemma expects_shut:
  "owner_expects pc srv run m \<Longrightarrow> owner_expects pc (map_option (\<lambda>_. False) srv) run m"
  by (cases pc) auto

lemma server_inv_step:
  assumes "server_step dump config s a s'" and "server_inv s"
  shows "server_inv s'"
proof (cases a)
  case Owner
  then show ?thesis using assms
    by (auto elim!: server_step_Owner dest!: RegisterToZooKeeper_frame simp: server_inv_def)
next
  case Monitor
  have same: "owner_expects pc srv run m' \<longleftrightarrow> owner_expects pc srv run m" if "m' \<noteq> None" "m \<noteq> None" for pc srv run m m'
    using that by (cases pc) auto
  have m: "monitor s \<noteq> None" "monitor s' \<noteq> None" "sl_owner s' = sl_owner s" "gs_running s' = gs_running s"
    and srv: "gs_server s' = gs_server s \<or> gs_server s' = map_option (\<lambda>_. False) (gs_server s)"
    and fin: "monitor s' = Some Finished \<Longrightarrow> gs_running s \<Longrightarrow> gs_server s \<noteq> None \<Longrightarrow> gs_server s' = Some False"
    using assms(1) unfolding Monitor by (auto elim!: server_step_Monitor)
  show ?thesis
    using assms(2) m srv fin same [OF m(2,1)] expects_shut [of "sl_owner s" "gs_server s" "gs_running s" "monitor s"]
    unfolding server_inv_def by (elim disjE conjE) simp_all
next
  case (Call t)
  note f = Call_frame [OF assms(1) [unfolded Call]]
  show ?thesis
    using assms(2) f(1-3) f(5) expects_shut [of "sl_owner s" "gs_server s" "gs_running s" "monitor s"]
    unfolding server_inv_def by (elim disjE conjE) simp_all
qed

lemma server_reachable_inv: "server_reachable dump config s \<Longrightarrow> server_inv s"
proof (induction rule: server_reachable.induct)
  case (at_first s)
  then show ?case by (simp add: not_started_def server_inv_def)
qed (rule server_inv_step)


subsection \<open>Shutting down\<close>

text \<open>The owner is in \<open>Run\<close> or \<open>Wait\<close>, past the statement that clears the request, and the request is
  there.\<close>

definition shutdown_pending :: "('s, 'e, 'r, 'z, 'cb) server_life \<Rightarrow> bool" where
  "shutdown_pending s \<longleftrightarrow> gs_shutdown_requested s \<and> gs_running s
     \<and> sl_owner s \<in> {AtRegister True, AtSpawn True, AtWait, AtJoin, AtStopped}"

text \<open>How many steps of the owner and the monitor are left.\<close>

fun owner_left :: "owner_pc \<Rightarrow> nat" where
  "owner_left (AtRegister _) = 9"
| "owner_left (AtSpawn _) = 8"
| "owner_left AtWait = 3"
| "owner_left AtJoin = 2"
| "owner_left AtStopped = 1"
| "owner_left _ = 0"

fun monitor_left :: "monitor_pc option \<Rightarrow> nat" where
  "monitor_left (Some Sleeping) = 4"
| "monitor_left (Some Watching) = 3"
| "monitor_left (Some Checking) = 2"
| "monitor_left (Some Closing) = 1"
| "monitor_left _ = 0"

definition server_left :: "('s, 'e, 'r, 'z, 'cb) server_life \<Rightarrow> nat" where
  "server_left s = owner_left (sl_owner s) + monitor_left (monitor s)"

text \<open>The owner has returned from \<open>Run\<close> or \<open>Wait\<close>, or the registration threw.\<close>

definition returned :: "('s, 'e, 'r, 'z, 'cb) server_life \<Rightarrow> bool" where
  "returned s \<longleftrightarrow> sl_owner s = Idle \<and> \<not> gs_running s \<and> monitor s = None \<and> gs_server s = Some False \<or> (\<exists>e. sl_owner s = Raised e)"

lemma pending_Call:
  assumes "shutdown_pending s" and "server_step dump config s (Call t) s'"
  shows "shutdown_pending s'" and "server_left s' = server_left s"
  using assms(1) Call_frame [OF assms(2)] by (auto simp: shutdown_pending_def server_left_def)

lemma pending_Monitor:
  assumes "shutdown_pending s" and "server_step dump config s Monitor s'"
  shows "shutdown_pending s'" and "server_left s' < server_left s"
  using assms by (auto simp: shutdown_pending_def server_left_def elim!: server_step_Monitor)

lemma pending_Owner:
  assumes "shutdown_pending s" and "server_inv s" and "server_step dump config s Owner s'"
  shows "server_left s' < server_left s" and "shutdown_pending s' \<or> returned s'"
proof -
  have inv: "sl_owner s = AtSpawn True \<Longrightarrow> monitor s = None" "sl_owner s = AtStopped \<Longrightarrow> monitor s = None \<and> gs_server s = Some False"
    using assms(1,2) by (auto simp: server_inv_def shutdown_pending_def)
  have p: "gs_shutdown_requested s" "gs_running s" "sl_owner s \<in> {AtRegister True, AtSpawn True, AtWait, AtJoin, AtStopped}"
    using assms(1) by (simp_all add: shutdown_pending_def)
  have "server_left s' < server_left s \<and> (shutdown_pending s' \<or> returned s')"
    using assms(3)
  proof (cases rule: server_step.cases)
    case (register run b x)
    then show ?thesis using p RegisterToZooKeeper_frame [OF register(4)] by (auto simp: shutdown_pending_def server_left_def)
  next
    case (register_raises run e x)
    then show ?thesis using p RegisterToZooKeeper_frame [OF register_raises(4)] by (auto simp: returned_def server_left_def)
  next
    case (destroy e)
    then show ?thesis using p by auto
  qed (use p inv in \<open>simp_all add: shutdown_pending_def server_left_def returned_def\<close>)
  then show "server_left s' < server_left s" and "shutdown_pending s' \<or> returned s'" by simp_all
qed

lemma pending_goes_on:
  assumes "shutdown_pending s" and "server_inv s"
  shows "\<exists>a s'. (a = Owner \<or> a = Monitor) \<and> server_step dump config s a s'"
proof -
  have reg: "\<exists>s'. server_step dump config s Owner s'" if "sl_owner s = AtRegister True"
    using no_register [OF that, of config dump] register [OF that, of config dump] register_raises [OF that, of config dump]
    by (metis old.prod.exhaust sum.exhaust)
  have mon: "\<exists>s'. server_step dump config s Monitor s'" if "monitor s \<noteq> None" "monitor s \<noteq> Some Finished"
    using that assms(1) wake [of s dump config] watch_end [of s dump config] monitor_ends [of s dump config]
      monitor_shuts [of s dump config] monitor_idle [of s dump config]
    by (cases "monitor s" rule: monitor_left.cases) (auto simp: shutdown_pending_def)
  have own: "\<exists>s'. server_step dump config s Owner s'" if th: "monitor s = None \<or> monitor s = Some Finished"
    and nr: "sl_owner s \<noteq> AtRegister True"
  proof -
    have srv: "sl_owner s = AtWait \<Longrightarrow> gs_server s = Some False" and sp: "sl_owner s = AtSpawn True \<Longrightarrow> monitor s = None"
      using th assms by (auto simp: server_inv_def shutdown_pending_def)
    consider "sl_owner s = AtSpawn True" | "sl_owner s = AtWait" | "sl_owner s = AtJoin" | "sl_owner s = AtStopped"
      using assms(1) nr by (auto simp: shutdown_pending_def)
    then show ?thesis
    proof cases
      case 1
      then show ?thesis using spawn_monitor [OF 1 sp] by blast
    next
      case 2
      then show ?thesis using waited [OF 2] srv by auto
    next
      case 3
      then show ?thesis using join_monitor [OF 3] no_monitor [OF 3] th by blast
    next
      case 4
      then show ?thesis using stopped by blast
    qed
  qed
  show ?thesis using reg mon own
    by (cases "sl_owner s = AtRegister True"; cases "monitor s = None \<or> monitor s = Some Finished") (simp_all, metis+)
qed


text \<open>A run: the actors in order.\<close>

inductive server_run :: "(json \<Rightarrow> exn + string) \<Rightarrow> Config \<Rightarrow> ('s, 'e, 'r, 'z, 'cb) server_life \<Rightarrow> server_actor list
    \<Rightarrow> ('s, 'e, 'r, 'z, 'cb) server_life \<Rightarrow> bool" for dump config where
  no_step: "server_run dump config s [] s"
| one_step: "server_step dump config s a s1 \<Longrightarrow> server_run dump config s1 as s' \<Longrightarrow> server_run dump config s (a # as) s'"

abbreviation own_steps :: "server_actor list \<Rightarrow> nat" where
  "own_steps as \<equiv> length (filter (\<lambda>a. a = Owner \<or> a = Monitor) as)"

lemma pending_run:
  assumes "server_run dump config s as s'" and "server_inv s" and "shutdown_pending s"
  shows "(\<exists>xs ys x. as = xs @ ys \<and> server_run dump config s xs x \<and> returned x)
    \<or> server_inv s' \<and> shutdown_pending s' \<and> own_steps as + server_left s' \<le> server_left s"
  using assms
proof (induction rule: server_run.induct)
  case (one_step s a s1 as s')
  have inv: "server_inv s1" using server_inv_step one_step by blast
  have here: "server_run dump config s [a] s1" by (rule server_run.one_step [OF one_step.hyps(1) server_run.no_step])
  have "returned s1 \<or> shutdown_pending s1 \<and> (if a = Owner \<or> a = Monitor then 1 else 0) + server_left s1 \<le> server_left s"
  proof (cases a)
    case Owner
    then show ?thesis using pending_Owner [of s dump config s1] one_step.hyps(1) one_step.prems by auto
  next
    case Monitor
    then show ?thesis using pending_Monitor [of s dump config s1] one_step.hyps(1) one_step.prems(2) by auto
  next
    case (Call t)
    then show ?thesis using pending_Call [of s dump config t s1] one_step.hyps(1) one_step.prems(2) by auto
  qed
  then show ?case
  proof
    assume "returned s1"
    then have "a # as = [a] @ as \<and> server_run dump config s [a] s1 \<and> returned s1" using here by simp
    then show ?thesis by blast
  next
    assume pend: "shutdown_pending s1 \<and> (if a = Owner \<or> a = Monitor then 1 else 0) + server_left s1 \<le> server_left s"
    from one_step.IH [OF inv] pend consider xs ys x where "as = xs @ ys" "server_run dump config s1 xs x" "returned x"
      | "server_inv s'" "shutdown_pending s'" "own_steps as + server_left s' \<le> server_left s1" by blast
    then show ?thesis
    proof cases
      case 1
      then have "a # as = (a # xs) @ ys \<and> server_run dump config s (a # xs) x \<and> returned x"
        using server_run.one_step [OF one_step.hyps(1)] by simp
      then show ?thesis by blast
    next
      case 2
      then show ?thesis using pend by (auto split: if_splits)
    qed
  qed
qed simp

text \<open>C19: a shutdown that is requested while the server runs ends it: once the request is set, \<open>Run\<close> or
  \<open>Wait\<close> has returned with the gRPC server shut down, the monitor thread joined and \<open>running_\<close>
  false (or the registration threw) after at most nine steps of the owner and the monitor together,
  whatever other calls of \<open>Shutdown\<close> do meanwhile; and as long as it has not, one of these two can
  take a step. The request counts from the moment \<open>Start\<close> has cleared it.\<close>

theorem requested_shutdown_returns:
  assumes "server_reachable dump config s" and "shutdown_pending s" and "server_run dump config s as s'"
  shows "(\<exists>xs ys x. as = xs @ ys \<and> server_run dump config s xs x \<and> returned x)
    \<or> own_steps as < 9 \<and> shutdown_pending s'
      \<and> (\<exists>a s''. (a = Owner \<or> a = Monitor) \<and> server_step dump config s' a s'')"
proof -
  note inv = server_reachable_inv [OF assms(1)]
  have "monitor_left (monitor s) \<le> 4" by (cases "monitor s" rule: monitor_left.cases) simp_all
  then have nine: "server_left s \<le> 9"
    using inv assms(2) by (auto simp: server_left_def shutdown_pending_def server_inv_def)
  have pos: "0 < server_left x" if "shutdown_pending x" for x :: "('a, 'b, 'c, 'd, 'e) server_life"
    using that by (auto simp: shutdown_pending_def server_left_def)
  from pending_run [OF assms(3) inv assms(2)] show ?thesis
  proof
    assume p: "server_inv s' \<and> shutdown_pending s' \<and> own_steps as + server_left s' \<le> server_left s"
    then have "own_steps as < 9" using pos [of s'] nine by simp
    then show ?thesis using p pending_goes_on [of s' dump config] by blast
  qed blast
qed


subsection \<open>Two runs\<close>

text \<open>A server with a callback and no registry, one other thread that calls \<open>Shutdown\<close>.\<close>

type_synonym demo_life = "(unit, unit, unit, unit, unit) server_life"

definition life_at :: "owner_pc \<Rightarrow> bool option \<Rightarrow> bool \<Rightarrow> bool \<Rightarrow> monitor_pc option \<Rightarrow> shutdown_pc \<Rightarrow> nat \<Rightarrow> demo_life" where
  "life_at pc srv run req m c n = \<lparr>gs_config = 0, gs_server = srv, gs_running = run, gs_shutdown_requested = req,
     gs_mysql_pool = None, gs_redis_client = None, gs_user_db = None, gs_token_repo = None,
     gs_jwt_service = None, gs_sms_service = None, gs_auth_service = None, gs_user_service = None,
     gs_authenticator = None, gs_auth_handler = None, gs_user_handler = None,
     gs_zk_client = None, gs_service_registry = None, gs_token_cleanup_task = None,
     gs_shutdown_callback = Some (), gs_shutdown_monitor_thread = m,
     sl_owner = pc, sl_calls = (\<lambda>_. NotCalled)(1 := c), sl_callbacks = n\<rparr>"

lemma life_at_sel [simp]:
  "gs_server (life_at pc srv run req m c n) = srv" "gs_running (life_at pc srv run req m c n) = run"
  "gs_shutdown_requested (life_at pc srv run req m c n) = req" "monitor (life_at pc srv run req m c n) = m"
  "sl_owner (life_at pc srv run req m c n) = pc" "sl_calls (life_at pc srv run req m c n) = (\<lambda>_. NotCalled)(1 := c)"
  "sl_callbacks (life_at pc srv run req m c n) = n" "gs_service_registry (life_at pc srv run req m c n) = None"
  "gs_token_cleanup_task (life_at pc srv run req m c n) = None" "gs_shutdown_callback (life_at pc srv run req m c n) = Some ()"
  by (simp_all add: life_at_def)

lemma life_at_upd [simp]:
  "life_at pc srv run req m c n\<lparr>sl_owner := pc'\<rparr> = life_at pc' srv run req m c n"
  "life_at pc srv run req m c n\<lparr>gs_server := srv'\<rparr> = life_at pc srv' run req m c n"
  "life_at pc srv run req m c n\<lparr>gs_running := run'\<rparr> = life_at pc srv run' req m c n"
  "life_at pc srv run req m c n\<lparr>gs_shutdown_requested := req'\<rparr> = life_at pc srv run req' m c n"
  "life_at pc srv run req m c n\<lparr>gs_shutdown_monitor_thread := m'\<rparr> = life_at pc srv run req m' c n"
  "life_at pc srv run req m c n\<lparr>sl_calls := (\<lambda>_. NotCalled)(Suc 0 := c')\<rparr> = life_at pc srv run req m c' n"
  "life_at pc srv run req m c n\<lparr>sl_callbacks := n'\<rparr> = life_at pc srv run req m c n'"
  "life_at pc srv run req m c n\<lparr>gs_token_cleanup_task := None\<rparr> = life_at pc srv run req m c n"
  by (simp_all add: life_at_def)

lemma life_at_registry [simp]:
  "RegisterToZooKeeper dump config (life_at pc srv run req m c n) = (Inr False, life_at pc srv run req m c n)"
  "UnregisterFromZooKeeper (life_at pc srv run req m c n) = (Inr (), life_at pc srv run req m c n)"
  by (simp_all add: RegisterToZooKeeper_def UnregisterFromZooKeeper_def bindE_def asks_def ret_def)

text \<open>The steps these runs are made of.\<close>

lemma life_starts:
  "server_reachable dump config (life_at (AtClearRequest True) (Some True) True False None NotCalled 0)"
proof -
  have 0: "server_reachable dump config (life_at Idle None False False None NotCalled 0)"
    by (rule at_first) (auto simp: not_started_def)
  have 1: "server_reachable dump config (life_at (AtRunning True) None False False None NotCalled 0)"
    by (rule then_step [OF 0]) (use call_Start [of "life_at Idle None False False None NotCalled 0" dump config True] in simp)
  have 2: "server_reachable dump config (life_at (AtBuild True) None False False None NotCalled 0)"
    by (rule then_step [OF 1]) (use runs_not [of "life_at (AtRunning True) None False False None NotCalled 0" True dump config] in simp)
  have 3: "server_reachable dump config (life_at (AtSetRunning True) (Some True) False False None NotCalled 0)"
    by (rule then_step [OF 2]) (use build [of "life_at (AtBuild True) None False False None NotCalled 0" True dump config] in simp)
  show ?thesis
    by (rule then_step [OF 3]) (use set_running [of "life_at (AtSetRunning True) (Some True) False False None NotCalled 0" True dump config] in simp)
qed

lemma life_goes_on:
  assumes "server_reachable dump config (life_at (AtClearRequest True) srv True req None NotCalled n)"
  shows "server_reachable dump config (life_at AtWait srv True False (Some Watching) NotCalled n)"
proof -
  let ?s = "\<lambda>pc. life_at pc srv True False None NotCalled n"
  have 1: "server_reachable dump config (?s (AtRegister True))"
    by (rule then_step [OF assms]) (use clear_request [of "life_at (AtClearRequest True) srv True req None NotCalled n" True dump config] in simp)
  have "server_step dump config (?s (AtRegister True)) Owner (?s (AtSpawn True))"
    using no_register [of "?s (AtRegister True)" True config dump] register [of "?s (AtRegister True)" True config dump False "?s (AtRegister True)"]
    by fastforce
  then have 2: "server_reachable dump config (?s (AtSpawn True))" by (rule then_step [OF 1])
  show ?thesis by (rule then_step [OF 2]) (use spawn_monitor [of "?s (AtSpawn True)" True dump config] in simp)
qed

lemma life_shutdown_called:
  assumes "server_reachable dump config (life_at pc srv True False m NotCalled n)" and "pc \<noteq> Gone" "pc \<noteq> Terminated"
  shows "server_reachable dump config (life_at pc srv True True m AtUnregister n)"
proof -
  let ?s = "\<lambda>c. life_at pc srv True False m c n"
  have 1: "server_reachable dump config (?s AtTest)"
    by (rule then_step [OF assms(1)]) (use call_Shutdown [of 1 "?s NotCalled" dump config] assms(2,3) in simp)
  have 2: "server_reachable dump config (?s AtRequest)"
    by (rule then_step [OF 1]) (use running [of "?s AtTest" 1 dump config] in simp)
  show ?thesis by (rule then_step [OF 2]) (use request [of "?s AtRequest" 1 dump config] in simp)
qed

lemma life_shutdown_done:
  assumes "server_reachable dump config (life_at pc (Some True) True True m AtUnregister n)"
  shows "server_reachable dump config (life_at pc (Some False) True True m NotCalled (Suc n))"
proof -
  let ?s = "\<lambda>srv c. life_at pc srv True True m c n"
  have 1: "server_reachable dump config (?s (Some True) AtStopTask)"
    by (rule then_step [OF assms]) (use unregister [of "?s (Some True) AtUnregister" 1 "?s (Some True) AtUnregister" dump config] in simp)
  have 2: "server_reachable dump config (?s (Some True) AtShutdown)"
    by (rule then_step [OF 1]) (use stop_task [of "?s (Some True) AtStopTask" 1 dump config] in simp)
  have 3: "server_reachable dump config (?s (Some False) AtCallback)"
    by (rule then_step [OF 2]) (use shut_down [of "?s (Some True) AtShutdown" 1 dump config] in simp)
  show ?thesis by (rule then_step [OF 3]) (use call_back [of "?s (Some False) AtCallback" 1 dump config] in simp)
qed


theorem requested_shutdown_returns_witness:
  "\<exists>a s''. (a = Owner \<or> a = Monitor)
    \<and> server_step (\<lambda>_. Inr []) Config_default (life_at AtWait (Some True) True True (Some Watching) AtUnregister 0) a s''"
proof -
  let ?s = "life_at AtWait (Some True) True True (Some Watching) AtUnregister 0"
  have r: "server_reachable (\<lambda>_. Inr []) Config_default ?s"
    by (rule life_shutdown_called [OF life_goes_on [OF life_starts]]) simp_all
  have p: "shutdown_pending ?s" by (simp add: shutdown_pending_def)
  from requested_shutdown_returns [OF r p server_run.no_step] show ?thesis
  proof
    assume "\<exists>xs ys x. [] = xs @ ys \<and> server_run (\<lambda>_. Inr []) Config_default ?s xs x \<and> returned x"
    then have "returned ?s" by (auto elim: server_run.cases)
    then show ?thesis by (simp add: returned_def)
  qed blast
qed

text \<open>C20: the life of a server is safe as long as one thread owns it, however many threads call
  \<open>Shutdown\<close>: the monitor thread is never assigned over while it is joinable; between the calls of
  the owner there is a monitor thread exactly while \<open>running_\<close> is set, and a gRPC server still
  serves only then; when the monitor has ended, the gRPC server is shut down; and
  \<open>std::terminate\<close> is reached in one way only, by destroying a server that was started and not
  waited for.\<close>

theorem server_life_safe:
  assumes "server_reachable dump config s"
  shows "(sl_owner s = AtSpawn run \<longrightarrow> monitor s = None)
    \<and> (sl_owner s = Idle \<longrightarrow> (gs_running s \<longleftrightarrow> monitor s \<noteq> None) \<and> (gs_server s = Some True \<longrightarrow> gs_running s))
    \<and> (monitor s = Some Finished \<longrightarrow> gs_server s = Some False)
    \<and> (sl_owner s = Gone \<longrightarrow> monitor s = None)
    \<and> (server_step dump config s a s' \<longrightarrow> sl_owner s \<noteq> Terminated \<longrightarrow> sl_owner s' = Terminated \<longrightarrow>
        sl_owner s = Destroying \<and> gs_running s \<and> monitor s \<noteq> None)"
proof -
  note inv = server_reachable_inv [OF assms]
  have "sl_owner s = Destroying \<and> gs_running s \<and> monitor s \<noteq> None"
    if st: "server_step dump config s a s'" and t: "sl_owner s \<noteq> Terminated" "sl_owner s' = Terminated"
  proof (cases a)
    case Owner
    have "monitor s \<noteq> None \<longrightarrow> gs_running s" "(\<exists>run'. sl_owner s = AtSpawn run') \<longrightarrow> monitor s = None"
      using inv by (auto simp: server_inv_def)
    with st t show ?thesis unfolding Owner by (auto elim!: server_step_Owner split: if_splits)
  next
    case Monitor
    then show ?thesis using st t by (auto elim!: server_step_Monitor)
  next
    case (Call t')
    then show ?thesis using st t Call_frame(1) [of dump config s t' s'] by simp
  qed
  then show ?thesis using inv by (auto simp: server_inv_def)
qed

theorem server_life_safe_witness:
  "server_reachable (\<lambda>_. Inr []) Config_default (life_at (AtClearRequest True) (Some True) True False None NotCalled 0)
    \<and> monitor (life_at (AtClearRequest True) (Some True) True False None NotCalled 0) \<noteq> Some Finished"
  using server_life_safe [where dump = "\<lambda>_. Inr []" and config = Config_default, OF life_starts] life_starts by simp

text \<open>A server whose owner waits for a monitor that waits for a request nobody will make: the gRPC
  server is shut down, no call of \<open>Shutdown\<close> is in progress.\<close>

definition stuck :: "('s, 'e, 'r, 'z, 'cb) server_life \<Rightarrow> bool" where
  "stuck s \<longleftrightarrow> sl_owner s = AtJoin \<and> gs_server s = Some False \<and> \<not> gs_shutdown_requested s
     \<and> (monitor s = Some Watching \<or> monitor s = Some Sleeping) \<and> (\<forall>t. sl_calls s t = NotCalled)"

lemma stuck_run:
  assumes "server_run dump config s as s'" and "stuck s" and "list_all (\<lambda>a. a = Owner \<or> a = Monitor) as"
  shows "stuck s'"
  using assms
proof (induction rule: server_run.induct)
  case (one_step s a s1 as s')
  have "stuck s1" using one_step.hyps(1) one_step.prems
    by (auto simp: stuck_def elim!: server_step_Owner server_step_Monitor)
  then show ?case using one_step.IH one_step.prems(2) by simp
qed

text \<open>C21: a request to shut down can be lost: \<open>Start\<close> sets \<open>running_\<close> first and clears
  \<open>shutdown_requested_\<close> after it, and a \<open>Shutdown\<close> that runs in between does all its work (the
  callback included), but the request is forgotten. \<open>Run\<close> then waits for the monitor thread, which
  waits for the request: unless \<open>Shutdown\<close> is called once more, the process serves nothing and
  never ends, whatever the owner and the monitor do.\<close>

theorem shutdown_request_lost:
  "\<exists>s :: demo_life. server_reachable dump config s \<and> stuck s \<and> sl_callbacks s = 1
    \<and> (\<forall>as s'. server_run dump config s as s' \<longrightarrow> list_all (\<lambda>a. a = Owner \<or> a = Monitor) as \<longrightarrow> stuck s')"
proof -
  let ?s = "life_at AtJoin (Some False) True False (Some Watching) NotCalled 1"
  have "server_reachable dump config (life_at (AtClearRequest True) (Some False) True True None NotCalled (Suc 0))"
    by (rule life_shutdown_done [OF life_shutdown_called [OF life_starts]]) simp_all
  then have 1: "server_reachable dump config (life_at AtWait (Some False) True False (Some Watching) NotCalled 1)"
    using life_goes_on by simp
  have r: "server_reachable dump config ?s"
    by (rule then_step [OF 1]) (use waited [of "life_at AtWait (Some False) True False (Some Watching) NotCalled 1" dump config] in simp)
  have "stuck ?s" by (simp add: stuck_def)
  with r stuck_run show ?thesis by (intro exI [of _ ?s]) auto
qed


theorem shutdown_request_lost_witness:
  "\<exists>s :: demo_life. server_reachable (\<lambda>_. Inr []) Config_default s \<and> stuck s \<and> sl_callbacks s = 1"
  using shutdown_request_lost [of "\<lambda>_. Inr []" Config_default] by blast

end
