(* ===== verification/Server_Builder.thy ===== *)
theory Server_Builder
  imports Grpc_Server
begin

section \<open>Building a server\<close>

text \<open>
  \<open>include/server/server_builder.h\<close>, \<open>src/server/server_builder.cpp\<close> and the two main programs
  \<open>src/server/auth_main.cpp\<close> and \<open>user_main.cpp\<close>. The builder and the servers hold the
  configuration by a shared pointer: the configurations are a store, a list indexed by address,
  and a server sees every change that is made at its address.
\<close>

subsection \<open>The builder\<close>

type_synonym config_store = "Config list"

record 'cb ServerBuilder =
  sb_config :: "nat option"
  sb_port_override :: "int option"
  sb_host_override :: "string option"
  sb_service_discovery_override :: "bool option"
  sb_service_name_override :: "string option"
  sb_shutdown_callback :: "'cb option"
  sb_load_env :: bool

definition ServerBuilder_new :: "'cb ServerBuilder" where
  "ServerBuilder_new = \<lparr>sb_config = None, sb_port_override = None, sb_host_override = None,
     sb_service_discovery_override = None, sb_service_name_override = None, sb_shutdown_callback = None,
     sb_load_env = False\<rparr>"

definition make_shared_Config :: "Config \<Rightarrow> (config_store, nat) io" where
  "make_shared_Config config = (\<lambda>store. (Inr (length store), store @ [config]))"

fun what :: "exn \<Rightarrow> string" where
  "what (RuntimeError s) = s"
| "what (MySQLException _ s) = s"
| "what (MySQLDuplicateKeyException _ s) = s"
| "what (MySQLBuildException s) = s"
| "what (MySQLResultException s) = s"
| "what (StdOutOfRange s) = s"
| "what (StdInvalidArgument s) = s"
| "what (RedisError s) = s"
| "what Terminate = []"

definition WithConfigFile :: "'n yaml \<Rightarrow> string \<Rightarrow> 'cb ServerBuilder \<Rightarrow> (config_store, 'cb ServerBuilder) io" where
  "WithConfigFile yaml path b =
     try_catch (bindE (lift (LoadFromFile yaml path)) (\<lambda>config.
       bindE (make_shared_Config config) (\<lambda>address. ret (b\<lparr>sb_config := Some address\<rparr>))))
     (\<lambda>e. throw (RuntimeError (''Failed to load config from '' @ path @ '': '' @ what e)))"

definition WithConfig :: "nat option \<Rightarrow> 'cb ServerBuilder \<Rightarrow> 'cb ServerBuilder" where
  "WithConfig config b = b\<lparr>sb_config := config\<rparr>"

definition WithPort :: "int \<Rightarrow> 'cb ServerBuilder \<Rightarrow> 'cb ServerBuilder" where
  "WithPort port b = b\<lparr>sb_port_override := Some port\<rparr>"

definition WithHost :: "string \<Rightarrow> 'cb ServerBuilder \<Rightarrow> 'cb ServerBuilder" where
  "WithHost host b = b\<lparr>sb_host_override := Some host\<rparr>"

definition EnableServiceDiscovery :: "bool \<Rightarrow> 'cb ServerBuilder \<Rightarrow> 'cb ServerBuilder" where
  "EnableServiceDiscovery enable b = b\<lparr>sb_service_discovery_override := Some enable\<rparr>"

definition WithServiceName :: "string \<Rightarrow> 'cb ServerBuilder \<Rightarrow> 'cb ServerBuilder" where
  "WithServiceName name b = b\<lparr>sb_service_name_override := Some name\<rparr>"

definition OnShutdown :: "'cb option \<Rightarrow> 'cb ServerBuilder \<Rightarrow> 'cb ServerBuilder" where
  "OnShutdown callback b = b\<lparr>sb_shutdown_callback := callback\<rparr>"

definition LoadFromEnvironment :: "'cb ServerBuilder \<Rightarrow> 'cb ServerBuilder" where
  "LoadFromEnvironment b = b\<lparr>sb_load_env := True\<rparr>"

text \<open>An assignment to a member of the configuration at an address.\<close>

definition set_config :: "nat \<Rightarrow> (Config \<Rightarrow> Config) \<Rightarrow> (config_store, unit) io" where
  "set_config address f = modify (\<lambda>store. store[address := f (store ! address)])"

definition override :: "nat \<Rightarrow> 'v option \<Rightarrow> ('v \<Rightarrow> Config \<Rightarrow> Config) \<Rightarrow> (config_store, unit) io" where
  "override address value_override f = (case value_override of Some v \<Rightarrow> set_config address (f v) | None \<Rightarrow> ret ())"

text \<open>\<open>Build\<close> gives the server and the builder after it; what a \<open>std::function\<close> holds after it was
  moved from is not specified and is the argument \<open>moved\<close>.\<close>

definition Build :: "(string \<Rightarrow> string option) \<Rightarrow> 'cb option \<Rightarrow> 'cb ServerBuilder
    \<Rightarrow> (config_store, ('s, 'e, 'r, 'z, 'cb) GrpcServer \<times> 'cb ServerBuilder) io" where
  "Build getenv moved b = (case sb_config b of
       None \<Rightarrow> throw (RuntimeError ''Config is required. Call WithConfigFile() or WithConfig()'')
     | Some address \<Rightarrow>
         bindE (if sb_load_env b then set_config address (LoadFromEnv getenv) else ret ()) (\<lambda>_.
         bindE (override address (sb_port_override b) (\<lambda>v. cfg_server_update (server_grpc_port_update (\<lambda>_. v)))) (\<lambda>_.
         bindE (override address (sb_host_override b) (\<lambda>v. cfg_server_update (server_host_update (\<lambda>_. v)))) (\<lambda>_.
         bindE (override address (sb_service_discovery_override b) (\<lambda>v. cfg_zookeeper_update (zk_enabled_update (\<lambda>_. v)))) (\<lambda>_.
         bindE (override address (sb_service_name_override b) (\<lambda>v. cfg_zookeeper_update (zk_service_name_update (\<lambda>_. v)))) (\<lambda>_.
         bindE (lift (GrpcServer_new (Some address))) (\<lambda>server.
         if sb_shutdown_callback b \<noteq> None
         then ret (SetShutdownCallback (sb_shutdown_callback b) server, b\<lparr>sb_shutdown_callback := moved\<rparr>)
         else ret (server, b))))))))"

subsection \<open>The main programs\<close>

text \<open>The name of the file with the configuration.\<close>

definition config_path :: "(string \<Rightarrow> string option) \<Rightarrow> string" where
  "config_path getenv = (case getenv ''CONFIG_PATH'' of Some path \<Rightarrow> path | None \<Rightarrow> ''../../configs/config.yaml'')"

definition main_build :: "string \<Rightarrow> int \<Rightarrow> (string \<Rightarrow> string option) \<Rightarrow> Config
    \<Rightarrow> (config_store, ('s, 'e, 'r, 'z, 'cb) GrpcServer) io" where
  "main_build name port getenv config =
     bindE (make_shared_Config config) (\<lambda>address.
     bindE (Build getenv None (WithPort port (WithServiceName name (LoadFromEnvironment
       (WithConfig (Some address) ServerBuilder_new))))) (\<lambda>(server, _).
     ret server))"

definition main_server :: "string \<Rightarrow> int \<Rightarrow> 'n yaml \<Rightarrow> (string \<Rightarrow> string option)
    \<Rightarrow> (config_store, ('s, 'e, 'r, 'z, 'cb) GrpcServer) io" where
  "main_server name port yaml getenv =
     bindE (lift (LoadFromFile yaml (config_path getenv))) (main_build name port getenv)"

definition auth_main_server :: "'n yaml \<Rightarrow> (string \<Rightarrow> string option)
    \<Rightarrow> (config_store, ('s, 'e, 'r, 'z, 'cb) GrpcServer) io" where
  "auth_main_server = main_server ''auth-service'' 50052"

definition user_main_server :: "'n yaml \<Rightarrow> (string \<Rightarrow> string option)
    \<Rightarrow> (config_store, ('s, 'e, 'r, 'z, 'cb) GrpcServer) io" where
  "user_main_server = main_server ''user-service'' 50051"


subsection \<open>What a built server has\<close>

text \<open>The configuration as \<open>Build\<close> leaves it.\<close>

definition ov :: "'v option \<Rightarrow> ('v \<Rightarrow> Config \<Rightarrow> Config) \<Rightarrow> Config \<Rightarrow> Config" where
  "ov v f c = (case v of Some x \<Rightarrow> f x c | None \<Rightarrow> c)"

definition built_config :: "(string \<Rightarrow> string option) \<Rightarrow> 'cb ServerBuilder \<Rightarrow> Config \<Rightarrow> Config" where
  "built_config getenv b c =
     ov (sb_service_name_override b) (\<lambda>v. cfg_zookeeper_update (zk_service_name_update (\<lambda>_. v)))
    (ov (sb_service_discovery_override b) (\<lambda>v. cfg_zookeeper_update (zk_enabled_update (\<lambda>_. v)))
    (ov (sb_host_override b) (\<lambda>v. cfg_server_update (server_host_update (\<lambda>_. v)))
    (ov (sb_port_override b) (\<lambda>v. cfg_server_update (server_grpc_port_update (\<lambda>_. v)))
    (if sb_load_env b then LoadFromEnv getenv c else c))))"

lemma override_value: "override a v f store = (Inr (), store[a := ov v f (store ! a)])"
  by (simp add: override_def set_config_def modify_def ret_def ov_def split: option.splits)

lemma Build_run:
  fixes b :: "'cb ServerBuilder" and s :: "('s, 'e, 'r, 'z, 'cb) GrpcServer"
  assumes "sb_config b = Some a" and "a < length store" and "GrpcServer_new (Some a) = Inr s"
  shows "\<exists>b'. Build getenv moved b store =
    (Inr (s\<lparr>gs_shutdown_callback := sb_shutdown_callback b\<rparr>, b'), store[a := built_config getenv b (store ! a)])"
proof -
  let ?e = "if sb_load_env b then LoadFromEnv getenv (store ! a) else store ! a"
  have env: "(if sb_load_env b then set_config a (LoadFromEnv getenv) else ret ()) store = (Inr (), store[a := ?e])"
    by (simp add: set_config_def modify_def ret_def)
  have "s\<lparr>gs_shutdown_callback := None\<rparr> = s" using assms(3) by (auto simp: GrpcServer_new_def)
  then show ?thesis
    using assms
    by (cases "sb_shutdown_callback b")
      (simp_all add: Build_def bindE_def env override_value lift_def ret_def SetShutdownCallback_def built_config_def)
qed

text \<open>No environment variable sets the address.\<close>

lemma env_set_server [simp]:
  "cfg_server (env_set getenv n (\<lambda>v. cfg_mysql_update (f1 v)) c) = cfg_server c"
  "cfg_server (env_set getenv n (\<lambda>v. cfg_redis_update (f2 v)) c) = cfg_server c"
  "cfg_server (env_set getenv n (\<lambda>v. cfg_zookeeper_update (f3 v)) c) = cfg_server c"
  "cfg_server (env_set getenv n (\<lambda>v. cfg_security_update (f4 v)) c) = cfg_server c"
  "cfg_server (env_set getenv n (\<lambda>v. cfg_sms_update (f5 v)) c) = cfg_server c"
  "cfg_server (env_set getenv n (\<lambda>v. cfg_login_update (f6 v)) c) = cfg_server c"
  "cfg_server (env_set getenv n (\<lambda>v. cfg_password_update (f7 v)) c) = cfg_server c"
  by (simp_all add: env_set_def split: option.splits)

lemma LoadFromEnv_server: "cfg_server (LoadFromEnv getenv c) = cfg_server c"
  by (simp add: LoadFromEnv_def)

lemma env_set_security [simp]:
  "cfg_security (env_set getenv n (\<lambda>v. cfg_mysql_update (f1 v)) c) = cfg_security c"
  "cfg_security (env_set getenv n (\<lambda>v. cfg_redis_update (f2 v)) c) = cfg_security c"
  "cfg_security (env_set getenv n (\<lambda>v. cfg_zookeeper_update (f3 v)) c) = cfg_security c"
  "jwt_secret (cfg_security (env_set getenv n (\<lambda>v. cfg_security_update (jwt_issuer_update (g1 v))) c)) = jwt_secret (cfg_security c)"
  "jwt_secret (cfg_security (env_set getenv n (\<lambda>v. cfg_security_update (access_token_ttl_seconds_update (g2 v))) c)) = jwt_secret (cfg_security c)"
  "jwt_secret (cfg_security (env_set getenv n (\<lambda>v. cfg_security_update (refresh_token_ttl_seconds_update (g2 v))) c)) = jwt_secret (cfg_security c)"
  "cfg_security (env_set getenv n (\<lambda>v. cfg_sms_update (f5 v)) c) = cfg_security c"
  "cfg_security (env_set getenv n (\<lambda>v. cfg_login_update (f6 v)) c) = cfg_security c"
  "cfg_security (env_set getenv n (\<lambda>v. cfg_password_update (f7 v)) c) = cfg_security c"
  by (simp_all add: env_set_def split: option.splits)

lemma LoadFromEnv_secret: "jwt_secret (cfg_security (LoadFromEnv getenv c)) = value_or (getenv ''JWT_SECRET'') (jwt_secret (cfg_security c))"
proof -
  have "jwt_secret (cfg_security (env_set getenv ''JWT_SECRET'' (\<lambda>v. cfg_security_update (jwt_secret_update (\<lambda>_. v))) x)) =
      value_or (getenv ''JWT_SECRET'') (jwt_secret (cfg_security x))" for x
    by (simp add: env_set_def value_or_def split: option.splits)
  note secret = this
  show ?thesis by (simp add: LoadFromEnv_def secret)
qed

subsection \<open>What the environment sets, field by field\<close>

text \<open>The variable where it is set, otherwise what the field has: as text, as the number \<open>atoi\<close> reads, as a
  flag. Below, every field that a variable sets, with the variable; no other field is touched.\<close>

definition env_text :: "(string \<Rightarrow> string option) \<Rightarrow> string \<Rightarrow> string \<Rightarrow> string" where
  "env_text g name old = (case g name of Some v \<Rightarrow> v | None \<Rightarrow> old)"

definition env_int :: "(string \<Rightarrow> string option) \<Rightarrow> string \<Rightarrow> int \<Rightarrow> int" where
  "env_int g name old = (case g name of Some v \<Rightarrow> atoi v | None \<Rightarrow> old)"

definition env_flag :: "(string \<Rightarrow> string option) \<Rightarrow> string \<Rightarrow> bool \<Rightarrow> bool" where
  "env_flag g name old = (case g name of Some v \<Rightarrow> v = ''true'' \<or> v = ''1'' | None \<Rightarrow> old)"

definition env_over :: "(string \<Rightarrow> string option) \<Rightarrow> Config \<Rightarrow> Config" where
  "env_over g c = c\<lparr>
    cfg_mysql := (cfg_mysql c)\<lparr>mysql_host := env_text g ''MYSQL_HOST'' (mysql_host (cfg_mysql c)),
      mysql_password := env_text g ''MYSQL_PASSWORD'' (mysql_password (cfg_mysql c))\<rparr>,
    cfg_redis := (cfg_redis c)\<lparr>redis_host := env_text g ''REDIS_HOST'' (redis_host (cfg_redis c))\<rparr>,
    cfg_zookeeper := (cfg_zookeeper c)\<lparr>zk_hosts := env_text g ''ZK_HOSTS'' (zk_hosts (cfg_zookeeper c)),
      zk_session_timeout_ms := env_int g ''ZK_SESSION_TIMEOUT'' (zk_session_timeout_ms (cfg_zookeeper c)),
      zk_connect_timeout_ms := env_int g ''ZK_CONNECT_TIMEOUT'' (zk_connect_timeout_ms (cfg_zookeeper c)),
      zk_root_path := env_text g ''ZK_ROOT_PATH'' (zk_root_path (cfg_zookeeper c)),
      zk_service_name := env_text g ''ZK_SERVICE_NAME'' (zk_service_name (cfg_zookeeper c)),
      zk_enabled := env_flag g ''ZK_ENABLED'' (zk_enabled (cfg_zookeeper c)),
      zk_register_self := env_flag g ''ZK_REGISTER_SELF'' (zk_register_self (cfg_zookeeper c)),
      zk_weight := env_int g ''ZK_WEIGHT'' (zk_weight (cfg_zookeeper c)),
      zk_region := env_text g ''ZK_REGION'' (zk_region (cfg_zookeeper c)),
      zk_zone := env_text g ''ZK_ZONE'' (zk_zone (cfg_zookeeper c)),
      zk_version := env_text g ''ZK_VERSION'' (zk_version (cfg_zookeeper c))\<rparr>,
    cfg_security := (cfg_security c)\<lparr>jwt_secret := env_text g ''JWT_SECRET'' (jwt_secret (cfg_security c)),
      jwt_issuer := env_text g ''JWT_ISSUER'' (jwt_issuer (cfg_security c)),
      access_token_ttl_seconds := env_int g ''ACCESS_TOKEN_TTL'' (access_token_ttl_seconds (cfg_security c)),
      refresh_token_ttl_seconds := env_int g ''REFRESH_TOKEN_TTL'' (refresh_token_ttl_seconds (cfg_security c))\<rparr>,
    cfg_sms := (cfg_sms c)\<lparr>code_len := env_int g ''SMS_CODE_LEN'' (code_len (cfg_sms c)),
      code_ttl_seconds := env_int g ''SMS_CODE_TTL'' (code_ttl_seconds (cfg_sms c)),
      send_interval_seconds := env_int g ''SMS_SEND_INTERVAL'' (send_interval_seconds (cfg_sms c)),
      max_retry_count := env_int g ''SMS_MAX_RETRY'' (max_retry_count (cfg_sms c)),
      retry_ttl_seconds := env_int g ''SMS_RETRY_TTL'' (retry_ttl_seconds (cfg_sms c)),
      lock_seconds := env_int g ''SMS_LOCK_SECONDS'' (lock_seconds (cfg_sms c))\<rparr>,
    cfg_login := (cfg_login c)\<lparr>max_failed_attempts := env_int g ''LOGIN_MAX_FAILED_ATTEMPTS'' (max_failed_attempts (cfg_login c)),
      lock_duration_seconds := env_int g ''LOGIN_LOCK_DURATION'' (lock_duration_seconds (cfg_login c)),
      max_sessions_per_user := env_int g ''LOGIN_MAX_SESSIONS'' (max_sessions_per_user (cfg_login c))\<rparr>,
    cfg_password := (cfg_password c)\<lparr>min_length := env_int g ''PASSWORD_MIN_LENGTH'' (min_length (cfg_password c)),
      max_length := env_int g ''PASSWORD_MAX_LENGTH'' (max_length (cfg_password c))\<rparr>\<rparr>"

lemma env_set_fields:
  "env_set g n (\<lambda>v. cfg_mysql_update (mysql_host_update (\<lambda>_. v))) c = c\<lparr>cfg_mysql := (cfg_mysql c)\<lparr>mysql_host := env_text g n (mysql_host (cfg_mysql c))\<rparr>\<rparr>"
  "env_set g n (\<lambda>v. cfg_mysql_update (mysql_password_update (\<lambda>_. v))) c = c\<lparr>cfg_mysql := (cfg_mysql c)\<lparr>mysql_password := env_text g n (mysql_password (cfg_mysql c))\<rparr>\<rparr>"
  "env_set g n (\<lambda>v. cfg_redis_update (redis_host_update (\<lambda>_. v))) c = c\<lparr>cfg_redis := (cfg_redis c)\<lparr>redis_host := env_text g n (redis_host (cfg_redis c))\<rparr>\<rparr>"
  "env_set g n (\<lambda>v. cfg_zookeeper_update (zk_hosts_update (\<lambda>_. v))) c = c\<lparr>cfg_zookeeper := (cfg_zookeeper c)\<lparr>zk_hosts := env_text g n (zk_hosts (cfg_zookeeper c))\<rparr>\<rparr>"
  "env_set g n (\<lambda>v. cfg_zookeeper_update (zk_session_timeout_ms_update (\<lambda>_. atoi v))) c = c\<lparr>cfg_zookeeper := (cfg_zookeeper c)\<lparr>zk_session_timeout_ms := env_int g n (zk_session_timeout_ms (cfg_zookeeper c))\<rparr>\<rparr>"
  "env_set g n (\<lambda>v. cfg_zookeeper_update (zk_connect_timeout_ms_update (\<lambda>_. atoi v))) c = c\<lparr>cfg_zookeeper := (cfg_zookeeper c)\<lparr>zk_connect_timeout_ms := env_int g n (zk_connect_timeout_ms (cfg_zookeeper c))\<rparr>\<rparr>"
  "env_set g n (\<lambda>v. cfg_zookeeper_update (zk_root_path_update (\<lambda>_. v))) c = c\<lparr>cfg_zookeeper := (cfg_zookeeper c)\<lparr>zk_root_path := env_text g n (zk_root_path (cfg_zookeeper c))\<rparr>\<rparr>"
  "env_set g n (\<lambda>v. cfg_zookeeper_update (zk_service_name_update (\<lambda>_. v))) c = c\<lparr>cfg_zookeeper := (cfg_zookeeper c)\<lparr>zk_service_name := env_text g n (zk_service_name (cfg_zookeeper c))\<rparr>\<rparr>"
  "env_set g n (\<lambda>v. cfg_zookeeper_update (zk_enabled_update (\<lambda>_. env_true v))) c = c\<lparr>cfg_zookeeper := (cfg_zookeeper c)\<lparr>zk_enabled := env_flag g n (zk_enabled (cfg_zookeeper c))\<rparr>\<rparr>"
  "env_set g n (\<lambda>v. cfg_zookeeper_update (zk_register_self_update (\<lambda>_. env_true v))) c = c\<lparr>cfg_zookeeper := (cfg_zookeeper c)\<lparr>zk_register_self := env_flag g n (zk_register_self (cfg_zookeeper c))\<rparr>\<rparr>"
  "env_set g n (\<lambda>v. cfg_zookeeper_update (zk_weight_update (\<lambda>_. atoi v))) c = c\<lparr>cfg_zookeeper := (cfg_zookeeper c)\<lparr>zk_weight := env_int g n (zk_weight (cfg_zookeeper c))\<rparr>\<rparr>"
  "env_set g n (\<lambda>v. cfg_zookeeper_update (zk_region_update (\<lambda>_. v))) c = c\<lparr>cfg_zookeeper := (cfg_zookeeper c)\<lparr>zk_region := env_text g n (zk_region (cfg_zookeeper c))\<rparr>\<rparr>"
  "env_set g n (\<lambda>v. cfg_zookeeper_update (zk_zone_update (\<lambda>_. v))) c = c\<lparr>cfg_zookeeper := (cfg_zookeeper c)\<lparr>zk_zone := env_text g n (zk_zone (cfg_zookeeper c))\<rparr>\<rparr>"
  "env_set g n (\<lambda>v. cfg_zookeeper_update (zk_version_update (\<lambda>_. v))) c = c\<lparr>cfg_zookeeper := (cfg_zookeeper c)\<lparr>zk_version := env_text g n (zk_version (cfg_zookeeper c))\<rparr>\<rparr>"
  "env_set g n (\<lambda>v. cfg_security_update (jwt_secret_update (\<lambda>_. v))) c = c\<lparr>cfg_security := (cfg_security c)\<lparr>jwt_secret := env_text g n (jwt_secret (cfg_security c))\<rparr>\<rparr>"
  "env_set g n (\<lambda>v. cfg_security_update (jwt_issuer_update (\<lambda>_. v))) c = c\<lparr>cfg_security := (cfg_security c)\<lparr>jwt_issuer := env_text g n (jwt_issuer (cfg_security c))\<rparr>\<rparr>"
  "env_set g n (\<lambda>v. cfg_security_update (access_token_ttl_seconds_update (\<lambda>_. atoi v))) c = c\<lparr>cfg_security := (cfg_security c)\<lparr>access_token_ttl_seconds := env_int g n (access_token_ttl_seconds (cfg_security c))\<rparr>\<rparr>"
  "env_set g n (\<lambda>v. cfg_security_update (refresh_token_ttl_seconds_update (\<lambda>_. atoi v))) c = c\<lparr>cfg_security := (cfg_security c)\<lparr>refresh_token_ttl_seconds := env_int g n (refresh_token_ttl_seconds (cfg_security c))\<rparr>\<rparr>"
  "env_set g n (\<lambda>v. cfg_sms_update (code_len_update (\<lambda>_. atoi v))) c = c\<lparr>cfg_sms := (cfg_sms c)\<lparr>code_len := env_int g n (code_len (cfg_sms c))\<rparr>\<rparr>"
  "env_set g n (\<lambda>v. cfg_sms_update (code_ttl_seconds_update (\<lambda>_. atoi v))) c = c\<lparr>cfg_sms := (cfg_sms c)\<lparr>code_ttl_seconds := env_int g n (code_ttl_seconds (cfg_sms c))\<rparr>\<rparr>"
  "env_set g n (\<lambda>v. cfg_sms_update (send_interval_seconds_update (\<lambda>_. atoi v))) c = c\<lparr>cfg_sms := (cfg_sms c)\<lparr>send_interval_seconds := env_int g n (send_interval_seconds (cfg_sms c))\<rparr>\<rparr>"
  "env_set g n (\<lambda>v. cfg_sms_update (max_retry_count_update (\<lambda>_. atoi v))) c = c\<lparr>cfg_sms := (cfg_sms c)\<lparr>max_retry_count := env_int g n (max_retry_count (cfg_sms c))\<rparr>\<rparr>"
  "env_set g n (\<lambda>v. cfg_sms_update (retry_ttl_seconds_update (\<lambda>_. atoi v))) c = c\<lparr>cfg_sms := (cfg_sms c)\<lparr>retry_ttl_seconds := env_int g n (retry_ttl_seconds (cfg_sms c))\<rparr>\<rparr>"
  "env_set g n (\<lambda>v. cfg_sms_update (lock_seconds_update (\<lambda>_. atoi v))) c = c\<lparr>cfg_sms := (cfg_sms c)\<lparr>lock_seconds := env_int g n (lock_seconds (cfg_sms c))\<rparr>\<rparr>"
  "env_set g n (\<lambda>v. cfg_login_update (max_failed_attempts_update (\<lambda>_. atoi v))) c = c\<lparr>cfg_login := (cfg_login c)\<lparr>max_failed_attempts := env_int g n (max_failed_attempts (cfg_login c))\<rparr>\<rparr>"
  "env_set g n (\<lambda>v. cfg_login_update (lock_duration_seconds_update (\<lambda>_. atoi v))) c = c\<lparr>cfg_login := (cfg_login c)\<lparr>lock_duration_seconds := env_int g n (lock_duration_seconds (cfg_login c))\<rparr>\<rparr>"
  "env_set g n (\<lambda>v. cfg_login_update (max_sessions_per_user_update (\<lambda>_. atoi v))) c = c\<lparr>cfg_login := (cfg_login c)\<lparr>max_sessions_per_user := env_int g n (max_sessions_per_user (cfg_login c))\<rparr>\<rparr>"
  "env_set g n (\<lambda>v. cfg_password_update (min_length_update (\<lambda>_. atoi v))) c = c\<lparr>cfg_password := (cfg_password c)\<lparr>min_length := env_int g n (min_length (cfg_password c))\<rparr>\<rparr>"
  "env_set g n (\<lambda>v. cfg_password_update (max_length_update (\<lambda>_. atoi v))) c = c\<lparr>cfg_password := (cfg_password c)\<lparr>max_length := env_int g n (max_length (cfg_password c))\<rparr>\<rparr>"
  by (simp_all add: env_set_def env_text_def env_int_def env_flag_def env_true_def split: option.splits)

lemma LoadFromEnv_fields: "LoadFromEnv g c = env_over g c"
  by (simp add: LoadFromEnv_def env_set_fields env_over_def)

subsection \<open>Properties\<close>

definition env_example :: "string \<Rightarrow> string option" where
  "env_example = [''MYSQL_HOST'' \<mapsto> ''db'', ''ZK_SERVICE_NAME'' \<mapsto> ''other'', ''GRPC_PORT'' \<mapsto> ''6000'', ''SMS_CODE_TTL'' \<mapsto> ''60'']"

text \<open>C23: \<open>Build\<close> needs a configuration (without one it throws and changes nothing) and then always
  gives a server for it, with the callback of the builder. The values of the builder win over the
  environment (read only on demand) and the environment over the file: on demand each of the
  twenty-nine fields listed in \<open>env_over\<close> is the value of its variable where that is set, and every
  other field stays as the file has it; on top, the port, the address, the switch of the service
  discovery and the service name are those of the builder where it has one. The port and the
  address are set by no variable, whatever the examples of the header and of the README files
  say. The configuration is changed in place, no other is.\<close>

theorem builder_precedence:
  fixes b :: "'cb ServerBuilder" and getenv :: "string \<Rightarrow> string option"
  assumes "sb_config b = Some a" and "a < length store"
  defines "c \<equiv> store ! a" and "e \<equiv> if sb_load_env b then env_over getenv (store ! a) else store ! a"
  shows "(\<exists>msg. (Build getenv moved (b\<lparr>sb_config := None\<rparr>)
              :: (config_store, ('s, 'e, 'r, 'z, 'cb) GrpcServer \<times> 'cb ServerBuilder) io) store = (Inl (RuntimeError msg), store))
    \<and> (\<exists>s :: ('s, 'e, 'r, 'z, 'cb) GrpcServer. \<exists>b' c'. Build getenv moved b store = (Inr (s, b'), store[a := c'])
        \<and> gs_config s = a \<and> gs_shutdown_callback s = sb_shutdown_callback b \<and> \<not> gs_running s
        \<and> server_grpc_port (cfg_server c') = value_or (sb_port_override b) (server_grpc_port (cfg_server c))
        \<and> server_host (cfg_server c') = value_or (sb_host_override b) (server_host (cfg_server c))
        \<and> zk_enabled (cfg_zookeeper c') = value_or (sb_service_discovery_override b) (zk_enabled (cfg_zookeeper e))
        \<and> zk_service_name (cfg_zookeeper c') = value_or (sb_service_name_override b) (zk_service_name (cfg_zookeeper e))
        \<and> c'\<lparr>cfg_server := cfg_server e, cfg_zookeeper := cfg_zookeeper e\<rparr> = e
        \<and> (cfg_zookeeper c')\<lparr>zk_enabled := zk_enabled (cfg_zookeeper e), zk_service_name := zk_service_name (cfg_zookeeper e)\<rparr>
            = cfg_zookeeper e)"
proof -
  let ?c = "built_config getenv b (store ! a)"
  have ser: "cfg_server e = cfg_server c" by (simp add: e_def c_def LoadFromEnv_server flip: LoadFromEnv_fields)
  have c': "?c = ov (sb_service_name_override b) (\<lambda>v. cfg_zookeeper_update (zk_service_name_update (\<lambda>_. v)))
    (ov (sb_service_discovery_override b) (\<lambda>v. cfg_zookeeper_update (zk_enabled_update (\<lambda>_. v)))
    (ov (sb_host_override b) (\<lambda>v. cfg_server_update (server_host_update (\<lambda>_. v)))
    (ov (sb_port_override b) (\<lambda>v. cfg_server_update (server_grpc_port_update (\<lambda>_. v))) e)))"
    by (simp add: built_config_def e_def LoadFromEnv_fields)
  obtain s :: "('s, 'e, 'r, 'z, 'cb) GrpcServer" where s: "GrpcServer_new (Some a) = Inr s" "gs_config s = a" "\<not> gs_running s"
    by (simp add: GrpcServer_new_def)
  from Build_run [OF assms(1,2) s(1)] obtain b' where
    run: "Build getenv moved b store = (Inr (s\<lparr>gs_shutdown_callback := sb_shutdown_callback b\<rparr>, b'), store[a := ?c])" by blast
  have "server_grpc_port (cfg_server ?c) = value_or (sb_port_override b) (server_grpc_port (cfg_server c))"
    "server_host (cfg_server ?c) = value_or (sb_host_override b) (server_host (cfg_server c))"
    "zk_enabled (cfg_zookeeper ?c) = value_or (sb_service_discovery_override b) (zk_enabled (cfg_zookeeper e))"
    "zk_service_name (cfg_zookeeper ?c) = value_or (sb_service_name_override b) (zk_service_name (cfg_zookeeper e))"
    "?c\<lparr>cfg_server := cfg_server e, cfg_zookeeper := cfg_zookeeper e\<rparr> = e"
    "(cfg_zookeeper ?c)\<lparr>zk_enabled := zk_enabled (cfg_zookeeper e), zk_service_name := zk_service_name (cfg_zookeeper e)\<rparr>
            = cfg_zookeeper e"
    unfolding c' by (simp_all add: ov_def value_or_def ser split: option.splits)
  then show ?thesis using run s
    by (intro conjI exI [of _ "s\<lparr>gs_shutdown_callback := sb_shutdown_callback b\<rparr>"] exI [of _ b'] exI [of _ ?c])
      (simp_all add: Build_def throw_def)
qed

theorem builder_precedence_witness:
  "\<exists>(s :: (unit, unit, unit, unit, unit) GrpcServer) b' c'.
     Build env_example None (WithServiceName ''auth-service'' (LoadFromEnvironment (WithConfig (Some 0) ServerBuilder_new))) [Config_default]
       = (Inr (s, b'), [c'])
     \<and> mysql_host (cfg_mysql c') = ''db'' \<and> code_ttl_seconds (cfg_sms c') = 60
     \<and> zk_service_name (cfg_zookeeper c') = ''auth-service'' \<and> server_grpc_port (cfg_server c') = 50051
     \<and> jwt_issuer (cfg_security c') = jwt_issuer (cfg_security Config_default)"
proof -
  let ?b = "WithServiceName ''auth-service'' (LoadFromEnvironment (WithConfig (Some 0) ServerBuilder_new)) :: unit ServerBuilder"
  have b: "sb_config ?b = Some 0" "0 < length [Config_default]" "sb_port_override ?b = None" "sb_load_env ?b"
    "sb_service_name_override ?b = Some ''auth-service''"
    by (simp_all add: WithServiceName_def LoadFromEnvironment_def WithConfig_def ServerBuilder_new_def)
  let ?e = "env_over env_example ([Config_default] ! 0)"
  from builder_precedence [OF b(1,2), of env_example None] b(4) obtain s :: "(unit, unit, unit, unit, unit) GrpcServer" and b' c' where
    run: "Build env_example None ?b [Config_default] = (Inr (s, b'), [Config_default][0 := c'])"
    "server_grpc_port (cfg_server c') = value_or None (server_grpc_port (cfg_server ([Config_default] ! 0)))"
    "zk_service_name (cfg_zookeeper c') = value_or (Some ''auth-service'') (zk_service_name (cfg_zookeeper ?e))"
    and e: "c'\<lparr>cfg_server := cfg_server ?e, cfg_zookeeper := cfg_zookeeper ?e\<rparr> = ?e"
    unfolding b(3,5) if_P [OF b(4)] by (elim exE conjE) (rule that)
  have "cfg_mysql c' = cfg_mysql ?e" "cfg_sms c' = cfg_sms ?e" "cfg_security c' = cfg_security ?e"
    by (subst e [symmetric], simp)+
  moreover have "atoi ''60'' = 60" by code_simp
  ultimately have "mysql_host (cfg_mysql c') = ''db''" "code_ttl_seconds (cfg_sms c') = 60"
    "jwt_issuer (cfg_security c') = jwt_issuer (cfg_security Config_default)"
    by (simp_all add: env_over_def env_text_def env_int_def env_example_def)
  then show ?thesis using run
    by (intro exI [of _ s] exI [of _ b'] exI [of _ c']) (simp add: value_or_def Config_default_def ServerConfig_default_def)
qed

text \<open>What a main program makes of a configuration: the environment, its name and its port on top.\<close>

definition main_config :: "string \<Rightarrow> int \<Rightarrow> (string \<Rightarrow> string option) \<Rightarrow> Config \<Rightarrow> Config" where
  "main_config name port getenv config = cfg_zookeeper_update (zk_service_name_update (\<lambda>_. name))
      (cfg_server_update (server_grpc_port_update (\<lambda>_. port)) (LoadFromEnv getenv config))"

lemma main_build_run:
  fixes s :: "('s, 'e, 'r, 'z, 'cb) GrpcServer"
  assumes s: "GrpcServer_new (Some (length store)) = Inr s"
  shows "main_build name port getenv config store = (Inr s, store @ [main_config name port getenv config])"
proof -
  let ?b = "WithPort port (WithServiceName name (LoadFromEnvironment (WithConfig (Some (length store)) ServerBuilder_new))) :: 'cb ServerBuilder"
  have b: "sb_config ?b = Some (length store)" "length store < length (store @ [config])"
    by (simp_all add: WithPort_def WithServiceName_def LoadFromEnvironment_def WithConfig_def)
  have "sb_shutdown_callback ?b = None"
    by (simp add: WithPort_def WithServiceName_def LoadFromEnvironment_def WithConfig_def ServerBuilder_new_def)
  moreover have "s\<lparr>gs_shutdown_callback := None\<rparr> = s" using s by (auto simp: GrpcServer_new_def)
  moreover have "built_config getenv ?b config = main_config name port getenv config"
    by (simp add: built_config_def ov_def main_config_def WithPort_def WithServiceName_def LoadFromEnvironment_def
        WithConfig_def ServerBuilder_new_def)
  moreover from Build_run [OF b s, of getenv None] obtain b' where
    "Build getenv None ?b (store @ [config]) =
      (Inr (s\<lparr>gs_shutdown_callback := sb_shutdown_callback ?b\<rparr>, b'), store @ [built_config getenv ?b config])"
    by auto
  ultimately show ?thesis by (simp add: main_build_def bindE_def make_shared_Config_def ret_def)
qed

lemma main_server_run:
  fixes store :: config_store
  assumes "LoadFromFile yaml (config_path getenv) = Inr config"
  shows "\<exists>(s :: ('s, 'e, 'r, 'z, 'cb) GrpcServer) c'. main_server name port yaml getenv store = (Inr s, store @ [c'])
    \<and> gs_config s = length store \<and> cfg_server c' = (cfg_server config)\<lparr>server_grpc_port := port\<rparr>
    \<and> zk_service_name (cfg_zookeeper c') = name \<and> cfg_zookeeper c' = (cfg_zookeeper (LoadFromEnv getenv config))\<lparr>zk_service_name := name\<rparr>
    \<and> c'\<lparr>cfg_server := cfg_server config, cfg_zookeeper := cfg_zookeeper (LoadFromEnv getenv config)\<rparr> = LoadFromEnv getenv config"
proof -
  let ?c = "main_config name port getenv config"
  obtain s :: "('s, 'e, 'r, 'z, 'cb) GrpcServer" where s: "GrpcServer_new (Some (length store)) = Inr s" "gs_config s = length store"
    by (simp add: GrpcServer_new_def)
  have "main_server name port yaml getenv store = (Inr s, store @ [?c])"
    using assms main_build_run [OF s(1)] by (simp add: main_server_def bindE_def lift_def)
  moreover have "cfg_server ?c = (cfg_server config)\<lparr>server_grpc_port := port\<rparr>" "zk_service_name (cfg_zookeeper ?c) = name"
    "cfg_zookeeper ?c = (cfg_zookeeper (LoadFromEnv getenv config))\<lparr>zk_service_name := name\<rparr>"
    "?c\<lparr>cfg_server := cfg_server config, cfg_zookeeper := cfg_zookeeper (LoadFromEnv getenv config)\<rparr> = LoadFromEnv getenv config"
    using LoadFromEnv_server [of getenv config, symmetric] by (simp_all add: main_config_def)
  ultimately show ?thesis using s(2)
    by (intro exI [of _ s] exI [of _ ?c] conjI) simp_all
qed


text \<open>the two programs, started with the same file and the same environment, make two servers that
  do not collide and belong together: they listen on the ports 50052 and 50051 of the configured
  address and register under different nodes of the same root, whatever the file and the
  environment say of the port and the name, and they have the same secret, issuer and lifetimes
  for tokens (so that each accepts the tokens of the other), the same database, cache and policies.\<close>

lemma main_programs_agree:
  assumes "LoadFromFile yaml (config_path getenv) = Inr config"
  shows "\<exists>(sa :: ('s, 'e, 'r, 'z, 'cb) GrpcServer) ca (su :: ('s, 'e, 'r, 'z, 'cb) GrpcServer) cu.
     auth_main_server yaml getenv [] = (Inr sa, [ca]) \<and> user_main_server yaml getenv [] = (Inr su, [cu])
     \<and> gs_config sa = 0 \<and> gs_config su = 0
     \<and> GrpcServer_GetAddress ca = server_host (cfg_server config) @ '':'' @ to_string 50052
     \<and> GrpcServer_GetAddress cu = server_host (cfg_server config) @ '':'' @ to_string 50051
     \<and> zk_root_path (cfg_zookeeper ca) = zk_root_path (cfg_zookeeper cu)
     \<and> BuildInstancePath (zk_root_path (cfg_zookeeper ca)) (own_instance ca) =
         zk_root_path (cfg_zookeeper ca) @ ''/auth-service/'' @ GrpcServer_GetAddress ca
     \<and> BuildInstancePath (zk_root_path (cfg_zookeeper cu)) (own_instance cu) =
         zk_root_path (cfg_zookeeper ca) @ ''/user-service/'' @ GrpcServer_GetAddress cu
     \<and> ca\<lparr>cfg_server := cfg_server cu, cfg_zookeeper := cfg_zookeeper cu\<rparr> = cu
     \<and> cfg_security ca = cfg_security cu"
proof -
  obtain sa :: "('s, 'e, 'r, 'z, 'cb) GrpcServer" and ca where a: "auth_main_server yaml getenv [] = (Inr sa, [] @ [ca])"
    "gs_config sa = length ([] :: config_store)" "cfg_server ca = (cfg_server config)\<lparr>server_grpc_port := 50052\<rparr>"
    "cfg_zookeeper ca = (cfg_zookeeper (LoadFromEnv getenv config))\<lparr>zk_service_name := ''auth-service''\<rparr>"
    "ca\<lparr>cfg_server := cfg_server config, cfg_zookeeper := cfg_zookeeper (LoadFromEnv getenv config)\<rparr> = LoadFromEnv getenv config"
    using main_server_run [OF assms, of "''auth-service''" 50052 "[]"] unfolding auth_main_server_def by (elim exE conjE)
  obtain su :: "('s, 'e, 'r, 'z, 'cb) GrpcServer" and cu where u: "user_main_server yaml getenv [] = (Inr su, [] @ [cu])"
    "gs_config su = length ([] :: config_store)" "cfg_server cu = (cfg_server config)\<lparr>server_grpc_port := 50051\<rparr>"
    "cfg_zookeeper cu = (cfg_zookeeper (LoadFromEnv getenv config))\<lparr>zk_service_name := ''user-service''\<rparr>"
    "cu\<lparr>cfg_server := cfg_server config, cfg_zookeeper := cfg_zookeeper (LoadFromEnv getenv config)\<rparr> = LoadFromEnv getenv config"
    using main_server_run [OF assms, of "''user-service''" 50051 "[]"] unfolding user_main_server_def by (elim exE conjE)
  have same: "ca\<lparr>cfg_server := cfg_server cu, cfg_zookeeper := cfg_zookeeper cu\<rparr> = cu"
    using trans [OF a(5) u(5) [symmetric]] by (cases ca; cases cu) simp
  then have "cfg_security ca = cfg_security cu" by (cases ca; cases cu) simp
  with same a u show ?thesis
    by (intro exI conjI) (assumption | simp add: GrpcServer_GetAddress_def BuildInstancePath_def own_instance_def GetAddress_def)+
qed

text \<open>A file with no section: everything is as the program has it.\<close>

definition empty_yaml :: "unit yaml" where
  "empty_yaml = \<lparr>y_LoadFile = \<lambda>_. Inr (), y_get = \<lambda>_ _. Inr None, as_string = \<lambda>_. Inl [],
    as_int = \<lambda>_. Inl [], as_unsigned = \<lambda>_. Inl [], as_size_t = \<lambda>_. Inl [], as_bool = \<lambda>_. Inl []\<rparr>"

lemma empty_yaml_loads: "LoadFromFile empty_yaml path = Inr Config_default"
proof -
  have "load_sections empty_yaml () = Inr Config_default"
    by (simp add: load_sections_def y_section_def empty_yaml_def)
  then show ?thesis
    using Config_default_ok ValidateConfig_ok [of Config_default] by (simp add: LoadFromFile_def empty_yaml_def)
qed

lemma main_programs_agree_example:
  "\<exists>(sa :: (unit, unit, unit, unit, unit) GrpcServer) ca. auth_main_server empty_yaml (\<lambda>_. None) [] = (Inr sa, [ca])
    \<and> GrpcServer_GetAddress ca = server_host (cfg_server Config_default) @ '':'' @ to_string 50052"
  using main_programs_agree [OF empty_yaml_loads, of "\<lambda>_. None"] by blast

text \<open>C24: the environment is not checked: a program that loads a file which passes every check runs with
  an empty secret for its tokens when the variable \<open>JWT_SECRET\<close> is set to the empty string, a
  configuration \<open>ValidateConfig\<close> would have refused.\<close>

theorem environment_not_validated:
  fixes store :: config_store
  assumes "LoadFromFile yaml (config_path getenv) = Inr config" and "getenv ''JWT_SECRET'' = Some []"
  shows "config_ok config \<and> (\<exists>(s :: ('s, 'e, 'r, 'z, 'cb) GrpcServer) c.
     auth_main_server yaml getenv store = (Inr s, store @ [c]) \<and> gs_config s = length store
     \<and> jwt_secret (cfg_security c) = [] \<and> ValidateConfig c \<noteq> Inr ())"
proof -
  obtain s :: "('s, 'e, 'r, 'z, 'cb) GrpcServer" and c where
    run: "auth_main_server yaml getenv store = (Inr s, store @ [c])" "gs_config s = length store"
    and c: "c\<lparr>cfg_server := cfg_server config, cfg_zookeeper := cfg_zookeeper (LoadFromEnv getenv config)\<rparr> = LoadFromEnv getenv config"
    using main_server_run [OF assms(1), of "''auth-service''" 50052 store] unfolding auth_main_server_def by (elim exE conjE)
  have "cfg_security c = cfg_security (LoadFromEnv getenv config)" by (subst c [symmetric]) simp
  then have "jwt_secret (cfg_security c) = []" using assms(2) by (simp add: LoadFromEnv_secret value_or_def)
  moreover from this have "\<not> config_ok c" by (simp add: config_ok_def security_ok_def)
  then have "ValidateConfig c \<noteq> Inr ()" using ValidateConfig_ok [of c] by simp
  ultimately show ?thesis using run LoadFromFile_ok [OF assms(1)] by blast
qed

theorem environment_not_validated_witness:
  "config_ok Config_default \<and> (\<exists>(s :: (unit, unit, unit, unit, unit) GrpcServer) c.
     auth_main_server empty_yaml (\<lambda>v. if v = ''JWT_SECRET'' then Some [] else None) [] = (Inr s, [c])
     \<and> jwt_secret (cfg_security c) = [])"
proof -
  let ?g = "\<lambda>v. if v = ''JWT_SECRET'' then Some [] else None"
  have "?g ''JWT_SECRET'' = Some []" by simp
  from environment_not_validated [where getenv = ?g and store = "[]", OF empty_yaml_loads this] show ?thesis by auto
qed

text \<open>Two servers that are built on one configuration object share it: the second \<open>Build\<close> changes the
  address of the first.\<close>

lemma shared_config_overwritten:
  fixes s1 s2 :: "('s, 'e, 'r, 'z, 'cb) GrpcServer"
  assumes "Build getenv None (WithPort p1 (WithConfig (Some a) ServerBuilder_new)) store = (Inr (s1, b1), store1)"
    and "Build getenv None (WithPort p2 (WithConfig (Some a) ServerBuilder_new)) store1 = (Inr (s2, b2), store2)"
    and "a < length store"
  shows "GrpcServer_GetAddress (store1 ! gs_config s1) = server_host (cfg_server (store ! a)) @ '':'' @ to_string p1
    \<and> GrpcServer_GetAddress (store2 ! gs_config s1) = server_host (cfg_server (store ! a)) @ '':'' @ to_string p2"
proof -
  let ?b = "\<lambda>p. WithPort p (WithConfig (Some a) ServerBuilder_new) :: 'cb ServerBuilder"
  have b: "sb_config (?b p) = Some a" "built_config getenv (?b p) c = cfg_server_update (server_grpc_port_update (\<lambda>_. p)) c" for p c
    by (simp_all add: built_config_def ov_def WithPort_def WithConfig_def ServerBuilder_new_def)
  obtain s :: "('s, 'e, 'r, 'z, 'cb) GrpcServer" where s: "GrpcServer_new (Some a) = Inr s" "gs_config s = a"
    by (simp add: GrpcServer_new_def)
  from Build_run [OF b(1) [of p1] assms(3) s(1), where getenv = getenv and moved = None] assms(1)
  have 1: "gs_config s1 = a" "store1 = store[a := cfg_server_update (server_grpc_port_update (\<lambda>_. p1)) (store ! a)]"
    using s(2) by (auto simp: b(2))
  then have len: "a < length store1" using assms(3) by simp
  from Build_run [OF b(1) [of p2] len s(1), where getenv = getenv and moved = None] assms(2)
  have "store2 = store1[a := cfg_server_update (server_grpc_port_update (\<lambda>_. p2)) (store1 ! a)]" by (auto simp: b(2))
  with 1 assms(3) show ?thesis by (simp add: GrpcServer_GetAddress_def)
qed


end
