(* ===== verification/Sql_Tables.thy ===== *)
theory Sql_Tables
  imports Interfaces
begin

section \<open>The tables behind the statements\<close>

text \<open>
  What the statements of \<open>src/db/user_db.cpp\<close> and \<open>src/auth/token_repository.cpp\<close> mean on the
  tables of \<open>scripts/init_db.sql\<close>, as far as accounts and sessions are concerned: the text that
  reaches the server is read by its rules for quoted literals (\<open>tokens\<close> of \<^verbatim>\<open>MySQL\<close>), matched
  with a statement, and executed. \<open>sql_server\<close> is the hypothesis that a MySQL server does so;
  under it the operations of the repositories are the operations on the tables, and everything
  in between (the pool, the escaping, the result sets, the parsing of rows) is transparent.
\<close>

subsection \<open>Statements\<close>

text \<open>A statement is matched character by character; a placeholder stands for a literal or for the
  digits of a number.\<close>

definition is_num :: "token \<Rightarrow> bool" where
  "is_num t = (case t of Ch c \<Rightarrow> isdigit c \<or> c = CHR ''-'' | Lit s \<Rightarrow> False)"

fun plain_char :: "token \<Rightarrow> char" where
  "plain_char (Ch c) = c"
| "plain_char (Lit s) = CHR 0x00"

function fits :: "string \<Rightarrow> token list \<Rightarrow> string list option" where
  "fits [] ts = (if ts = [] then Some [] else None)"
| "fits (c # sql) ts =
     (if c = CHR ''?'' then
        (case ts of
           [] \<Rightarrow> None
         | Lit s # ts' \<Rightarrow> map_option ((#) s) (fits sql ts')
         | Ch d # ts' \<Rightarrow>
             if is_num (Ch d) then map_option ((#) (map plain_char (takeWhile is_num ts))) (fits sql (dropWhile is_num ts))
             else None)
      else (case ts of
           [] \<Rightarrow> None
         | t # ts' \<Rightarrow> if t = Ch c then fits sql ts' else None))"
  by pat_completeness auto
termination by (relation "measure (\<lambda>(sql, ts). length sql)") auto

subsection \<open>The tables\<close>

record tables =
  t_users :: "UserEntity list"
  t_sessions :: "TokenSession list"
  t_next_user :: int
  t_next_session :: int
  t_now :: string

text \<open>What the server decides: which text a column takes, which texts its collation takes as equal,
  which number a text is, and the order of times.\<close>

record sql_env =
  se_fit :: "string \<Rightarrow> string \<Rightarrow> bool"
  se_same :: "string \<Rightarrow> string \<Rightarrow> bool"
  se_int :: "string \<Rightarrow> int"
  se_before :: "string \<Rightarrow> string \<Rightarrow> bool"

datatype outcome = Rows mysql_res | Changed int | Refused int string

definition user_rows :: "UserEntity list \<Rightarrow> outcome" where
  "user_rows us = Rows (user_names, map (\<lambda>u. map (user_column Map.empty u) user_names) us)"

definition duplicate :: "string \<Rightarrow> string \<Rightarrow> outcome" where
  "duplicate v key = Refused 1062 (''Duplicate entry '' @ [CHR 0x27] @ v @ [CHR 0x27] @ '' for key '' @ [CHR 0x27] @ key @ [CHR 0x27])"

text \<open>The next number is free.\<close>

definition fresh_ids :: "tables \<Rightarrow> bool" where
  "fresh_ids T \<longleftrightarrow> in_int64 (t_next_user T) \<and> t_next_user T \<notin> u_id ` set (t_users T)"

definition insert_user :: "sql_env \<Rightarrow> string list \<Rightarrow> tables \<Rightarrow> outcome \<times> tables" where
  "insert_user E vs T = (case vs of
     [uuid, mobile, name, hash, role] \<Rightarrow>
       if \<not> (se_fit E ''uuid'' uuid \<and> se_fit E ''mobile'' mobile \<and> se_fit E ''display_name'' name
             \<and> se_fit E ''password_hash'' hash \<and> se_fit E ''role'' role) then (Refused 1406 ''Data too long for column'', T)
       else if \<not> fresh_ids T then (Refused 1467 ''Failed to read auto-increment value from storage engine'', T)
       else if \<exists>u\<in>set (t_users T). se_same E (u_uuid u) uuid then (duplicate uuid ''users.uk_uuid'', T)
       else if \<exists>u\<in>set (t_users T). se_same E (u_mobile u) mobile then (duplicate mobile ''users.uk_mobile'', T)
       else (Changed 1, T\<lparr>t_users := t_users T @ [\<lparr>u_id = t_next_user T, u_uuid = uuid, u_mobile = mobile,
               u_display_name = name, u_password_hash = hash, u_role = IntToUserRole (se_int E role), u_disabled = False,
               u_created_at = t_now T, u_updated_at = t_now T\<rparr>]\<rparr>)
   | _ \<Rightarrow> (Refused 1064 ''syntax'', T))"

definition changed_user :: "sql_env \<Rightarrow> string \<Rightarrow> string list \<Rightarrow> UserEntity \<Rightarrow> UserEntity" where
  "changed_user E now vs u = (case vs of
     [name, hash, disabled, role, uuid] \<Rightarrow>
       (let u' = u\<lparr>u_display_name := name, u_password_hash := hash, u_disabled := se_int E disabled \<noteq> 0,
              u_role := IntToUserRole (se_int E role)\<rparr>
        in if se_same E (u_uuid u) uuid \<and> u' \<noteq> u then u'\<lparr>u_updated_at := now\<rparr> else u)
   | _ \<Rightarrow> u)"

definition update_user :: "sql_env \<Rightarrow> string list \<Rightarrow> tables \<Rightarrow> outcome \<times> tables" where
  "update_user E vs T =
     (if \<not> (se_fit E ''display_name'' (vs ! 0) \<and> se_fit E ''password_hash'' (vs ! 1) \<and> se_fit E ''disabled'' (vs ! 2)
           \<and> se_fit E ''role'' (vs ! 3)) then (Refused 1406 ''Data too long for column'', T)
      else let new = map (changed_user E (t_now T) vs) (t_users T);
          n = length (filter (\<lambda>(u, u'). u \<noteq> u') (zip (t_users T) new))
      in (Changed (int n), T\<lparr>t_users := new\<rparr>))"

definition insert_session :: "sql_env \<Rightarrow> string list \<Rightarrow> tables \<Rightarrow> outcome \<times> tables" where
  "insert_session E vs T = (case vs of
     [user_id, hash, expires] \<Rightarrow>
       if \<not> (se_fit E ''token_hash'' hash \<and> se_fit E ''expires_at'' expires) then (Refused 1406 ''Data too long for column'', T)
       else if \<exists>s\<in>set (t_sessions T). se_same E (s_token_hash s) hash then (duplicate hash ''user_sessions.uk_token_hash'', T)
       else if \<forall>u\<in>set (t_users T). u_id u \<noteq> se_int E user_id then (Refused 1452 ''Cannot add or update a child row'', T)
       else (Changed 1, T\<lparr>t_sessions := t_sessions T @ [\<lparr>s_id = t_next_session T, s_user_id = se_int E user_id,
               s_token_hash = hash, s_expires_at = expires, s_created_at = t_now T\<rparr>]\<rparr>)
   | _ \<Rightarrow> (Refused 1064 ''syntax'', T))"

definition delete_sessions :: "(TokenSession \<Rightarrow> bool) \<Rightarrow> tables \<Rightarrow> outcome \<times> tables" where
  "delete_sessions P T = (Changed (int (length (filter P (t_sessions T)))), T\<lparr>t_sessions := filter (\<lambda>s. \<not> P s) (t_sessions T)\<rparr>)"

text \<open>The statements of the two repositories that accounts and sessions rest on, with their meaning
  on the values of the placeholders.\<close>

definition statements :: "sql_env \<Rightarrow> (string \<times> (string list \<Rightarrow> tables \<Rightarrow> outcome \<times> tables)) list" where
  "statements E = [
     (''SELECT * FROM users WHERE mobile = ?'',
        \<lambda>vs T. (user_rows (filter (\<lambda>u. se_same E (u_mobile u) (hd vs)) (t_users T)), T)),
     (''SELECT * FROM users WHERE uuid = ?'',
        \<lambda>vs T. (user_rows (filter (\<lambda>u. se_same E (u_uuid u) (hd vs)) (t_users T)), T)),
     (''SELECT * FROM users WHERE id = ?'',
        \<lambda>vs T. (user_rows (filter (\<lambda>u. u_id u = se_int E (hd vs)) (t_users T)), T)),
     (''INSERT INTO users (uuid, mobile, display_name, password_hash, role) VALUES (?, ?, ?, ?, ?)'', insert_user E),
     (''UPDATE users SET display_name = ?, password_hash = ?, disabled = ?, role = ? WHERE uuid = ?'', update_user E),
     (''INSERT INTO user_sessions (user_id, token_hash, expires_at) VALUES (?, ?, ?)'', insert_session E),
     (''SELECT 1 FROM user_sessions WHERE token_hash = ? AND expires_at > NOW() LIMIT 1'',
        \<lambda>vs T. (Rows ([''1''], map (\<lambda>s. [Some ''1'']) (take 1 (filter (\<lambda>s. se_same E (s_token_hash s) (hd vs)
           \<and> se_before E (t_now T) (s_expires_at s)) (t_sessions T)))), T)),
     (''DELETE FROM user_sessions WHERE token_hash = ?'', \<lambda>vs. delete_sessions (\<lambda>s. se_same E (s_token_hash s) (hd vs))),
     (''DELETE FROM user_sessions WHERE user_id = ?'', \<lambda>vs. delete_sessions (\<lambda>s. s_user_id s = se_int E (hd vs))),
     (''SELECT 1 FROM users WHERE mobile = ? LIMIT 1'',
        \<lambda>vs T. (Rows ([''1''], map (\<lambda>u. [Some ''1'']) (take 1 (filter (\<lambda>u. se_same E (u_mobile u) (hd vs)) (t_users T)))), T))]"

fun first_fit :: "(string \<times> (string list \<Rightarrow> 'b)) list \<Rightarrow> token list \<Rightarrow> 'b option" where
  "first_fit [] ts = None"
| "first_fit ((sql, f) # sts) ts = (case fits sql ts of Some vs \<Rightarrow> Some (f vs) | None \<Rightarrow> first_fit sts ts)"

text \<open>What the server does with a text: \<open>None\<close> for any other statement.\<close>

definition run_statement :: "sql_env \<Rightarrow> token list \<Rightarrow> tables \<Rightarrow> (outcome \<times> tables) option" where
  "run_statement E ts T = map_option (\<lambda>f. f T) (first_fit (statements E) ts)"


subsection \<open>What a statement with parameters is matched with\<close>

fun param_text :: "Param \<Rightarrow> string" where
  "param_text (PString s) = s"
| "param_text p = param_sql (\<lambda>s. s) p"

text \<open>Parameters the repositories use, and templates in which a number ends at its placeholder.\<close>

fun sql_value :: "Param \<Rightarrow> bool" where
  "sql_value (PString s) = True"
| "sql_value (PInt n) = True"
| "sql_value (PBool b) = True"
| "sql_value _ = False"

fun separated :: "string \<Rightarrow> bool" where
  "separated [] = True"
| "separated (c # sql) \<longleftrightarrow> separated sql \<and> (c = CHR ''?'' \<longrightarrow>
     (case sql of [] \<Rightarrow> True | d # _ \<Rightarrow> d \<noteq> CHR ''?'' \<and> \<not> isdigit d \<and> d \<noteq> CHR ''-''))"

fun clash :: "string \<Rightarrow> string \<Rightarrow> bool" where
  "clash (a # x) (b # y) = (if a = CHR ''?'' \<or> b = CHR ''?'' then False else if a = b then clash x y else True)"
| "clash _ _ = False"

lemma clash_fits: "clash sql sql' \<Longrightarrow> fits sql (template_tokens sql' ps) = None"
  by (induction sql sql' rule: clash.induct) (auto split: if_splits)

lemma number_tokens:
  assumes "p = PInt n \<or> p = PBool b"
  shows "\<exists>d ds. param_text p = d # ds \<and> param_tokens p = map Ch (d # ds) \<and> list_all is_num (map Ch (d # ds))"
proof -
  have num: "list_all is_num (map Ch (to_string i))" for i
    using to_string_chars [of _ i] by (auto simp: list_all_iff is_num_def)
  have ne: "to_string i \<noteq> []" for i by simp
  show ?thesis
  proof (cases "p = PInt n")
    case True
    then show ?thesis using num [of n] ne [of n] by (cases "to_string n") auto
  next
    case False
    then have "p = PBool b" using assms by simp
    then show ?thesis by (cases b) (auto simp: is_num_def isdigit_def)
  qed
qed

lemma fits_template:
  assumes "separated sql" and "list_all sql_value ps" and "length ps = length (filter (\<lambda>c. c = CHR ''?'') sql)"
  shows "fits sql (template_tokens sql ps) = Some (map param_text ps)"
  using assms
proof (induction sql arbitrary: ps)
  case (Cons c sql)
  show ?case
  proof (cases "c = CHR ''?''")
    case False
    then show ?thesis using Cons by simp
  next
    case True
    then obtain p ps' where ps: "ps = p # ps'" using Cons.prems(3) by (cases ps) auto
    have IH: "fits sql (template_tokens sql ps') = Some (map param_text ps')" using Cons True ps by simp
    have stop: "takeWhile is_num (template_tokens sql ps') = []" "dropWhile is_num (template_tokens sql ps') = template_tokens sql ps'"
      using Cons.prems(1) True by (cases sql; simp add: is_num_def)+
    show ?thesis
    proof (cases "\<exists>s. p = PString s")
      case True
      then show ?thesis using \<open>c = CHR ''?''\<close> ps IH by auto
    next
      case False
      then obtain n b where "p = PInt n \<or> p = PBool b" using Cons.prems(2) ps by (cases p) auto
      then obtain d ds where d: "param_text p = d # ds" "param_tokens p = map Ch (d # ds)" "list_all is_num (map Ch (d # ds))"
        using number_tokens by blast
      have all: "\<And>t. t \<in> set (map Ch (d # ds)) \<Longrightarrow> is_num t" using d(3) by (simp only: list_all_iff)
      have "map plain_char (map Ch xs) = xs" for xs by (induction xs) simp_all
      then show ?thesis
        using \<open>c = CHR ''?''\<close> ps IH d stop takeWhile_append2 [of "map Ch (d # ds)" is_num, OF all]
          dropWhile_append2 [of "map Ch (d # ds)" is_num, OF all] by simp
    qed
  qed
qed simp


lemma first_fit_at:
  assumes "i < length sts" and "\<forall>j<i. clash (fst (sts ! j)) (fst (sts ! i))" and "separated (fst (sts ! i))"
    and "list_all sql_value ps" and "length ps = length (filter (\<lambda>c. c = CHR ''?'') (fst (sts ! i)))"
  shows "first_fit sts (template_tokens (fst (sts ! i)) ps) = Some (snd (sts ! i) (map param_text ps))"
  using assms(1,2,3,5)
proof (induction sts arbitrary: i)
  case (Cons st sts)
  obtain sql f where st: "st = (sql, f)" by (cases st)
  show ?case
  proof (cases i)
    case 0
    then show ?thesis using st Cons.prems(3,4) assms(4) fits_template by simp
  next
    case (Suc k)
    then have "clash sql (fst (sts ! k))" using Cons.prems(2) st by (metis fst_conv nth_Cons_0 nth_Cons_Suc zero_less_Suc)
    then have n: "fits sql (template_tokens (fst (sts ! k)) ps) = None" by (rule clash_fits)
    have "\<forall>j<k. clash (fst (sts ! j)) (fst (sts ! k))" using Cons.prems(2) Suc by (metis Suc_mono nth_Cons_Suc)
    then show ?thesis using Suc st n Cons.IH [of k] Cons.prems by simp
  qed
qed simp

text \<open>No two of the statements can be taken for one another.\<close>

definition texts :: "string list" where
  "texts = [''SELECT * FROM users WHERE mobile = ?'', ''SELECT * FROM users WHERE uuid = ?'', ''SELECT * FROM users WHERE id = ?'',
     ''INSERT INTO users (uuid, mobile, display_name, password_hash, role) VALUES (?, ?, ?, ?, ?)'',
     ''UPDATE users SET display_name = ?, password_hash = ?, disabled = ?, role = ? WHERE uuid = ?'',
     ''INSERT INTO user_sessions (user_id, token_hash, expires_at) VALUES (?, ?, ?)'',
     ''SELECT 1 FROM user_sessions WHERE token_hash = ? AND expires_at > NOW() LIMIT 1'',
     ''DELETE FROM user_sessions WHERE token_hash = ?'', ''DELETE FROM user_sessions WHERE user_id = ?'', ''SELECT 1 FROM users WHERE mobile = ? LIMIT 1'']"

lemma texts_apart:
  "list_all separated texts \<and> list_all good_template texts
    \<and> list_all (\<lambda>i. list_all (\<lambda>j. clash (texts ! j) (texts ! i)) [0..<i]) [0..<10]"
  by code_simp

lemma texts_are: "map fst (statements E) = texts" "length (statements E) = 10"
  by (simp_all add: statements_def texts_def)

lemma texts_counts: "map (\<lambda>t. length (filter (\<lambda>c. c = CHR ''?'') t)) texts = [1, 1, 1, 5, 5, 3, 1, 1, 1, 1]"
  by code_simp

lemma run_statement_at:
  assumes "i < 10" and "list_all sql_value ps" and "length ps = [1, 1, 1, 5, 5, 3, 1, 1, 1, 1] ! i"
  shows "run_statement E (template_tokens (texts ! i) ps) T = Some (snd (statements E ! i) (map param_text ps) T)"
    and "good_template (texts ! i)" and "length ps = length (filter (\<lambda>c. c = CHR ''?'') (texts ! i))"
proof -
  have len: "length texts = 10" using texts_are by (metis length_map)
  have t: "fst (statements E ! j) = texts ! j" if "j < 10" for j using that texts_are by (metis nth_map)
  show g: "good_template (texts ! i)" using texts_apart assms(1) len by (simp add: list_all_length)
  have sep: "separated (texts ! i)" using texts_apart assms(1) len by (simp add: list_all_length)
  show cnt: "length ps = length (filter (\<lambda>c. c = CHR ''?'') (texts ! i))"
    using assms(1,3) len unfolding texts_counts [symmetric] by simp
  have "list_all (\<lambda>j. clash (texts ! j) (texts ! i)) [0..<i]"
    using texts_apart assms(1) by (auto simp: list_all_iff)
  then have "\<forall>j<i. clash (texts ! j) (texts ! i)" by (simp add: list_all_iff)
  then show "run_statement E (template_tokens (texts ! i) ps) T = Some (snd (statements E ! i) (map param_text ps) T)"
    using first_fit_at [of i "statements E" ps] assms(1,2) sep cnt t texts_are(2) by (simp add: run_statement_def)
qed

subsection \<open>A server\<close>

text \<open>\<open>V s\<close> is what the tables hold in state \<open>s\<close> of the library, \<open>live s\<close> the connections that work.
  The clock and the counters of the server may move at any time (but not from a free number to one in
  use), the rows only by a statement. A statement that is not one of those above may do anything,
  and so may a connection that is not \<open>live\<close>.\<close>

definition same_rows :: "tables \<Rightarrow> tables \<Rightarrow> bool" where
  "same_rows T T' \<longleftrightarrow> t_users T' = t_users T \<and> t_sessions T' = t_sessions T \<and> (fresh_ids T \<longrightarrow> fresh_ids T')"

definition sql_server :: "sql_env \<Rightarrow> ('s \<Rightarrow> tables) \<Rightarrow> ('s \<Rightarrow> nat set) \<Rightarrow> ('s, 'm) mysql_scheme \<Rightarrow> bool" where
  "sql_server E V live h \<longleftrightarrow>
     (\<forall>m s. m \<in> live s \<longrightarrow> escape_documented (\<lambda>x. my_escape h m x s)) \<and>
     (\<forall>m s. m \<in> live s \<longrightarrow> (\<exists>s'. my_ping h m s = (True, s') \<and> live s' = live s \<and> same_rows (V s) (V s'))) \<and>
     (\<forall>m text ts out T s. m \<in> live s \<longrightarrow> tokens text = Some ts \<longrightarrow> run_statement E ts (V s) = Some (out, T) \<longrightarrow>
        (\<exists>s'. live s' = live s \<and> same_rows T (V s') \<and> (case out of
            Rows r \<Rightarrow> my_query h m text s = (True, s')
              \<and> (\<exists>s''. my_store_result h m s' = (Some r, s'') \<and> live s'' = live s \<and> same_rows T (V s''))
          | Changed n \<Rightarrow> my_query h m text s = (True, s') \<and> my_affected_rows h m s' = n
          | Refused c e \<Rightarrow> my_query h m text s = (False, s') \<and> my_errno h m s' = c \<and> my_error h m s' = e)))"

lemma sql_server_updates [simp]:
  "sql_server E V live (h\<lparr>my_state := x\<rparr>) = sql_server E V live h"
  by (simp add: sql_server_def cong: outcome.case_cong)

lemma sql_server_idle [simp]:
  "sql_server E V live ((p :: 's pool)\<lparr>pl_idle := i\<rparr>) = sql_server E V live p"
  by (simp add: sql_server_def cong: outcome.case_cong)

lemma same_rows_trans: "same_rows A B \<Longrightarrow> same_rows B C \<Longrightarrow> same_rows A C"
  by (simp add: same_rows_def)

lemma same_rows_refl [simp]: "same_rows A A"
  by (simp add: same_rows_def)

lemma sql_value_good: "list_all sql_value ps \<Longrightarrow> \<forall>p\<in>set ps. good_param p"
proof
  fix p assume "list_all sql_value ps" "p \<in> set ps"
  then have "sql_value p" by (simp add: list_all_iff)
  then show "good_param p" by (cases p) simp_all
qed

text \<open>A statement of the program through the library: the text that is built is the statement.\<close>

lemma statement_runs:
  fixes h :: "('s, 'm) mysql_scheme"
  assumes srv: "sql_server E V live h" and m: "m \<in> live (my_state h)"
    and st: "i < 10" "list_all sql_value ps" "length ps = [1, 1, 1, 5, 5, 3, 1, 1, 1, 1] ! i"
    and out: "snd (statements E ! i) (map param_text ps) (V (my_state h)) = (out, T)"
  shows "\<exists>s'. live s' = live (my_state h) \<and> same_rows T (V s') \<and> (case out of
      Rows r \<Rightarrow> MySQLConnection_Query m (texts ! i) ps h = (Inr (MySQLResult_new (Some r)), h\<lparr>my_state := s'\<rparr>)
    | Changed n \<Rightarrow> MySQLConnection_Execute m (texts ! i) ps h = (Inr n, h\<lparr>my_state := s'\<rparr>)
    | Refused c e \<Rightarrow> MySQLConnection_Execute m (texts ! i) ps h = (Inl (mysql_exception c e), h\<lparr>my_state := s'\<rparr>))"
proof -
  let ?esc = "\<lambda>x. my_escape h m x (my_state h)" and ?text = "render (\<lambda>x. my_escape h m x (my_state h)) (texts ! i) ps"
  note at = run_statement_at [OF st]
  have esc: "escape_documented ?esc" using srv m by (simp add: sql_server_def)
  have tok: "tokens ?text = Some (template_tokens (texts ! i) ps)"
    by (rule tokens_render [OF esc at(2) sql_value_good [OF st(2)] at(3)])
  have run: "run_statement E (template_tokens (texts ! i) ps) (V (my_state h)) = Some (out, T)" using at(1) out by simp
  have build: "BuildSQL ?esc (texts ! i) ps [] = Inr ?text" using at(3) by (simp add: BuildSQL_render)
  from srv m tok run obtain s' where s': "live s' = live (my_state h)" "same_rows T (V s')" and c: "case out of
            Rows r \<Rightarrow> my_query h m ?text (my_state h) = (True, s')
              \<and> (\<exists>s''. my_store_result h m s' = (Some r, s'') \<and> live s'' = live (my_state h) \<and> same_rows T (V s''))
          | Changed n \<Rightarrow> my_query h m ?text (my_state h) = (True, s') \<and> my_affected_rows h m s' = n
          | Refused c e \<Rightarrow> my_query h m ?text (my_state h) = (False, s') \<and> my_errno h m s' = c \<and> my_error h m s' = e"
    unfolding sql_server_def by blast
  note facts = MySQLConnection_Query_def MySQLConnection_Execute_def run_sql_def Escape_def my_ask_def my_call_def
    bindE_def ret_def lift_def build ThrowMySQLException_def throw_def
  show ?thesis
  proof (cases out)
    case (Rows r)
    then obtain s'' where "my_query h m ?text (my_state h) = (True, s')" "my_store_result h m s' = (Some r, s'')"
      "live s'' = live (my_state h)" "same_rows T (V s'')" using c by auto
    then show ?thesis using Rows by (intro exI [of _ s'']) (simp add: facts)
  next
    case (Changed n)
    then show ?thesis using c s' by (intro exI [of _ s']) (simp add: facts)
  next
    case (Refused e t)
    then show ?thesis using c s' by (intro exI [of _ s']) (simp add: facts)
  qed
qed


subsection \<open>The repositories on a server that answers\<close>

text \<open>The pool of the program has at least \<open>k\<close> idle connections, all of which work, to a server whose
  tables hold the rows of \<open>T\<close>.\<close>

definition db_on :: "sql_env \<Rightarrow> ('s \<Rightarrow> tables) \<Rightarrow> ('s \<Rightarrow> nat set) \<Rightarrow> nat \<Rightarrow> tables \<Rightarrow> ('s, 'e, 'r) world \<Rightarrow> bool" where
  "db_on E V live k T w \<longleftrightarrow> sql_server E V live (w_pool w) \<and> set (pl_idle (w_pool w)) \<subseteq> live (my_state (w_pool w))
     \<and> k \<le> length (pl_idle (w_pool w)) \<and> same_rows T (V (my_state (w_pool w)))"

abbreviation same_others :: "('s, 'e, 'r) world \<Rightarrow> ('s, 'e, 'r) world \<Rightarrow> bool" where
  "same_others w w' \<equiv> w_sys w' = w_sys w \<and> w_redis w' = w_redis w"

lemma db_on_pool: "db_on E V live k T w \<Longrightarrow> w_pool w' = w_pool w \<Longrightarrow> db_on E V live k T w'"
  by (simp add: db_on_def)

lemma db_on_mono: "db_on E V live k T w \<Longrightarrow> j \<le> k \<Longrightarrow> db_on E V live j T w"
  by (auto simp: db_on_def)

lemma ping_live:
  assumes "sql_server E V live h" and "m \<in> live (my_state h)"
  shows "\<exists>s'. MySQLConnection_Valid m h = (Inr True, h\<lparr>my_state := s'\<rparr>) \<and> live s' = live (my_state h)
    \<and> same_rows (V (my_state h)) (V s')"
proof -
  from assms obtain s' where "my_ping h m (my_state h) = (True, s')" "live s' = live (my_state h)" "same_rows (V (my_state h)) (V s')"
    unfolding sql_server_def by blast
  then show ?thesis by (auto simp: MySQLConnection_Valid_def my_call_def)
qed

text \<open>What a computation does on such a server: from tables with the rows of \<open>T\<close>, with \<open>k\<close> idle
  connections left and the connections \<open>M\<close> in use, and with the other parts \<open>f\<close> of the state, it
  gives \<open>r\<close> and leaves the rows of \<open>T'\<close> and the other parts \<open>f'\<close> such that \<open>Q r T' f'\<close>.\<close>

type_synonym ('e, 'r) others = "'e sys \<times> 'r redis"

definition runs :: "sql_env \<Rightarrow> ('s \<Rightarrow> tables) \<Rightarrow> ('s \<Rightarrow> nat set) \<Rightarrow> nat set \<Rightarrow> nat \<Rightarrow> tables \<Rightarrow> ('e, 'r) others \<Rightarrow>
    (('s, 'e, 'r) world, 'a) io \<Rightarrow> (exn + 'a \<Rightarrow> tables \<Rightarrow> ('e, 'r) others \<Rightarrow> bool) \<Rightarrow> bool" where
  "runs E V live M k T f c Q \<longleftrightarrow> (\<forall>w. db_on E V live k T w \<longrightarrow> M \<subseteq> live (my_state (w_pool w)) \<longrightarrow> (w_sys w, w_redis w) = f \<longrightarrow>
     (\<exists>r T' w'. c w = (r, w') \<and> db_on E V live k T' w' \<and> M \<subseteq> live (my_state (w_pool w')) \<and> Q r T' (w_sys w', w_redis w')))"

lemma runsE:
  assumes "runs E V live M k T f c Q" and "db_on E V live k T w" "M \<subseteq> live (my_state (w_pool w))" "(w_sys w, w_redis w) = f"
  obtains r T' w' where "c w = (r, w')" "db_on E V live k T' w'" "M \<subseteq> live (my_state (w_pool w'))" "Q r T' (w_sys w', w_redis w')"
  using assms unfolding runs_def by blast

named_theorems runs_rules

lemma runs_ret [runs_rules]: "Q (Inr a) T f \<Longrightarrow> runs E V live M k T f (ret a) Q"
  by (auto simp: runs_def ret_def)

lemma runs_lift [runs_rules]: "Q r T f \<Longrightarrow> runs E V live M k T f (lift r) Q"
  by (auto simp: runs_def lift_def)

lemma runs_conseq:
  assumes "runs E V live M k T f c P" and "\<And>r T' f'. P r T' f' \<Longrightarrow> Q r T' f'"
  shows "runs E V live M k T f c Q"
  using assms unfolding runs_def by blast

lemma runs_bindE:
  assumes c: "runs E V live M k T f c (\<lambda>r T' f'. case r of Inl e \<Rightarrow> Q (Inl e) T' f' | Inr a \<Rightarrow> runs E V live M k T' f' (g a) Q)"
  shows "runs E V live M k T f (bindE c g) Q"
  unfolding runs_def
proof (intro allI impI)
  fix w assume w: "db_on E V live k T w" "M \<subseteq> live (my_state (w_pool w))" "(w_sys w, w_redis w) = f"
  obtain r T1 w1 where 1: "c w = (r, w1)" "db_on E V live k T1 w1" "M \<subseteq> live (my_state (w_pool w1))"
    "case r of Inl e \<Rightarrow> Q (Inl e) T1 (w_sys w1, w_redis w1) | Inr a \<Rightarrow> runs E V live M k T1 (w_sys w1, w_redis w1) (g a) Q"
    by (rule runsE [OF c w]) (rule that)
  show "\<exists>r T' w'. bindE c g w = (r, w') \<and> db_on E V live k T' w' \<and> M \<subseteq> live (my_state (w_pool w')) \<and> Q r T' (w_sys w', w_redis w')"
  proof (cases r)
    case (Inl e)
    then show ?thesis using 1 by (auto simp: bindE_def)
  next
    case (Inr a)
    then have "runs E V live M k T1 (w_sys w1, w_redis w1) (g a) Q" using 1(4) by simp
    then show ?thesis by (rule runsE [OF _ 1(2,3) refl]) (auto simp: bindE_def 1(1) Inr)
  qed
qed

lemma runs_try:
  assumes c: "runs E V live M k T f c (\<lambda>r T' f'. case r of
     Inl e \<Rightarrow> if e = Terminate then Q (Inl e) T' f' else runs E V live M k T' f' (h e) Q | Inr a \<Rightarrow> Q (Inr a) T' f')"
  shows "runs E V live M k T f (try_catch c h) Q"
  unfolding runs_def
proof (intro allI impI)
  fix w assume w: "db_on E V live k T w" "M \<subseteq> live (my_state (w_pool w))" "(w_sys w, w_redis w) = f"
  obtain r T1 w1 where 1: "c w = (r, w1)" "db_on E V live k T1 w1" "M \<subseteq> live (my_state (w_pool w1))"
    "case r of Inl e \<Rightarrow> if e = Terminate then Q (Inl e) T1 (w_sys w1, w_redis w1)
        else runs E V live M k T1 (w_sys w1, w_redis w1) (h e) Q | Inr a \<Rightarrow> Q (Inr a) T1 (w_sys w1, w_redis w1)"
    by (rule runsE [OF c w]) (rule that)
  show "\<exists>r T' w'. try_catch c h w = (r, w') \<and> db_on E V live k T' w' \<and> M \<subseteq> live (my_state (w_pool w')) \<and> Q r T' (w_sys w', w_redis w')"
  proof (cases "\<exists>e. r = Inl e \<and> e \<noteq> Terminate")
    case False
    then show ?thesis using 1 by (cases r) (auto simp: try_catch_def)
  next
    case True
    then obtain e where e: "r = Inl e" "e \<noteq> Terminate" by blast
    then have "runs E V live M k T1 (w_sys w1, w_redis w1) (h e) Q" using 1(4) by simp
    then show ?thesis by (rule runsE [OF _ 1(2,3) refl]) (auto simp: try_catch_def 1(1) e)
  qed
qed

text \<open>One statement on a connection in use; \<open>T0\<close> are the tables when it is executed.\<close>

lemma runs_statement:
  fixes V :: "'s \<Rightarrow> tables" and f :: "('e, 'r) others"
  assumes st: "i < 10" "list_all sql_value ps" "length ps = [1, 1, 1, 5, 5, 3, 1, 1, 1, 1] ! i" and m: "m \<in> M"
  shows "(\<And>T0. same_rows T T0 \<Longrightarrow> \<exists>x. snd (statements E ! i) (map param_text ps) T0 = (Rows x, T0)
      \<and> Q (Inr (MySQLResult_new (Some x))) T f) \<Longrightarrow> runs E V live M k T f (in_pool (MySQLConnection_Query m (texts ! i) ps)) Q"
    and "(\<And>T0. same_rows T T0 \<Longrightarrow> (case snd (statements E ! i) (map param_text ps) T0 of
        (Rows x, T1) \<Rightarrow> False | (Changed n, T1) \<Rightarrow> P (Inr n) T1 f | (Refused c e, T1) \<Rightarrow> P (Inl (mysql_exception c e)) T1 f))
      \<Longrightarrow> runs E V live M k T f (in_pool (MySQLConnection_Execute m (texts ! i) ps)) P"
proof -
  note go = statement_runs [OF _ _ st]
  {
    fix w :: "('s, 'e, 'r) world"
    assume w: "db_on E V live k T w" "M \<subseteq> live (my_state (w_pool w))"
    let ?T0 = "V (my_state (w_pool w))"
    have srv: "sql_server E V live (w_pool w)" "m \<in> live (my_state (w_pool w))" using w m by (auto simp: db_on_def)
    have "same_rows T ?T0" using w(1) by (simp add: db_on_def)
    moreover obtain out T1 where out: "snd (statements E ! i) (map param_text ps) ?T0 = (out, T1)" by (rule prod.exhaust)
    moreover from go [OF srv out] obtain s' where s': "live s' = live (my_state (w_pool w))" "same_rows T1 (V s')" "case out of
        Rows r \<Rightarrow> MySQLConnection_Query m (texts ! i) ps (w_pool w) = (Inr (MySQLResult_new (Some r)), (w_pool w)\<lparr>my_state := s'\<rparr>)
      | Changed n \<Rightarrow> MySQLConnection_Execute m (texts ! i) ps (w_pool w) = (Inr n, (w_pool w)\<lparr>my_state := s'\<rparr>)
      | Refused c e \<Rightarrow> MySQLConnection_Execute m (texts ! i) ps (w_pool w) = (Inl (mysql_exception c e), (w_pool w)\<lparr>my_state := s'\<rparr>)"
      by blast
    moreover have "db_on E V live k T1 (w\<lparr>w_pool := (w_pool w)\<lparr>my_state := s'\<rparr>\<rparr>)" using w s'(1,2) by (auto simp: db_on_def)
    ultimately have "\<exists>out T0 T1 p. same_rows T T0 \<and> snd (statements E ! i) (map param_text ps) T0 = (out, T1)
      \<and> db_on E V live k T1 (w\<lparr>w_pool := p\<rparr>) \<and> M \<subseteq> live (my_state p) \<and> (case out of
        Rows r \<Rightarrow> in_pool (MySQLConnection_Query m (texts ! i) ps) w = (Inr (MySQLResult_new (Some r)), w\<lparr>w_pool := p\<rparr>)
      | Changed n \<Rightarrow> in_pool (MySQLConnection_Execute m (texts ! i) ps) w = (Inr n, w\<lparr>w_pool := p\<rparr>)
      | Refused c e \<Rightarrow> in_pool (MySQLConnection_Execute m (texts ! i) ps) w = (Inl (mysql_exception c e), w\<lparr>w_pool := p\<rparr>))"
      using w(2) by (intro exI [of _ out] exI [of _ ?T0] exI [of _ T1] exI [of _ "(w_pool w)\<lparr>my_state := s'\<rparr>"])
        (auto simp: in_pool_def zoom_def split: outcome.splits)
  } note step = this
  show "runs E V live M k T f (in_pool (MySQLConnection_Query m (texts ! i) ps)) Q"
    if q: "\<And>T0. same_rows T T0 \<Longrightarrow> \<exists>x. snd (statements E ! i) (map param_text ps) T0 = (Rows x, T0)
      \<and> Q (Inr (MySQLResult_new (Some x))) T f"
    unfolding runs_def
  proof (intro allI impI)
    fix w :: "('s, 'e, 'r) world"
    assume w: "db_on E V live k T w" "M \<subseteq> live (my_state (w_pool w))" "(w_sys w, w_redis w) = f"
    from step [OF w(1,2)] obtain out T0 T1 p where 1: "same_rows T T0" "snd (statements E ! i) (map param_text ps) T0 = (out, T1)"
      "db_on E V live k T1 (w\<lparr>w_pool := p\<rparr>)" "M \<subseteq> live (my_state p)"
      "case out of Rows r \<Rightarrow> in_pool (MySQLConnection_Query m (texts ! i) ps) w = (Inr (MySQLResult_new (Some r)), w\<lparr>w_pool := p\<rparr>)
        | Changed n \<Rightarrow> in_pool (MySQLConnection_Execute m (texts ! i) ps) w = (Inr n, w\<lparr>w_pool := p\<rparr>)
        | Refused c e \<Rightarrow> in_pool (MySQLConnection_Execute m (texts ! i) ps) w = (Inl (mysql_exception c e), w\<lparr>w_pool := p\<rparr>)"
      by blast
    with q [OF 1(1)] obtain x where x: "out = Rows x" "T1 = T0" "Q (Inr (MySQLResult_new (Some x))) T f" by auto
    moreover have "db_on E V live k T (w\<lparr>w_pool := p\<rparr>)" using 1(1,3) x(2) by (auto simp: db_on_def intro: same_rows_trans)
    ultimately show "\<exists>r T' w'. in_pool (MySQLConnection_Query m (texts ! i) ps) w = (r, w') \<and> db_on E V live k T' w'
        \<and> M \<subseteq> live (my_state (w_pool w')) \<and> Q r T' (w_sys w', w_redis w')" using 1(4,5) w(3) by auto
  qed
  show "runs E V live M k T f (in_pool (MySQLConnection_Execute m (texts ! i) ps)) P"
    if q: "\<And>T0. same_rows T T0 \<Longrightarrow> (case snd (statements E ! i) (map param_text ps) T0 of
        (Rows x, T1) \<Rightarrow> False | (Changed n, T1) \<Rightarrow> P (Inr n) T1 f | (Refused c e, T1) \<Rightarrow> P (Inl (mysql_exception c e)) T1 f)"
    unfolding runs_def
  proof (intro allI impI)
    fix w :: "('s, 'e, 'r) world"
    assume w: "db_on E V live k T w" "M \<subseteq> live (my_state (w_pool w))" "(w_sys w, w_redis w) = f"
    from step [OF w(1,2)] obtain out T0 T1 p where 1: "same_rows T T0" "snd (statements E ! i) (map param_text ps) T0 = (out, T1)"
      "db_on E V live k T1 (w\<lparr>w_pool := p\<rparr>)" "M \<subseteq> live (my_state p)"
      "case out of Rows r \<Rightarrow> in_pool (MySQLConnection_Query m (texts ! i) ps) w = (Inr (MySQLResult_new (Some r)), w\<lparr>w_pool := p\<rparr>)
        | Changed n \<Rightarrow> in_pool (MySQLConnection_Execute m (texts ! i) ps) w = (Inr n, w\<lparr>w_pool := p\<rparr>)
        | Refused c e \<Rightarrow> in_pool (MySQLConnection_Execute m (texts ! i) ps) w = (Inl (mysql_exception c e), w\<lparr>w_pool := p\<rparr>)"
      by blast
    from q [OF 1(1)] 1(2-) w(3) show "\<exists>r T' w'. in_pool (MySQLConnection_Execute m (texts ! i) ps) w = (r, w') \<and> db_on E V live k T' w'
        \<and> M \<subseteq> live (my_state (w_pool w')) \<and> P r T' (w_sys w', w_redis w')"
      by (cases out) (auto 0 4)
  qed
qed


text \<open>The scope of a connection guard: the body runs on a connection that works, and what it gives
  (an exception too) is what the whole gives.\<close>

lemma runs_with_conn:
  assumes body: "\<And>m. runs E V live (insert m M) k T f (body m) (\<lambda>r T' f'. r \<noteq> Inl Terminate \<and> Q r T' f')"
  shows "runs E V live M (Suc k) T f (with_conn (\<lambda>conn. CHECK_CONN conn (body conn))) Q"
  unfolding runs_def
proof (intro allI impI)
  fix w assume on: "db_on E V live (Suc k) T w" and M: "M \<subseteq> live (my_state (w_pool w))" and f: "(w_sys w, w_redis w) = f"
  let ?h = "w_pool w"
  from on obtain m ns where i: "pl_idle ?h = m # ns" by (cases "pl_idle ?h") (auto simp: db_on_def)
  have srv: "sql_server E V live ?h" and m: "m \<in> live (my_state ?h)" and ns: "set ns \<subseteq> live (my_state ?h)" "k \<le> length ns"
    and T: "same_rows T (V (my_state ?h))" using on i by (auto simp: db_on_def)
  let ?h1 = "?h\<lparr>pl_idle := ns\<rparr>"
  from ping_live [of E V live ?h1 m] srv m obtain s1 where s1: "MySQLConnection_Valid m ?h1 = (Inr True, ?h1\<lparr>my_state := s1\<rparr>)"
    "live s1 = live (my_state ?h)" "same_rows (V (my_state ?h)) (V s1)" by auto
  let ?h2 = "?h1\<lparr>my_state := s1\<rparr>"
  from ping_live [of E V live ?h2 m] srv m s1(2) obtain s2 where s2: "MySQLConnection_Valid m ?h2 = (Inr True, ?h2\<lparr>my_state := s2\<rparr>)"
    "live s2 = live (my_state ?h)" "same_rows (V s1) (V s2)" by auto
  let ?p = "?h2\<lparr>my_state := s2\<rparr>"
  have acq: "in_pool CreateConnection w = (Inr m, w\<lparr>w_pool := ?h2\<rparr>)"
    using i s1(1) by (simp add: in_pool_def zoom_def CreateConnection_def Acquire_def bindE_def ret_def)
  have chk: "in_pool (MySQLConnection_Valid m) (w\<lparr>w_pool := ?h2\<rparr>) = (Inr True, w\<lparr>w_pool := ?p\<rparr>)"
    using s2(1) by (simp add: in_pool_def zoom_def)
  have 0: "db_on E V live k T (w\<lparr>w_pool := ?p\<rparr>)"
    using srv ns T s1(3) s2(2,3) by (simp add: db_on_def) (metis same_rows_trans)
  have "insert m M \<subseteq> live (my_state (w_pool (w\<lparr>w_pool := ?p\<rparr>)))" using m M s2(2) by simp
  then obtain r T1 w1 where b: "body m (w\<lparr>w_pool := ?p\<rparr>) = (r, w1)" "db_on E V live k T1 w1"
    "insert m M \<subseteq> live (my_state (w_pool w1))" "r \<noteq> Inl Terminate \<and> Q r T1 (w_sys w1, w_redis w1)"
    by (rule runsE [OF body 0]) (simp add: f, rule that)
  note 1 = b(1,2) b(3) [unfolded insert_subset, THEN conjunct1] b(3) [unfolded insert_subset, THEN conjunct2]
    b(4) [THEN conjunct1] b(4) [THEN conjunct2]
  from ping_live [of E V live "w_pool w1" m] 1(2,3) obtain s3 where
    s3: "MySQLConnection_Valid m (w_pool w1) = (Inr True, (w_pool w1)\<lparr>my_state := s3\<rparr>)"
    "live s3 = live (my_state (w_pool w1))" "same_rows (V (my_state (w_pool w1))) (V s3)" by (auto simp: db_on_def)
  let ?p1 = "(w_pool w1)\<lparr>my_state := s3, pl_idle := pl_idle (w_pool w1) @ [m]\<rparr>"
  have rel: "in_pool (ConnectionGuard_delete m) w1 = (Inr (), w1\<lparr>w_pool := ?p1\<rparr>)"
    using s3(1) by (simp add: in_pool_def zoom_def ConnectionGuard_delete_def Release_def bindE_def ret_def)
  have "with_conn (\<lambda>conn. CHECK_CONN conn (body conn)) w = guarded m (CHECK_CONN m (body m)) (w\<lparr>w_pool := ?h2\<rparr>)"
    using acq by (simp add: with_conn_def bindE_def)
  also have "\<dots> = (r, w1\<lparr>w_pool := ?p1\<rparr>)"
    using 1(1,5) rel chk by (cases r) (simp_all add: guarded_def CHECK_CONN_def bindE_def split: exn.splits)
  finally have run: "with_conn (\<lambda>conn. CHECK_CONN conn (body conn)) w = (r, w1\<lparr>w_pool := ?p1\<rparr>)" .
  moreover have "db_on E V live (Suc k) T1 (w1\<lparr>w_pool := ?p1\<rparr>)"
    using 1(2,3) s3(2,3) by (auto simp: db_on_def intro: same_rows_trans)
  moreover have "M \<subseteq> live (my_state (w_pool (w1\<lparr>w_pool := ?p1\<rparr>)))" using 1(4) s3(2) by simp
  moreover have "Q r T1 (w_sys (w1\<lparr>w_pool := ?p1\<rparr>), w_redis (w1\<lparr>w_pool := ?p1\<rparr>))" using 1(6) by simp
  ultimately show "\<exists>r T' w'. with_conn (\<lambda>conn. CHECK_CONN conn (body conn)) w = (r, w')
      \<and> db_on E V live (Suc k) T' w' \<and> M \<subseteq> live (my_state (w_pool w')) \<and> Q r T' (w_sys w', w_redis w')" by blast
qed

lemma runs_in_sys [runs_rules]:
  fixes V :: "'s \<Rightarrow> tables" and f :: "('e, 'r) others"
  assumes "sys_total m" and "\<And>a s'. m (fst f) = (Inr a, s') \<Longrightarrow> same_sys (fst f) s' \<Longrightarrow> Q (Inr a) T (s', snd f)"
  shows "runs E V live M k T f (in_sys m) Q"
  unfolding runs_def
proof (intro allI impI)
  fix w :: "('s, 'e, 'r) world"
  assume w: "db_on E V live k T w" "M \<subseteq> live (my_state (w_pool w))" "(w_sys w, w_redis w) = f"
  obtain a s' where m: "m (w_sys w) = (Inr a, s')" "same_sys (w_sys w) s'" using assms(1) by (rule sys_totalE)
  then have "Q (Inr a) T (s', w_redis w)" using assms(2) w(3) by auto
  then show "\<exists>r T' w'. in_sys m w = (r, w') \<and> db_on E V live k T' w' \<and> M \<subseteq> live (my_state (w_pool w'))
      \<and> Q r T' (w_sys w', w_redis w')"
    using w m db_on_pool [OF w(1), of "w\<lparr>w_sys := s'\<rparr>"] by (auto simp: in_sys_def zoom_def)
qed

lemma runs_db_try:
  assumes "runs E V live M k T f c (\<lambda>r T' f'. \<exists>x. r = Inr x \<and> Q (Inr x) T' f')"
  shows "runs E V live M k T f (db_try c) Q"
  unfolding db_try_def by (rule runs_try, rule runs_conseq [OF assms]) auto

lemma texts_nth:
  "texts ! 0 = ''SELECT * FROM users WHERE '' @ ''mobile'' @ '' = ?''"
  "texts ! 1 = ''SELECT * FROM users WHERE '' @ ''uuid'' @ '' = ?''"
  "texts ! 2 = ''SELECT * FROM users WHERE '' @ ''id'' @ '' = ?''"
  "texts ! 3 = ''INSERT INTO users (uuid, mobile, display_name, password_hash, role) '' @ ''VALUES (?, ?, ?, ?, ?)''"
  "texts ! 4 = ''UPDATE users SET display_name = ?, password_hash = ?, '' @ ''disabled = ?, role = ? WHERE uuid = ?''"
  "texts ! 5 = ''INSERT INTO user_sessions (user_id, token_hash, expires_at) '' @ ''VALUES (?, ?, ?)''"
  "texts ! 6 = ''SELECT 1 FROM user_sessions '' @ ''WHERE token_hash = ? AND expires_at > NOW() '' @ ''LIMIT 1''"
  "texts ! 7 = ''DELETE FROM user_sessions WHERE token_hash = ?''" "texts ! 8 = ''DELETE FROM user_sessions WHERE user_id = ?''"
  "texts ! 9 = ''SELECT 1 FROM users WHERE '' @ ''mobile'' @ '' = ? LIMIT 1''"
  by (simp_all add: texts_def)

lemma first_user:
  assumes "u \<in> set us \<longrightarrow> user_ok u" and "us = u # us'"
  shows "\<exists>res. MySQLResult_Next (MySQLResult_new (Some (user_names, map (\<lambda>u. map (user_column Map.empty u) user_names) us))) = (True, res)
    \<and> UserDB_ParseRow res = Inr u"
proof -
  let ?R = "MySQLResult_new (Some (user_names, map (\<lambda>u. map (user_column Map.empty u) user_names) us))"
  obtain res where n: "MySQLResult_Next ?R = (True, res)" using assms(2) by (simp add: MySQLResult_Next_def MySQLResult_new_def)
  have "on_row (user_column Map.empty u) user_names res"
    using n assms(2) by (auto simp: MySQLResult_Next_def MySQLResult_new_def on_row_def)
  then have "UserDB_ParseRow res = Inr u" using assms by (intro ParseRow_user [OF _ user_names_ok]) auto
  with n show ?thesis by blast
qed

definition found :: "UserEntity list \<Rightarrow> UserEntity Result" where
  "found us = (case us of [] \<Rightarrow> Result_Fail UserNotFound (GetErrorMessage UserNotFound) | u # _ \<Rightarrow> Result_Ok u)"

subsection \<open>Users\<close>

lemma runs_FindByField:
  assumes ok: "\<forall>u\<in>set (t_users T). user_ok u" and Q: "Q (Inr (found (filter P (t_users T)))) T f"
    and i: "i < 3" "texts ! i = ''SELECT * FROM users WHERE '' @ fld @ '' = ?''"
    and P: "\<And>T'. snd (statements E ! i) [v] T' = (user_rows (filter P (t_users T')), T')"
  shows "runs E V live M (Suc k) T f (FindByField fld v) Q"
  unfolding FindByField_def i(2) [symmetric]
proof (intro runs_db_try runs_with_conn runs_bindE runs_statement)
  fix m T0
  assume T0: "same_rows T T0"
  let ?us = "filter P (t_users T)"
  let ?x = "(user_names, map (\<lambda>u. map (user_column Map.empty u) user_names) ?us)"
  have "snd (statements E ! i) (map param_text [PString v]) T0 = (Rows ?x, T0)"
    using P T0 by (simp add: user_rows_def same_rows_def)
  moreover have "runs E V live (insert m M) k T f (case MySQLResult_Next (MySQLResult_new (Some ?x)) of
         (True, res') \<Rightarrow> bindE (lift (UserDB_ParseRow res')) (\<lambda>user. ret (Result_Ok user))
       | (False, res') \<Rightarrow> ret (Result_Fail UserNotFound (GetErrorMessage UserNotFound)))
     (\<lambda>r T' f'. r \<noteq> Inl Terminate \<and> (\<exists>x. r = Inr x \<and> Q (Inr x) T' f'))"
  proof (cases ?us)
    case Nil
    then show ?thesis using Q by (auto simp: MySQLResult_Next_def MySQLResult_new_def found_def intro!: runs_ret)
  next
    case (Cons u us')
    then have "u \<in> set ?us" by simp
    then have "user_ok u" using ok by simp
    then obtain res where "MySQLResult_Next (MySQLResult_new (Some ?x)) = (True, res)" "UserDB_ParseRow res = Inr u"
      using first_user [OF _ Cons] by blast
    then show ?thesis using Q Cons by (auto simp: found_def intro!: runs_bindE runs_rules)
  qed
  ultimately show "\<exists>x. snd (statements E ! i) (map param_text [PString v]) T0 = (Rows x, T0) \<and>
     (case Inr (MySQLResult_new (Some x)) of Inl e \<Rightarrow> Inl e \<noteq> Inl Terminate \<and> (\<exists>x. Inl e = Inr x \<and> Q (Inr x) T f)
      | Inr res \<Rightarrow> runs E V live (insert m M) k T f (case MySQLResult_Next res of
         (True, res') \<Rightarrow> bindE (lift (UserDB_ParseRow res')) (\<lambda>user. ret (Result_Ok user))
       | (False, res') \<Rightarrow> ret (Result_Fail UserNotFound (GetErrorMessage UserNotFound)))
     (\<lambda>r T' f'. r \<noteq> Inl Terminate \<and> (\<exists>x. r = Inr x \<and> Q (Inr x) T' f')))" by auto
qed (use i in \<open>auto simp: less_Suc_eq numeral_3_eq_3\<close>)

lemma runs_find:
  assumes ok: "\<forall>u\<in>set (t_users T). user_ok u"
  shows "Q (Inr (found (filter (\<lambda>u. se_same E (u_mobile u) v) (t_users T)))) T f
      \<Longrightarrow> runs E V live M (Suc k) T f (UserDB_FindByMobile v) Q"
    and "Q (Inr (found (filter (\<lambda>u. se_same E (u_uuid u) v) (t_users T)))) T f
      \<Longrightarrow> runs E V live M (Suc k) T f (UserDB_FindByUUID v) Q"
    and "Q (Inr (found (filter (\<lambda>u. u_id u = se_int E (to_string n)) (t_users T)))) T f
      \<Longrightarrow> runs E V live M (Suc k) T f (UserDB_FindById n) Q"
  unfolding UserDB_FindByMobile_def UserDB_FindByUUID_def UserDB_FindById_def
  subgoal by (rule runs_FindByField [OF ok, where i = 0]) (simp_all add: texts_nth statements_def)
  subgoal by (rule runs_FindByField [OF ok, where i = 1]) (simp_all add: texts_nth [simplified] statements_def)
  subgoal by (rule runs_FindByField [OF ok, where i = 2]) (simp_all add: texts_nth statements_def)
  done

lemma first_of: "fst (MySQLResult_Next (MySQLResult_new (Some (ns, map g (take (Suc 0) l))))) \<longleftrightarrow> l \<noteq> []"
  by (cases l) (simp_all add: MySQLResult_Next_def MySQLResult_new_def)

lemma runs_ExistsByMobile:
  assumes Q: "Q (Inr (Result_Ok (\<exists>u\<in>set (t_users T). se_same E (u_mobile u) v))) T f"
  shows "runs E V live M (Suc k) T f (UserDB_ExistsByMobile v) Q"
  unfolding UserDB_ExistsByMobile_def ExistsByField_def texts_nth(10) [symmetric]
proof (intro runs_db_try runs_with_conn runs_bindE runs_statement)
  fix m T0 assume T0: "same_rows T T0"
  let ?l = "filter (\<lambda>u. se_same E (u_mobile u) v) (t_users T)"
  let ?x = "([''1''], map (\<lambda>u. [Some ''1'']) (take 1 ?l))"
  have st: "snd (statements E ! 9) (map param_text [PString v]) T0 = (Rows ?x, T0)"
    using T0 by (simp add: statements_def same_rows_def)
  show "\<exists>x. snd (statements E ! 9) (map param_text [PString v]) T0 = (Rows x, T0) \<and>
     (case Inr (MySQLResult_new (Some x)) of Inl e \<Rightarrow> Inl e \<noteq> Inl Terminate \<and> (\<exists>x. Inl e = Inr x \<and> Q (Inr x) T f)
      | Inr res \<Rightarrow> runs E V live (insert m M) k T f (ret (Result_Ok (fst (MySQLResult_Next res))))
         (\<lambda>r T' f'. r \<noteq> Inl Terminate \<and> (\<exists>x. r = Inr x \<and> Q (Inr x) T' f')))"
    using Q by (intro exI [of _ ?x] conjI st) (auto simp: first_of filter_empty_conv intro!: runs_ret)
qed simp_all

text \<open>The operations on the tables that the repositories promise.\<close>

definition new_user :: "tables \<Rightarrow> string \<Rightarrow> UserEntity \<Rightarrow> UserEntity" where
  "new_user T uuid u = u\<lparr>u_id := t_next_user T, u_uuid := uuid, u_disabled := False, u_created_at := t_now T, u_updated_at := t_now T\<rparr>"

text \<open>The server reads its own numbers, takes equal texts as equal, and every value the program writes
  in a row can be read back.\<close>

definition env_ok :: "sql_env \<Rightarrow> bool" where
  "env_ok E \<longleftrightarrow> (\<forall>n. in_int64 n \<longrightarrow> se_int E (to_string n) = n) \<and> (\<forall>s. se_same E s s)"

definition column_ok :: "sql_env \<Rightarrow> string \<Rightarrow> UserEntity \<Rightarrow> bool" where
  "column_ok E uuid u \<longleftrightarrow> se_fit E ''uuid'' uuid \<and> se_fit E ''mobile'' (u_mobile u) \<and> se_fit E ''display_name'' (u_display_name u)
     \<and> se_fit E ''password_hash'' (u_password_hash u) \<and> se_fit E ''role'' (to_string (UserRoleToInt (u_role u)))"

definition create_user :: "sql_env \<Rightarrow> string \<Rightarrow> UserEntity \<Rightarrow> tables \<Rightarrow> UserEntity Result \<times> tables" where
  "create_user E uuid u T =
     (if \<not> column_ok E uuid u then (db_unavailable, T)
      else if \<not> fresh_ids T then (db_unavailable, T)
      else if \<exists>v\<in>set (t_users T). se_same E (u_uuid v) uuid then (Result_Fail UserAlreadyExists (GetErrorMessage UserAlreadyExists), T)
      else if \<exists>v\<in>set (t_users T). se_same E (u_mobile v) (u_mobile u) then (Result_Fail MobileTaken (GetErrorMessage MobileTaken), T)
      else (Result_Ok (new_user T uuid u), T\<lparr>t_users := t_users T @ [new_user T uuid u]\<rparr>))"

lemma duplicate_key:
  "duplicate v ''users.uk_uuid'' = Refused 1062 e \<Longrightarrow> ParseKeyName e = ''uk_uuid''"
  "duplicate v ''users.uk_mobile'' = Refused 1062 e \<Longrightarrow> ParseKeyName e = ''uk_mobile''"
  using ParseKeyName_key [of "''uk_uuid''" "''Duplicate entry '' @ [CHR 0x27] @ v @ [CHR 0x27] @ '' for key '' @ [CHR 0x27] @ ''users''"]
    ParseKeyName_key [of "''uk_mobile''" "''Duplicate entry '' @ [CHR 0x27] @ v @ [CHR 0x27] @ '' for key '' @ [CHR 0x27] @ ''users''"]
  by (auto simp: duplicate_def)

lemma insert_user_cases:
  assumes "env_ok E" and "user_ok u"
  shows "(\<exists>c e. insert_user E [uuid, u_mobile u, u_display_name u, u_password_hash u, to_string (UserRoleToInt (u_role u))] T = (Refused c e, T)
        \<and> (case mysql_exception c e of MySQLDuplicateKeyException c' m \<Rightarrow>
             create_user E uuid u T = (Result_Fail (duplicate_code (ParseKeyName m)) (GetErrorMessage (duplicate_code (ParseKeyName m))), T)
           | x \<Rightarrow> x \<noteq> Terminate \<and> create_user E uuid u T = (db_unavailable, T)))
    \<or> (\<exists>T1. insert_user E [uuid, u_mobile u, u_display_name u, u_password_hash u, to_string (UserRoleToInt (u_role u))] T = (Changed 1, T1)
        \<and> create_user E uuid u T = (Result_Ok (new_user T uuid u), T1) \<and> t_users T1 = t_users T @ [new_user T uuid u]
        \<and> filter (\<lambda>v. se_same E (u_uuid v) uuid) (t_users T1) = [new_user T uuid u]
        \<and> user_ok (new_user T uuid u))"
  (is "?refused \<or> ?inserted")
proof -
  have role: "IntToUserRole (se_int E (to_string (UserRoleToInt (u_role u)))) = u_role u"
    using assms IntToUserRole_ok [OF assms(2)] by (simp add: env_ok_def user_ok_def in_int32_64)
  consider (fit) "\<not> (column_ok E uuid u \<and> fresh_ids T)"
    | (uu) "column_ok E uuid u" "fresh_ids T" "\<exists>v\<in>set (t_users T). se_same E (u_uuid v) uuid"
    | (mo) "column_ok E uuid u" "fresh_ids T" "\<forall>v\<in>set (t_users T). \<not> se_same E (u_uuid v) uuid" "\<exists>v\<in>set (t_users T). se_same E (u_mobile v) (u_mobile u)"
    | (new) "column_ok E uuid u" "fresh_ids T" "\<forall>v\<in>set (t_users T). \<not> se_same E (u_uuid v) uuid" "\<forall>v\<in>set (t_users T). \<not> se_same E (u_mobile v) (u_mobile u)"
    by blast
  then show ?thesis
  proof cases
    case fit
    then have ?refused by (auto simp: insert_user_def create_user_def column_ok_def mysql_exception_def)
    then show ?thesis ..
  next
    case uu
    then have ?refused using duplicate_key(1) [of uuid]
      by (auto simp: insert_user_def create_user_def column_ok_def mysql_exception_def duplicate_def duplicate_code_def)
    then show ?thesis ..
  next
    case mo
    then have ?refused using duplicate_key(2) [of "u_mobile u"]
      by (auto simp: insert_user_def create_user_def column_ok_def mysql_exception_def duplicate_def duplicate_code_def)
    then show ?thesis ..
  next
    case new
    moreover have "user_ok (new_user T uuid u)" using assms(2) new(2) by (simp add: new_user_def user_ok_def fresh_ids_def)
    ultimately have ?inserted using role assms(1)
      by (cases u) (auto simp: insert_user_def create_user_def column_ok_def new_user_def env_ok_def)
    then show ?thesis ..
  qed
qed

lemma runs_Create:
  assumes env: "env_ok E" and u: "user_ok u" and ok: "\<forall>v\<in>set (t_users T). user_ok v"
    and Q: "\<And>uuid s' T0. UUID_Generate (fst f) = (Inr uuid, s') \<Longrightarrow> same_sys (fst f) s' \<Longrightarrow> same_rows T T0
      \<Longrightarrow> Q (Inr (fst (create_user E uuid u T0))) (snd (create_user E uuid u T0)) (s', snd f)"
  shows "runs E V live M (Suc (Suc k)) T f (UserDB_Create u) Q"
  unfolding UserDB_Create_def texts_nth(4) [symmetric]
proof (intro runs_try runs_with_conn runs_bindE runs_in_sys sys_total_UUID_Generate)
  fix m uuid s'
  assume u1: "UUID_Generate (fst f) = (Inr uuid, s')" "same_sys (fst f) s'"
  let ?ps = "[PString uuid, PString (u_mobile u), PString (u_display_name u), PString (u_password_hash u), PInt (UserRoleToInt (u_role u))]"
  let ?post = "\<lambda>r T' f'. r \<noteq> Inl Terminate \<and> (case r of
      Inl e \<Rightarrow> if e = Terminate then Q (Inl e) T' f' else runs E V live M (Suc (Suc k)) T' f' (case e of
        MySQLDuplicateKeyException err_code msg \<Rightarrow>
          (let c = duplicate_code (ParseKeyName msg) in ret (Result_Fail c (GetErrorMessage c)))
      | _ \<Rightarrow> ret db_unavailable) Q
    | Inr a \<Rightarrow> Q (Inr a) T' f')"
  have "runs E V live (insert m M) (Suc k) T (s', snd f)
     (bindE (in_pool (MySQLConnection_Execute m (texts ! 3) ?ps)) (\<lambda>_. UserDB_FindByUUID uuid)) ?post"
  proof (intro runs_bindE runs_statement)
    fix T0 assume T0: "same_rows T T0"
    note Q0 = Q [OF u1 T0]
    from insert_user_cases [OF env u, of uuid T0]
    show "case snd (statements E ! 3) (map param_text ?ps) T0 of (Rows x, T1) \<Rightarrow> False
      | (Changed n, T1) \<Rightarrow> (case Inr n of Inl e \<Rightarrow> ?post (Inl e) T1 (s', snd f)
          | Inr a \<Rightarrow> runs E V live (insert m M) (Suc k) T1 (s', snd f) (UserDB_FindByUUID uuid) ?post)
      | (Refused c e, T1) \<Rightarrow> (case Inl (mysql_exception c e) of Inl e \<Rightarrow> ?post (Inl e) T1 (s', snd f)
          | Inr a \<Rightarrow> runs E V live (insert m M) (Suc k) T1 (s', snd f) (UserDB_FindByUUID uuid) ?post)"
    proof (elim disjE exE conjE)
      fix c e
      assume "insert_user E [uuid, u_mobile u, u_display_name u, u_password_hash u, to_string (UserRoleToInt (u_role u))] T0 = (Refused c e, T0)"
        "case mysql_exception c e of MySQLDuplicateKeyException c' m \<Rightarrow>
             create_user E uuid u T0 = (Result_Fail (duplicate_code (ParseKeyName m)) (GetErrorMessage (duplicate_code (ParseKeyName m))), T0)
           | x \<Rightarrow> x \<noteq> Terminate \<and> create_user E uuid u T0 = (db_unavailable, T0)"
      then show ?thesis using Q0
        by (cases "c = 1062") (auto simp: statements_def mysql_exception_def Let_def intro: runs_ret)
    next
      fix T1
      assume ins: "insert_user E [uuid, u_mobile u, u_display_name u, u_password_hash u, to_string (UserRoleToInt (u_role u))] T0 = (Changed 1, T1)"
        "create_user E uuid u T0 = (Result_Ok (new_user T0 uuid u), T1)" "t_users T1 = t_users T0 @ [new_user T0 uuid u]"
        "filter (\<lambda>v. se_same E (u_uuid v) uuid) (t_users T1) = [new_user T0 uuid u]"
        "user_ok (new_user T0 uuid u)"
      have "\<forall>v\<in>set (t_users T1). user_ok v"
        using ins(3,5) ok T0 by (auto simp: same_rows_def)
      then have "runs E V live (insert m M) (Suc k) T1 (s', snd f) (UserDB_FindByUUID uuid) ?post"
        using ins(2,4) Q0 by (intro runs_find) (simp_all add: found_def)
      then show ?thesis using ins(1) by (simp add: statements_def)
    qed
  qed simp_all
  then show "case Inr uuid of Inl e \<Rightarrow> ?post (Inl e) T (s', snd f)
    | Inr uuid \<Rightarrow> runs E V live (insert m M) (Suc k) T (s', snd f)
        (bindE (in_pool (MySQLConnection_Execute m (texts ! 3)
          [PString uuid, PString (u_mobile u), PString (u_display_name u), PString (u_password_hash u), PInt (UserRoleToInt (u_role u))]))
           (\<lambda>_. UserDB_FindByUUID uuid)) ?post" by simp
qed

text \<open>An update finds the row but, when it changes nothing, reports as if it had not.\<close>

definition update_params :: "UserEntity \<Rightarrow> string list" where
  "update_params u = [u_display_name u, u_password_hash u, if u_disabled u then ''1'' else ''0'', to_string (UserRoleToInt (u_role u)), u_uuid u]"

lemma runs_Update:
  assumes Q: "\<And>T0 n T1. same_rows T T0 \<Longrightarrow> update_user E (update_params u) T0 = (Changed n, T1) \<Longrightarrow>
      Q (Inr (if n = 0 then Result_Fail UserNotFound (GetErrorMessage UserNotFound) else Result_Ok ())) T1 f"
    and R: "\<And>T0 c e T1. same_rows T T0 \<Longrightarrow> update_user E (update_params u) T0 = (Refused c e, T1) \<Longrightarrow> Q (Inr db_unavailable) T1 f"
  shows "runs E V live M (Suc k) T f (UserDB_Update u) Q"
proof -
  let ?ps = "[PString (u_display_name u), PString (u_password_hash u), PBool (u_disabled u), PInt (UserRoleToInt (u_role u)), PString (u_uuid u)]"
  have p: "snd (statements E ! 4) (map param_text ?ps) T0 = update_user E (update_params u) T0" for T0
    by (simp add: statements_def update_params_def)
  have out: "\<exists>r T1. update_user E (update_params u) T0 = (r, T1) \<and> (\<forall>x. r \<noteq> Rows x)" for T0
    by (simp add: update_user_def Let_def)
  show ?thesis
    unfolding UserDB_Update_def texts_nth(5) [symmetric] db_try_def
  proof (intro runs_try runs_with_conn runs_bindE runs_statement)
    fix m T0 assume T0: "same_rows T T0"
    let ?post = "\<lambda>r T' f'. r \<noteq> Inl Terminate \<and> (case r of Inl e \<Rightarrow> if e = Terminate then Q (Inl e) T' f'
        else runs E V live M (Suc k) T' f' (ret db_unavailable) Q | Inr a \<Rightarrow> Q (Inr a) T' f')"
    obtain r T1 where r: "update_user E (update_params u) T0 = (r, T1)" "\<forall>x. r \<noteq> Rows x" using out [of T0] by blast
    show "case snd (statements E ! 4) (map param_text ?ps) T0 of (Rows x, T1) \<Rightarrow> False
      | (Changed n, T1) \<Rightarrow> (case Inr n of Inl e \<Rightarrow> ?post (Inl e) T1 f | Inr affect_row \<Rightarrow> runs E V live (insert m M) k T1 f
           (if affect_row = 0 then ret (Result_Fail UserNotFound (GetErrorMessage UserNotFound)) else ret (Result_Ok ())) ?post)
      | (Refused c e, T1) \<Rightarrow> (case Inl (mysql_exception c e) of Inl e \<Rightarrow> ?post (Inl e) T1 f | Inr affect_row \<Rightarrow> runs E V live (insert m M) k T1 f
           (if affect_row = 0 then ret (Result_Fail UserNotFound (GetErrorMessage UserNotFound)) else ret (Result_Ok ())) ?post)"
    proof (cases r)
      case (Changed n)
      then show ?thesis unfolding p r(1) using Q [OF T0, of n T1] r by (auto intro!: runs_ret)
    next
      case (Refused c e)
      then show ?thesis unfolding p r(1) using R [OF T0, of c e T1] r by (auto simp: mysql_exception_def intro: runs_ret)
    qed (use r in simp)
  qed simp_all
qed

subsection \<open>Sessions\<close>

lemma runs_IsTokenValid:
  assumes Q: "\<And>T0. same_rows T T0 \<Longrightarrow>
    Q (Inr (Result_Ok (\<exists>s\<in>set (t_sessions T). se_same E (s_token_hash s) h \<and> se_before E (t_now T0) (s_expires_at s)))) T f"
  shows "runs E V live M (Suc k) T f (IsTokenValid h) Q"
  unfolding IsTokenValid_def texts_nth(7) [symmetric]
proof (intro runs_db_try runs_with_conn runs_bindE runs_statement)
  fix m T0 assume T0: "same_rows T T0"
  let ?l = "filter (\<lambda>s. se_same E (s_token_hash s) h \<and> se_before E (t_now T0) (s_expires_at s)) (t_sessions T)"
  let ?x = "([''1''], map (\<lambda>s. [Some ''1'']) (take 1 ?l))"
  have st: "snd (statements E ! 6) (map param_text [PString h]) T0 = (Rows ?x, T0)"
    using T0 by (simp add: statements_def same_rows_def)
  show "\<exists>x. snd (statements E ! 6) (map param_text [PString h]) T0 = (Rows x, T0) \<and>
     (case Inr (MySQLResult_new (Some x)) of Inl e \<Rightarrow> Inl e \<noteq> Inl Terminate \<and> (\<exists>x. Inl e = Inr x \<and> Q (Inr x) T f)
      | Inr res \<Rightarrow> runs E V live (insert m M) k T f (ret (Result_Ok (fst (MySQLResult_Next res))))
         (\<lambda>r T' f'. r \<noteq> Inl Terminate \<and> (\<exists>x. r = Inr x \<and> Q (Inr x) T' f')))"
    using Q [OF T0] by (intro exI [of _ ?x] conjI st) (auto simp: first_of filter_empty_conv intro!: runs_ret)
qed simp_all

lemma runs_delete_sessions:
  "Q (Inr (Result_Ok ())) (T\<lparr>t_sessions := filter (\<lambda>s. \<not> se_same E (s_token_hash s) h) (t_sessions T)\<rparr>) f
    \<Longrightarrow> runs E V live M (Suc k) T f (DeleteByTokenHash h) Q"
  "Q (Inr (Result_Ok ())) (T\<lparr>t_sessions := filter (\<lambda>s. s_user_id s \<noteq> se_int E (to_string n)) (t_sessions T)\<rparr>) f
    \<Longrightarrow> runs E V live M (Suc k) T f (DeleteByUserId n) Q"
proof -
  have *: "runs E V live M (Suc k) T f (db_try (with_conn (\<lambda>conn. CHECK_CONN conn (
     bindE (in_pool (MySQLConnection_Execute conn (texts ! i) [PString v])) (\<lambda>affected. ret (Result_Ok ())))))) Q"
    if i: "i = 7 \<or> i = 8" and st: "snd (statements E ! i) [v] = delete_sessions P"
      and Q: "Q (Inr (Result_Ok ())) (T\<lparr>t_sessions := filter (\<lambda>s. \<not> P s) (t_sessions T)\<rparr>) f" for i v P
  proof (intro runs_db_try runs_with_conn runs_bindE runs_statement)
    fix m T0 assume T0: "same_rows T T0"
    let ?T1 = "T0\<lparr>t_sessions := filter (\<lambda>s. \<not> P s) (t_sessions T0)\<rparr>"
    let ?T2 = "T\<lparr>t_sessions := filter (\<lambda>s. \<not> P s) (t_sessions T)\<rparr>"
    have le: "db_on E V live k ?T1 w \<Longrightarrow> db_on E V live k ?T2 w" for w using T0 by (auto simp: db_on_def same_rows_def fresh_ids_def)
    have "runs E V live (insert m M) k ?T2 f (ret (Result_Ok ())) (\<lambda>r T' f'. r \<noteq> Inl Terminate \<and> (\<exists>x. r = Inr x \<and> Q (Inr x) T' f'))"
      using Q by (intro runs_ret) auto
    then have "runs E V live (insert m M) k ?T1 f (ret (Result_Ok ())) (\<lambda>r T' f'. r \<noteq> Inl Terminate \<and> (\<exists>x. r = Inr x \<and> Q (Inr x) T' f'))"
      unfolding runs_def using le by blast
    then show "case snd (statements E ! i) (map param_text [PString v]) T0 of (Rows x, T1) \<Rightarrow> False
      | (Changed n, T1) \<Rightarrow> (case Inr n of Inl e \<Rightarrow> Inl e \<noteq> Inl Terminate \<and> (\<exists>x. Inl e = Inr x \<and> Q (Inr x) T1 f)
         | Inr affected \<Rightarrow> runs E V live (insert m M) k T1 f (ret (Result_Ok ())) (\<lambda>r T' f'. r \<noteq> Inl Terminate \<and> (\<exists>x. r = Inr x \<and> Q (Inr x) T' f')))
      | (Refused c e, T1) \<Rightarrow> (case Inl (mysql_exception c e) of Inl e \<Rightarrow> Inl e \<noteq> Inl Terminate \<and> (\<exists>x. Inl e = Inr x \<and> Q (Inr x) T1 f)
         | Inr affected \<Rightarrow> runs E V live (insert m M) k T1 f (ret (Result_Ok ())) (\<lambda>r T' f'. r \<noteq> Inl Terminate \<and> (\<exists>x. r = Inr x \<and> Q (Inr x) T' f')))"
      using st by (simp add: delete_sessions_def)
  qed (use i in auto)
  show "Q (Inr (Result_Ok ())) (T\<lparr>t_sessions := filter (\<lambda>s. \<not> se_same E (s_token_hash s) h) (t_sessions T)\<rparr>) f
    \<Longrightarrow> runs E V live M (Suc k) T f (DeleteByTokenHash h) Q"
    unfolding DeleteByTokenHash_def texts_nth(8) [symmetric] by (rule *) (simp_all add: statements_def)
  show "Q (Inr (Result_Ok ())) (T\<lparr>t_sessions := filter (\<lambda>s. s_user_id s \<noteq> se_int E (to_string n)) (t_sessions T)\<rparr>) f
    \<Longrightarrow> runs E V live M (Suc k) T f (DeleteByUserId n) Q"
    unfolding DeleteByUserId_def texts_nth(9) [symmetric] by (rule *) (simp_all add: statements_def)
qed

text \<open>Storing a session adds a row, or leaves the table as it is and says so.\<close>

lemma insert_session_cases:
  "(\<exists>c e. insert_session E [n, h, x] T = (Refused c e, T)) \<or>
   (\<exists>T1 s. insert_session E [n, h, x] T = (Changed 1, T1) \<and> t_users T1 = t_users T \<and> t_sessions T1 = t_sessions T @ [s]
      \<and> s_token_hash s = h \<and> s_user_id s = se_int E n \<and> se_int E n \<in> u_id ` set (t_users T))"
proof (cases "\<exists>c e. insert_session E [n, h, x] T = (Refused c e, T)")
  case False
  let ?s = "\<lparr>s_id = t_next_session T, s_user_id = se_int E n, s_token_hash = h, s_expires_at = x, s_created_at = t_now T\<rparr>"
  have "insert_session E [n, h, x] T = (Changed 1, T\<lparr>t_sessions := t_sessions T @ [?s]\<rparr>)" "se_int E n \<in> u_id ` set (t_users T)"
    using False by (auto simp: insert_session_def duplicate_def image_iff split: if_splits) metis
  then show ?thesis by (intro disjI2 exI [of _ "T\<lparr>t_sessions := t_sessions T @ [?s]\<rparr>"] exI [of _ ?s]) simp
qed blast

lemma runs_SaveRefreshToken:
  assumes Q: "\<And>r T1 s'. same_sys (fst f) s' \<Longrightarrow> t_users T1 = t_users T \<Longrightarrow>
      \<not> IsOk r \<and> t_sessions T1 = t_sessions T \<or> IsOk r \<and> (\<exists>s. t_sessions T1 = t_sessions T @ [s]
         \<and> s_token_hash s = h \<and> s_user_id s = se_int E (to_string n) \<and> s_user_id s \<in> u_id ` set (t_users T)) \<Longrightarrow> Q (Inr r) T1 (s', snd f)"
  shows "runs E V live M (Suc k) T f (SaveRefreshToken n h ttl) Q"
  unfolding SaveRefreshToken_def texts_nth(6) [symmetric]
proof (intro runs_try runs_with_conn runs_bindE runs_in_sys)
  fix m now s1
  assume s1: "same_sys (fst f) s1"
  let ?post = "\<lambda>r T' f'. r \<noteq> Inl Terminate \<and> (case r of
      Inl e \<Rightarrow> if e = Terminate then Q (Inl e) T' f' else runs E V live M (Suc k) T' f' (case e of
        MySQLDuplicateKeyException err_code msg \<Rightarrow> ret (Result_Fail Internal (''Token '' @ utf8 [0x4FDD, 0x5B58, 0x5931, 0x8D25]))
      | _ \<Rightarrow> ret db_unavailable) Q
    | Inr a \<Rightarrow> Q (Inr a) T' f')"
  have "runs E V live (insert m M) k T (s1, snd f)
     (bindE (in_sys (FormatDatetime (plus_seconds now ttl))) (\<lambda>x. bindE (in_pool (MySQLConnection_Execute m (texts ! 5)
        [PString (to_string n), PString h, PString x])) (\<lambda>_. ret (Result_Ok ())))) ?post"
  proof (intro runs_bindE runs_in_sys, goal_cases)
    case (2 x s2)
    then have s2: "same_sys (fst f) s2" using s1 by (auto intro: same_sys_trans)
    have "runs E V live (insert m M) k T (s2, snd f) (bindE (in_pool (MySQLConnection_Execute m (texts ! 5)
        [PString (to_string n), PString h, PString x])) (\<lambda>_. ret (Result_Ok ()))) ?post"
    proof (intro runs_bindE runs_statement)
      fix T0 assume T0: "same_rows T T0"
      from insert_session_cases [of E "to_string n" h x T0]
      show "case snd (statements E ! 5) (map param_text [PString (to_string n), PString h, PString x]) T0 of (Rows x, T1) \<Rightarrow> False
      | (Changed n, T1) \<Rightarrow> (case Inr n of Inl e \<Rightarrow> ?post (Inl e) T1 (s2, snd f)
          | Inr a \<Rightarrow> runs E V live (insert m M) k T1 (s2, snd f) (ret (Result_Ok ())) ?post)
      | (Refused c e, T1) \<Rightarrow> (case Inl (mysql_exception c e) of Inl e \<Rightarrow> ?post (Inl e) T1 (s2, snd f)
          | Inr a \<Rightarrow> runs E V live (insert m M) k T1 (s2, snd f) (ret (Result_Ok ())) ?post)"
      proof (elim disjE exE conjE)
        fix c e
        assume "insert_session E [to_string n, h, x] T0 = (Refused c e, T0)"
        then show ?thesis using T0 Q [OF s2, of T0]
          by (auto simp: statements_def same_rows_def mysql_exception_def db_unavailable_def intro!: runs_ret)
      next
        fix T1 s
        assume "insert_session E [to_string n, h, x] T0 = (Changed 1, T1)" "t_users T1 = t_users T0" "t_sessions T1 = t_sessions T0 @ [s]"
          "s_token_hash s = h" "s_user_id s = se_int E (to_string n)" "se_int E (to_string n) \<in> u_id ` set (t_users T0)"
        then show ?thesis using T0 Q [OF s2, of T1] by (auto simp: statements_def same_rows_def intro!: runs_ret)
      qed
    qed simp_all
    then show ?case by simp
  qed (simp add: FormatDatetime_def sys_total_ask)
  then show "case Inr now of Inl e \<Rightarrow> ?post (Inl e) T (s1, snd f)
    | Inr now \<Rightarrow> runs E V live (insert m M) k T (s1, snd f) (bindE (in_sys (FormatDatetime (plus_seconds now ttl))) (\<lambda>x.
        bindE (in_pool (MySQLConnection_Execute m (texts ! 5) [PString (to_string n), PString h, PString x])) (\<lambda>_. ret (Result_Ok ())))) ?post"
    by simp
qed simp

end
