(* ===== verification/Accounts.thy ===== *)
theory Accounts
  imports Sql_Tables Sessions
begin

section \<open>Accounts and sessions over time\<close>

text \<open>
  The authentication service of \<open>src/services/auth_service.cpp\<close> on a MySQL server and a Redis server
  that answer: what one call leaves in the tables decides what later calls do. The calls are taken
  with everything below them: validation, the cache, the pool, the statements and their escaping,
  the rows.
\<close>

subsection \<open>Rules for the services\<close>

lemma runs_require: "v = None \<Longrightarrow> runs E V live M k T f c Q \<Longrightarrow> runs E V live M k T f (require v c) Q"
  by (simp add: require_def)

lemma runs_bindV:
  assumes "runs E V live M k T f c (\<lambda>r T' f'. case r of Inl e \<Rightarrow> Q (Inl e) T' f'
    | Inr x \<Rightarrow> if IsOk x then runs E V live M k T' f' d Q else Q (Inr (Result_Fail (code x) (message x))) T' f')"
  shows "runs E V live M k T f (bindV c d) Q"
  unfolding bindV_def by (rule runs_bindE, rule runs_conseq [OF assms]) (auto split: sum.splits if_splits intro: runs_ret)

lemma runs_bindR:
  assumes "runs E V live M k T f c (\<lambda>r T' f'. case r of Inl e \<Rightarrow> Q (Inl e) T' f'
    | Inr x \<Rightarrow> if IsOk x then \<exists>a. data x = Some a \<and> runs E V live M k T' f' (g a) Q
        else Q (Inr (Result_Fail (code x) (message x))) T' f')"
  shows "runs E V live M k T f (bindR c g) Q"
  unfolding bindR_def by (rule runs_bindE, rule runs_conseq [OF assms]) (auto split: sum.splits if_splits intro: runs_ret)

text \<open>A computation on the cache.\<close>

lemma runs_cache:
  assumes "\<And>w :: ('s, 'e, 'r) world. w_sys w = fst f \<Longrightarrow> w_redis w = snd f \<Longrightarrow>
    \<exists>r w'. c w = (Inr r, w') \<and> (w_pool w', w_sys w') = (w_pool w, w_sys w) \<and> Q (Inr r) T (fst f, w_redis w')"
  shows "runs E V live M k T f c Q"
  unfolding runs_def
proof (intro allI impI)
  fix w :: "('s, 'e, 'r) world"
  assume w: "db_on E V live k T w" "M \<subseteq> live (my_state (w_pool w))" "(w_sys w, w_redis w) = f"
  obtain r w' where "c w = (Inr r, w')" "w_pool w' = w_pool w" "w_sys w' = fst f" "Q (Inr r) T (fst f, w_redis w')"
    using assms [of w] w(3) by auto
  then show "\<exists>r T' w'. c w = (r, w') \<and> db_on E V live k T' w' \<and> M \<subseteq> live (my_state (w_pool w')) \<and> Q r T' (w_sys w', w_redis w')"
    using w(2) db_on_pool [OF w(1), of w'] by fastforce
qed

abbreviation held :: "('r \<Rightarrow> string \<rightharpoonup> string) \<Rightarrow> ('e, 'r) others \<Rightarrow> string \<rightharpoonup> string" where
  "held C f \<equiv> C (rc_state (snd f))"

lemma alive_cache: "cache_alive C up w \<longleftrightarrow> redis_alive C up (w_redis w)"
  by (simp add: cache_alive_def redis_alive_def)

lemma runs_Check:
  fixes f :: "('e, 'r) others" and V :: "'s \<Rightarrow> tables"
  assumes "redis_alive C up (snd f)" and "login_config_ok (cfg_login config)"
    and "counter (held C f (login_key mobile)) = Some n" "in_int32 n"
    and Q: "\<And>r d. redis_alive C up d \<Longrightarrow> C (rc_state d) = held C f \<Longrightarrow>
      code r = (if max_failed_attempts (cfg_login config) \<le> n then AccountLocked else Ok) \<Longrightarrow> Q (Inr r) T (fst f, d)"
  shows "runs E V live M k T f (CheckLoginFailedAttempts (auth_service config) mobile) Q"
proof (rule runs_cache)
  fix w :: "('s, 'e, 'r) world"
  assume w: "w_sys w = fst f" "w_redis w = snd f"
  then have "counter (cached C w (login_key mobile)) = Some n" "cache_alive C up w" using assms(1,3) by (simp_all add: cached_def alive_cache)
  with cache_live(1) [of C up w "auth_service config" mobile n] assms(2,4) w Q
  show "\<exists>r w'. CheckLoginFailedAttempts (auth_service config) mobile w = (Inr r, w')
      \<and> (w_pool w', w_sys w') = (w_pool w, w_sys w) \<and> Q (Inr r) T (fst f, w_redis w')"
    by (fastforce simp: cached_def alive_cache)
qed

lemma runs_Record:
  fixes f :: "('e, 'r) others" and V :: "'s \<Rightarrow> tables"
  assumes "redis_alive C up (snd f)" and "login_config_ok (cfg_login config)"
    and "counter (held C f (login_key mobile)) = Some n" "0 \<le> n" "in_int32 n"
    and Q: "\<And>d. redis_alive C up d \<Longrightarrow> C (rc_state d) = (held C f)(login_key mobile \<mapsto> to_string (n + 1)) \<Longrightarrow> Q (Inr ()) T (fst f, d)"
  shows "runs E V live M k T f (RecordLoginFailure (auth_service config) mobile) Q"
proof (rule runs_cache)
  fix w :: "('s, 'e, 'r) world"
  assume w: "w_sys w = fst f" "w_redis w = snd f"
  then have "counter (cached C w (login_key mobile)) = Some n" "cache_alive C up w" using assms(1,3) by (simp_all add: cached_def alive_cache)
  with cache_live(2) [of C up w "auth_service config" mobile n] assms(2,4,5) w Q
  show "\<exists>r w'. RecordLoginFailure (auth_service config) mobile w = (Inr r, w')
      \<and> (w_pool w', w_sys w') = (w_pool w, w_sys w) \<and> Q (Inr r) T (fst f, w_redis w')"
    by (fastforce simp: cached_def alive_cache)
qed

lemma runs_Clear:
  fixes f :: "('e, 'r) others" and V :: "'s \<Rightarrow> tables"
  assumes "redis_alive C up (snd f)"
    and Q: "\<And>d. redis_alive C up d \<Longrightarrow> C (rc_state d) = (held C f)(login_key mobile := None) \<Longrightarrow> Q (Inr ()) T (fst f, d)"
  shows "runs E V live M k T f (ClearLoginFailure (auth_service config) mobile) Q"
proof (rule runs_cache)
  fix w :: "('s, 'e, 'r) world"
  assume w: "w_sys w = fst f" "w_redis w = snd f"
  with cache_live(3) [of C up w "auth_service config" mobile] assms(1) Q
  show "\<exists>r w'. ClearLoginFailure (auth_service config) mobile w = (Inr r, w')
      \<and> (w_pool w', w_sys w') = (w_pool w, w_sys w) \<and> Q (Inr r) T (fst f, w_redis w')"
    by (fastforce simp: cached_def alive_cache)
qed

lemma runs_VerifyCaptcha:
  fixes f :: "('e, 'r) others" and V :: "'s \<Rightarrow> tables"
  assumes "redis_alive C up (snd f)" and "sms_config_ok config" and "sms_inv config (held C f)"
    and Q: "\<And>r d. redis_alive C up d \<Longrightarrow> (code r, C (rc_state d)) = verify_spec config scene mobile c (held C f) \<Longrightarrow> Q (Inr r) T (fst f, d)"
  shows "runs E V live M k T f (VerifyCaptcha redis_cli config scene mobile c) Q"
proof (rule runs_cache)
  fix w :: "('s, 'e, 'r) world"
  assume w: "w_sys w = fst f" "w_redis w = snd f"
  with live_cache.VerifyCaptcha_live [of C w up config scene mobile c, folded redis_alive_def] assms(1-3) Q
  show "\<exists>r w'. VerifyCaptcha redis_cli config scene mobile c w = (Inr r, w')
      \<and> (w_pool w', w_sys w') = (w_pool w, w_sys w) \<and> Q (Inr r) T (fst f, w_redis w')"
    by fastforce
qed

subsection \<open>Issuing tokens\<close>

text \<open>At most one session is added, for the account and the new refresh token.\<close>

definition session_added :: "sql_env \<Rightarrow> int \<Rightarrow> string \<Rightarrow> tables \<Rightarrow> tables \<Rightarrow> bool" where
  "session_added E n h T T' \<longleftrightarrow> t_users T' = t_users T \<and> (t_sessions T' = t_sessions T
     \<or> (\<exists>s. t_sessions T' = t_sessions T @ [s] \<and> s_token_hash s = h \<and> s_user_id s = se_int E (to_string n)))"

lemma runs_HashToken:
  "Q (Inr (hex_bytes (sys_sha256 (fst f) t))) T f \<Longrightarrow> runs E V live M k T f (in_sys (HashToken t)) Q"
  by (rule runs_in_sys [OF sys_total_HashToken]) (auto simp: HashToken_def ask_def bindE_def ret_def)

lemma runs_Store:
  assumes Q: "\<And>r T1 s'. same_sys (fst f) s' \<Longrightarrow> session_added E n (hex_bytes (sys_sha256 (fst f) t)) T T1 \<Longrightarrow> Q (Inr r) T1 (s', snd f)"
  shows "runs E V live M (Suc k) T f (StoreRefreshToken (auth_service config) n t) Q"
  unfolding StoreRefreshToken_def auth_service_sel jwt_service_def token_repo_def JwtService.simps TokenRepository.simps
  by (intro runs_bindE runs_HashToken, simp)
     (intro runs_SaveRefreshToken, auto simp: session_added_def intro!: Q)

lemma runs_issue_tokens:
  assumes Q: "\<And>toks T1 s'. same_sys (fst f) s' \<Longrightarrow> session_added E (u_id user) (hex_bytes (sys_sha256 (fst f) (refresh_token toks))) T T1
      \<Longrightarrow> Q (Inr (Result_Ok \<lparr>auth_user = user\<lparr>u_password_hash := []\<rparr>, auth_tokens = toks\<rparr>)) T1 (s', snd f)"
  shows "runs E V live M (Suc k) T f (issue_tokens (auth_service config) user) Q"
proof -
  have step: "runs E V live M (Suc k) T (s', snd f) (bindE (StoreRefreshToken (auth_service config) (u_id user) (refresh_token toks))
      (\<lambda>store_res. ret (Result_Ok \<lparr>auth_user = user\<lparr>u_password_hash := []\<rparr>, auth_tokens = toks\<rparr>))) Q"
    if s': "same_sys (fst f) s'" for toks :: TokenPair and s'
  proof -
    have "sys_sha256 s' = sys_sha256 (fst f)" using s' same_sys_fields(2) by blast
    then show ?thesis
      by (intro runs_bindE runs_Store) (auto intro!: runs_ret Q intro: same_sys_trans [OF s'])
  qed
  show ?thesis
    unfolding issue_tokens_def auth_service_sel jwt_service_def JwtService.simps
    by (intro runs_bindE runs_in_sys sys_total_GenerateTokenPair) (simp add: step)
qed

subsection \<open>Logging in\<close>

text \<open>What a password login must answer for the rows of the table.\<close>

definition login_spec :: "sql_env \<Rightarrow> (string \<Rightarrow> string) \<Rightarrow> string \<Rightarrow> string \<Rightarrow> tables \<Rightarrow> ErrorCode" where
  "login_spec E sha256 mobile pw T = (case filter (\<lambda>u. se_same E (u_mobile u) mobile) (t_users T) of
     [] \<Rightarrow> WrongPassword
   | u # _ \<Rightarrow> if u_disabled u then UserDisabled
       else if PasswordHelper_Verify sha256 pw (u_password_hash u) then Ok else WrongPassword)"

definition the_user :: "sql_env \<Rightarrow> string \<Rightarrow> tables \<Rightarrow> UserEntity" where
  "the_user E mobile T = hd (filter (\<lambda>u. se_same E (u_mobile u) mobile) (t_users T))"

lemma runs_ph_Verify:
  "Q (Inr (PasswordHelper_Verify (sys_sha256 (fst f)) p h)) T f \<Longrightarrow> runs E V live M k T f (ph_Verify password_helper p h) Q"
  unfolding password_helper_def PasswordHelper.simps by (rule runs_in_sys [OF sys_total_ask]) (auto simp: ask_def)

definition login_result :: "sql_env \<Rightarrow> string \<Rightarrow> string \<Rightarrow> ('e, 'r) others \<Rightarrow> tables \<Rightarrow> AuthResult Result \<Rightarrow> tables \<Rightarrow> ('e, 'r) others \<Rightarrow> bool" where
  "login_result E mobile pw f T r T' f' \<longleftrightarrow> code r = login_spec E (sys_sha256 (fst f)) mobile pw T
     \<and> (IsOk r \<longrightarrow> (\<exists>toks. r = Result_Ok \<lparr>auth_user = (the_user E mobile T)\<lparr>u_password_hash := []\<rparr>, auth_tokens = toks\<rparr>))
     \<and> t_users T' = t_users T \<and> same_sys (fst f) (fst f')"

lemma runs_login_found:
  assumes al: "redis_alive C up (snd f)" and cf: "login_config_ok (cfg_login config)"
    and n: "counter (held C f (login_key mobile)) = Some n" "0 \<le> n" "in_int32 n"
    and Q: "\<And>r T' f'. login_result E mobile pw f T r T' f' \<Longrightarrow> redis_alive C up (snd f') \<Longrightarrow> Q (Inr r) T' f'"
  shows "runs E V live M (Suc k) T f (login_found (auth_service config) mobile pw
     (found (filter (\<lambda>u. se_same E (u_mobile u) mobile) (t_users T)))) Q"
proof -
  have wrong: "runs E V live M (Suc k) T f (bindE (RecordLoginFailure (auth_service config) mobile) (\<lambda>_. ret (Result_Fail WrongPassword x))) Q"
    if "login_spec E (sys_sha256 (fst f)) mobile pw T = WrongPassword" for x
    by (rule runs_bindE, rule runs_Record [OF al cf n])
       (simp, intro runs_ret Q, simp_all add: login_result_def that IsOk_def)
  show ?thesis
  proof (cases "filter (\<lambda>u. se_same E (u_mobile u) mobile) (t_users T)")
    case Nil
    then show ?thesis using wrong by (simp add: login_found_def found_def login_spec_def)
  next
    case (Cons u us)
    then have u: "the_user E mobile T = u" by (simp add: the_user_def)
    have ok: "runs E V live M (Suc k) T f (bindE (ClearLoginFailure (auth_service config) mobile) (\<lambda>_. issue_tokens (auth_service config) u)) Q"
      if "login_spec E (sys_sha256 (fst f)) mobile pw T = Ok"
      by (rule runs_bindE, rule runs_Clear [OF al])
         (simp, intro runs_issue_tokens Q, simp_all add: login_result_def that u session_added_def)
    have off: "Q (Inr (Result_Fail UserDisabled x)) T f" if "u_disabled u" for x
      using that al by (intro Q) (simp_all add: login_result_def login_spec_def Cons IsOk_def)
    show ?thesis
      unfolding Cons login_found_def found_def auth_service_sel
      using wrong ok off Cons
      by (auto simp: Value_def login_spec_def intro!: runs_bindE runs_ret runs_ph_Verify)
  qed
qed

lemma runs_LoginByPassword:
  assumes al: "redis_alive C up (snd f)" and cf: "login_config_ok (cfg_login config)"
    and n: "counter (held C f (login_key mobile)) = Some n" "0 \<le> n" "n < max_failed_attempts (cfg_login config)"
    and v: "IsValidMobile mobile = None" "IsValidPassword pw (cfg_password config) = None"
    and ok: "\<forall>u\<in>set (t_users T). user_ok u"
    and Q: "\<And>r T' f'. login_result E mobile pw f T r T' f' \<Longrightarrow> redis_alive C up (snd f') \<Longrightarrow> Q (Inr r) T' f'"
  shows "runs E V live M (Suc k) T f (LoginByPassword (auth_service config) mobile pw) Q"
proof -
  have n32: "in_int32 n" using n cf by (simp add: in_int32_def login_config_ok_def)
  show ?thesis
    unfolding LoginByPassword_def auth_service_sel user_db_def UserDB.simps
  proof (intro runs_require v runs_bindV runs_Check [OF al cf n(1) n32])
    fix r :: "unit Result" and d
    assume d: "redis_alive C up d" "C (rc_state d) = held C f"
      and r: "code r = (if max_failed_attempts (cfg_login config) \<le> n then AccountLocked else Ok)"
    have "runs E V live M (Suc k) T (fst f, d)
       (bindE (UserDB_FindByMobile mobile) (login_found (auth_service config) mobile pw)) Q"
      using d n n32
      by (intro runs_bindE runs_find(1) [OF ok], simp)
         (rule runs_login_found [OF _ cf, of C up _ mobile n], auto simp: login_result_def intro!: Q)
    then show "case Inr r of Inl e \<Rightarrow> Q (Inl e) T (fst f, d)
       | Inr x \<Rightarrow> if IsOk x then runs E V live M (Suc k) T (fst f, d)
           (bindE (UserDB_FindByMobile mobile) (login_found (auth_service config) mobile pw)) Q
         else Q (Inr (Result_Fail (code x) (message x))) T (fst f, d)" using r n(3) by (simp add: IsOk_def)
  qed
qed

subsection \<open>Registering\<close>

definition registered :: "(string \<Rightarrow> string) \<Rightarrow> string \<Rightarrow> string \<Rightarrow> string \<Rightarrow> UserEntity \<Rightarrow> bool" where
  "registered sha256 mobile pw name u \<longleftrightarrow> u_mobile u = mobile \<and> u_display_name u = name \<and> \<not> u_disabled u \<and> u_role u = User \<and> user_ok u
     \<and> (\<exists>salt. u_password_hash u = ''$sha256$'' @ hex_bytes salt @ ''$'' @ hex_bytes (sha256 (hex_bytes salt @ pw)))"

text \<open>The table has room for the account: no row with its number or with a UUID the system may give,
  a free identifier, and columns that take the values.\<close>

definition room_for :: "sql_env \<Rightarrow> 'e sys \<Rightarrow> string \<Rightarrow> string \<Rightarrow> tables \<Rightarrow> bool" where
  "room_for E s mobile name T \<longleftrightarrow> fresh_ids T \<and> (\<forall>u\<in>set (t_users T). \<not> se_same E (u_mobile u) mobile)
     \<and> (\<forall>s1 uuid s2. same_sys s s1 \<longrightarrow> UUID_Generate s1 = (Inr uuid, s2) \<longrightarrow> (\<forall>u\<in>set (t_users T). \<not> se_same E (u_uuid u) uuid)
          \<and> (\<forall>h. column_ok E uuid (UserEntity_default\<lparr>u_mobile := mobile, u_password_hash := h, u_display_name := name\<rparr>)))"

lemma create_user_room:
  assumes "room_for E s mobile name T" and "same_rows T T0" and "same_sys s s1" and "UUID_Generate s1 = (Inr uuid, s2)"
    and "u = UserEntity_default\<lparr>u_mobile := mobile, u_password_hash := h, u_display_name := name\<rparr>"
  shows "create_user E uuid u T0 = (Result_Ok (new_user T0 uuid u), T0\<lparr>t_users := t_users T0 @ [new_user T0 uuid u]\<rparr>)"
    and "user_ok (new_user T0 uuid u)"
proof -
  have "\<forall>v\<in>set (t_users T). \<not> se_same E (u_uuid v) uuid" "column_ok E uuid u" "fresh_ids T" "\<forall>v\<in>set (t_users T). \<not> se_same E (u_mobile v) mobile"
    using assms unfolding room_for_def by blast+
  then show "create_user E uuid u T0 = (Result_Ok (new_user T0 uuid u), T0\<lparr>t_users := t_users T0 @ [new_user T0 uuid u]\<rparr>)"
    using assms(2,5) by (simp add: create_user_def same_rows_def)
  have "fresh_ids T0" using assms(2) \<open>fresh_ids T\<close> by (simp add: same_rows_def)
  then show "user_ok (new_user T0 uuid u)"
    using assms(5) by (simp add: new_user_def user_ok_def fresh_ids_def UserEntity_default_def in_int32_def)
qed

lemma hash_text:
  assumes "PasswordHelper_Hash p s = (Inr h, s')"
  shows "\<exists>salt. h = ''$sha256$'' @ hex_bytes salt @ ''$'' @ hex_bytes (sys_sha256 s (hex_bytes salt @ p))"
proof -
  obtain salt s1 where "PasswordHelper_Hash p s =
      (Inr (''$sha256$'' @ hex_bytes salt @ ''$'' @ hex_bytes (sys_sha256 s (hex_bytes salt @ p))), s1)"
    by (rule PasswordHelper_Hash_run)
  then show ?thesis using assms by auto
qed

lemma user_ok_default: "user_ok (UserEntity_default\<lparr>u_mobile := a, u_password_hash := h, u_display_name := b\<rparr>)"
  by (simp add: user_ok_def UserEntity_default_def in_int32_def in_int64_def)

lemma runs_Register:
  assumes al: "redis_alive C up (snd f)" and sms: "sms_config_ok (cfg_sms config)" "sms_inv (cfg_sms config) (held C f)"
    and v: "IsValidMobile mobile = None" "IsValidPassword pw (cfg_password config) = None"
      "IsValidVerifyCode c (cfg_sms config) = None" "IsValidDisplayName name = None"
    and code: "verify_spec (cfg_sms config) Register mobile c (held C f) = (Ok, v')"
    and env: "env_ok E" and ok: "\<forall>u\<in>set (t_users T). user_ok u" and room: "room_for E (fst f) mobile name T"
    and Q: "\<And>u toks T' f'. registered (sys_sha256 (fst f)) mobile pw name u \<Longrightarrow> t_users T' = t_users T @ [u] \<Longrightarrow> same_sys (fst f) (fst f')
      \<Longrightarrow> redis_alive C up (snd f') \<Longrightarrow> held C f' = v' \<Longrightarrow> Q (Inr (Result_Ok \<lparr>auth_user = u\<lparr>u_password_hash := []\<rparr>, auth_tokens = toks\<rparr>)) T' f'"
  shows "runs E V live M (Suc (Suc k)) T f (AuthService_Register (auth_service config) mobile c pw name) Q"
  unfolding AuthService_Register_def auth_service_sel user_db_def UserDB.simps sms_service_def SmsService.simps
    password_helper_def PasswordHelper.simps
proof (intro runs_require v runs_bindV runs_VerifyCaptcha [OF al sms])
  fix r :: "unit Result" and d
  assume d: "redis_alive C up d" "(code r, C (rc_state d)) = verify_spec (cfg_sms config) Register mobile c (held C f)"
  have "runs E V live M (Suc (Suc k)) T (fst f, d) (bindE (in_sys (PasswordHelper_Hash pw)) (\<lambda>h.
      bindR (UserDB_Create (UserEntity_default\<lparr>u_mobile := mobile, u_password_hash := h, u_display_name := name\<rparr>))
        (issue_tokens (auth_service config)))) Q"
  proof (intro runs_bindE runs_in_sys sys_total_Hash)
    fix h s'
    assume h: "PasswordHelper_Hash pw (fst (fst f, d)) = (Inr h, s')" "same_sys (fst (fst f, d)) s'"
    let ?u = "UserEntity_default\<lparr>u_mobile := mobile, u_password_hash := h, u_display_name := name\<rparr>"
    obtain salt where salt: "h = ''$sha256$'' @ hex_bytes salt @ ''$'' @ hex_bytes (sys_sha256 (fst f) (hex_bytes salt @ pw))"
      using hash_text [OF h(1)] by auto
    have "runs E V live M (Suc (Suc k)) T (s', d) (bindR (UserDB_Create ?u) (issue_tokens (auth_service config))) Q"
    proof (intro runs_bindR runs_Create [OF env user_ok_default ok])
      fix uuid s2 T0
      assume uuid: "UUID_Generate (fst (s', d)) = (Inr uuid, s2)" "same_sys (fst (s', d)) s2" and T0: "same_rows T T0"
      have s': "same_sys (fst f) s'" using h(2) by simp
      have gen: "UUID_Generate s' = (Inr uuid, s2)" using uuid(1) by simp
      note c = create_user_room [OF room T0 s' gen refl, of h]
      have reg: "registered (sys_sha256 (fst f)) mobile pw name (new_user T0 uuid ?u)"
        using c(2) salt by (auto simp: registered_def new_user_def UserEntity_default_def)
      have ss: "same_sys (fst f) s2" using s' uuid(2) by (auto intro: same_sys_trans)
      have "runs E V live M (Suc (Suc k)) (T0\<lparr>t_users := t_users T0 @ [new_user T0 uuid ?u]\<rparr>) (s2, d)
          (issue_tokens (auth_service config) (new_user T0 uuid ?u)) Q"
        using T0 d code by (intro runs_issue_tokens Q [OF reg]) (auto simp: same_rows_def session_added_def intro: same_sys_trans [OF ss])
      then show "case Inr (fst (create_user E uuid ?u T0)) of
          Inl e \<Rightarrow> Q (Inl e) (snd (create_user E uuid ?u T0)) (s2, snd (s', d))
        | Inr x \<Rightarrow> if IsOk x then \<exists>a. data x = Some a \<and> runs E V live M (Suc (Suc k)) (snd (create_user E uuid ?u T0)) (s2, snd (s', d))
             (issue_tokens (auth_service config) a) Q
          else Q (Inr (Result_Fail (code x) (message x))) (snd (create_user E uuid ?u T0)) (s2, snd (s', d))"
        using c(1) by simp
    qed
    then show "case Inr h of Inl e \<Rightarrow> Q (Inl e) T (s', snd (fst f, d)) | Inr h \<Rightarrow> runs E V live M (Suc (Suc k)) T (s', snd (fst f, d))
        (bindR (UserDB_Create (UserEntity_default\<lparr>u_mobile := mobile, u_password_hash := h, u_display_name := name\<rparr>))
          (issue_tokens (auth_service config))) Q" by simp
  qed
  then show "case Inr r of Inl e \<Rightarrow> Q (Inl e) T (fst f, d)
     | Inr x \<Rightarrow> if IsOk x then runs E V live M (Suc (Suc k)) T (fst f, d) (bindE (in_sys (PasswordHelper_Hash pw)) (\<lambda>password_hash.
          bindR (UserDB_Create (UserEntity_default\<lparr>u_mobile := mobile, u_password_hash := password_hash, u_display_name := name\<rparr>))
            (issue_tokens (auth_service config)))) Q
       else Q (Inr (Result_Fail (code x) (message x))) T (fst f, d)" using d(2) code by (simp add: IsOk_def)
qed

subsection \<open>Refreshing and logging out\<close>

definition session_rotated :: "sql_env \<Rightarrow> string \<Rightarrow> int \<Rightarrow> string \<Rightarrow> tables \<Rightarrow> tables \<Rightarrow> bool" where
  "session_rotated E h n h' T T' \<longleftrightarrow>
     session_added E n h' (T\<lparr>t_sessions := filter (\<lambda>s. \<not> se_same E (s_token_hash s) h) (t_sessions T)\<rparr>) T'"

definition known_hash :: "sql_env \<Rightarrow> string \<Rightarrow> tables \<Rightarrow> bool" where
  "known_hash E h T \<longleftrightarrow> (\<exists>s\<in>set (t_sessions T). se_same E (s_token_hash s) h)"

text \<open>A pair of tokens the service made.\<close>

definition made :: "Config \<Rightarrow> 'e sys \<Rightarrow> TokenPair \<Rightarrow> bool" where
  "made config s p \<longleftrightarrow> (\<exists>user s1 s2. same_sys s s1 \<and> GenerateTokenPair (cfg_security config) user s1 = (Inr p, s2))"

lemma madeI: "GenerateTokenPair (cfg_security config) user s = (Inr p, s') \<Longrightarrow> made config s p"
  unfolding made_def using same_sys_refl by blast

lemma runs_rotate_session:
  assumes refuse: "\<And>r f'. \<not> IsOk r \<Longrightarrow> same_sys (fst f) (fst f') \<Longrightarrow> snd f' = snd f \<Longrightarrow> Q (Inr r) T f'"
    and rotate: "\<And>p T' f'. known_hash E (hex_bytes (sys_sha256 (fst f) t)) T \<Longrightarrow> made config (fst f) p \<Longrightarrow>
      session_rotated E (hex_bytes (sys_sha256 (fst f) t)) n (hex_bytes (sys_sha256 (fst f) (refresh_token p))) T T' \<Longrightarrow>
      same_sys (fst f) (fst f') \<Longrightarrow> snd f' = snd f \<Longrightarrow> Q (Inr (Result_Ok p)) T' f'"
  shows "runs E V live M (Suc k) T f (rotate_session (auth_service config) t n user) Q"
proof -
  let ?h = "hex_bytes (sys_sha256 (fst f) t)"
  let ?T1 = "T\<lparr>t_sessions := filter (\<lambda>s. \<not> se_same E (s_token_hash s) ?h) (t_sessions T)\<rparr>"
  have store: "runs E V live M (Suc k) ?T1 (s', snd f) (bindE (StoreRefreshToken (auth_service config) n (refresh_token p)) (\<lambda>_. ret (Result_Ok p))) Q"
    if s': "same_sys (fst f) s'" and old: "known_hash E ?h T" and new: "made config (fst f) p" for s' p
  proof -
    have "sys_sha256 s' = sys_sha256 (fst f)" using s' same_sys_fields(2) by blast
    then show ?thesis
      by (intro runs_bindE runs_Store) (auto simp: session_rotated_def intro!: runs_ret rotate [OF old new] intro: same_sys_trans [OF s'])
  qed
  have del: "runs E V live M (Suc k) T f (bindE (DeleteByTokenHash ?h) (\<lambda>_. bindE (in_sys (GenerateTokenPair (cfg_security config) user)) (\<lambda>p.
      bindE (StoreRefreshToken (auth_service config) n (refresh_token p)) (\<lambda>_. ret (Result_Ok p))))) Q" if "known_hash E ?h T"
    using that by (intro runs_bindE runs_delete_sessions) (auto intro!: runs_bindE runs_in_sys simp: store madeI)
  show ?thesis
    unfolding rotate_session_def auth_service_sel jwt_service_def token_repo_def JwtService.simps TokenRepository.simps
    by (intro runs_bindE runs_HashToken, simp, intro runs_bindE runs_IsTokenValid)
       (auto simp: value_or_def known_hash_def intro!: runs_ret refuse del)
qed

lemma runs_RefreshToken:
  assumes ok: "\<forall>u\<in>set (t_users T). user_ok u"
    and refuse: "\<And>r f'. (\<forall>x. r = Inr x \<longrightarrow> \<not> IsOk x) \<Longrightarrow> same_sys (fst f) (fst f') \<Longrightarrow> snd f' = snd f \<Longrightarrow> Q r T f'"
    and rotate: "\<And>p n T' f'. known_hash E (hex_bytes (sys_sha256 (fst f) t)) T \<Longrightarrow> made config (fst f) p \<Longrightarrow>
      session_rotated E (hex_bytes (sys_sha256 (fst f) t)) n (hex_bytes (sys_sha256 (fst f) (refresh_token p))) T T' \<Longrightarrow>
      same_sys (fst f) (fst f') \<Longrightarrow> snd f' = snd f \<Longrightarrow> Q (Inr (Result_Ok p)) T' f'"
  shows "runs E V live M (Suc k) T f (AuthService_RefreshToken (auth_service config) t) Q"
proof -
  have account: "runs E V live M (Suc k) T (s', snd f) (bindE (lift (stoll uid)) (\<lambda>user_id. bindR (UserDB_FindById user_id) (\<lambda>user.
      if u_disabled user then ret (Result_Fail UserDisabled x) else rotate_session (auth_service config) t user_id user))) Q"
    if s': "same_sys (fst f) s'" for s' uid x
  proof (intro runs_bindE runs_lift, cases "stoll uid")
    case (Inl e)
    then show "case stoll uid of Inl e \<Rightarrow> Q (Inl e) T (s', snd f)
      | Inr user_id \<Rightarrow> runs E V live M (Suc k) T (s', snd f) (bindR (UserDB_FindById user_id) (\<lambda>user.
         if u_disabled user then ret (Result_Fail UserDisabled x) else rotate_session (auth_service config) t user_id user)) Q"
      using s' by (simp add: refuse)
  next
    case (Inr n)
    have sha: "sys_sha256 s' = sys_sha256 (fst f)" using s' same_sys_fields(2) by blast
    have mk: "made config (fst f) p" if "made config s' p" for p using that s' by (auto simp: made_def intro: same_sys_trans)
    have rot: "runs E V live M (Suc k) T (s', snd f) (rotate_session (auth_service config) t n user) Q" for user
      using sha by (intro runs_rotate_session) (auto intro!: refuse rotate mk intro: same_sys_trans [OF s'])
    have "runs E V live M (Suc k) T (s', snd f) (bindR (UserDB_FindById n) (\<lambda>user.
         if u_disabled user then ret (Result_Fail UserDisabled x) else rotate_session (auth_service config) t n user)) Q"
      using s' by (intro runs_bindR runs_find(3) [OF ok]) (auto simp: found_def rot intro!: runs_ret refuse split: list.split)
    then show "case stoll uid of Inl e \<Rightarrow> Q (Inl e) T (s', snd f)
      | Inr user_id \<Rightarrow> runs E V live M (Suc k) T (s', snd f) (bindR (UserDB_FindById user_id) (\<lambda>user.
         if u_disabled user then ret (Result_Fail UserDisabled x) else rotate_session (auth_service config) t user_id user)) Q"
      using Inr by simp
  qed
  have parsed: "runs E V live M (Suc k) T f (in_sys (ParseRefreshToken (cfg_security config) t)) (\<lambda>r T' f'. case r of Inl e \<Rightarrow> Q (Inl e) T' f'
    | Inr x \<Rightarrow> if IsOk x then \<exists>a. data x = Some a \<and> runs E V live M (Suc k) T' f' (bindE (lift (stoll a)) (\<lambda>user_id. bindR (UserDB_FindById user_id) (\<lambda>user.
         if u_disabled user then ret (Result_Fail UserDisabled m) else rotate_session (auth_service config) t user_id user))) Q
      else Q (Inr (Result_Fail (code x) (message x))) T' f')" for m
  proof (intro runs_in_sys sys_total_ParseRefreshToken)
    fix r s'
    assume p: "ParseRefreshToken (cfg_security config) t (fst f) = (Inr r, s')" and s': "same_sys (fst f) s'"
    show "case Inr r of Inl e \<Rightarrow> Q (Inl e) T (s', snd f)
      | Inr x \<Rightarrow> if IsOk x then \<exists>a. data x = Some a \<and> runs E V live M (Suc k) T (s', snd f) (bindE (lift (stoll a)) (\<lambda>user_id. bindR (UserDB_FindById user_id) (\<lambda>user.
         if u_disabled user then ret (Result_Fail UserDisabled m) else rotate_session (auth_service config) t user_id user))) Q
        else Q (Inr (Result_Fail (code x) (message x))) T (s', snd f)"
      using s' ParseRefreshToken_accepted [OF p] account [OF s'] by (auto simp: IsOk_def intro!: refuse)
  qed
  show ?thesis
    unfolding AuthService_RefreshToken_def auth_service_sel jwt_service_def JwtService.simps user_db_def UserDB.simps
    by (cases "t = []") (auto intro!: runs_ret refuse runs_bindR parsed)
qed

lemma runs_Logout:
  assumes "\<And>T'. T' = T\<lparr>t_sessions := filter (\<lambda>s. \<not> se_same E (s_token_hash s) (hex_bytes (sys_sha256 (fst f) t))) (t_sessions T)\<rparr>
      \<Longrightarrow> Q (Inr (Result_Ok ())) T' f" and "t \<noteq> []"
  shows "runs E V live M (Suc k) T f (Logout (auth_service config) t) Q"
  unfolding Logout_def auth_service_sel jwt_service_def token_repo_def JwtService.simps TokenRepository.simps
  using assms by (auto intro!: runs_bindE runs_HashToken runs_delete_sessions runs_ret)

subsection \<open>Resetting the password\<close>

lemma to_string_01: "to_string 1 = ''1''" "to_string 0 = ''0''"
  by code_simp+

lemma changed_user_keeps:
  "u_mobile (changed_user E now vs v) = u_mobile v" "u_id (changed_user E now vs v) = u_id v" "u_uuid (changed_user E now vs v) = u_uuid v"
  by (simp_all add: changed_user_def Let_def split: list.splits)

lemma changed_user_ok:
  assumes "env_ok E" and "user_ok u" and "user_ok v"
  shows "user_ok (changed_user E now (update_params u) v)"
proof -
  have "se_int E (to_string (UserRoleToInt (u_role u))) = UserRoleToInt (u_role u)"
    using assms by (simp add: env_ok_def user_ok_def in_int32_64)
  then show ?thesis using assms IntToUserRole_ok [OF assms(2)]
    by (auto simp: changed_user_def update_params_def Let_def user_ok_def)
qed

text \<open>The row of the account itself gets the new hash and nothing else (but the time of the change).\<close>

lemma changed_user_hash:
  assumes "env_ok E" and "user_ok u"
  shows "u_password_hash (changed_user E now (update_params (u\<lparr>u_password_hash := h\<rparr>)) u) = h"
    and "u_disabled (changed_user E now (update_params (u\<lparr>u_password_hash := h\<rparr>)) u) = u_disabled u"
proof -
  have e: "se_int E ''1'' = 1" "se_int E ''0'' = 0"
    using assms(1) to_string_01 by (auto simp: env_ok_def in_int64_def dest: spec [of _ 1] spec [of _ 0])
  have r: "IntToUserRole (se_int E (to_string (UserRoleToInt (u_role u)))) = u_role u"
    using assms IntToUserRole_ok [OF assms(2)] by (simp add: env_ok_def user_ok_def in_int32_64)
  have same: "se_same E (u_uuid u) (u_uuid u)" using assms(1) by (simp add: env_ok_def)
  show "u_password_hash (changed_user E now (update_params (u\<lparr>u_password_hash := h\<rparr>)) u) = h"
    "u_disabled (changed_user E now (update_params (u\<lparr>u_password_hash := h\<rparr>)) u) = u_disabled u"
    using e r same by (cases u; auto simp: changed_user_def update_params_def Let_def)+
qed

definition reset_tables :: "sql_env \<Rightarrow> string \<Rightarrow> string \<Rightarrow> string \<Rightarrow> tables \<Rightarrow> tables \<Rightarrow> bool" where
  "reset_tables E mobile h now T T' \<longleftrightarrow> filter (\<lambda>u. se_same E (u_mobile u) mobile) (t_users T) \<noteq> []
     \<and> t_users T' = map (changed_user E now (update_params ((the_user E mobile T)\<lparr>u_password_hash := h\<rparr>))) (t_users T)
     \<and> t_sessions T' = filter (\<lambda>s. s_user_id s \<noteq> u_id (the_user E mobile T)) (t_sessions T)"

definition takes :: "sql_env \<Rightarrow> UserEntity \<Rightarrow> string \<Rightarrow> bool" where
  "takes E u h \<longleftrightarrow> se_fit E ''display_name'' (u_display_name u) \<and> se_fit E ''password_hash'' h
     \<and> se_fit E ''disabled'' (if u_disabled u then ''1'' else ''0'') \<and> se_fit E ''role'' (to_string (UserRoleToInt (u_role u)))"

lemma update_user_changes:
  assumes "update_user E (update_params (u\<lparr>u_password_hash := h\<rparr>)) T = (Changed n, T1)" and "u \<in> set (t_users T)"
    and "env_ok E" and "user_ok u" and "u_password_hash u \<noteq> h"
  shows "n \<noteq> 0"
proof -
  let ?g = "changed_user E (t_now T) (update_params (u\<lparr>u_password_hash := h\<rparr>))"
  have "?g u \<noteq> u" using changed_user_hash(1) [OF assms(3,4), of "t_now T" h] assms(5) by metis
  moreover have "(u, ?g u) \<in> set (zip (t_users T) (map ?g (t_users T)))" using assms(2) by (auto simp: zip_map2 zip_same_conv_map)
  ultimately have "filter (\<lambda>(u, u'). u \<noteq> u') (zip (t_users T) (map ?g (t_users T))) \<noteq> []"
    by (auto simp: filter_empty_conv)
  then show ?thesis using assms(1) by (auto simp: update_user_def Let_def split: if_splits)
qed

lemma runs_change_hash:
  assumes env: "env_ok E" and ok: "\<forall>u\<in>set (t_users T). user_ok u" and u: "user_ok u"
    and row: "u \<in> set (t_users T)"
    and fail: "\<And>r T1. \<not> IsOk r \<Longrightarrow> \<not> takes E u h \<or> u_password_hash u = h \<Longrightarrow> \<forall>u\<in>set (t_users T1). user_ok u
      \<Longrightarrow> t_sessions T1 = t_sessions T \<Longrightarrow> Q (Inr r) T1 f"
    and good: "\<And>now T1. t_users T1 = map (changed_user E now (update_params (u\<lparr>u_password_hash := h\<rparr>))) (t_users T) \<Longrightarrow> t_sessions T1 = t_sessions T
      \<Longrightarrow> \<forall>u\<in>set (t_users T1). user_ok u \<Longrightarrow> Q (Inr (Result_Ok ())) T1 f"
  shows "runs E V live M (Suc k) T f (UserDB_Update (u\<lparr>u_password_hash := h\<rparr>)) Q"
proof (rule runs_Update)
  let ?vs = "update_params (u\<lparr>u_password_hash := h\<rparr>)"
  have u': "user_ok (u\<lparr>u_password_hash := h\<rparr>)" using u by (simp add: user_ok_def)
  fix T0 n T1
  assume T0: "same_rows T T0" and run: "update_user E ?vs T0 = (Changed n, T1)"
  then have T1: "t_users T1 = map (changed_user E (t_now T0) ?vs) (t_users T)" "t_sessions T1 = t_sessions T"
    by (auto simp: update_user_def Let_def same_rows_def split: if_splits)
  then have "\<forall>u\<in>set (t_users T1). user_ok u" using ok changed_user_ok [OF env u'] by auto
  moreover have "n = 0 \<Longrightarrow> u_password_hash u = h" using update_user_changes [OF run _ env u] row T0 by (auto simp: same_rows_def)
  ultimately show "Q (Inr (if n = 0 then Result_Fail UserNotFound (GetErrorMessage UserNotFound) else Result_Ok ())) T1 f"
    using fail [of _ T1] good [OF T1] T1(2) by simp
next
  fix T0 c e T1
  assume "same_rows T T0" "update_user E (update_params (u\<lparr>u_password_hash := h\<rparr>)) T0 = (Refused c e, T1)"
  then show "Q (Inr db_unavailable) T1 f"
    using ok by (intro fail) (auto simp: update_user_def update_params_def takes_def Let_def same_rows_def split: if_splits)
qed

text \<open>Why a reset can be refused.\<close>

definition reset_refused :: "Config \<Rightarrow> sql_env \<Rightarrow> (string \<Rightarrow> string) \<Rightarrow> (string \<rightharpoonup> string) \<Rightarrow> string \<Rightarrow> string \<Rightarrow> string \<Rightarrow> tables \<Rightarrow> bool" where
  "reset_refused config E sha256 v mobile c pw T \<longleftrightarrow>
     \<not> (IsValidMobile mobile = None \<and> IsValidVerifyCode c (cfg_sms config) = None \<and> IsValidPassword pw (cfg_password config) = None)
     \<or> fst (verify_spec (cfg_sms config) ResetPassword mobile c v) \<noteq> Ok
     \<or> filter (\<lambda>u. se_same E (u_mobile u) mobile) (t_users T) = []
     \<or> (\<exists>salt. let h = ''$sha256$'' @ hex_bytes salt @ ''$'' @ hex_bytes (sha256 (hex_bytes salt @ pw))
          in \<not> takes E (the_user E mobile T) h \<or> u_password_hash (the_user E mobile T) = h)"

lemma runs_ResetPassword:
  assumes al: "redis_alive C up (snd f)" and sms: "sms_config_ok (cfg_sms config)" "sms_inv (cfg_sms config) (held C f)"
    and env: "env_ok E" and ok: "\<forall>u\<in>set (t_users T). user_ok u"
    and fail: "\<And>r T' f'. \<not> IsOk r \<Longrightarrow> reset_refused config E (sys_sha256 (fst f)) (held C f) mobile c pw T \<Longrightarrow> Q (Inr r) T' f'"
    and good: "\<And>h now T' f'. reset_tables E mobile h now T T' \<Longrightarrow> \<forall>u\<in>set (t_users T'). user_ok u
      \<Longrightarrow> \<exists>salt. h = ''$sha256$'' @ hex_bytes salt @ ''$'' @ hex_bytes (sys_sha256 (fst f) (hex_bytes salt @ pw))
      \<Longrightarrow> IsValidMobile mobile = None \<Longrightarrow> IsValidPassword pw (cfg_password config) = None
      \<Longrightarrow> same_sys (fst f) (fst f') \<Longrightarrow> redis_alive C up (snd f') \<Longrightarrow> held C f' (login_key mobile) = None \<Longrightarrow> Q (Inr (Result_Ok ())) T' f'"
  shows "runs E V live M (Suc k) T f (AuthService_ResetPassword (auth_service config) mobile c pw) Q"
proof (cases "IsValidMobile mobile = None \<and> IsValidVerifyCode c (cfg_sms config) = None \<and> IsValidPassword pw (cfg_password config) = None")
  case False
  then have "reset_refused config E (sys_sha256 (fst f)) (held C f) mobile c pw T" by (simp add: reset_refused_def)
  then show ?thesis using False by (auto simp: AuthService_ResetPassword_def require_def split: option.splits intro!: runs_ret fail)
next
  case valid: True
  let ?us = "filter (\<lambda>u. se_same E (u_mobile u) mobile) (t_users T)"
  have finish: "runs E V live M (Suc k) T (fst f, d) (bindE (in_sys (PasswordHelper_Hash pw)) (\<lambda>password_hash.
       bindV (UserDB_Update (u\<lparr>u_password_hash := password_hash\<rparr>)) (
       bindE (DeleteByUserId (u_id u)) (\<lambda>revoke_res.
       bindE (ClearLoginFailure (auth_service config) mobile) (\<lambda>_. ret (Result_Ok ())))))) Q"
    if d: "redis_alive C up d" and us: "?us = u # us" for d u us
  proof (intro runs_bindE runs_in_sys sys_total_Hash)
    fix h s'
    assume h: "PasswordHelper_Hash pw (fst (fst f, d)) = (Inr h, s')" "same_sys (fst (fst f, d)) s'"
    have "u \<in> set ?us" using us by simp
    then have u: "user_ok u" "u \<in> set (t_users T)" using ok by simp_all
    have bad: "reset_refused config E (sys_sha256 (fst f)) (held C f) mobile c pw T" if "\<not> takes E u h \<or> u_password_hash u = h"
      using that hash_text [OF h(1)] us by (auto simp: reset_refused_def the_user_def Let_def)
    from u(1) have id: "se_int E (to_string (u_id u)) = u_id u" using env by (simp add: env_ok_def user_ok_def)
    have the: "the_user E mobile T = u" using us by (simp add: the_user_def)
    have fin: "runs E V live M (Suc k) T1 (s', d) (bindE (DeleteByUserId (u_id u)) (\<lambda>revoke_res.
       bindE (ClearLoginFailure (auth_service config) mobile) (\<lambda>_. ret (Result_Ok ())))) Q"
      if T1: "t_users T1 = map (changed_user E now (update_params (u\<lparr>u_password_hash := h\<rparr>))) (t_users T)" "t_sessions T1 = t_sessions T"
        "\<forall>u\<in>set (t_users T1). user_ok u" for T1 now
      using T1 d valid h(2) us hash_text [OF h(1)]
      by (intro runs_bindE runs_delete_sessions, simp, intro runs_bindE runs_Clear [of C up], simp_all)
         (intro runs_ret good, auto simp: reset_tables_def the id)
    show "case Inr h of Inl e \<Rightarrow> Q (Inl e) T (s', snd (fst f, d)) | Inr password_hash \<Rightarrow> runs E V live M (Suc k) T (s', snd (fst f, d))
       (bindV (UserDB_Update (u\<lparr>u_password_hash := password_hash\<rparr>)) (
       bindE (DeleteByUserId (u_id u)) (\<lambda>revoke_res.
       bindE (ClearLoginFailure (auth_service config) mobile) (\<lambda>_. ret (Result_Ok ()))))) Q"
      by simp (intro runs_bindV runs_change_hash [OF env ok u], auto simp: IsOk_def intro!: fail fin bad)
  qed
  have look: "runs E V live M (Suc k) T (fst f, d) (bindE (UserDB_FindByMobile mobile) (\<lambda>user_res.
     if \<not> IsOk user_res then
       (if code user_res = UserNotFound then ret (Result_Fail UserNotFound m)
        else ret (Result_Fail (code user_res) (message user_res)))
     else
       bindE (Value user_res) (\<lambda>user.
       bindE (in_sys (PasswordHelper_Hash pw)) (\<lambda>password_hash.
       bindV (UserDB_Update (user\<lparr>u_password_hash := password_hash\<rparr>)) (
       bindE (DeleteByUserId (u_id user)) (\<lambda>revoke_res.
       bindE (ClearLoginFailure (auth_service config) mobile) (\<lambda>_. ret (Result_Ok ())))))))) Q"
    if d: "redis_alive C up d" for d m
    by (intro runs_bindE runs_find(1) [OF ok], cases ?us)
       (auto simp: found_def Value_def reset_refused_def intro!: runs_ret fail runs_bindE [of _ _ _ _ _ _ _ "ret a" for a] finish [OF d])
  show ?thesis
    unfolding AuthService_ResetPassword_def auth_service_sel sms_service_def SmsService.simps user_db_def UserDB.simps
      password_helper_def PasswordHelper.simps token_repo_def TokenRepository.simps
    using valid look by (intro runs_require runs_bindV runs_VerifyCaptcha [OF al sms])
      (auto simp: IsOk_def reset_refused_def intro!: fail dest: arg_cong [where f = fst])
qed

subsection \<open>What one call leaves for the next\<close>

text \<open>Both servers answer, and the rows of the table of users are accounts the program can read.\<close>

definition serving :: "sql_env \<Rightarrow> ('s \<Rightarrow> tables) \<Rightarrow> ('s \<Rightarrow> nat set) \<Rightarrow> ('r \<Rightarrow> string \<rightharpoonup> string) \<Rightarrow> ('r \<Rightarrow> bool) \<Rightarrow> nat \<Rightarrow> tables
    \<Rightarrow> ('s, 'e, 'r) world \<Rightarrow> bool" where
  "serving E V live C up k T w \<longleftrightarrow> db_on E V live k T w \<and> redis_alive C up (w_redis w) \<and> env_ok E \<and> (\<forall>u\<in>set (t_users T). user_ok u)"

lemma login_key_apart: "login_key m \<noteq> VerifyCountKey s m'"
  by (simp add: login_key_def VerifyCountKey_def)

lemma registered_login:
  assumes reg: "registered sha256 mobile pw name u" and T: "t_users T' = t_users T @ [u]"
    and new: "\<forall>u\<in>set (t_users T). \<not> se_same E (u_mobile u) mobile" and env: "env_ok E"
  shows "the_user E mobile T' = u" and "login_spec E sha256 mobile pw T' = Ok"
    and "(\<And>salt. sha256 (salt @ pw') \<noteq> sha256 (salt @ pw)) \<Longrightarrow> login_spec E sha256 mobile pw' T' = WrongPassword"
proof -
  have "filter (\<lambda>u. se_same E (u_mobile u) mobile) (t_users T') = [u]"
    using assms by (simp add: registered_def env_ok_def)
  moreover obtain salt where h: "u_password_hash u = ''$sha256$'' @ hex_bytes salt @ ''$'' @ hex_bytes (sha256 (hex_bytes salt @ pw))"
    using reg by (auto simp: registered_def)
  moreover have "\<not> u_disabled u" using reg by (simp add: registered_def)
  moreover note PasswordHelper_Verify_hash [of sha256 _ salt "sha256 (hex_bytes salt @ pw)"]
  ultimately show "the_user E mobile T' = u" "login_spec E sha256 mobile pw T' = Ok"
    "(\<And>salt. sha256 (salt @ pw') \<noteq> sha256 (salt @ pw)) \<Longrightarrow> login_spec E sha256 mobile pw' T' = WrongPassword"
    unfolding the_user_def login_spec_def by (simp_all del: append.simps)
qed

lemma login_after:
  fixes w :: "('s, 'e, 'r) world"
  assumes on: "db_on E V live (Suc k) T w" "\<forall>u\<in>set (t_users T). user_ok u" and al: "redis_alive C up (w_redis w)"
    and cf: "login_config_ok (cfg_login config)"
    and n: "counter (C (rc_state (w_redis w)) (login_key mobile)) = Some n" "0 \<le> n" "n < max_failed_attempts (cfg_login config)"
    and v: "IsValidMobile mobile = None" "IsValidPassword pw (cfg_password config) = None"
  shows "\<exists>r w' T' f'. LoginByPassword (auth_service config) mobile pw w = (Inr r, w')
    \<and> login_result E mobile pw (w_sys w, w_redis w) T r T' (f' :: ('e, 'r) others)"
proof -
  let ?f = "(w_sys w, w_redis w)"
  have "runs E V live {} (Suc k) T ?f (LoginByPassword (auth_service config) mobile pw)
      (\<lambda>r T' f'. \<exists>x. r = Inr x \<and> login_result E mobile pw ?f T x T' f')"
    using al n by (intro runs_LoginByPassword [of C up, OF _ cf _ _ _ v on(2)]) auto
  then show ?thesis by (rule runsE [OF _ on(1)]) auto
qed

subsection \<open>A server in memory\<close>

text \<open>A MySQL server that keeps the promise, for concrete runs: it reads the text it is sent, matches it
  with the statements and executes them on tables in memory. It has two connections.\<close>

definition mem_query :: "sql_env \<Rightarrow> string \<Rightarrow> tables \<times> outcome \<Rightarrow> bool \<times> tables \<times> outcome" where
  "mem_query E q s = (case tokens q of
     None \<Rightarrow> (False, fst s, Refused 1064 ''syntax'')
   | Some ts \<Rightarrow> (case run_statement E ts (fst s) of
       None \<Rightarrow> (False, fst s, Refused 1064 ''syntax'')
     | Some (out, T) \<Rightarrow> ((case out of Refused c e \<Rightarrow> False | _ \<Rightarrow> True),
         (if fresh_ids T then T else T\<lparr>t_next_user := t_next_user T + 1\<rparr>), out)))"

definition mem_pool :: "sql_env \<Rightarrow> tables \<Rightarrow> (tables \<times> outcome) pool" where
  "mem_pool E T = \<lparr>
     my_init = \<lambda>s. (Some 1, s), my_options = \<lambda>m x s. s, my_real_connect = \<lambda>m c s. (True, s),
     my_errno = \<lambda>m s. (case snd s of Refused c e \<Rightarrow> c | _ \<Rightarrow> 0),
     my_error = \<lambda>m s. (case snd s of Refused c e \<Rightarrow> e | _ \<Rightarrow> []),
     my_close = \<lambda>m s. s, my_ping = \<lambda>m s. (True, s), my_query = \<lambda>m q s. mem_query E q s,
     my_store_result = \<lambda>m s. (case snd s of Rows r \<Rightarrow> (Some r, s) | _ \<Rightarrow> (None, s)),
     my_field_count = \<lambda>m s. 0,
     my_affected_rows = \<lambda>m s. (case snd s of Changed n \<Rightarrow> n | _ \<Rightarrow> 0),
     my_insert_id = \<lambda>m s. 0, my_escape = \<lambda>m x s. manual_escape x, my_pause = \<lambda>t s. s,
     my_state = (T, Changed 0), pl_config = MySQLConfig_default, pl_idle = [1, 2]\<rparr>"

lemma mem_server: "sql_server E fst (\<lambda>s. {1, 2}) (mem_pool E T)"
  unfolding sql_server_def
proof (intro conjI allI impI)
  fix m :: nat and q ts out T1 and s :: "tables \<times> outcome"
  assume run: "tokens q = Some ts" "run_statement E ts (fst s) = Some (out, T1)"
  let ?s = "(if fresh_ids T1 then T1 else T1\<lparr>t_next_user := t_next_user T1 + 1\<rparr>, out)"
  have "same_rows T1 (fst ?s)" by (simp add: same_rows_def)
  moreover have "mem_query E q s = ((case out of Refused c e \<Rightarrow> False | _ \<Rightarrow> True), ?s)" using run by (simp add: mem_query_def)
  ultimately show "\<exists>s'. {1, 2} = {1, 2 :: nat} \<and> same_rows T1 (fst s') \<and> (case out of
      Rows r \<Rightarrow> my_query (mem_pool E T) m q s = (True, s')
        \<and> (\<exists>s''. my_store_result (mem_pool E T) m s' = (Some r, s'') \<and> {1, 2} = {1, 2 :: nat} \<and> same_rows T1 (fst s''))
    | Changed n \<Rightarrow> my_query (mem_pool E T) m q s = (True, s') \<and> my_affected_rows (mem_pool E T) m s' = n
    | Refused c e \<Rightarrow> my_query (mem_pool E T) m q s = (False, s') \<and> my_errno (mem_pool E T) m s' = c \<and> my_error (mem_pool E T) m s' = e)"
    by (intro exI [of _ ?s]) (auto simp: mem_pool_def split: outcome.split)
qed (simp_all add: mem_pool_def manual_escape_documented)

definition mem_env :: sql_env where
  "mem_env = \<lparr>se_fit = \<lambda>c x. True, se_same = (=), se_int = \<lambda>s. (case stoll s of Inl e \<Rightarrow> 0 | Inr n \<Rightarrow> n), se_before = \<lambda>a b. True\<rparr>"

lemma mem_env_ok: "env_ok mem_env"
  by (simp add: env_ok_def mem_env_def)

text \<open>A system whose digest is the text itself.\<close>

definition mem_sys :: "unit sys" where
  "mem_sys = (sys_example 0)\<lparr>sys_sha256 := \<lambda>x. x\<rparr>"

definition mem_world :: "tables \<Rightarrow> (string \<rightharpoonup> string) \<Rightarrow> (tables \<times> outcome, unit, string \<rightharpoonup> string) world" where
  "mem_world T c = \<lparr>w_pool = mem_pool mem_env T, w_sys = mem_sys, w_redis = redis_mem c\<rparr>"

lemma mem_db_on: "k \<le> 2 \<Longrightarrow> db_on mem_env fst (\<lambda>s. {1, 2}) k T (mem_world T c)"
  using mem_server [of mem_env T] by (simp add: db_on_def mem_world_def) (simp add: mem_pool_def)

lemma mem_serving:
  "k \<le> 2 \<Longrightarrow> \<forall>u\<in>set (t_users T). user_ok u \<Longrightarrow> serving mem_env fst (\<lambda>s. {1, 2}) (\<lambda>s. s) (\<lambda>_. True) k T (mem_world T c)"
  using mem_db_on redis_mem_alive [of c] by (simp add: serving_def mem_env_ok) (simp add: mem_world_def)

definition no_rows :: tables where
  "no_rows = \<lparr>t_users = [], t_sessions = [], t_next_user = 1, t_next_session = 1, t_now = ''2025-01-01 00:00:00''\<rparr>"

subsection \<open>Properties\<close>

text \<open>C1: Registration and login agree. With both servers answering, a registration with valid input,
  the code that was sent, a number not yet in the table and room in the table succeeds, and the
  account it answers can log in at once with the same password (and gets the same account), while
  every password with another digest is refused as wrong.\<close>

theorem registered_user_can_log_in:
  fixes w :: "('s, 'e, 'r) world"
  assumes sv: "serving E V live C up 2 T w"
    and cf: "login_config_ok (cfg_login config)" "sms_config_ok (cfg_sms config)" "sms_inv (cfg_sms config) (C (rc_state (w_redis w)))"
    and v: "IsValidMobile mobile = None" "IsValidPassword pw (cfg_password config) = None"
      "IsValidVerifyCode c (cfg_sms config) = None" "IsValidDisplayName name = None"
    and code: "C (rc_state (w_redis w)) (LockKey Register mobile) = None" "C (rc_state (w_redis w)) (CaptchaKey Register mobile) = Some c"
    and room: "room_for E (w_sys w) mobile name T"
    and n: "counter (C (rc_state (w_redis w)) (login_key mobile)) = Some n" "0 \<le> n" "n < max_failed_attempts (cfg_login config)"
  shows "\<exists>a w1. AuthService_Register (auth_service config) mobile c pw name w = (Inr (Result_Ok a), w1)
    \<and> u_mobile (auth_user a) = mobile \<and> u_display_name (auth_user a) = name \<and> u_role (auth_user a) = User
    \<and> (\<exists>b w2. LoginByPassword (auth_service config) mobile pw w1 = (Inr (Result_Ok b), w2) \<and> auth_user b = auth_user a)
    \<and> (\<forall>pw'. IsValidPassword pw' (cfg_password config) = None \<longrightarrow> (\<forall>salt. sys_sha256 (w_sys w) (salt @ pw') \<noteq> sys_sha256 (w_sys w) (salt @ pw)) \<longrightarrow>
         (\<exists>r w2. LoginByPassword (auth_service config) mobile pw' w1 = (Inr r, w2) \<and> code r = WrongPassword))"
proof -
  let ?f = "(w_sys w, w_redis w)" and ?v = "(C (rc_state (w_redis w)))(VerifyCountKey Register mobile := None)"
  have on: "db_on E V live 2 T w" and al: "redis_alive C up (w_redis w)" and env: "env_ok E" and ok: "\<forall>u\<in>set (t_users T). user_ok u"
    using sv by (auto simp: serving_def)
  have spec: "verify_spec (cfg_sms config) Register mobile c (held C ?f) = (Ok, ?v)" using code by (simp add: verify_spec_def)
  have "runs E V live {} (Suc (Suc 0)) T ?f (AuthService_Register (auth_service config) mobile c pw name)
     (\<lambda>r T' f'. \<exists>u toks. registered (sys_sha256 (w_sys w)) mobile pw name u \<and> t_users T' = t_users T @ [u] \<and> same_sys (w_sys w) (fst f')
        \<and> redis_alive C up (snd f') \<and> held C f' = ?v \<and> r = Inr (Result_Ok \<lparr>auth_user = u\<lparr>u_password_hash := []\<rparr>, auth_tokens = toks\<rparr>))"
    using al cf room by (intro runs_Register [of C up, OF _ _ _ v spec env ok]) auto
  then obtain r T' w1 u toks where 1: "AuthService_Register (auth_service config) mobile c pw name w = (r, w1)"
    and on1: "db_on E V live (Suc (Suc 0)) T' w1" and u: "registered (sys_sha256 (w_sys w)) mobile pw name u" "t_users T' = t_users T @ [u]"
    and s1: "same_sys (w_sys w) (w_sys w1)" and al1: "redis_alive C up (w_redis w1)" and v1: "C (rc_state (w_redis w1)) = ?v"
    and r: "r = Inr (Result_Ok \<lparr>auth_user = u\<lparr>u_password_hash := []\<rparr>, auth_tokens = toks\<rparr>)"
    by (rule runsE [where w = w]) (use on in \<open>auto simp: numeral_2_eq_2\<close>)
  have ok1: "\<forall>u\<in>set (t_users T'). user_ok u" using u ok by (auto simp: registered_def)
  have n1: "counter (C (rc_state (w_redis w1)) (login_key mobile)) = Some n" using n(1) v1 login_key_apart by simp
  have sha: "sys_sha256 (w_sys w1) = sys_sha256 (w_sys w)" using s1 same_sys_fields(2) by blast
  note new = registered_login [OF u _ env]
  have free: "\<forall>u\<in>set (t_users T). \<not> se_same E (u_mobile u) mobile" using room by (simp add: room_for_def)
  note login = login_after [OF on1 ok1 al1 cf(1) n1 n(2,3) v(1)]
  have "\<exists>b w2. LoginByPassword (auth_service config) mobile pw w1 = (Inr (Result_Ok b), w2) \<and> auth_user b = u\<lparr>u_password_hash := []\<rparr>"
    using login [OF v(2)] new(1,2) [OF free] by (auto simp: login_result_def sha IsOk_def)
  moreover have "\<exists>r w2. LoginByPassword (auth_service config) mobile pw' w1 = (Inr r, w2) \<and> code r = WrongPassword"
    if "IsValidPassword pw' (cfg_password config) = None" "\<forall>salt. sys_sha256 (w_sys w) (salt @ pw') \<noteq> sys_sha256 (w_sys w) (salt @ pw)" for pw'
    using login [OF that(1)] new(3) [OF free, of pw'] that(2) by (auto simp: login_result_def sha)
  moreover have "u_mobile u = mobile" "u_display_name u = name" "u_role u = User" using u(1) by (simp_all add: registered_def)
  ultimately show ?thesis using 1 r by auto
qed

theorem registered_user_can_log_in_witness:
  "\<exists>a w1. AuthService_Register (auth_service config_once) ''13800138000'' ''123456'' ''abc12345'' ''alice''
        (mem_world no_rows [CaptchaKey Register ''13800138000'' \<mapsto> ''123456'']) = (Inr (Result_Ok a), w1)
    \<and> (\<exists>b w2. LoginByPassword (auth_service config_once) ''13800138000'' ''abc12345'' w1 = (Inr (Result_Ok b), w2) \<and> auth_user b = auth_user a)
    \<and> (\<exists>r w2. LoginByPassword (auth_service config_once) ''13800138000'' ''abc12346'' w1 = (Inr r, w2) \<and> code r = WrongPassword)"
proof -
  let ?w = "mem_world no_rows [CaptchaKey Register ''13800138000'' \<mapsto> ''123456'']"
  have c: "cfg_sms config_once = SmsConfig_default" by (simp add: config_once_def Config_default_def)
  have v: "IsValidMobile ''13800138000'' = None" "IsValidPassword ''abc12345'' (cfg_password config_once) = None"
    "IsValidPassword ''abc12346'' (cfg_password config_once) = None"
    "IsValidVerifyCode ''123456'' (cfg_sms config_once) = None" "IsValidDisplayName ''alice'' = None" by code_simp+
  have sms: "sms_config_ok (cfg_sms config_once)" "sms_inv (cfg_sms config_once) (rc_state (w_redis ?w))"
    using sms_config_default_ok by (simp_all add: c sms_inv_def attempts_def mem_world_def SmsConfig_default_def)
  have r: "rc_state (w_redis ?w) (LockKey Register ''13800138000'') = None"
    "rc_state (w_redis ?w) (CaptchaKey Register ''13800138000'') = Some ''123456''" by (simp_all add: mem_world_def)
  have "login_key ''13800138000'' \<noteq> CaptchaKey Register ''13800138000''" by (simp add: login_key_def CaptchaKey_def)
  then have n: "counter (rc_state (w_redis ?w) (login_key ''13800138000'')) = Some 0" "(0 :: int) < max_failed_attempts (cfg_login config_once)"
    by (simp_all add: mem_world_def config_once_login)
  have room: "room_for mem_env (w_sys ?w) ''13800138000'' ''alice'' no_rows"
    by (simp add: room_for_def no_rows_def fresh_ids_def in_int64_def column_ok_def mem_env_def)
  have sv: "serving mem_env fst (\<lambda>s. {1, 2}) (\<lambda>s. s) (\<lambda>_. True) 2 no_rows ?w" by (rule mem_serving) (simp_all add: no_rows_def)
  have "sys_sha256 (w_sys ?w) (salt @ ''abc12346'') \<noteq> sys_sha256 (w_sys ?w) (salt @ ''abc12345'')" for salt
    by (simp add: mem_world_def mem_sys_def)
  with registered_user_can_log_in [where C = "\<lambda>s. s", OF sv config_once_login(1) sms v(1,2,4,5) r room n(1) order_refl n(2)] v(3)
  show ?thesis by blast
qed

lemma reset_login:
  assumes T': "reset_tables E mobile h now T T'" and env: "env_ok E" and ok: "\<forall>u\<in>set (t_users T). user_ok u"
    and h: "h = ''$sha256$'' @ hex_bytes salt @ ''$'' @ hex_bytes (sha256 (hex_bytes salt @ pw))"
  shows "login_spec E sha256 mobile pw T' = (if u_disabled (the_user E mobile T) then UserDisabled else Ok)"
    and "(\<And>salt. sha256 (salt @ pw') \<noteq> sha256 (salt @ pw)) \<Longrightarrow> login_spec E sha256 mobile pw' T' \<noteq> Ok"
proof -
  let ?P = "\<lambda>u. se_same E (u_mobile u) mobile"
  let ?u = "the_user E mobile T"
  let ?g = "changed_user E now (update_params (?u\<lparr>u_password_hash := h\<rparr>))"
  obtain us where us: "filter ?P (t_users T) = ?u # us"
    using T' by (cases "filter ?P (t_users T)") (auto simp: reset_tables_def the_user_def)
  then have "?u \<in> set (filter ?P (t_users T))" by simp
  then have u: "user_ok ?u" using ok by simp
  have "filter ?P (t_users T') = map ?g (filter ?P (t_users T))"
    using T' by (simp add: reset_tables_def filter_map comp_def changed_user_keeps)
  then have f: "filter ?P (t_users T') = ?g ?u # map ?g us" using us by simp
  note row = changed_user_hash [OF env u, of now h]
  note verify = PasswordHelper_Verify_hash [of sha256 _ salt "sha256 (hex_bytes salt @ pw)", folded h]
  show "login_spec E sha256 mobile pw T' = (if u_disabled ?u then UserDisabled else Ok)"
    using row verify unfolding login_spec_def f by simp
  show "(\<And>salt. sha256 (salt @ pw') \<noteq> sha256 (salt @ pw)) \<Longrightarrow> login_spec E sha256 mobile pw' T' \<noteq> Ok"
    using row verify unfolding login_spec_def f by simp
qed

lemma refresh_refused:
  fixes w :: "('s, 'e, 'r) world"
  assumes on: "db_on E V live (Suc k) T w" "\<forall>u\<in>set (t_users T). user_ok u"
    and none: "\<not> known_hash E (hex_bytes (sys_sha256 (w_sys w) t)) T"
    and run: "AuthService_RefreshToken (auth_service config) t w = (Inr x, w')"
  shows "\<not> IsOk x"
proof -
  have "runs E V live {} (Suc k) T (w_sys w, w_redis w) (AuthService_RefreshToken (auth_service config) t) (\<lambda>r T' f'. \<forall>x. r = Inr x \<longrightarrow> \<not> IsOk x)"
    using none by (intro runs_RefreshToken [OF on(2)]) auto
  then show ?thesis by (rule runsE [OF _ on(1)]) (use run in auto)
qed

text \<open>C5: A reset of the password takes effect everywhere. When it succeeds, the new password logs the
  account in (unless it is disabled), every password with another digest is refused, the count of
  failed logins starts anew, and no refresh token whose session belonged to the account buys new
  tokens.\<close>

theorem reset_password_takes_effect:
  fixes w :: "('s, 'e, 'r) world"
  assumes sv: "serving E V live C up 1 T w"
    and cf: "login_config_ok (cfg_login config)" "sms_config_ok (cfg_sms config)" "sms_inv (cfg_sms config) (C (rc_state (w_redis w)))"
    and run: "AuthService_ResetPassword (auth_service config) mobile c pw w = (Inr r, w1)" "IsOk r"
  shows "(\<exists>x w2. LoginByPassword (auth_service config) mobile pw w1 = (Inr x, w2)
        \<and> code x = (if u_disabled (the_user E mobile T) then UserDisabled else Ok))
    \<and> (\<forall>pw'. IsValidPassword pw' (cfg_password config) = None \<longrightarrow> (\<forall>salt. sys_sha256 (w_sys w) (salt @ pw') \<noteq> sys_sha256 (w_sys w) (salt @ pw)) \<longrightarrow>
         (\<exists>x w2. LoginByPassword (auth_service config) mobile pw' w1 = (Inr x, w2) \<and> \<not> IsOk x))
    \<and> (\<forall>t x w2. (\<forall>s\<in>set (t_sessions T). se_same E (s_token_hash s) (hex_bytes (sys_sha256 (w_sys w) t)) \<longrightarrow> s_user_id s = u_id (the_user E mobile T)) \<longrightarrow>
         AuthService_RefreshToken (auth_service config) t w1 = (Inr x, w2) \<longrightarrow> \<not> IsOk x)"
proof -
  let ?f = "(w_sys w, w_redis w)"
  have on: "db_on E V live (Suc 0) T w" and al: "redis_alive C up (w_redis w)" and env: "env_ok E" and ok: "\<forall>u\<in>set (t_users T). user_ok u"
    using sv by (auto simp: serving_def)
  have "runs E V live {} (Suc 0) T ?f (AuthService_ResetPassword (auth_service config) mobile c pw) (\<lambda>r T' f'. \<forall>x. r = Inr x \<longrightarrow> IsOk x \<longrightarrow>
      (\<exists>h now salt. reset_tables E mobile h now T T' \<and> (\<forall>u\<in>set (t_users T'). user_ok u)
       \<and> h = ''$sha256$'' @ hex_bytes salt @ ''$'' @ hex_bytes (sys_sha256 (w_sys w) (hex_bytes salt @ pw))
       \<and> IsValidMobile mobile = None \<and> IsValidPassword pw (cfg_password config) = None
       \<and> same_sys (w_sys w) (fst f') \<and> redis_alive C up (snd f') \<and> held C f' (login_key mobile) = None))"
    using al cf by (intro runs_ResetPassword [of C up, OF _ _ _ env ok]) auto
  then obtain T' h now salt where on1: "db_on E V live (Suc 0) T' w1" and T': "reset_tables E mobile h now T T'" "\<forall>u\<in>set (t_users T'). user_ok u"
    and h: "h = ''$sha256$'' @ hex_bytes salt @ ''$'' @ hex_bytes (sys_sha256 (w_sys w) (hex_bytes salt @ pw))"
    and v: "IsValidMobile mobile = None" "IsValidPassword pw (cfg_password config) = None"
    and s1: "same_sys (w_sys w) (w_sys w1)" and al1: "redis_alive C up (w_redis w1)" and n: "C (rc_state (w_redis w1)) (login_key mobile) = None"
    by (rule runsE [where w = w]) (use on run in auto)
  have sha: "sys_sha256 (w_sys w1) = sys_sha256 (w_sys w)" using s1 same_sys_fields(2) by blast
  note login = login_after [OF on1 T'(2) al1 cf(1) _ _ _ v(1), of 0]
  have n0: "counter (C (rc_state (w_redis w1)) (login_key mobile)) = Some 0" "0 < max_failed_attempts (cfg_login config)"
    using n cf(1) by (simp_all add: login_config_ok_def)
  note spec = reset_login [where ?sha256.0 = "sys_sha256 (w_sys w)" and pw = pw and salt = salt, OF T'(1) env ok h]
  have "\<exists>x w2. LoginByPassword (auth_service config) mobile pw w1 = (Inr x, w2)
        \<and> code x = (if u_disabled (the_user E mobile T) then UserDisabled else Ok)"
    using login [OF n0(1) order_refl n0(2) v(2)] spec(1) by (auto simp: login_result_def sha)
  moreover have "\<exists>x w2. LoginByPassword (auth_service config) mobile pw' w1 = (Inr x, w2) \<and> \<not> IsOk x"
    if "IsValidPassword pw' (cfg_password config) = None" "\<forall>salt. sys_sha256 (w_sys w) (salt @ pw') \<noteq> sys_sha256 (w_sys w) (salt @ pw)" for pw'
    using login [OF n0(1) order_refl n0(2) that(1)] spec(2) [of pw'] that(2) by (auto simp: login_result_def sha IsOk_def)
  moreover have "\<not> IsOk x"
    if own: "\<forall>s\<in>set (t_sessions T). se_same E (s_token_hash s) (hex_bytes (sys_sha256 (w_sys w) t)) \<longrightarrow> s_user_id s = u_id (the_user E mobile T)"
      and "AuthService_RefreshToken (auth_service config) t w1 = (Inr x, w2)" for t x w2
    using refresh_refused [OF on1 T'(2) _ that(2)] own T'(1) by (auto simp: reset_tables_def known_hash_def sha)
  ultimately show ?thesis by blast
qed

lemma reset_succeeds:
  fixes w :: "('s, 'e, 'r) world"
  assumes sv: "serving E V live C up 1 T w" and sms: "sms_config_ok (cfg_sms config)" "sms_inv (cfg_sms config) (C (rc_state (w_redis w)))"
    and "\<not> reset_refused config E (sys_sha256 (w_sys w)) (C (rc_state (w_redis w))) mobile c pw T"
  shows "\<exists>w1. AuthService_ResetPassword (auth_service config) mobile c pw w = (Inr (Result_Ok ()), w1)"
proof -
  have on: "db_on E V live (Suc 0) T w" and al: "redis_alive C up (w_redis w)" and env: "env_ok E" and ok: "\<forall>u\<in>set (t_users T). user_ok u"
    using sv by (auto simp: serving_def)
  have "runs E V live {} (Suc 0) T (w_sys w, w_redis w) (AuthService_ResetPassword (auth_service config) mobile c pw) (\<lambda>r T' f'. r = Inr (Result_Ok ()))"
    using al sms assms(4) by (intro runs_ResetPassword [of C up, OF _ _ _ env ok]) auto
  then show ?thesis by (rule runsE [OF _ on]) auto
qed

text \<open>An account without a usable password, and a session of it.\<close>

definition one_row :: tables where
  "one_row = no_rows\<lparr>t_users := [user_example], t_sessions := [\<lparr>s_id = 1, s_user_id = 42, s_token_hash = hex_bytes ''x'',
     s_expires_at = ''2026-01-01 00:00:00'', s_created_at = ''2025-01-01 00:00:00''\<rparr>]\<rparr>"

lemma one_row_facts:
  "\<forall>u\<in>set (t_users one_row). user_ok u" "filter (\<lambda>u. se_same mem_env (u_mobile u) ''13800138000'') (t_users one_row) = [user_example]"
  "the_user mem_env ''13800138000'' one_row = user_example" "\<not> u_disabled user_example" "u_password_hash user_example = []" "u_id user_example = 42"
  by (simp_all add: one_row_def user_example_def UserEntity_default_def user_ok_def in_int64_def in_int32_def mem_env_def the_user_def)

theorem reset_password_takes_effect_witness:
  "\<exists>w1. AuthService_ResetPassword (auth_service config_once) ''13800138000'' ''123456'' ''abc12345''
        (mem_world one_row [CaptchaKey ResetPassword ''13800138000'' \<mapsto> ''123456'']) = (Inr (Result_Ok ()), w1)
    \<and> (\<exists>x w2. LoginByPassword (auth_service config_once) ''13800138000'' ''abc12345'' w1 = (Inr x, w2) \<and> code x = Ok)
    \<and> (\<exists>x w2. LoginByPassword (auth_service config_once) ''13800138000'' ''abc12346'' w1 = (Inr x, w2) \<and> \<not> IsOk x)
    \<and> (\<forall>x w2. AuthService_RefreshToken (auth_service config_once) ''x'' w1 = (Inr x, w2) \<longrightarrow> \<not> IsOk x)"
proof -
  let ?w = "mem_world one_row [CaptchaKey ResetPassword ''13800138000'' \<mapsto> ''123456'']" and ?m = "''13800138000''"
  have c: "cfg_sms config_once = SmsConfig_default" by (simp add: config_once_def Config_default_def)
  have v: "IsValidMobile ?m = None" "IsValidPassword ''abc12345'' (cfg_password config_once) = None"
    "IsValidPassword ''abc12346'' (cfg_password config_once) = None" "IsValidVerifyCode ''123456'' (cfg_sms config_once) = None" by code_simp+
  have sms: "sms_config_ok (cfg_sms config_once)" "sms_inv (cfg_sms config_once) (rc_state (w_redis ?w))"
    using sms_config_default_ok by (simp_all add: c sms_inv_def attempts_def mem_world_def SmsConfig_default_def)
  have sv: "serving mem_env fst (\<lambda>s. {1, 2}) (\<lambda>s. s) (\<lambda>_. True) 1 one_row ?w" using one_row_facts(1) by (intro mem_serving) simp_all
  have "\<not> reset_refused config_once mem_env (sys_sha256 (w_sys ?w)) (rc_state (w_redis ?w)) ?m ''123456'' ''abc12345'' one_row"
    using v one_row_facts by (simp add: reset_refused_def verify_spec_def mem_world_def takes_def Let_def) (simp add: mem_env_def)
  then obtain w1 where run: "AuthService_ResetPassword (auth_service config_once) ?m ''123456'' ''abc12345'' ?w = (Inr (Result_Ok ()), w1)"
    using reset_succeeds [where C = "\<lambda>s. s", OF sv sms] by blast
  have sha: "sys_sha256 (w_sys ?w) = (\<lambda>x. x)" by (simp add: mem_world_def mem_sys_def)
  have own: "\<forall>s\<in>set (t_sessions one_row). se_same mem_env (s_token_hash s) (hex_bytes ''x'') \<longrightarrow> s_user_id s = u_id (the_user mem_env ?m one_row)"
    by (simp add: one_row_facts) (simp add: one_row_def)
  note all = reset_password_takes_effect [where C = "\<lambda>s. s", OF sv config_once_login(1) sms run IsOk_Ok, unfolded sha one_row_facts(3)]
  have "\<forall>salt. salt @ ''abc12346'' \<noteq> salt @ ''abc12345''" by simp
  with all v(3) own one_row_facts show ?thesis using run by auto
qed

end
