(* ===== verification/Revocation.thy ===== *)
theory Revocation
  imports Accounts
begin

section \<open>A revoked token stays revoked\<close>

text \<open>
  Sequences of calls of the authentication service (\<open>src/services/auth_service.cpp\<close>): a refresh token
  that was logged out or already used never buys new tokens again, whatever calls follow, in
  whatever order, with whatever answers of the cache.
\<close>

subsection \<open>Calls\<close>

datatype auth_call =
    Call_SendVerifyCode string SmsScene
  | Call_Register string string string string
  | Call_LoginByPassword string string
  | Call_LoginByCode string string
  | Call_ResetPassword string string string
  | Call_RefreshToken string
  | Call_Logout string
  | Call_LogoutAll string

fun after_call :: "Config \<Rightarrow> auth_call \<Rightarrow> ('s, 'e, 'r) world \<Rightarrow> ('s, 'e, 'r) world" where
  "after_call config (Call_SendVerifyCode mobile scene) w = snd (SendVerifyCode (auth_service config) mobile scene w)"
| "after_call config (Call_Register mobile c pw name) w = snd (AuthService_Register (auth_service config) mobile c pw name w)"
| "after_call config (Call_LoginByPassword mobile pw) w = snd (LoginByPassword (auth_service config) mobile pw w)"
| "after_call config (Call_LoginByCode mobile c) w = snd (LoginByCode (auth_service config) mobile c w)"
| "after_call config (Call_ResetPassword mobile c pw) w = snd (AuthService_ResetPassword (auth_service config) mobile c pw w)"
| "after_call config (Call_RefreshToken t) w = snd (AuthService_RefreshToken (auth_service config) t w)"
| "after_call config (Call_Logout t) w = snd (Logout (auth_service config) t w)"
| "after_call config (Call_LogoutAll uuid) w = snd (LogoutAll (auth_service config) uuid w)"

definition after_calls :: "Config \<Rightarrow> auth_call list \<Rightarrow> ('s, 'e, 'r) world \<Rightarrow> ('s, 'e, 'r) world" where
  "after_calls config = fold (after_call config)"

text \<open>The refresh tokens that the answers of the calls carry.\<close>

definition tokens_of :: "('a \<Rightarrow> TokenPair) \<Rightarrow> 'a Result \<Rightarrow> string list" where
  "tokens_of pair r = (case data r of None \<Rightarrow> [] | Some a \<Rightarrow> [refresh_token (pair a)])"

definition answered :: "('a \<Rightarrow> TokenPair) \<Rightarrow> exn + 'a Result \<Rightarrow> string list" where
  "answered pair res = (case res of Inl e \<Rightarrow> [] | Inr r \<Rightarrow> tokens_of pair r)"

fun issued_by :: "Config \<Rightarrow> auth_call \<Rightarrow> ('s, 'e, 'r) world \<Rightarrow> string list" where
  "issued_by config (Call_Register mobile c pw name) w = answered auth_tokens (fst (AuthService_Register (auth_service config) mobile c pw name w))"
| "issued_by config (Call_LoginByPassword mobile pw) w = answered auth_tokens (fst (LoginByPassword (auth_service config) mobile pw w))"
| "issued_by config (Call_LoginByCode mobile c) w = answered auth_tokens (fst (LoginByCode (auth_service config) mobile c w))"
| "issued_by config (Call_RefreshToken t) w = answered (\<lambda>p. p) (fst (AuthService_RefreshToken (auth_service config) t w))"
| "issued_by config _ w = []"

primrec tokens_issued :: "Config \<Rightarrow> auth_call list \<Rightarrow> ('s, 'e, 'r) world \<Rightarrow> string list" where
  "tokens_issued config [] w = []"
| "tokens_issued config (call # calls) w = issued_by config call w @ tokens_issued config calls (after_call config call w)"

subsection \<open>What every call keeps\<close>

text \<open>The hash \<open>h\<close> is in no row of the table of sessions.\<close>

definition absent :: "'e sys \<Rightarrow> sql_env \<Rightarrow> string \<Rightarrow> tables \<Rightarrow> ('e, 'r) others \<Rightarrow> bool" where
  "absent s0 E h T f \<longleftrightarrow> (\<forall>u\<in>set (t_users T). user_ok u) \<and> \<not> known_hash E h T \<and> same_sys s0 (fst f)"

definition keeps :: "'e sys \<Rightarrow> sql_env \<Rightarrow> string \<Rightarrow> ('s \<Rightarrow> tables) \<Rightarrow> ('s \<Rightarrow> nat set) \<Rightarrow> (('s, 'e, 'r) world, 'a) io \<Rightarrow> bool" where
  "keeps s0 E h V live c \<longleftrightarrow> (\<forall>T f. absent s0 E h T f \<longrightarrow> runs E V live {} 2 T f c (\<lambda>r. absent s0 E h))"

lemma keepsI: "(\<And>T f. absent s0 E h T f \<Longrightarrow> runs E V live {} (Suc (Suc 0)) T f c (\<lambda>r. absent s0 E h)) \<Longrightarrow> keeps s0 E h V live c"
  by (simp add: keeps_def numeral_2_eq_2)

lemma keepsD: "keeps s0 E h V live c \<Longrightarrow> absent s0 E h T f \<Longrightarrow> runs E V live {} (Suc (Suc 0)) T f c (\<lambda>r. absent s0 E h)"
  unfolding keeps_def numeral_2_eq_2 by blast

lemma absent_sys: "absent s0 E h T f \<Longrightarrow> same_sys (fst f) s' \<Longrightarrow> absent s0 E h T (s', d)"
  by (auto simp: absent_def intro: same_sys_trans)

lemma keeps_pure: "keeps s0 E h V live (ret a)" "keeps s0 E h V live (lift r)" "keeps s0 E h V live (throw e)"
  by (auto intro!: keepsI runs_ret runs_lift simp: throw_def) (auto simp: runs_def)

lemma keeps_bindE: "keeps s0 E h V live c \<Longrightarrow> (\<And>a. keeps s0 E h V live (g a)) \<Longrightarrow> keeps s0 E h V live (bindE c g)"
  by (rule keepsI, rule runs_bindE, rule runs_conseq [OF keepsD], assumption+) (auto split: sum.splits intro: keepsD)

lemma keeps_If: "keeps s0 E h V live c \<Longrightarrow> keeps s0 E h V live d \<Longrightarrow> keeps s0 E h V live (if b then c else d)"
  by simp

lemma keeps_option: "keeps s0 E h V live c \<Longrightarrow> (\<And>x. keeps s0 E h V live (g x)) \<Longrightarrow> keeps s0 E h V live (case v of None \<Rightarrow> c | Some x \<Rightarrow> g x)"
  by (cases v) simp_all

lemma keeps_chain:
  "keeps s0 E h V live c \<Longrightarrow> keeps s0 E h V live (require v c)"
  "keeps s0 E h V live d \<Longrightarrow> keeps s0 E h V live c \<Longrightarrow> keeps s0 E h V live (bindV d c)"
  "keeps s0 E h V live m \<Longrightarrow> (\<And>a. keeps s0 E h V live (g a)) \<Longrightarrow> keeps s0 E h V live (bindR m g)"
  "keeps s0 E h V live (Value x)"
  unfolding require_def bindV_def bindR_def Value_def
  by (intro keeps_bindE keeps_If keeps_option keeps_pure; assumption)+

lemma keeps_in_sys: "sys_total m \<Longrightarrow> keeps s0 E h V live (in_sys m)"
  by (rule keepsI, rule runs_in_sys) (auto intro: absent_sys)

text \<open>The calls of the Redis client, whatever they answer.\<close>

lemma keeps_zoom:
  fixes V :: "'s \<Rightarrow> tables" and m :: "('r redis, 'a) io" and s0 :: "'e sys"
  shows "keeps s0 E h V live (zoom w_redis (\<lambda>p w. w\<lparr>w_redis := p\<rparr>) m)"
  unfolding keeps_def runs_def
proof (intro allI impI)
  fix T and f :: "('e, 'r) others" and w :: "('s, 'e, 'r) world"
  assume a: "absent s0 E h T f" and w: "db_on E V live 2 T w" "(w_sys w, w_redis w) = f"
  obtain r d where m: "m (w_redis w) = (r, d)" by (rule prod.exhaust)
  show "\<exists>r T' w'. zoom w_redis (\<lambda>p w. w\<lparr>w_redis := p\<rparr>) m w = (r, w') \<and> db_on E V live 2 T' w'
      \<and> {} \<subseteq> live (my_state (w_pool w')) \<and> absent s0 E h T' (w_sys w', w_redis w')"
    using a w m db_on_pool [OF w(1), of "w\<lparr>w_redis := d\<rparr>"] by (auto simp: zoom_def absent_def)
qed

lemma keeps_redis:
  "keeps s0 E h V live (rd_SetPx redis_cli k v t)" "keeps s0 E h V live (rd_Get redis_cli k)" "keeps s0 E h V live (rd_Exists redis_cli k)"
  "keeps s0 E h V live (rd_Del redis_cli k)" "keeps s0 E h V live (rd_PExpire redis_cli k t)" "keeps s0 E h V live (rd_PTTL redis_cli k)"
  "keeps s0 E h V live (rd_Incr redis_cli k)"
  by (simp_all add: redis_cli_def RedisClient_at_def keeps_zoom)

lemmas keeps_rules = keeps_bindE keeps_If keeps_option keeps_pure keeps_chain keeps_redis

lemma keeps_cache:
  "keeps s0 E h V live (CheckLoginFailedAttempts (auth_service config) mobile)"
  "keeps s0 E h V live (RecordLoginFailure (auth_service config) mobile)"
  "keeps s0 E h V live (ClearLoginFailure (auth_service config) mobile)"
  "keeps s0 E h V live (VerifyCaptcha redis_cli sms scene mobile c)"
  "keeps s0 E h V live (SendCaptcha redis_cli sms scene mobile)"
  unfolding CheckLoginFailedAttempts_def RecordLoginFailure_def ClearLoginFailure_def auth_service_sel Let_def
    VerifyCaptcha_def wrong_code_def safeTTLSeconds_def SendCaptcha_def GenerateCaptcha_def DoSend_def
  by (intro keeps_rules)+

text \<open>The operations of the repositories.\<close>

lemma keeps_find:
  "keeps s0 E h V live (UserDB_FindByMobile m)" "keeps s0 E h V live (UserDB_FindByUUID uu)" "keeps s0 E h V live (UserDB_FindById i)"
  "keeps s0 E h V live (UserDB_ExistsByMobile m)"
  by (intro keepsI runs_find runs_ExistsByMobile; auto simp: absent_def)+

lemma keeps_delete: "keeps s0 E h V live (DeleteByTokenHash x)" "keeps s0 E h V live (DeleteByUserId i)"
  by (intro keepsI runs_delete_sessions; auto simp: absent_def known_hash_def)+

lemma keeps_Create:
  assumes "env_ok E" and "user_ok u"
  shows "keeps s0 E h V live (UserDB_Create u :: (('s, 'e, 'r) world, UserEntity Result) io)"
proof (intro keepsI runs_Create [OF assms])
  fix T and f :: "('e, 'r) others" and uuid s' T0
  assume a: "absent s0 E h T f" and s': "same_sys (fst f) s'" and T0: "same_rows T T0"
  have "(\<forall>v\<in>set (t_users (snd (create_user E uuid u T0))). user_ok v) \<and> t_sessions (snd (create_user E uuid u T0)) = t_sessions T"
    using a T0 assms(2) by (auto simp: create_user_def absent_def same_rows_def new_user_def user_ok_def fresh_ids_def)
  then show "absent s0 E h (snd (create_user E uuid u T0)) (s', snd f)"
    using a s' by (auto simp: absent_def known_hash_def intro: same_sys_trans)
qed (simp add: absent_def)

subsection \<open>The calls that issue tokens\<close>

text \<open>None of the tokens has the hash \<open>h\<close>; and a computation that keeps \<open>h\<close> out of the table unless its
  answer carries such a token.\<close>

definition others_than :: "'e sys \<Rightarrow> sql_env \<Rightarrow> string \<Rightarrow> string list \<Rightarrow> bool" where
  "others_than s0 E h ts \<longleftrightarrow> (\<forall>t\<in>set ts. \<not> se_same E (hex_bytes (sys_sha256 s0 t)) h)"

definition keeps_new :: "'e sys \<Rightarrow> sql_env \<Rightarrow> string \<Rightarrow> ('s \<Rightarrow> tables) \<Rightarrow> ('s \<Rightarrow> nat set) \<Rightarrow> ('a \<Rightarrow> TokenPair)
    \<Rightarrow> (('s, 'e, 'r) world, 'a Result) io \<Rightarrow> bool" where
  "keeps_new s0 E h V live pair c \<longleftrightarrow> (\<forall>T f. absent s0 E h T f \<longrightarrow> runs E V live {} 2 T f c
     (\<lambda>r T' f'. others_than s0 E h (answered pair r) \<longrightarrow> absent s0 E h T' f'))"

lemma keeps_newI:
  "(\<And>T f. absent s0 E h T f \<Longrightarrow> runs E V live {} (Suc (Suc 0)) T f c (\<lambda>r T' f'. others_than s0 E h (answered pair r) \<longrightarrow> absent s0 E h T' f'))
    \<Longrightarrow> keeps_new s0 E h V live pair c"
  by (simp add: keeps_new_def numeral_2_eq_2)

lemma keeps_newD:
  "keeps_new s0 E h V live pair c \<Longrightarrow> absent s0 E h T f \<Longrightarrow>
    runs E V live {} (Suc (Suc 0)) T f c (\<lambda>r T' f'. others_than s0 E h (answered pair r) \<longrightarrow> absent s0 E h T' f')"
  unfolding keeps_new_def numeral_2_eq_2 by blast

lemma keeps_new_keeps: "keeps s0 E h V live c \<Longrightarrow> keeps_new s0 E h V live pair c"
  by (rule keeps_newI, rule runs_conseq [OF keepsD]) auto

lemma keeps_new_bindE:
  "keeps s0 E h V live c \<Longrightarrow> (\<And>a. keeps_new s0 E h V live pair (g a)) \<Longrightarrow> keeps_new s0 E h V live pair (bindE c g)"
  by (rule keeps_newI, rule runs_bindE, rule runs_conseq [OF keepsD], assumption+) (auto split: sum.splits intro: keeps_newD)

lemma keeps_new_If:
  "keeps_new s0 E h V live pair c \<Longrightarrow> keeps_new s0 E h V live pair d \<Longrightarrow> keeps_new s0 E h V live pair (if b then c else d)"
  by simp

lemmas keeps_new_pure = keeps_pure [THEN keeps_new_keeps]

lemma keeps_new_option:
  "keeps_new s0 E h V live pair c \<Longrightarrow> (\<And>x. keeps_new s0 E h V live pair (g x))
    \<Longrightarrow> keeps_new s0 E h V live pair (case v of None \<Rightarrow> c | Some x \<Rightarrow> g x)"
  by (cases v) simp_all

lemma keeps_new_chain:
  "keeps_new s0 E h V live pair c \<Longrightarrow> keeps_new s0 E h V live pair (require v c)"
  "keeps s0 E h V live d \<Longrightarrow> keeps_new s0 E h V live pair c \<Longrightarrow> keeps_new s0 E h V live pair (bindV d c)"
  "keeps s0 E h V live m \<Longrightarrow> (\<And>a. keeps_new s0 E h V live pair (g a)) \<Longrightarrow> keeps_new s0 E h V live pair (bindR m g)"
  unfolding require_def bindV_def bindR_def
  by (intro keeps_new_bindE keeps_new_If keeps_new_option keeps_new_pure; assumption)+

lemmas keeps_new_rules = keeps_new_bindE keeps_new_If keeps_new_pure keeps_new_chain

text \<open>A session that is added under another hash.\<close>

lemma absent_added:
  assumes "absent s0 E h T f" and "session_added E n x T T1" and "\<not> se_same E x h" and "same_sys (fst f) (fst f')"
  shows "absent s0 E h T1 f'"
  using assms by (auto simp: absent_def session_added_def known_hash_def intro: same_sys_trans)

lemma absent_sha: "absent s0 E h T f \<Longrightarrow> sys_sha256 (fst f) = sys_sha256 s0"
  using same_sys_fields(2) by (auto simp: absent_def)

lemma keeps_issue_tokens:
  fixes s0 :: "'e sys" and V :: "'s \<Rightarrow> tables"
  shows "keeps_new s0 E h V live auth_tokens (issue_tokens (auth_service config) user :: (('s, 'e, 'r) world, AuthResult Result) io)"
proof (intro keeps_newI runs_issue_tokens impI)
  fix T and f :: "('e, 'r) others" and toks :: TokenPair and T1 s'
  assume a: "absent s0 E h T f" and s': "same_sys (fst f) s'"
    and add: "session_added E (u_id user) (hex_bytes (sys_sha256 (fst f) (refresh_token toks))) T T1"
    and new: "others_than s0 E h (answered auth_tokens (Inr (Result_Ok \<lparr>auth_user = user\<lparr>u_password_hash := []\<rparr>, auth_tokens = toks\<rparr>)))"
  have "\<not> se_same E (hex_bytes (sys_sha256 (fst f) (refresh_token toks))) h"
    using new by (simp add: absent_sha [OF a] others_than_def answered_def tokens_of_def)
  then show "absent s0 E h T1 (s', snd f)" using s' by (intro absent_added [OF a add]) simp_all
qed

lemma keeps_RefreshToken:
  fixes s0 :: "'e sys" and V :: "'s \<Rightarrow> tables"
  shows "keeps_new s0 E h V live (\<lambda>p. p) (AuthService_RefreshToken (auth_service config) t :: (('s, 'e, 'r) world, TokenPair Result) io)"
proof (rule keeps_newI)
  fix T and f :: "('e, 'r) others"
  assume a: "absent s0 E h T f"
  show "runs E V live {} (Suc (Suc 0)) T f (AuthService_RefreshToken (auth_service config) t)
      (\<lambda>r T' f'. others_than s0 E h (answered (\<lambda>p. p) r) \<longrightarrow> absent s0 E h T' f')"
  proof (intro runs_RefreshToken impI)
    show "\<forall>u\<in>set (t_users T). user_ok u" using a by (simp add: absent_def)
  next
    fix r and f' :: "('e, 'r) others"
    assume "same_sys (fst f) (fst f')" "snd f' = snd f"
    then show "absent s0 E h T f'" using a by (auto simp: absent_def intro: same_sys_trans)
  next
    fix p n T' and f' :: "('e, 'r) others"
    let ?T = "T\<lparr>t_sessions := filter (\<lambda>s. \<not> se_same E (s_token_hash s) (hex_bytes (sys_sha256 (fst f) t))) (t_sessions T)\<rparr>"
    assume rot: "session_rotated E (hex_bytes (sys_sha256 (fst f) t)) n (hex_bytes (sys_sha256 (fst f) (refresh_token p))) T T'"
      and s': "same_sys (fst f) (fst f')" and new: "others_than s0 E h (answered (\<lambda>p. p) (Inr (Result_Ok p)))"
    have a1: "absent s0 E h ?T f" using a by (auto simp: absent_def known_hash_def)
    have "\<not> se_same E (hex_bytes (sys_sha256 (fst f) (refresh_token p))) h"
      using new by (simp add: absent_sha [OF a] others_than_def answered_def tokens_of_def)
    then show "absent s0 E h T' f'" using s' by (intro absent_added [OF a1 rot [unfolded session_rotated_def]])
  qed
qed

text \<open>The row that is updated was found in the table.\<close>

lemma runs_update_found:
  assumes a: "absent s0 E h T f" and env: "env_ok E" and g: "keeps s0 E h V live g" and u: "user_ok u" "u \<in> set (t_users T)"
  shows "runs E V live {} (Suc (Suc 0)) T f
     (bindE (in_sys (PasswordHelper_Hash pw)) (\<lambda>x. bindV (UserDB_Update (u\<lparr>u_password_hash := x\<rparr>)) g)) (\<lambda>r. absent s0 E h)"
proof (intro runs_bindE runs_in_sys sys_total_Hash)
  fix x s'
  assume s': "same_sys (fst f) s'"
  have ok: "\<forall>u\<in>set (t_users T). user_ok u" using a by (simp add: absent_def)
  have a1: "absent s0 E h T1 (s', snd f)" if "\<forall>u\<in>set (t_users T1). user_ok u" "t_sessions T1 = t_sessions T" for T1
    using a s' that by (auto simp: absent_def known_hash_def intro: same_sys_trans)
  show "case Inr x of Inl e \<Rightarrow> absent s0 E h T (s', snd f)
    | Inr x \<Rightarrow> runs E V live {} (Suc (Suc 0)) T (s', snd f) (bindV (UserDB_Update (u\<lparr>u_password_hash := x\<rparr>)) g) (\<lambda>r. absent s0 E h)"
    by simp (intro runs_bindV runs_change_hash [OF env ok u]; simp add: a1 keepsD [OF g])
qed

lemma keeps_ResetPassword:
  fixes V :: "'s \<Rightarrow> tables" and s0 :: "'e sys"
  assumes env: "env_ok E"
  shows "keeps s0 E h V live (AuthService_ResetPassword (auth_service config) mobile c pw :: (('s, 'e, 'r) world, unit Result) io)"
proof -
  have g: "keeps s0 E h V live (bindE (DeleteByUserId n) (\<lambda>revoke_res. bindE (ClearLoginFailure (auth_service config) mobile) (\<lambda>_. ret (Result_Ok ()))))" for n
    by (intro keeps_bindE keeps_delete keeps_cache keeps_pure)
  have "keeps s0 E h V live (bindE (UserDB_FindByMobile mobile) (\<lambda>user_res.
     if \<not> IsOk user_res then
       (if code user_res = UserNotFound then ret (Result_Fail UserNotFound m) else ret (Result_Fail (code user_res) (message user_res)))
     else bindE (Value user_res) (\<lambda>user.
       bindE (in_sys (PasswordHelper_Hash pw)) (\<lambda>x.
       bindV (UserDB_Update (user\<lparr>u_password_hash := x\<rparr>)) (
       bindE (DeleteByUserId (u_id user)) (\<lambda>revoke_res.
       bindE (ClearLoginFailure (auth_service config) mobile) (\<lambda>_. ret (Result_Ok ()))))))) :: (('s, 'e, 'r) world, unit Result) io)" (is "keeps _ _ _ _ _ ?c") for m
  proof (rule keepsI)
    fix T and f :: "('e, 'r) others"
    assume a: "absent s0 E h T f"
    let ?us = "filter (\<lambda>u. se_same E (u_mobile u) mobile) (t_users T)"
    have ok: "\<forall>u\<in>set (t_users T). user_ok u" using a by (simp add: absent_def)
    have upd: "runs E V live {} (Suc (Suc 0)) T f (bindE (in_sys (PasswordHelper_Hash pw)) (\<lambda>x.
       bindV (UserDB_Update (u\<lparr>u_password_hash := x\<rparr>)) (
       bindE (DeleteByUserId (u_id u)) (\<lambda>revoke_res.
       bindE (ClearLoginFailure (auth_service config) mobile) (\<lambda>_. ret (Result_Ok ())))))) (\<lambda>r. absent s0 E h)" if "?us = u # us" for u us
    proof -
      have "u \<in> set ?us" using that by simp
      then have "user_ok u" "u \<in> set (t_users T)" using ok by simp_all
      then show ?thesis by (rule runs_update_found [OF a env g])
    qed
    show "runs E V live {} (Suc (Suc 0)) T f ?c (\<lambda>r. absent s0 E h)"
      using a upd by (intro runs_bindE runs_find(1) [OF ok], cases ?us)
        (auto simp: found_def Value_def intro!: runs_ret runs_bindE [of _ _ _ _ _ _ _ "ret a" for a])
  qed
  then show ?thesis
    unfolding AuthService_ResetPassword_def auth_service_sel sms_service_def SmsService.simps user_db_def UserDB.simps
      password_helper_def PasswordHelper.simps token_repo_def TokenRepository.simps
    by (intro keeps_chain keeps_cache)
qed

lemma keeps_calls:
  "keeps s0 E h V live (SendVerifyCode (auth_service config) mobile scene)"
  "keeps s0 E h V live (Logout (auth_service config) t)"
  "keeps s0 E h V live (LogoutAll (auth_service config) uuid)"
  unfolding SendVerifyCode_def Logout_def LogoutAll_def auth_service_sel sms_service_def SmsService.simps user_db_def UserDB.simps
    token_repo_def TokenRepository.simps jwt_service_def JwtService.simps
  by (intro keeps_rules keeps_cache keeps_find keeps_delete keeps_in_sys sys_total_HashToken)+

lemma keeps_issuing_calls:
  assumes env: "env_ok E"
  shows "keeps_new s0 E h V live auth_tokens (AuthService_Register (auth_service config) mobile c pw name)"
    and "keeps_new s0 E h V live auth_tokens (LoginByPassword (auth_service config) mobile pw)"
    and "keeps_new s0 E h V live auth_tokens (LoginByCode (auth_service config) mobile c)"
  unfolding AuthService_Register_def LoginByPassword_def login_found_def LoginByCode_def auth_service_sel
    sms_service_def SmsService.simps user_db_def UserDB.simps password_helper_def PasswordHelper.simps
  by (intro keeps_new_rules keeps_rules keeps_cache keeps_find keeps_in_sys keeps_issue_tokens keeps_Create [OF env]
      user_ok_default sys_total_Hash sys_total_ask)+

subsection \<open>Sequences\<close>

lemma after_call_keeps:
  fixes w :: "('s, 'e, 'r) world"
  assumes env: "env_ok E" and on: "db_on E V live 2 T w" and a: "absent s0 E h T (w_sys w, w_redis w)"
    and new: "others_than s0 E h (issued_by config call w)"
  shows "\<exists>T'. db_on E V live 2 T' (after_call config call w) \<and> absent s0 E h T' (w_sys (after_call config call w), w_redis (after_call config call w))"
proof -
  have keep: "\<exists>T'. db_on E V live 2 T' (snd (c w)) \<and> absent s0 E h T' (w_sys (snd (c w)), w_redis (snd (c w)))"
    if "keeps s0 E h V live c" for c :: "(('s, 'e, 'r) world, 'a) io"
    by (rule runsE [OF keepsD [OF that a, folded numeral_2_eq_2] on]) auto
  have issue: "\<exists>T'. db_on E V live 2 T' (snd (c w)) \<and> absent s0 E h T' (w_sys (snd (c w)), w_redis (snd (c w)))"
    if "keeps_new s0 E h V live pair c" "others_than s0 E h (answered pair (fst (c w)))"
    for c :: "(('s, 'e, 'r) world, 'a Result) io" and pair
    by (rule runsE [OF keeps_newD [OF that(1) a, folded numeral_2_eq_2] on]) (use that(2) in auto)
  show ?thesis
    using new
    by (cases call)
      (simp_all add: keep keeps_calls keeps_ResetPassword [OF env] issue [OF keeps_RefreshToken]
        issue [OF keeps_issuing_calls(1) [OF env]] issue [OF keeps_issuing_calls(2) [OF env]] issue [OF keeps_issuing_calls(3) [OF env]])
qed

lemma after_calls_keeps:
  fixes w :: "('s, 'e, 'r) world"
  assumes "env_ok E" and "db_on E V live 2 T w" and "absent s0 E h T (w_sys w, w_redis w)"
    and "others_than s0 E h (tokens_issued config calls w)"
  shows "\<exists>T'. db_on E V live 2 T' (after_calls config calls w) \<and> absent s0 E h T' (w_sys (after_calls config calls w), w_redis (after_calls config calls w))"
  using assms(2-)
proof (induction calls arbitrary: w T)
  case Nil
  then show ?case by (auto simp: after_calls_def)
next
  case (Cons call calls)
  have new: "others_than s0 E h (issued_by config call w)" "others_than s0 E h (tokens_issued config calls (after_call config call w))"
    using Cons.prems(3) by (simp_all add: others_than_def)
  from after_call_keeps [OF assms(1) Cons.prems(1,2) new(1)] obtain T' where "db_on E V live 2 T' (after_call config call w)"
    "absent s0 E h T' (w_sys (after_call config call w), w_redis (after_call config call w))" by blast
  from Cons.IH [OF this new(2)] show ?case by (simp add: after_calls_def)
qed

text \<open>Logging out, and a refresh that succeeds with another token, take the hash out of the table.\<close>

lemma revoked:
  fixes w w1 :: "('s, 'e, 'r) world"
  assumes on: "db_on E V live 2 T w" and ok: "\<forall>u\<in>set (t_users T). user_ok u"
    and rev: "Logout (auth_service config) t w = (x, w1) \<and> t \<noteq> [] \<or> AuthService_RefreshToken (auth_service config) t w = (Inr (Result_Ok p), w1)
      \<and> \<not> se_same E (hex_bytes (sys_sha256 (w_sys w) (refresh_token p))) (hex_bytes (sys_sha256 (w_sys w) t))"
  shows "\<exists>T1. db_on E V live 2 T1 w1 \<and> absent (w_sys w) E (hex_bytes (sys_sha256 (w_sys w) t)) T1 (w_sys w1, w_redis w1) \<and> t_users T1 = t_users T"
  using rev
proof
  let ?a = "\<lambda>T1 f. absent (w_sys w) E (hex_bytes (sys_sha256 (w_sys w) t)) T1 (f :: ('e, 'r) others) \<and> t_users T1 = t_users T"
  assume l: "Logout (auth_service config) t w = (x, w1) \<and> t \<noteq> []"
  have "runs E V live {} (Suc (Suc 0)) T (w_sys w, w_redis w) (Logout (auth_service config) t) (\<lambda>r. ?a)"
    using ok l by (intro runs_Logout) (auto simp: absent_def known_hash_def)
  then show ?thesis by (rule runsE [OF _ on [unfolded numeral_2_eq_2]]) (use l in \<open>auto simp: numeral_2_eq_2\<close>)
next
  let ?h = "hex_bytes (sys_sha256 (w_sys w) t)"
  let ?a = "\<lambda>T1 f. absent (w_sys w) E ?h T1 (f :: ('e, 'r) others) \<and> t_users T1 = t_users T"
  assume r: "AuthService_RefreshToken (auth_service config) t w = (Inr (Result_Ok p), w1)
      \<and> \<not> se_same E (hex_bytes (sys_sha256 (w_sys w) (refresh_token p))) ?h"
  have "runs E V live {} (Suc (Suc 0)) T (w_sys w, w_redis w) (AuthService_RefreshToken (auth_service config) t)
      (\<lambda>r T' f'. r = Inr (Result_Ok p) \<longrightarrow> ?a T' f')"
    using ok r by (intro runs_RefreshToken) (auto simp: session_rotated_def session_added_def absent_def known_hash_def IsOk_def)
  then show ?thesis by (rule runsE [OF _ on [unfolded numeral_2_eq_2]]) (use r in \<open>auto simp: numeral_2_eq_2\<close>)
qed

subsection \<open>A concrete run\<close>

text \<open>Two accounts with a password, on a server in memory whose digest is the text itself.\<close>

definition first_row :: UserEntity where
  "first_row = user_example\<lparr>u_password_hash := ''$sha256$'' @ hex_bytes ''salt'' @ ''$'' @ hex_bytes (hex_bytes ''salt'' @ ''abc12345'')\<rparr>"

definition second_row :: UserEntity where
  "second_row = first_row\<lparr>u_id := 43, u_uuid := ''550e8400-e29b-41d4-a716-446655440001'', u_mobile := ''13900139000''\<rparr>"

definition two_rows :: tables where
  "two_rows = no_rows\<lparr>t_users := [first_row, second_row]\<rparr>"

lemma two_rows_facts:
  "\<forall>u\<in>set (t_users two_rows). user_ok u" "u_id first_row = 42" "u_id second_row = 43"
  "the_user mem_env ''13800138000'' two_rows = first_row" "the_user mem_env ''13900139000'' two_rows = second_row"
  by (simp_all add: two_rows_def first_row_def second_row_def user_example_def UserEntity_default_def user_ok_def in_int64_def
      in_int32_def mem_env_def the_user_def)

lemma two_rows_login:
  assumes "t_users T = t_users two_rows"
  shows "login_spec mem_env (\<lambda>x. x) ''13800138000'' ''abc12345'' T = Ok" "login_spec mem_env (\<lambda>x. x) ''13900139000'' ''abc12345'' T = Ok"
    "the_user mem_env ''13800138000'' T = first_row" "the_user mem_env ''13900139000'' T = second_row"
proof -
  have "filter (\<lambda>u. se_same mem_env (u_mobile u) ''13800138000'') (t_users T) = [first_row]"
    "filter (\<lambda>u. se_same mem_env (u_mobile u) ''13900139000'') (t_users T) = [second_row]"
    using assms by (simp_all add: two_rows_def first_row_def second_row_def user_example_def mem_env_def)
  moreover have "PasswordHelper_Verify (\<lambda>x. x) ''abc12345'' (u_password_hash u)" if "u_password_hash u = u_password_hash first_row" for u :: UserEntity
    using PasswordHelper_Verify_hash [of "\<lambda>x. x" "''abc12345''" "''salt''" "hex_bytes ''salt'' @ ''abc12345''"] that
    by (simp add: first_row_def del: append.simps)
  moreover have "\<not> u_disabled first_row" "\<not> u_disabled second_row" "u_password_hash second_row = u_password_hash first_row"
    by (simp_all add: second_row_def first_row_def user_example_def UserEntity_default_def)
  ultimately show "login_spec mem_env (\<lambda>x. x) ''13800138000'' ''abc12345'' T = Ok" "login_spec mem_env (\<lambda>x. x) ''13900139000'' ''abc12345'' T = Ok"
    "the_user mem_env ''13800138000'' T = first_row" "the_user mem_env ''13900139000'' T = second_row"
    by (simp_all add: login_spec_def the_user_def)
qed

text \<open>A login in such a world.\<close>

lemma two_rows_run:
  fixes w :: "(tables \<times> outcome, unit, string \<rightharpoonup> string) world"
  assumes on: "db_on mem_env fst (\<lambda>s. {1, 2}) (Suc (Suc 0)) T w" and T: "t_users T = t_users two_rows"
    and al: "redis_alive (\<lambda>s. s) (\<lambda>_. True) (w_redis w)" and sys: "same_sys mem_sys (w_sys w)"
    and m: "m = ''13800138000'' \<or> m = ''13900139000''" and n: "rc_state (w_redis w) (login_key m) = None"
  shows "\<exists>toks w' T'. LoginByPassword (auth_service config_once) m ''abc12345'' w =
      (Inr (Result_Ok \<lparr>auth_user = (the_user mem_env m T)\<lparr>u_password_hash := []\<rparr>, auth_tokens = toks\<rparr>), w')
    \<and> db_on mem_env fst (\<lambda>s. {1, 2}) (Suc (Suc 0)) T' w' \<and> t_users T' = t_users two_rows
    \<and> redis_alive (\<lambda>s. s) (\<lambda>_. True) (w_redis w') \<and> same_sys mem_sys (w_sys w')
    \<and> rc_state (w_redis w') = (rc_state (w_redis w))(login_key m := None)"
proof -
  let ?f = "(w_sys w, w_redis w)" and ?up = "\<lambda>_ :: string \<rightharpoonup> string. True" and ?C = "\<lambda>s :: string \<rightharpoonup> string. s"
  have cnt: "counter (?C (rc_state (w_redis w)) (login_key m)) = Some 0" "(0 :: int) < max_failed_attempts (cfg_login config_once)"
    "counter (cached ?C w (login_key m)) = Some 0" "(0 :: int) \<le> max_failed_attempts (cfg_login config_once)"
    using n by (simp_all add: config_once_login cached_def)
  have v: "IsValidMobile m = None" "IsValidPassword ''abc12345'' (cfg_password config_once) = None"
    using m by (elim disjE; simp; code_simp) code_simp
  have "sys_sha256 (w_sys w) = sys_sha256 mem_sys" using sys same_sys_fields(2) by blast
  then have sha: "sys_sha256 (w_sys w) = (\<lambda>x. x)" by (simp add: mem_sys_def)
  have "runs mem_env fst (\<lambda>s. {1, 2}) {} (Suc (Suc 0)) T ?f (LoginByPassword (auth_service config_once) m ''abc12345'')
      (\<lambda>r T' f'. \<exists>x. r = Inr x \<and> login_result mem_env m ''abc12345'' ?f T x T' f' \<and> redis_alive ?C ?up (snd f'))"
    using al cnt(1,2) two_rows_facts(1) T by (intro runs_LoginByPassword [of ?C ?up, OF _ config_once_login(1) _ order_refl _ v]) auto
  then obtain r T' w' where run: "LoginByPassword (auth_service config_once) m ''abc12345'' w = (Inr r, w')"
    and on': "db_on mem_env fst (\<lambda>s. {1, 2}) (Suc (Suc 0)) T' w'"
    and res: "login_result mem_env m ''abc12345'' ?f T r T' (w_sys w', w_redis w')" and al': "redis_alive ?C ?up (w_redis w')"
    by (rule runsE [OF _ on]) auto
  have ok: "IsOk r" using res two_rows_login [OF T] m by (auto simp: login_result_def sha IsOk_def)
  have "login_counted (max_failed_attempts (cfg_login config_once)) m 0 r (cached ?C w) (cached ?C w')"
    using login_step [OF _ config_once_login(1) cnt(3) order_refl cnt(4) run, of ?up] al by (simp add: alive_cache)
  then have "rc_state (w_redis w') = (rc_state (w_redis w))(login_key m := None)"
    using ok by (simp add: login_counted_def cached_def)
  moreover obtain toks where "r = Result_Ok \<lparr>auth_user = (the_user mem_env m T)\<lparr>u_password_hash := []\<rparr>, auth_tokens = toks\<rparr>"
    using res ok by (auto simp: login_result_def)
  moreover have "t_users T' = t_users two_rows" "same_sys mem_sys (w_sys w')"
    using res T sys by (auto simp: login_result_def intro: same_sys_trans)
  ultimately show ?thesis using run on' al' by blast
qed

text \<open>The refresh token of an answer, and tokens of different accounts.\<close>

lemma issued_text:
  assumes "LoginByPassword (auth_service config) m pw w = (Inr r, w')" and "data r = Some a"
  shows "\<exists>s jti. same_sys (w_sys w) s \<and> refresh_token (auth_tokens a) = jwt_text (sys_hmac s) (refresh_claims (cfg_security config) (auth_user a)
    (clock_of s) (plus_seconds (clock_of s) (refresh_token_ttl_seconds (cfg_security config))) jti) (jwt_secret (cfg_security config))"
proof -
  let ?c = "cfg_security config"
  obtain user v where v: "same_sys (w_sys w) (w_sys v)" "issue_tokens (auth_service config) user v = (Inr r, w')"
    using assms issues_operations(1) [of config m pw] unfolding issues_def by (metis option.distinct(1))
  obtain p s1 where p: "GenerateTokenPair ?c user (w_sys v) = (Inr p, s1)" "auth_user a = user\<lparr>u_password_hash := []\<rparr>" "auth_tokens a = p"
    using v(2) assms(2) by (auto simp: issue_tokens_def bindE_Inr_iff ret_def jwt_service_def in_sys_def zoom_def split: prod.splits)
  obtain acc s2 where 2: "GenerateAccessToken ?c user (w_sys v) = (Inr acc, s2)" "same_sys (w_sys v) s2"
    by (rule GenerateAccessToken_run)
  obtain jti s3 where "GenerateRefreshToken ?c user s2 = (Inr (jwt_text (sys_hmac s2) (refresh_claims ?c user
      (clock_of s2) (plus_seconds (clock_of s2) (refresh_token_ttl_seconds ?c)) jti) (jwt_secret ?c)), s3)"
    by (rule GenerateRefreshToken_run)
  then have "refresh_token p = jwt_text (sys_hmac s2) (refresh_claims ?c user
      (clock_of s2) (plus_seconds (clock_of s2) (refresh_token_ttl_seconds ?c)) jti) (jwt_secret ?c)"
    using p(1) 2(1) by (auto simp: GenerateTokenPair_def bindE_def ret_def)
  moreover have "refresh_claims ?c user x y j = refresh_claims ?c (auth_user a) x y j" for x y j
    by (simp add: refresh_claims_def p(2))
  ultimately show ?thesis using same_sys_trans [OF v(1) 2(2)] p(3) by metis
qed

lemma tokens_of_accounts_differ:
  assumes iss: "json_safe (''iss'', jwt_issuer c)" and "u_id u \<noteq> u_id v"
  shows "jwt_text hmac (refresh_claims c u x y j) k \<noteq> jwt_text hmac' (refresh_claims c v x' y' j') k'"
proof
  let ?m = "refresh_claims c u x y j" and ?m' = "refresh_claims c v x' y' j'"
  assume eq: "jwt_text hmac ?m k = jwt_text hmac' ?m' k'"
  have sp: "\<exists>g. split_token (jwt_text f m k) = Some (Base64UrlEncode jwt_header, Base64UrlEncode (BuildJson m), g)" for f m k
    using split_token_enc [of jwt_header "BuildJson m"] by (simp add: jwt_text_def Let_def)
  have "Base64UrlEncode (BuildJson ?m) = Base64UrlEncode (BuildJson ?m')"
    using sp [of hmac ?m k] sp [of hmac' ?m' k'] eq by auto
  then have "BuildJson ?m = BuildJson ?m'" by (simp add: b64.enc_inj)
  then have "?m = ?m'" using ParseJson_BuildJson [OF refresh_claims_ok [OF iss]] by metis
  then have "map_of ?m ''uid'' = map_of ?m' ''uid''" by simp
  then have "to_string (u_id u) = to_string (u_id v)" by (simp add: refresh_claims_of)
  then show False using assms(2) by simp
qed

text \<open>A token whose account has a number as identifier is always answered.\<close>

lemma RefreshToken_answers:
  fixes w :: "('s, 'e, 'r) world"
  assumes on: "db_on E V live (Suc k) T w" and ok: "\<forall>u\<in>set (t_users T). user_ok u" and t: "t \<noteq> []"
    and parse: "ParseRefreshToken (cfg_security config) t (w_sys w) = (Inr (Result_Ok uid), s')" and id: "stoll uid = Inr n"
  shows "\<exists>r w'. AuthService_RefreshToken (auth_service config) t w = (Inr r, w')"
proof -
  let ?Q = "\<lambda>(r :: exn + TokenPair Result) T' (f' :: ('e, 'r) others). \<exists>x. r = Inr x"
  have rot: "runs E V live {} (Suc k) T f (rotate_session (auth_service config) t n user) ?Q" for user and f :: "('e, 'r) others"
    by (rule runs_rotate_session) auto
  have "runs E V live {} (Suc k) T (s', w_redis w) (bindR (UserDB_FindById n) (\<lambda>user.
      if u_disabled user then ret (Result_Fail UserDisabled x) else rotate_session (auth_service config) t n user)) ?Q" for x
    by (intro runs_bindR runs_find(3) [OF ok]) (auto simp: found_def rot intro!: runs_ret split: list.split)
  moreover have "db_on E V live (Suc k) T (w\<lparr>w_sys := s'\<rparr>)" by (rule db_on_pool [OF on]) simp
  ultimately have "\<exists>r w'. bindR (UserDB_FindById n) (\<lambda>user.
      if u_disabled user then ret (Result_Fail UserDisabled x) else rotate_session (auth_service config) t n user) (w\<lparr>w_sys := s'\<rparr>) = (Inr r, w')" for x
    by (rule runsE [where w = "w\<lparr>w_sys := s'\<rparr>"]) auto
  then show ?thesis
    using t parse id
    by (simp add: AuthService_RefreshToken_def jwt_service_def user_db_def in_sys_def zoom_def bindE_def lift_def bindR_Ok)
qed

text \<open>The state of the run after the first account logged in and out again.\<close>

lemma two_rows_logged_out:
  "\<exists>a wa w1 T1. LoginByPassword (auth_service config_once) ''13800138000'' ''abc12345'' (mem_world two_rows Map.empty) = (Inr (Result_Ok a), wa)
    \<and> u_id (auth_user a) = 42 \<and> Logout (auth_service config_once) (refresh_token (auth_tokens a)) wa = (Inr (Result_Ok ()), w1)
    \<and> refresh_token (auth_tokens a) \<noteq> []
    \<and> (\<exists>Ta. db_on mem_env fst (\<lambda>s. {1, 2}) (Suc (Suc 0)) Ta wa \<and> t_users Ta = t_users two_rows) \<and> same_sys mem_sys (w_sys wa)
    \<and> db_on mem_env fst (\<lambda>s. {1, 2}) (Suc (Suc 0)) T1 w1 \<and> t_users T1 = t_users two_rows
    \<and> redis_alive (\<lambda>s. s) (\<lambda>_. True) (w_redis w1) \<and> same_sys mem_sys (w_sys w1)
    \<and> rc_state (w_redis w1) (login_key ''13900139000'') = None"
proof -
  let ?w = "mem_world two_rows Map.empty"
  have al: "redis_alive (\<lambda>s. s) (\<lambda>_. True) (w_redis ?w)" "same_sys mem_sys (w_sys ?w)" "rc_state (w_redis ?w) = Map.empty"
    using redis_mem_alive [of Map.empty] by (simp_all add: mem_world_def)
  have on: "db_on mem_env fst (\<lambda>s. {1, 2}) (Suc (Suc 0)) two_rows ?w" by (rule mem_db_on) simp
  obtain toks wa Ta where a: "LoginByPassword (auth_service config_once) ''13800138000'' ''abc12345'' ?w =
      (Inr (Result_Ok \<lparr>auth_user = first_row\<lparr>u_password_hash := []\<rparr>, auth_tokens = toks\<rparr>), wa)"
    and ona: "db_on mem_env fst (\<lambda>s. {1, 2}) (Suc (Suc 0)) Ta wa" "t_users Ta = t_users two_rows"
    and ala: "redis_alive (\<lambda>s. s) (\<lambda>_. True) (w_redis wa)" "same_sys mem_sys (w_sys wa)" "rc_state (w_redis wa) = Map.empty"
    using two_rows_run [OF on refl al(1,2), of "''13800138000''"] al(3) by (auto simp: two_rows_facts)
  obtain s :: "unit sys" and jti where t: "refresh_token toks = jwt_text (sys_hmac s) (refresh_claims (cfg_security config_once) (first_row\<lparr>u_password_hash := []\<rparr>)
      (clock_of s) (plus_seconds (clock_of s) (refresh_token_ttl_seconds (cfg_security config_once))) jti) (jwt_secret (cfg_security config_once))"
    using issued_text [OF a Result_Ok_sel(2)] by auto
  then have ne: "refresh_token toks \<noteq> []" by simp
  have "runs mem_env fst (\<lambda>s. {1, 2}) {} (Suc (Suc 0)) Ta (w_sys wa, w_redis wa) (Logout (auth_service config_once) (refresh_token toks))
      (\<lambda>r T f. r = Inr (Result_Ok ()) \<and> t_users T = t_users two_rows \<and> f = (w_sys wa, w_redis wa))"
    using ona(2) by (intro runs_Logout [OF _ ne]) simp
  then obtain w1 T1 where "Logout (auth_service config_once) (refresh_token toks) wa = (Inr (Result_Ok ()), w1)"
    "db_on mem_env fst (\<lambda>s. {1, 2}) (Suc (Suc 0)) T1 w1" "t_users T1 = t_users two_rows" "w_sys w1 = w_sys wa" "w_redis w1 = w_redis wa"
    by (rule runsE [OF _ ona(1)]) auto
  with a ne ona ala show ?thesis
    by (intro exI [of _ "\<lparr>auth_user = first_row\<lparr>u_password_hash := []\<rparr>, auth_tokens = toks\<rparr>"] exI [of _ wa] exI [of _ w1] exI [of _ T1])
      (auto simp: two_rows_facts)
qed

lemma config_once_iss: "json_safe (''iss'', jwt_issuer (cfg_security config_once))"
  using jwt_user_ok_example by (simp add: config_once_def Config_default_def jwt_user_ok_def)

text \<open>A token of the first account is unexpired in every state of the run.\<close>

lemma mem_token_parses:
  fixes s s' :: "unit sys"
  assumes "same_sys mem_sys s" and "same_sys mem_sys s'" and id: "u_id u = 42"
  shows "\<exists>s''. ParseRefreshToken (cfg_security config_once) (jwt_text (sys_hmac s) (refresh_claims (cfg_security config_once) u (clock_of s)
      (plus_seconds (clock_of s) (refresh_token_ttl_seconds (cfg_security config_once))) jti) (jwt_secret (cfg_security config_once))) s' =
    (Inr (Result_Ok ''42''), s'')"
proof -
  let ?c = "cfg_security config_once"
  have c: "?c = SecurityConfig_default" by (simp add: config_once_def Config_default_def)
  have eq: "s = mem_sys" "s' = mem_sys" using assms(1,2) by (auto simp: same_sys_def)
  have now: "clock_of mem_sys = 0" by (simp add: clock_of_def mem_sys_def sys_example_def)
  have range: "expiry_in_range 0 (refresh_token_ttl_seconds ?c)"
    by (simp add: c expiry_in_range_def SecurityConfig_default_def NANOS_def)
  have "\<not> clock_of mem_sys > expiry_instant 0 (refresh_token_ttl_seconds ?c)"
    by (simp add: now c expiry_instant_def NANOS_def SecurityConfig_default_def)
  moreover have "to_string (42 :: int) = ''42''" by code_simp
  ultimately show ?thesis
    using ParseRefreshToken_text [OF config_once_iss range, of mem_sys u jti] unfolding eq now id by auto
qed

text \<open>C4: A refresh token that was logged out, or that has already bought other tokens, stays dead:
  whatever calls of the service follow, in whatever order and however the cache answers, it never
  buys tokens again, as long as no answer of these calls hands out a refresh token with the same
  stored SHA-256. (Nothing in the code excludes that a token is issued twice: it is a function of
  the account, the second of its issue and a random number from 100000 to 999999.)\<close>

theorem revoked_token_stays_revoked:
  fixes w w1 :: "('s, 'e, 'r) world"
  assumes "db_on E V live 2 T w" and "\<forall>u\<in>set (t_users T). user_ok u" and "env_ok E"
    and "Logout (auth_service config) t w = (x, w1) \<and> t \<noteq> [] \<or> AuthService_RefreshToken (auth_service config) t w = (Inr (Result_Ok p), w1)
      \<and> \<not> se_same E (hex_bytes (sys_sha256 (w_sys w) (refresh_token p))) (hex_bytes (sys_sha256 (w_sys w) t))"
    and "\<forall>t'\<in>set (tokens_issued config calls w1).
      \<not> se_same E (hex_bytes (sys_sha256 (w_sys w) t')) (hex_bytes (sys_sha256 (w_sys w) t))"
    and "AuthService_RefreshToken (auth_service config) t (after_calls config calls w1) = (Inr r, w2)"
  shows "\<not> IsOk r"
proof -
  let ?h = "hex_bytes (sys_sha256 (w_sys w) t)"
  obtain T1 where T1: "db_on E V live 2 T1 w1" "absent (w_sys w) E ?h T1 (w_sys w1, w_redis w1)"
    using revoked [OF assms(1,2,4)] by blast
  have "others_than (w_sys w) E ?h (tokens_issued config calls w1)" using assms(5) by (simp add: others_than_def)
  from after_calls_keeps [OF assms(3) T1 this] obtain T' where
    on: "db_on E V live (Suc (Suc 0)) T' (after_calls config calls w1)"
    and a: "absent (w_sys w) E ?h T' (w_sys (after_calls config calls w1), w_redis (after_calls config calls w1))"
    by (auto simp: numeral_2_eq_2)
  show ?thesis
    using a absent_sha [OF a] by (intro refresh_refused [OF on _ _ assms(6)]) (simp_all add: absent_def)
qed

theorem revoked_token_stays_revoked_witness:
  "\<exists>a wa w1 b wb r w2. LoginByPassword (auth_service config_once) ''13800138000'' ''abc12345'' (mem_world two_rows Map.empty) = (Inr (Result_Ok a), wa)
    \<and> Logout (auth_service config_once) (refresh_token (auth_tokens a)) wa = (Inr (Result_Ok ()), w1)
    \<and> LoginByPassword (auth_service config_once) ''13900139000'' ''abc12345'' w1 = (Inr (Result_Ok b), wb)
    \<and> tokens_issued config_once [Call_LoginByPassword ''13900139000'' ''abc12345'', Call_LogoutAll ''u'', Call_Logout ''y''] w1
        = [refresh_token (auth_tokens b)]
    \<and> AuthService_RefreshToken (auth_service config_once) (refresh_token (auth_tokens a))
        (after_calls config_once [Call_LoginByPassword ''13900139000'' ''abc12345'', Call_LogoutAll ''u'', Call_Logout ''y''] w1) = (Inr r, w2)
    \<and> \<not> IsOk r"
proof -
  let ?c = "cfg_security config_once" and ?S = "auth_service config_once :: (tables \<times> outcome, unit, string \<rightharpoonup> string) world AuthService"
  let ?calls = "[Call_LoginByPassword ''13900139000'' ''abc12345'', Call_LogoutAll ''u'', Call_Logout ''y'']"
  obtain a wa w1 T1 Ta where a: "LoginByPassword ?S ''13800138000'' ''abc12345'' (mem_world two_rows Map.empty) = (Inr (Result_Ok a), wa)"
      "u_id (auth_user a) = 42" "refresh_token (auth_tokens a) \<noteq> []"
    and out: "Logout ?S (refresh_token (auth_tokens a)) wa = (Inr (Result_Ok ()), w1)"
    and ona: "db_on mem_env fst (\<lambda>s. {1, 2}) (Suc (Suc 0)) Ta wa" "t_users Ta = t_users two_rows" "same_sys mem_sys (w_sys wa)"
    and on1: "db_on mem_env fst (\<lambda>s. {1, 2}) (Suc (Suc 0)) T1 w1" "t_users T1 = t_users two_rows"
      "redis_alive (\<lambda>s. s) (\<lambda>_. True) (w_redis w1)" "same_sys mem_sys (w_sys w1)" "rc_state (w_redis w1) (login_key ''13900139000'') = None"
    using two_rows_logged_out by blast
  let ?t = "refresh_token (auth_tokens a)"
  obtain toks wb where b: "LoginByPassword ?S ''13900139000'' ''abc12345'' w1 =
      (Inr (Result_Ok \<lparr>auth_user = second_row\<lparr>u_password_hash := []\<rparr>, auth_tokens = toks\<rparr>), wb)"
    using two_rows_run [OF on1(1-4) _ on1(5)] two_rows_login(4) [OF on1(2)] by auto
  have iss: "tokens_issued config_once ?calls w1 = [refresh_token toks]"
    by (simp add: b answered_def tokens_of_def)
  obtain s jti where s: "same_sys mem_sys s" and ta: "?t = jwt_text (sys_hmac s) (refresh_claims ?c (auth_user a)
      (clock_of s) (plus_seconds (clock_of s) (refresh_token_ttl_seconds ?c)) jti) (jwt_secret ?c)"
    using issued_text [OF a(1) Result_Ok_sel(2)] by (auto simp: mem_world_def)
  obtain s1 :: "unit sys" and jti1 where tb: "refresh_token toks = jwt_text (sys_hmac s1) (refresh_claims ?c (second_row\<lparr>u_password_hash := []\<rparr>)
      (clock_of s1) (plus_seconds (clock_of s1) (refresh_token_ttl_seconds ?c)) jti1) (jwt_secret ?c)"
    using issued_text [OF b Result_Ok_sel(2)] by auto
  have sha: "sys_sha256 (w_sys wa) = (\<lambda>x. x)" using ona(3) same_sys_fields(2) [of mem_sys "w_sys wa"] by (simp add: mem_sys_def)
  have "u_id (second_row\<lparr>u_password_hash := []\<rparr>) \<noteq> u_id (auth_user a)" by (simp add: a(2) two_rows_facts)
  then have "refresh_token toks \<noteq> ?t" unfolding ta tb by (rule tokens_of_accounts_differ [OF config_once_iss])
  then have new: "\<forall>t'\<in>set (tokens_issued config_once ?calls w1).
      \<not> se_same mem_env (hex_bytes (sys_sha256 (w_sys wa) t')) (hex_bytes (sys_sha256 (w_sys wa) ?t))"
    using hex_bytes_inj [of "refresh_token toks" ?t] unfolding iss sha by (auto simp: mem_env_def)
  have ok: "\<forall>u\<in>set (t_users Ta). user_ok u" using two_rows_facts(1) ona(2) by simp
  have on2: "db_on mem_env fst (\<lambda>s. {1, 2}) 2 Ta wa" using ona(1) by (simp add: numeral_2_eq_2)
  let ?e = "after_calls config_once ?calls w1" and ?h = "hex_bytes (sys_sha256 (w_sys wa) ?t)"
  obtain T2 where "db_on mem_env fst (\<lambda>s. {1, 2}) 2 T2 w1" "absent (w_sys wa) mem_env ?h T2 (w_sys w1, w_redis w1)"
    using revoked [OF on2 ok, of config_once ?t "Inr (Result_Ok ())" w1] out a(3) by auto
  from after_calls_keeps [OF mem_env_ok this, of config_once ?calls] new obtain T3 where
    T3: "db_on mem_env fst (\<lambda>s. {1, 2}) 2 T3 ?e" "absent (w_sys wa) mem_env ?h T3 (w_sys ?e, w_redis ?e)"
    unfolding others_than_def by blast
  have e: "same_sys mem_sys (w_sys ?e)" "\<forall>u\<in>set (t_users T3). user_ok u"
    using T3(2) ona(3) by (auto simp: absent_def intro: same_sys_trans)
  have "stoll ''42'' = Inr 42" by code_simp
  then obtain r w2 where r: "AuthService_RefreshToken ?S ?t ?e = (Inr r, w2)"
    using RefreshToken_answers [OF T3(1) [unfolded numeral_2_eq_2] e(2) a(3)] mem_token_parses [OF s e(1) a(2), of jti, folded ta] by blast
  have "\<not> IsOk r"
    by (rule revoked_token_stays_revoked [OF on2 ok mem_env_ok disjI1 new r]) (use out a(3) in simp)
  then show ?thesis using a(1) out b iss r by fastforce
qed

end
