(* ===== verification/Time_Utils.thy ===== *)
theory Time_Utils
  imports Proto_Converter Password
begin

section \<open>Times as text\<close>

text \<open>
  \<open>include/common/time_utils.h\<close>: times as text in UTC, as Unix seconds, and as Protobuf timestamps.
  What the functions use of the C library is the proleptic Gregorian calendar: \<open>gmtime_r\<close> splits a
  number of seconds, \<open>timegm\<close> puts it together again (with the formula of POSIX for the seconds
  since the Epoch). The text when the year does not fit an \<open>int\<close> is indeterminate (\<open>junk\<close>).
\<close>

subsection \<open>The calendar\<close>

definition leap :: "int \<Rightarrow> bool" where
  "leap y \<longleftrightarrow> 4 dvd y \<and> (\<not> 100 dvd y \<or> 400 dvd y)"

definition year_days :: "int \<Rightarrow> int" where
  "year_days y = (if leap y then 366 else 365)"

definition month_days :: "int \<Rightarrow> int list" where
  "month_days y = [31, if leap y then 29 else 28, 31, 30, 31, 30, 31, 31, 30, 31, 30, 31]"

text \<open>From the first of January of a year, the year and the day in it.\<close>

function year_of :: "int \<Rightarrow> int \<Rightarrow> int \<times> int" where
  "year_of y d =
     (if d < 0 then year_of (y - 1) (d + year_days (y - 1))
      else if d < year_days y then (y, d)
      else year_of (y + 1) (d - year_days y))"
  by pat_completeness auto
termination
  by (relation "measure (\<lambda>(y, d). nat (if d < 0 then 1000 - d else d))") (auto simp: year_days_def split: if_splits)

declare year_of.simps [simp del]

fun month_of :: "int list \<Rightarrow> int \<Rightarrow> int \<Rightarrow> int \<times> int" where
  "month_of [] m d = (m, d)"
| "month_of (l # ls) m d = (if d < l then (m, d) else month_of ls (m + 1) (d - l))"

definition gmtime_r :: "int \<Rightarrow> tm option" where
  "gmtime_r t =
     (let (y, yd) = year_of 1970 (t div 86400); (mo, md) = month_of (month_days y) 0 yd; s = t mod 86400
      in if in_int32 (y - 1900)
         then Some \<lparr>tm_year = y - 1900, tm_mon = mo, tm_mday = md + 1, tm_hour = s div 3600,
                    tm_min = s mod 3600 div 60, tm_sec = s mod 60\<rparr>
         else None)"

definition days_before_year :: "int \<Rightarrow> int" where
  "days_before_year y = 365 * (y - 1970) + (y - 1969) div 4 - (y - 1901) div 100 + (y - 1601) div 400"

definition timegm :: "tm \<Rightarrow> int" where
  "timegm t = (let y = tm_year t + 1900 in
     (days_before_year y + sum_list (take (nat (tm_mon t)) (month_days y)) + tm_mday t - 1) * 86400
       + tm_hour t * 3600 + tm_min t * 60 + tm_sec t)"

text \<open>\<open>strftime\<close> with \<open>"%Y-%m-%d %H:%M:%S"\<close>; \<open>std::get_time\<close> with the same format reads what \<open>strptime\<close>
  reads (\<open>get_time\<close> of \<^verbatim>\<open>Proto_Converter\<close>).\<close>

definition strftime :: "tm \<Rightarrow> string" where
  "strftime t = (if 0 \<le> tm_year t + 1900 \<and> tm_year t + 1900 \<le> 9999 then datetime_text t
     else to_string (tm_year t + 1900) @ ''-'' @ two_digits (tm_mon t + 1) @ ''-'' @ two_digits (tm_mday t) @ '' ''
       @ two_digits (tm_hour t) @ '':'' @ two_digits (tm_min t) @ '':'' @ two_digits (tm_sec t))"

definition format_utc :: "string \<Rightarrow> int \<Rightarrow> string" where
  "format_utc junk t = (case gmtime_r t of Some tm \<Rightarrow> strftime tm | None \<Rightarrow> junk)"

subsection \<open>The functions\<close>

definition TimePointToString :: "string \<Rightarrow> int \<Rightarrow> string" where
  "TimePointToString junk tp = format_utc junk (to_time_t tp)"

definition StringToTimePoint :: "string \<Rightarrow> int" where
  "StringToTimePoint time_str =
     (if time_str = [] then 0
      else (case get_time time_str of None \<Rightarrow> 0 | Some tm \<Rightarrow> from_time_t (timegm tm)))"

definition UnixToString :: "string \<Rightarrow> int \<Rightarrow> string" where
  "UnixToString junk unix_seconds = (if unix_seconds \<le> 0 then ''1970-01-01 00:00:00'' else format_utc junk unix_seconds)"

definition StringToUnix :: "string \<Rightarrow> int" where
  "StringToUnix time_str =
     (if time_str = [] then 0
      else (case get_time time_str of None \<Rightarrow> 0 | Some tm \<Rightarrow> timegm tm))"

definition TimestampToString :: "string \<Rightarrow> pb_Timestamp \<Rightarrow> string" where
  "TimestampToString junk ts = UnixToString junk (ts_seconds ts)"

text \<open>A null pointer is \<open>None\<close>.\<close>

definition StringToTimestamp :: "string \<Rightarrow> pb_Timestamp option \<Rightarrow> pb_Timestamp option" where
  "StringToTimestamp time_str ts =
     (if time_str = [] then ts else map_option (\<lambda>t. t\<lparr>ts_seconds := StringToUnix time_str, ts_nanos := 0\<rparr>) ts)"

definition TimePointToTimestamp :: "int \<Rightarrow> pb_Timestamp option \<Rightarrow> pb_Timestamp option" where
  "TimePointToTimestamp tp ts = map_option (\<lambda>t. t\<lparr>ts_seconds := cdiv tp NANOS, ts_nanos := 0\<rparr>) ts"

definition NowSeconds :: "('e sys, int) io" where
  "NowSeconds = bindE system_clock_now (\<lambda>now. ret (to_time_t now))"

definition NowString :: "string \<Rightarrow> ('e sys, string) io" where
  "NowString junk = bindE NowSeconds (\<lambda>now. ret (UnixToString junk now))"

definition FutureString :: "string \<Rightarrow> int \<Rightarrow> ('e sys, string) io" where
  "FutureString junk seconds_from_now = bindE NowSeconds (\<lambda>now. ret (UnixToString junk (wrap64 (now + seconds_from_now))))"

text \<open>The product is computed in \<open>int\<close>.\<close>

definition FutureDaysString :: "string \<Rightarrow> int \<Rightarrow> ('e sys, string) io" where
  "FutureDaysString junk days = FutureString junk (wrap32 (wrap32 (days * 24) * 3600))"

definition IsExpired :: "string \<Rightarrow> ('e sys, bool) io" where
  "IsExpired expires_at = bindE NowSeconds (\<lambda>now. ret (StringToUnix expires_at < now))"

subsection \<open>The calendar is consistent\<close>

lemma div_Suc:
  fixes n k :: int
  assumes "0 < k"
  shows "(n + 1) div k = n div k + (if k dvd n + 1 then 1 else 0)"
proof (cases "k dvd n + 1")
  case True
  then obtain q where q: "n + 1 = k * q" by (rule dvdE)
  then have "n = (q - 1) * k + (k - 1)" by (simp add: algebra_simps)
  then have "n div k = q - 1" using assms by (simp add: div_pos_pos_trivial)
  then show ?thesis using q assms by simp
next
  case False
  then have "n mod k + 1 < k" using assms pos_mod_bound [OF assms, of n]
    by (metis add.commute add1_zle_eq dvd_eq_mod_eq_0 mod_add_right_eq mod_self not_le order_le_less zle_add1_eq_le)
  moreover have "n + 1 = k * (n div k) + (n mod k + 1)" by simp
  ultimately have "(n + 1) div k = n div k" using assms pos_mod_sign [OF assms, of n]
    by (metis add_increasing2 div_mult_self4 div_pos_pos_trivial add.right_neutral less_imp_neq zero_le_one)
  then show ?thesis using False by simp
qed

lemma days_before_year_Suc: "days_before_year (y + 1) = days_before_year y + year_days y"
proof -
  have dvd: "4 dvd (y - 1969) + 1 \<longleftrightarrow> 4 dvd y" "100 dvd (y - 1901) + 1 \<longleftrightarrow> 100 dvd y"
    "400 dvd (y - 1601) + 1 \<longleftrightarrow> 400 dvd y"
    using dvd_add_left_iff [of 4 "- 1968" y] dvd_add_left_iff [of 100 "- 1900" y] dvd_add_left_iff [of 400 "- 1600" y] by simp_all
  have sub: "100 dvd y \<Longrightarrow> 4 dvd y" "400 dvd y \<Longrightarrow> 100 dvd y"
    by (rule dvd_trans [of 4 100], simp_all) (rule dvd_trans [of 100 400], simp_all)
  have shift: "y + 1 - 1969 = (y - 1969) + 1" "y + 1 - 1901 = (y - 1901) + 1" "y + 1 - 1601 = (y - 1601) + 1" by simp_all
  have div: "((y - 1969) + 1) div 4 = (y - 1969) div 4 + (if 4 dvd y then 1 else 0)"
    "((y - 1901) + 1) div 100 = (y - 1901) div 100 + (if 100 dvd y then 1 else 0)"
    "((y - 1601) + 1) div 400 = (y - 1601) div 400 + (if 400 dvd y then 1 else 0)"
    by (simp_all only: div_Suc dvd zero_less_numeral)
  have days: "year_days y = 365 + (if 4 dvd y then 1 else 0) - (if 100 dvd y then 1 else 0) + (if 400 dvd y then 1 else 0)"
    using sub by (auto simp only: year_days_def leap_def split: if_split)
  have "365 * (y + 1 - 1970) + (a + i) - (b + j) + (c + k) = 365 * (y - 1970) + a - b + c + (365 + i - j + k)"
    for a b c i j k :: int by simp
  then show ?thesis unfolding days_before_year_def shift div days .
qed

lemma year_of_spec:
  "year_of y d = (y', d') \<Longrightarrow> days_before_year y' + d' = days_before_year y + d \<and> 0 \<le> d' \<and> d' < year_days y'"
proof (induction y d arbitrary: y' d' rule: year_of.induct)
  case (1 y d)
  consider "d < 0" | "0 \<le> d" "d < year_days y" | "0 \<le> d" "year_days y \<le> d" by linarith
  then show ?case
  proof cases
    case 1
    then have "year_of (y - 1) (d + year_days (y - 1)) = (y', d')" using "1.prems" by (simp add: year_of.simps [of y d])
    from "1.IH"(1) [OF 1 this] show ?thesis using days_before_year_Suc [of "y - 1"] by simp
  next
    case 2
    then show ?thesis using "1.prems" by (simp add: year_of.simps [of y d])
  next
    case 3
    then have "year_of (y + 1) (d - year_days y) = (y', d')" using "1.prems" by (simp add: year_of.simps [of y d])
    from "1.IH"(2) [OF _ _ this] show ?thesis using 3 days_before_year_Suc [of y] by simp
  qed
qed

lemma month_of_spec:
  "0 \<le> d \<Longrightarrow> d < sum_list ls \<Longrightarrow> month_of ls m d = (m', d') \<Longrightarrow>
    m \<le> m' \<and> m' < m + int (length ls) \<and> sum_list (take (nat (m' - m)) ls) + d' = d \<and> 0 \<le> d' \<and> d' < ls ! nat (m' - m)"
proof (induction ls arbitrary: m d)
  case (Cons l ls)
  show ?case
  proof (cases "d < l")
    case True
    then show ?thesis using Cons.prems by auto
  next
    case False
    then have "m + 1 \<le> m' \<and> m' < m + 1 + int (length ls) \<and> sum_list (take (nat (m' - (m + 1))) ls) + d' = d - l \<and> 0 \<le> d' \<and> d' < ls ! nat (m' - (m + 1))"
      using Cons.IH [of "d - l" "m + 1"] Cons.prems by simp
    moreover from this have "nat (m' - m) = Suc (nat (m' - (m + 1)))" by linarith
    ultimately show ?thesis by simp
  qed
qed simp

lemma sum_month_days: "sum_list (month_days y) = year_days y"
  by (simp add: month_days_def year_days_def)

lemma days_before_year_mono: "y \<le> z \<Longrightarrow> days_before_year y \<le> days_before_year z"
proof (induction z rule: int_ge_induct)
  case (step z)
  then show ?case by (simp add: days_before_year_Suc year_days_def)
qed simp

lemma days_before_year_1970 [simp]: "days_before_year 1970 = 0"
  by (simp add: days_before_year_def)

lemma month_days_bound: "n < 12 \<Longrightarrow> month_days y ! n \<le> 31"
  by (auto simp: month_days_def numeral_eq_Suc less_Suc_eq)

lemma length_month_days [simp]: "length (month_days y) = 12"
  by (simp add: month_days_def)

text \<open>What \<open>gmtime_r\<close> returns is a date of the calendar, and \<open>timegm\<close> gives the time back.\<close>

lemma gmtime_r_parts:
  assumes "gmtime_r t = Some tm"
  shows "timegm tm = t" "0 \<le> tm_mon tm" "tm_mon tm \<le> 11" "1 \<le> tm_mday tm" "tm_mday tm \<le> 31"
    "0 \<le> tm_hour tm" "tm_hour tm \<le> 23" "0 \<le> tm_min tm" "tm_min tm \<le> 59" "0 \<le> tm_sec tm" "tm_sec tm \<le> 59"
    "days_before_year (tm_year tm + 1900) \<le> t div 86400" "t div 86400 < days_before_year (tm_year tm + 1901)"
proof -
  obtain y yd where y: "year_of 1970 (t div 86400) = (y, yd)" by fastforce
  obtain mo md where m: "month_of (month_days y) 0 yd = (mo, md)" by fastforce
  define s where "s = t mod 86400"
  have tm: "tm = \<lparr>tm_year = y - 1900, tm_mon = mo, tm_mday = md + 1, tm_hour = s div 3600,
                    tm_min = s mod 3600 div 60, tm_sec = s mod 60\<rparr>"
    using assms unfolding gmtime_r_def y Let_def case_prod_conv m s_def by (simp split: if_splits)
  have yd: "days_before_year y + yd = t div 86400" "0 \<le> yd" "yd < year_days y" using year_of_spec [OF y] by simp_all
  have md: "0 \<le> mo" "mo < 12" "sum_list (take (nat mo) (month_days y)) + md = yd" "0 \<le> md" "md < month_days y ! nat mo"
    using month_of_spec [OF yd(2) _ m] yd(3) by (simp_all add: sum_month_days)
  have s: "0 \<le> s" "s < 86400" "t div 86400 * 86400 + s = t" by (simp_all add: s_def)
  have hms: "s div 3600 * 3600 + s mod 3600 div 60 * 60 + s mod 60 = s"
  proof -
    have "s mod 60 = s mod 3600 mod 60" by (simp add: mod_mod_cancel)
    then show ?thesis by (simp only: add.assoc div_mult_mod_eq)
  qed
  have day: "days_before_year y + sum_list (take (nat mo) (month_days y)) + (md + 1) - 1 = t div 86400"
    unfolding yd(1) [symmetric] md(3) [symmetric] by simp
  show "timegm tm = t"
    unfolding timegm_def tm Let_def tm.simps diff_add_cancel day
    by (simp only: add.assoc hms [unfolded add.assoc] s(3))
  show "0 \<le> tm_mon tm" "tm_mon tm \<le> 11" "1 \<le> tm_mday tm" using md by (simp_all add: tm)
  have "nat mo < 12" using md(1,2) by simp
  from month_days_bound [OF this, of y] show "tm_mday tm \<le> 31" using md(5) by (simp add: tm)
  show "0 \<le> tm_hour tm" "tm_hour tm \<le> 23" "0 \<le> tm_min tm" "tm_min tm \<le> 59" "0 \<le> tm_sec tm" "tm_sec tm \<le> 59"
    using s(1,2) by (simp_all add: tm)
  show "days_before_year (tm_year tm + 1900) \<le> t div 86400" using yd by (simp add: tm)
  show "t div 86400 < days_before_year (tm_year tm + 1901)"
    using yd days_before_year_Suc [of y] by (simp add: tm add.commute)
qed

text \<open>\<open>gmtime_r\<close> fails only beyond the years an \<open>int\<close> holds; within the first ten thousand years the
  parts have the widths of the format.\<close>

lemma days_before_year_less: "days_before_year y < days_before_year z \<Longrightarrow> y < z"
  using days_before_year_mono [of z y] by (auto simp: not_le [symmetric])

lemma year_of_range:
  assumes "days_before_year a \<le> d" and "d < days_before_year b" and "year_of 1970 d = (y, yd)"
  shows "a \<le> y" "y < b"
proof -
  have d: "days_before_year y + yd = d" "0 \<le> yd" "yd < year_days y" using year_of_spec [OF assms(3)] by simp_all
  show "y < b" by (rule days_before_year_less) (use d assms(2) in linarith)
  have "days_before_year a < days_before_year (y + 1)" unfolding days_before_year_Suc using d assms(1) by linarith
  from days_before_year_less [OF this] show "a \<le> y" by simp
qed

lemma gmtime_r_Some:
  assumes "days_before_year (- 2147481748) \<le> t div 86400" and "t div 86400 < days_before_year 2147485548"
  obtains tm where "gmtime_r t = Some tm"
proof -
  obtain y yd where y: "year_of 1970 (t div 86400) = (y, yd)" by fastforce
  then have "in_int32 (y - 1900)" using year_of_range [OF assms y] by (simp add: in_int32_def)
  moreover obtain mo md where "month_of (month_days y) 0 yd = (mo, md)" by fastforce
  ultimately show ?thesis using that by (simp add: gmtime_r_def y Let_def)
qed

lemma gmtime_r_ok:
  assumes "gmtime_r t = Some tm" and "days_before_year 0 \<le> t div 86400" and "t div 86400 < days_before_year 10000"
  shows "tm_ok tm"
proof -
  note p = gmtime_r_parts [OF assms(1)]
  have "tm_year tm + 1900 < 10000" by (rule days_before_year_less, rule le_less_trans [OF p(12) assms(3)])
  moreover have "0 < tm_year tm + 1901" by (rule days_before_year_less, rule le_less_trans [OF assms(2) p(13)])
  ultimately show ?thesis unfolding tm_ok_def using p(2-11) by linarith
qed

text \<open>A year of more than four digits is not read back: after four digits the format wants a dash.\<close>

lemma length_show_nat: "10 ^ k \<le> n \<Longrightarrow> k < length (show_nat n)"
proof (induction n arbitrary: k rule: show_nat.induct)
  case (1 n)
  show ?case
  proof (cases k)
    case (Suc j)
    have "10 \<le> n" using "1.prems" Suc by (intro order_trans [of 10 "10 * 10 ^ j" n]) simp_all
    moreover have "10 ^ j \<le> n div 10" using "1.prems" Suc by (simp add: less_eq_div_iff_mult_less_eq mult.commute)
    ultimately have "\<not> n < 10" "10 ^ j \<le> n div 10" by simp_all
    then show ?thesis using "1.IH" [of j] Suc by (simp add: show_nat.simps [of n])
  qed simp
qed

lemma get_digits_more:
  assumes "n < length ds" and "\<forall>c\<in>set ds. isdigit c" and "get_digits hi n v (ds @ s) = (v', r)"
  shows "\<exists>c r'. r = c # r' \<and> isdigit c"
  using assms
proof (induction ds arbitrary: n v)
  case (Cons d ds)
  then show ?case by (cases n) (auto split: if_splits)
qed simp

lemma get_time_long_year:
  assumes "4 < length ds" and "\<forall>c\<in>set ds. isdigit c"
  shows "get_time (ds @ s) = None"
proof (cases ds)
  case (Cons d ds')
  then have d: "isdigit d" "3 < length ds'" "\<forall>c\<in>set ds'. isdigit c" using assms by auto
  obtain v r where r: "get_digits 9999 3 (digit_val d) (ds' @ s) = (v, r)" by fastforce
  from get_digits_more [OF d(2,3) r] obtain c r' where "r = c # r'" "isdigit c" by blast
  then have "match_char (CHR ''-'') r = None" by (auto simp: match_char_def isdigit_def)
  moreover have "d \<noteq> CHR '' ''" using d(1) by (auto simp: isdigit_def)
  ultimately show ?thesis using r d(1) by (simp add: get_time_def get_number_def Cons split: bind_split)
qed (use assms in simp)

lemma strftime_long_year: "10000 \<le> tm_year tm + 1900 \<Longrightarrow> get_time (strftime tm) = None"
  unfolding strftime_def
  by (simp add: to_string_def, rule get_time_long_year) (auto simp: show_nat_digits intro: length_show_nat)

lemma get_time_format_utc:
  assumes "days_before_year 0 \<le> t div 86400" and "t div 86400 < days_before_year 2147485548"
  shows "get_time (format_utc junk t) =
    (if t div 86400 < days_before_year 10000 then gmtime_r t else None)" and "format_utc junk t \<noteq> []"
proof -
  have "days_before_year (- 2147481748) \<le> t div 86400"
    by (rule order_trans [OF days_before_year_mono assms(1)]) simp
  from gmtime_r_Some [OF this assms(2)] obtain tm where tm: "gmtime_r t = Some tm" by blast
  show "format_utc junk t \<noteq> []" by (simp add: format_utc_def tm strftime_def datetime_text_def two_digits_def)
  show "get_time (format_utc junk t) = (if t div 86400 < days_before_year 10000 then gmtime_r t else None)"
  proof (cases "t div 86400 < days_before_year 10000")
    case True
    then have ok: "tm_ok tm" by (rule gmtime_r_ok [OF tm assms(1)])
    then have "format_utc junk t = datetime_text tm" by (simp add: format_utc_def tm strftime_def tm_ok_def)
    then show ?thesis using True tm get_time_datetime_text [OF ok] by simp
  next
    case False
    then have "days_before_year 10000 < days_before_year (tm_year tm + 1901)"
      by (intro le_less_trans [OF _ gmtime_r_parts(13) [OF tm]]) (simp only: not_less)
    from days_before_year_less [OF this] have "10000 \<le> tm_year tm + 1900" by simp
    from strftime_long_year [OF this] show ?thesis using False by (simp add: format_utc_def tm)
  qed
qed

text \<open>The same with the bounds in seconds: \<open>- 62167219200\<close> starts the year 0, \<open>253402300800\<close> the year 10000, and
  \<open>67768036191676800\<close> the first year an \<open>int\<close> cannot hold.\<close>

lemma format_utc_read:
  assumes "- 62167219200 \<le> t" and "t < 67768036191676800"
  shows "format_utc junk t \<noteq> []"
    and "get_time (format_utc junk t) = (if t < 253402300800 then gmtime_r t else None)"
    and "t < 253402300800 \<Longrightarrow> \<exists>tm. gmtime_r t = Some tm \<and> timegm tm = t"
proof -
  have day: "days_before_year 2147485548 = 784352270737" "days_before_year 10000 = 2932897" "days_before_year 0 = - 719528"
    by (simp_all add: days_before_year_def)
  have lo: "days_before_year 0 \<le> t div 86400"
    using zdiv_mono1 [OF assms(1), of 86400] by (simp add: day)
  have hi: "t div 86400 < n \<longleftrightarrow> t < n * 86400" for n by (rule int_div_less_iff) simp
  have hi1: "t div 86400 < days_before_year 2147485548" and hi2: "t div 86400 < days_before_year 10000 \<longleftrightarrow> t < 253402300800"
    unfolding hi day using assms(2) by simp_all
  show "format_utc junk t \<noteq> []"
    and "get_time (format_utc junk t) = (if t < 253402300800 then gmtime_r t else None)"
    using get_time_format_utc [OF lo hi1] unfolding hi2 by blast+
  have "days_before_year (- 2147481748) \<le> t div 86400"
    by (rule order_trans [OF days_before_year_mono lo]) simp
  from gmtime_r_Some [OF this hi1] gmtime_r_parts(1) show "\<exists>tm. gmtime_r t = Some tm \<and> timegm tm = t" by blast
qed

text \<open>What \<open>UnixToString\<close> writes, \<open>StringToUnix\<close> reads back up to the end of the year 9999; a time before the
  Epoch is written as the Epoch, and a later one is read as a failure, which counts as the Epoch too.\<close>

lemma StringToUnix_UnixToString:
  assumes "t < 67768036191676800"
  shows "StringToUnix (UnixToString junk t) = (if 0 < t \<and> t < 253402300800 then t else 0)"
proof (cases "0 < t")
  case True
  then have "- 62167219200 \<le> t" by simp
  note read = format_utc_read [OF this assms]
  show ?thesis
  proof (cases "t < 253402300800")
    case near: True
    from read(3) [OF near] obtain tm where "gmtime_r t = Some tm" "timegm tm = t" by blast
    then show ?thesis using True near read(1,2) [of junk] by (simp add: UnixToString_def StringToUnix_def)
  next
    case False
    then show ?thesis using True read(1,2) [of junk] by (simp add: UnixToString_def StringToUnix_def)
  qed
next
  case False
  have "get_time ''1970-01-01 00:00:00'' =
      Some \<lparr>tm_year = 70, tm_mon = 0, tm_mday = 1, tm_hour = 0, tm_min = 0, tm_sec = 0\<rparr>" by code_simp
  then show ?thesis using False by (simp add: UnixToString_def StringToUnix_def timegm_def)
qed

text \<open>A text in the past is expired and one in the future is not, until the year 10000; from then on everything
  is.\<close>

lemma IsExpired_UnixToString:
  assumes "t < 67768036191676800" and "NowSeconds s = (Inr now, s')" and "0 < now"
  shows "IsExpired (UnixToString junk t) s = (Inr (t < now \<or> 253402300800 \<le> t), s')"
  using assms by (auto simp: IsExpired_def StringToUnix_UnixToString bindE_Inr ret_def)

text \<open>A point in time loses only its fraction of a second.\<close>

lemma StringToTimePoint_TimePointToString:
  assumes "in_int64 tp"
  shows "StringToTimePoint (TimePointToString junk tp) = cdiv tp NANOS * NANOS"
proof -
  have in64: "in_int64 (cdiv tp NANOS * NANOS)" using in_int64_seconds [OF assms] by (simp add: NANOS_def)
  then have t: "- 62167219200 \<le> cdiv tp NANOS" "cdiv tp NANOS < 67768036191676800" "cdiv tp NANOS < 253402300800"
    by (simp_all add: in_int64_def NANOS_def)
  show ?thesis using in64 format_utc_read [OF t(1,2)] t(3)
    by (auto simp: StringToTimePoint_def TimePointToString_def to_time_t_def from_time_t_def)
qed
text \<open>Up to 24855 days the number of seconds fits an \<open>int\<close>, in either direction; from 24856 days on the product
  wraps to a time in the past.\<close>

lemma future_days_exact:
  assumes "\<bar>days\<bar> \<le> 24855"
  shows "FutureDaysString junk days = FutureString junk (days * 86400)"
proof -
  have "wrap32 (days * 24) = days * 24" "wrap32 (days * 86400) = days * 86400"
    using assms by (auto intro!: wrap32_id simp: in_int32_def)
  then show ?thesis by (simp add: FutureDaysString_def mult.commute [of 86400])
qed

lemma future_days_wraps:
  assumes "24856 \<le> days" and "days \<le> 49710"
  shows "FutureDaysString junk days = FutureString junk (days * 86400 - 2 ^ 32)" and "days * 86400 - 2 ^ 32 < 0"
proof -
  have "wrap32 (days * 24) = days * 24" using assms by (intro wrap32_id) (simp add: in_int32_def)
  moreover have "wrap32 (days * 86400) = days * 86400 - 2 ^ 32"
  proof -
    have "(days * 86400 + 2 ^ 31) mod 2 ^ 32 = (days * 86400 + 2 ^ 31 - 2 ^ 32) mod 2 ^ 32"
      by (simp only: minus_mod_self2)
    also have "\<dots> = days * 86400 + 2 ^ 31 - 2 ^ 32" using assms by (intro mod_pos_pos_trivial) simp_all
    finally show ?thesis by (simp add: wrap32_def)
  qed
  ultimately show "FutureDaysString junk days = FutureString junk (days * 86400 - 2 ^ 32)"
    by (simp add: FutureDaysString_def mult.commute [of 86400])
  show "days * 86400 - 2 ^ 32 < 0" using assms by simp
qed


end
