(* ===== verification/Logger.thy ===== *)
theory Logger
  imports Cpp_Strings
begin

section \<open>The logger\<close>

text \<open>
  \<open>include/common/logger.h\<close> and \<open>src/common/logger.cpp\<close>: \<open>Logger::Init\<close> makes the sinks and the default logger of
  the library spdlog, \<open>Shutdown\<close> closes it, and the macros write through it. The file system and what spdlog
  does outside the program (opening a file, starting its thread, writing a line) are operations of a parameter;
  each may throw. Shown: \<open>Init\<close> lets no exception out, leaves an initialized logger alone, and an initialized
  logger has a place to write to; a failure leaves the macros silent; and which records reach which sink.
\<close>

subsection \<open>Levels\<close>

datatype level_enum = level_trace | level_debug | level_info | level_warn | level_err | level_critical

fun level_rank :: "level_enum \<Rightarrow> nat" where
  "level_rank level_trace = 0"
| "level_rank level_debug = 1"
| "level_rank level_info = 2"
| "level_rank level_warn = 3"
| "level_rank level_err = 4"
| "level_rank level_critical = 5"

lemma level_rank_inj [simp]: "level_rank a = level_rank b \<longleftrightarrow> a = b"
  by (cases a; cases b) simp_all

instantiation level_enum :: linorder
begin

definition less_eq_level_enum :: "level_enum \<Rightarrow> level_enum \<Rightarrow> bool" where
  "a \<le> b \<longleftrightarrow> level_rank a \<le> level_rank b"

definition less_level_enum :: "level_enum \<Rightarrow> level_enum \<Rightarrow> bool" where
  "a < b \<longleftrightarrow> level_rank a < level_rank b"

instance
  by standard (auto simp: less_eq_level_enum_def less_level_enum_def)

end

lemmas level_order = less_eq_level_enum_def less_level_enum_def

definition ParseLevel :: "string \<Rightarrow> level_enum" where
  "ParseLevel level =
     (if level = ''trace'' then level_trace
      else if level = ''debug'' then level_debug
      else if level = ''info'' then level_info
      else if level = ''warn'' then level_warn
      else if level = ''error'' then level_err
      else if level = ''critical'' then level_critical
      else level_info)"

subsection \<open>Sinks and the default logger\<close>

datatype log_sink = console_sink level_enum | rfile_sink string int int level_enum

fun sink_level :: "log_sink \<Rightarrow> level_enum" where
  "sink_level (console_sink l) = l"
| "sink_level (rfile_sink _ _ _ l) = l"

record spd_logger =
  sp_level :: level_enum
  sp_sinks :: "log_sink list"

text \<open>\<open>lg_default\<close> is \<open>None\<close> after \<open>spdlog::shutdown\<close> and before any logger of the program.\<close>

record 'e log_state =
  lg_initialized :: bool
  lg_default :: "spd_logger option"
  lg_env :: 'e

record 'e log_lib =
  ll_console :: "('e, unit) io"
  ll_exists :: "string \<Rightarrow> ('e, bool) io"
  ll_create_directories :: "string \<Rightarrow> ('e, bool) io"
  ll_absolute :: "string \<Rightarrow> ('e, string) io"
  ll_rotating_file :: "string \<Rightarrow> int \<Rightarrow> int \<Rightarrow> ('e, unit) io"
  ll_init_thread_pool :: "nat \<Rightarrow> nat \<Rightarrow> ('e, unit) io"
  ll_make_logger :: "string \<Rightarrow> ('e, unit) io"
  ll_flush_every :: "int \<Rightarrow> ('e, unit) io"
  ll_write :: "log_sink \<Rightarrow> level_enum \<Rightarrow> string \<Rightarrow> 'e \<Rightarrow> 'e"
  ll_flush :: "'e \<Rightarrow> 'e"
  ll_shutdown :: "'e \<Rightarrow> 'e"

definition on_env :: "('e, 'a) io \<Rightarrow> ('e log_state, 'a) io" where
  "on_env = zoom lg_env (\<lambda>e s. s\<lparr>lg_env := e\<rparr>)"

text \<open>A record goes to the sinks whose level it has, when it has the level of the logger.\<close>

definition spd_log :: "'e log_lib \<Rightarrow> level_enum \<Rightarrow> string \<Rightarrow> 'e log_state \<Rightarrow> 'e log_state" where
  "spd_log lib l msg s = (case lg_default s of
       None \<Rightarrow> s
     | Some g \<Rightarrow> if sp_level g \<le> l
         then s\<lparr>lg_env := fold (\<lambda>k. ll_write lib k l msg) (filter (\<lambda>k. sink_level k \<le> l) (sp_sinks g)) (lg_env s)\<rparr>
         else s)"

text \<open>The macros \<open>SPDLOG_TRACE\<close> to \<open>SPDLOG_ERROR\<close> are empty below \<open>SPDLOG_ACTIVE_LEVEL\<close>, which the header sets to
  debug.\<close>

definition ACTIVE_LEVEL :: level_enum where
  "ACTIVE_LEVEL = level_debug"

definition SPDLOG :: "'e log_lib \<Rightarrow> level_enum \<Rightarrow> string \<Rightarrow> 'e log_state \<Rightarrow> 'e log_state" where
  "SPDLOG lib l msg s = (if ACTIVE_LEVEL \<le> l then spd_log lib l msg s else s)"

text \<open>\<open>LOG_TRACE\<close> to \<open>LOG_ERROR\<close>.\<close>

definition LOG :: "'e log_lib \<Rightarrow> level_enum \<Rightarrow> string \<Rightarrow> 'e log_state \<Rightarrow> 'e log_state" where
  "LOG lib l msg s = (if lg_initialized s then SPDLOG lib l msg s else s)"

subsection \<open>Init and Shutdown\<close>

text \<open>\<open>std::filesystem::path::operator/\<close>.\<close>

definition path_append :: "string \<Rightarrow> string \<Rightarrow> string" where
  "path_append dir f =
     (if f \<noteq> [] \<and> hd f = CHR ''/'' then f
      else if dir = [] \<or> last dir = CHR ''/'' then dir @ f else dir @ ''/'' @ f)"

definition set_default_logger :: "spd_logger \<Rightarrow> ('e log_state, unit) io" where
  "set_default_logger g = modify (\<lambda>s. s\<lparr>lg_default := Some g\<rparr>)"

definition set_initialized :: "bool \<Rightarrow> ('e log_state, unit) io" where
  "set_initialized b = modify (\<lambda>s. s\<lparr>lg_initialized := b\<rparr>)"

definition make_console :: "'e log_lib \<Rightarrow> bool \<Rightarrow> ('e log_state, log_sink list) io" where
  "make_console lib console_output =
     (if console_output then bindE (on_env (ll_console lib)) (\<lambda>_. ret [console_sink level_debug]) else ret [])"

text \<open>The directory: true when the file can be opened, false when \<open>create_directories\<close> made none.\<close>

definition make_directory :: "'e log_lib \<Rightarrow> string \<Rightarrow> ('e log_state, bool) io" where
  "make_directory lib log_path =
     bindE (on_env (ll_exists lib log_path)) (\<lambda>there.
     if there then ret True
     else bindE (on_env (ll_create_directories lib log_path)) (\<lambda>made.
       if \<not> made then ret False
       else bindE (on_env (ll_absolute lib log_path)) (\<lambda>_. ret True)))"

text \<open>Without the directory only the console is left, when there is one.\<close>

definition console_only :: "'e log_lib \<Rightarrow> string \<Rightarrow> log_sink list \<Rightarrow> ('e log_state, unit) io" where
  "console_only lib level sinks =
     (if sinks \<noteq> [] then
        bindE (on_env (ll_make_logger lib ''user_service'')) (\<lambda>_.
        bindE (set_default_logger \<lparr>sp_level = ParseLevel level, sp_sinks = sinks\<rparr>) (\<lambda>_.
        bindE (set_initialized True) (\<lambda>_.
        modify (SPDLOG lib level_warn (utf8 [0x65E5, 0x5FD7, 0x76EE, 0x5F55, 0x521B, 0x5EFA, 0x5931, 0x8D25, 0xFF0C, 0x4EC5, 0x8F93, 0x51FA, 0x5230, 0x63A7, 0x5236, 0x53F0])))))
      else ret ())"

definition async_logger :: "'e log_lib \<Rightarrow> string \<Rightarrow> string \<Rightarrow> int \<Rightarrow> int \<Rightarrow> log_sink list \<Rightarrow> ('e log_state, unit) io" where
  "async_logger lib full_path level max_size max_files sinks =
     bindE (on_env (ll_rotating_file lib full_path max_size max_files)) (\<lambda>_.
     bindE (on_env (ll_init_thread_pool lib 8192 1)) (\<lambda>_.
     bindE (on_env (ll_make_logger lib ''user_service'')) (\<lambda>_.
     bindE (set_default_logger \<lparr>sp_level = ParseLevel level,
       sp_sinks = sinks @ [rfile_sink full_path max_size max_files level_trace]\<rparr>) (\<lambda>_.
     bindE (on_env (ll_flush_every lib 3)) (\<lambda>_.
     bindE (set_initialized True) (\<lambda>_.
     bindE (modify (SPDLOG lib level_info (''Logger initialized, level='' @ level @ '', path='' @ full_path))) (\<lambda>_.
     bindE (modify (\<lambda>s. s\<lparr>lg_env := ll_flush lib (lg_env s)\<rparr>)) (\<lambda>_.
     bindE (on_env (ll_absolute lib full_path)) (\<lambda>_. ret ())))))))))"

definition Logger_Init :: "'e log_lib \<Rightarrow> string \<Rightarrow> string \<Rightarrow> string \<Rightarrow> int \<Rightarrow> int \<Rightarrow> bool \<Rightarrow> ('e log_state, unit) io" where
  "Logger_Init lib log_path filename level max_size max_files console_output =
     bindE (asks lg_initialized) (\<lambda>initialized.
     if initialized then ret ()
     else try_catch (
       bindE (make_console lib console_output) (\<lambda>sinks.
       bindE (make_directory lib log_path) (\<lambda>dir.
       if \<not> dir then console_only lib level sinks
       else async_logger lib (path_append log_path filename) level max_size max_files sinks)))
       (\<lambda>_. ret ()))"

definition Logger_Shutdown :: "'e log_lib \<Rightarrow> 'e log_state \<Rightarrow> 'e log_state" where
  "Logger_Shutdown lib s =
     (if lg_initialized s
      then let s1 = SPDLOG lib level_info ''Logger shutting down...'' s;
               s2 = (if lg_default s1 \<noteq> None then s1\<lparr>lg_env := ll_flush lib (lg_env s1)\<rparr> else s1)
           in s2\<lparr>lg_env := ll_shutdown lib (lg_env s2), lg_default := None, lg_initialized := False\<rparr>
      else s)"

subsection \<open>What Init leaves\<close>

text \<open>An initialized logger has a place to write to.\<close>

definition log_ok :: "'e log_state \<Rightarrow> bool" where
  "log_ok s \<longleftrightarrow> (lg_initialized s \<longrightarrow> (\<exists>g. lg_default s = Some g \<and> sp_sinks g \<noteq> []))"

text \<open>What \<open>Init\<close> may change to when it initializes: the level asked for, the console when asked for, and the
  rotated file unless the directory could not be made.\<close>

definition set_up :: "string \<Rightarrow> string \<Rightarrow> string \<Rightarrow> int \<Rightarrow> int \<Rightarrow> bool \<Rightarrow> spd_logger \<Rightarrow> bool" where
  "set_up log_path filename level max_size max_files console_output g \<longleftrightarrow>
     sp_level g = ParseLevel level \<and>
     (let console = (if console_output then [console_sink level_debug] else []) in
       sp_sinks g = console @ [rfile_sink (path_append log_path filename) max_size max_files level_trace]
       \<or> sp_sinks g = console \<and> console_output)"

lemma SPDLOG_fields [simp]:
  "lg_initialized (SPDLOG lib l msg s) = lg_initialized s" "lg_default (SPDLOG lib l msg s) = lg_default s"
  by (simp_all add: SPDLOG_def spd_log_def split: option.splits)

text \<open>A computation with a bound on what it leaves, whether it returns or throws.\<close>

definition leaves :: "('w, 'a) io \<Rightarrow> ('w \<Rightarrow> bool) \<Rightarrow> ('w \<Rightarrow> bool) \<Rightarrow> bool" where
  "leaves m P Q \<longleftrightarrow> (\<forall>w. P w \<longrightarrow> Q (snd (m w)))"

lemma leaves_bindE:
  assumes "leaves m P Q" and "\<And>w. Q w \<Longrightarrow> R w" and "\<And>w a w'. m w = (Inr a, w') \<Longrightarrow> leaves (f a) Q R"
  shows "leaves (bindE m f) P R"
  unfolding leaves_def
proof (intro allI impI)
  fix w
  assume "P w"
  then have Q: "Q (snd (m w))" using assms(1) by (simp add: leaves_def)
  show "R (snd (bindE m f w))"
  proof (cases "m w")
    case (Pair r w')
    then show ?thesis using Q assms(2,3) by (cases r) (simp_all add: bindE_def leaves_def)
  qed
qed

lemma leaves_weaken: "leaves m P Q \<Longrightarrow> (\<And>w. Q w \<Longrightarrow> R w) \<Longrightarrow> leaves m P R"
  by (simp add: leaves_def)

lemma leaves_ret [simp]: "leaves (ret a) P P"
  by (simp add: leaves_def ret_def)

lemma leaves_on_env: "(\<And>e w. P w \<Longrightarrow> P (w\<lparr>lg_env := e\<rparr>)) \<Longrightarrow> leaves (on_env m) P P"
  by (simp add: leaves_def on_env_def zoom_def split: prod.splits)

lemma leaves_modify: "(\<And>w. P w \<Longrightarrow> Q (f w)) \<Longrightarrow> leaves (modify f) P Q"
  by (simp add: leaves_def modify_def)

text \<open>The stages of \<open>Init\<close>: not yet initialized, and with a default logger as asked for.\<close>

abbreviation pending :: "'e log_state \<Rightarrow> bool" where
  "pending s \<equiv> \<not> lg_initialized s"

definition installed :: "(spd_logger \<Rightarrow> bool) \<Rightarrow> 'e log_state \<Rightarrow> bool" where
  "installed U s \<longleftrightarrow> (\<exists>g. lg_default s = Some g \<and> U g)"

definition good_end :: "(spd_logger \<Rightarrow> bool) \<Rightarrow> 'e log_state \<Rightarrow> bool" where
  "good_end U s \<longleftrightarrow> (lg_initialized s \<longrightarrow> installed U s)"

lemma stages:
  "installed U s \<Longrightarrow> good_end U s" "pending s \<Longrightarrow> good_end U s"
  "leaves (on_env m) pending pending" "leaves (on_env m) (installed U) (installed U)"
  "U g \<Longrightarrow> leaves (set_default_logger g) pending (installed U)"
  "leaves (set_initialized b) (installed U) (installed U)"
  "leaves (modify (SPDLOG lib l msg)) (installed U) (installed U)"
  "leaves (modify (\<lambda>s. s\<lparr>lg_env := h s\<rparr>)) (installed U) (installed U)"
  by (auto simp: good_end_def installed_def set_default_logger_def set_initialized_def intro!: leaves_on_env leaves_modify)

lemma init_rules:
  "leaves m (installed U) (installed U) \<Longrightarrow> (\<And>a. leaves (f a) (installed U) (good_end U)) \<Longrightarrow> leaves (bindE m f) (installed U) (good_end U)"
  "leaves m pending pending \<Longrightarrow> (\<And>a. leaves (f a) pending (good_end U)) \<Longrightarrow> leaves (bindE m f) pending (good_end U)"
  "U g \<Longrightarrow> (\<And>a. leaves (h a) (installed U) (good_end U)) \<Longrightarrow> leaves (bindE (set_default_logger g) h) pending (good_end U)"
  "leaves (ret a) (installed U) (good_end U)" "leaves (ret a) pending (good_end U)"
  by (blast intro: leaves_bindE stages leaves_weaken [OF leaves_ret])+

lemma leaves_async_logger:
  assumes "U \<lparr>sp_level = ParseLevel level, sp_sinks = sinks @ [rfile_sink full_path max_size max_files level_trace]\<rparr>"
  shows "leaves (async_logger lib full_path level max_size max_files sinks) pending (good_end U)"
  unfolding async_logger_def
  by (rule init_rules(2) [OF stages(3)] init_rules(3) init_rules(4) assms init_rules(1) stages(4,6-8))+

lemma leaves_console_only:
  assumes "sinks \<noteq> [] \<Longrightarrow> U \<lparr>sp_level = ParseLevel level, sp_sinks = sinks\<rparr>"
  shows "leaves (console_only lib level sinks) pending (good_end U)"
proof (cases "sinks = []")
  case False
  show ?thesis unfolding console_only_def if_P [OF False]
    by (rule init_rules(2) [OF stages(3)] init_rules(3) assms False init_rules(1) stages(6)
      leaves_weaken [OF stages(7) stages(1)] | assumption)+
qed (simp add: console_only_def init_rules)

lemma leaves_make_directory: "leaves (make_directory lib log_path) pending pending"
proof -
  have "leaves (bindE (on_env (ll_create_directories lib log_path)) (\<lambda>made.
       if \<not> made then ret False
       else bindE (on_env (ll_absolute lib log_path)) (\<lambda>_. ret True))) pending pending"
    by (rule leaves_bindE [OF stages(3)], assumption) (simp add: leaves_bindE [OF stages(3)])
  then show ?thesis unfolding make_directory_def
    by (intro leaves_bindE [OF stages(3)]) simp_all
qed

lemma bindE_asks: "bindE (asks f) g w = g (f w) w"
  by (simp add: bindE_def asks_def)

lemma snd_try_catch_ret: "snd (try_catch m (\<lambda>_. ret a) w) = snd (m w)"
  by (simp add: try_catch_def ret_def split: prod.splits sum.splits)

lemma leaves_make_console: "leaves (make_console lib console_output) pending pending"
  by (simp add: make_console_def leaves_bindE [OF stages(3)])

lemma make_console_value:
  "make_console lib console_output w = (Inr sinks, w') \<Longrightarrow> sinks = (if console_output then [console_sink level_debug] else [])"
  by (auto simp: make_console_def bindE_Inr_iff ret_def split: if_splits)

text \<open>Whatever the libraries do, an \<open>Init\<close> that ends initialized has set up what was asked for.\<close>

lemma Logger_Init_leaves:
  "leaves (Logger_Init lib log_path filename level max_size max_files console_output) pending
     (good_end (set_up log_path filename level max_size max_files console_output))"
proof -
  let ?U = "set_up log_path filename level max_size max_files console_output"
  let ?rest = "\<lambda>sinks. bindE (make_directory lib log_path) (\<lambda>dir.
       if \<not> dir then console_only lib level sinks
       else async_logger lib (path_append log_path filename) level max_size max_files sinks)"
  have rest: "leaves (?rest sinks) pending (good_end ?U)"
    if sinks: "sinks = (if console_output then [console_sink level_debug] else [])" for sinks
    by (intro leaves_bindE [OF leaves_make_directory] stages(2))
      (auto intro!: leaves_console_only leaves_async_logger simp: sinks set_up_def split: if_splits)
  have body: "leaves (bindE (make_console lib console_output) ?rest) pending (good_end ?U)"
    by (rule leaves_bindE [OF leaves_make_console stages(2)], assumption) (rule rest [OF make_console_value])
  show ?thesis unfolding leaves_def
  proof (intro allI impI)
    fix w :: "'a log_state"
    assume w: "pending w"
    then have "snd (Logger_Init lib log_path filename level max_size max_files console_output w) =
        snd (bindE (make_console lib console_output) ?rest w)"
      by (simp add: Logger_Init_def bindE_asks snd_try_catch_ret)
    then show "good_end ?U (snd (Logger_Init lib log_path filename level max_size max_files console_output w))"
      using body w by (simp add: leaves_def)
  qed
qed

lemma Logger_Init_contained: "contained (Logger_Init lib log_path filename level max_size max_files console_output)"
  by (auto simp: contained_def Logger_Init_def bindE_asks ret_def try_catch_def split: prod.splits sum.splits if_splits)

text \<open>\<open>Init\<close> lets no exception of the libraries out; on an initialized logger it does nothing; and it keeps the
  invariant, as \<open>Shutdown\<close> and the macros do.\<close>

lemma Logger_Init_safe:
  assumes "Logger_Init lib log_path filename level max_size max_files console_output s = (r, s')"
  shows "r = Inr () \<or> r = Inl Terminate"
    and "lg_initialized s \<Longrightarrow> s' = s"
    and "\<not> lg_initialized s \<Longrightarrow> lg_initialized s' \<Longrightarrow>
      \<exists>g. lg_default s' = Some g \<and> set_up log_path filename level max_size max_files console_output g"
    and "log_ok s \<Longrightarrow> log_ok s'"
proof -
  show "r = Inr () \<or> r = Inl Terminate"
    using Logger_Init_contained [of lib log_path filename level max_size max_files console_output] assms
    by (cases r) (auto simp: contained_def)
  show same: "s' = s" if "lg_initialized s"
    using assms that by (simp add: Logger_Init_def bindE_asks ret_def)
  show made: "\<exists>g. lg_default s' = Some g \<and> set_up log_path filename level max_size max_files console_output g"
    if "\<not> lg_initialized s" "lg_initialized s'"
    using Logger_Init_leaves [of lib log_path filename level max_size max_files console_output] that assms
    by (auto simp: leaves_def good_end_def installed_def dest!: spec [of _ s])
  show "log_ok s'" if "log_ok s"
  proof (cases "lg_initialized s")
    case False
    then show ?thesis using made by (auto simp: log_ok_def set_up_def Let_def)
  qed (use that same in simp)
qed

lemma log_ok_kept:
  "log_ok s \<Longrightarrow> log_ok (LOG lib l msg s)" "log_ok (Logger_Shutdown lib s)"
  by (simp_all add: log_ok_def LOG_def Logger_Shutdown_def Let_def)

lemma Shutdown_allows_Init: "\<not> lg_initialized (Logger_Shutdown lib s)"
  by (simp add: Logger_Shutdown_def Let_def)

text \<open>Which records are written: none before \<open>Init\<close> has succeeded, and none of \<open>LOG_TRACE\<close> whatever the level.
  With the set-up of the program the console gets what the file gets.\<close>

lemma LOG_silent: "\<not> lg_initialized s \<Longrightarrow> LOG lib l msg s = s" "LOG lib level_trace msg s = s"
  by (simp_all add: LOG_def SPDLOG_def ACTIVE_LEVEL_def level_order)

lemma LOG_written:
  assumes "lg_initialized s" and "lg_default s = Some g" and "set_up log_path filename level max_size max_files console_output g"
  shows "LOG lib l msg s = (if level_debug \<le> l \<and> ParseLevel level \<le> l
    then s\<lparr>lg_env := fold (\<lambda>k. ll_write lib k l msg) (sp_sinks g) (lg_env s)\<rparr> else s)"
proof -
  have g: "sp_level g = ParseLevel level" using assms(3) by (simp add: set_up_def)
  have "filter (\<lambda>k. sink_level k \<le> l) (sp_sinks g) = sp_sinks g" if "level_debug \<le> l"
  proof -
    have "level_trace \<le> l" by (simp add: level_order)
    then have "\<forall>k\<in>set (sp_sinks g). sink_level k \<le> l"
      using assms(3) that by (auto simp: set_up_def Let_def split: if_splits)
    then show ?thesis by simp
  qed
  then show ?thesis using assms(1,2) g by (simp add: LOG_def SPDLOG_def spd_log_def ACTIVE_LEVEL_def)
qed

lemma ParseLevel_cases:
  "ParseLevel level = level_info \<longleftrightarrow> level \<notin> {''trace'', ''debug'', ''warn'', ''error'', ''critical''}"
  by (simp add: ParseLevel_def)

end
