(* ===== verification/Main_Programs.thy ===== *)
theory Main_Programs
  imports Logger Server_Builder Server_Life
begin

section \<open>The main programs\<close>

text \<open>
  \<open>main\<close> of \<open>src/server/auth_main.cpp\<close> and \<open>user_main.cpp\<close> up to the call of \<open>Run\<close>, composed of the parts the other
  theories model: the configuration from the file, the logger, the builder, and \<open>Initialize\<close> with its fallback for
  the logger. What \<open>Run\<close> and the signal handlers do with the server that is handed over is \<^verbatim>\<open>Server_Life\<close>.
\<close>

subsection \<open>The programs\<close>

record 'l main_world =
  mw_store :: config_store
  mw_log :: "'l log_state"

definition on_log :: "('l log_state, 'a) io \<Rightarrow> ('l main_world, 'a) io" where
  "on_log = zoom mw_log (\<lambda>g w. w\<lparr>mw_log := g\<rparr>)"

definition on_store :: "(config_store, 'a) io \<Rightarrow> ('l main_world, 'a) io" where
  "on_store = zoom mw_store (\<lambda>g w. w\<lparr>mw_store := g\<rparr>)"

definition init_logger :: "'l log_lib \<Rightarrow> LogConfig \<Rightarrow> ('l main_world, unit) io" where
  "init_logger log c = on_log (Logger_Init log (log_path c) (log_filename c) (log_level c) (log_max_size c)
     (log_max_files c) (log_console_output c))"

text \<open>The first statement of \<open>GrpcServer::Initialize\<close>.\<close>

definition ensure_logger :: "'l log_lib \<Rightarrow> LogConfig \<Rightarrow> ('l main_world, unit) io" where
  "ensure_logger log c =
     bindE (asks (\<lambda>w. lg_initialized (mw_log w))) (\<lambda>there.
     if \<not> there then
       bindE (init_logger log c) (\<lambda>_.
       on_log (modify (LOG log level_info ''Logger initialized by GrpcServer (fallback)'')))
     else ret ())"

text \<open>A server as \<open>Run\<close> finds it: no thread is in it and \<open>Shutdown\<close> was not called.\<close>

definition life_of :: "('s, 'e, 'r, 'z, 'cb) GrpcServer \<Rightarrow> ('s, 'e, 'r, 'z, 'cb) server_life" where
  "life_of s = GrpcServer.extend s \<lparr>sl_owner = Idle, sl_calls = \<lambda>_. NotCalled, sl_callbacks = 0\<rparr>"

text \<open>\<open>Inl\<close> is the status \<open>main\<close> returns, \<open>Inr\<close> the server it calls \<open>Run\<close> on.\<close>

definition main_program :: "('s, 'e, 'r, 'z) libraries \<Rightarrow> 'l log_lib \<Rightarrow> string \<Rightarrow> int \<Rightarrow> 'n yaml \<Rightarrow> (string \<Rightarrow> string option)
    \<Rightarrow> ('l main_world, int + ('s, 'e, 'r, 'z, 'cb) server_life) io" where
  "main_program lib log name port yaml getenv =
     try_catch (
       bindE (lift (LoadFromFile yaml (config_path getenv))) (\<lambda>config.
       bindE (init_logger log (cfg_log config)) (\<lambda>_.
       bindE (on_store (main_build name port getenv config)) (\<lambda>server.
       bindE (asks (\<lambda>w. mw_store w ! gs_config server)) (\<lambda>c.
       bindE (ensure_logger log (cfg_log c)) (\<lambda>_.
       case Initialize lib c server of
         (Inl e, _) \<Rightarrow> throw e
       | (Inr initialized, server') \<Rightarrow> ret (if \<not> initialized then Inl 1 else Inr (life_of server'))))))))
     (\<lambda>e. ret (Inl 1))"

definition auth_main :: "('s, 'e, 'r, 'z) libraries \<Rightarrow> 'l log_lib \<Rightarrow> 'n yaml \<Rightarrow> (string \<Rightarrow> string option)
    \<Rightarrow> ('l main_world, int + ('s, 'e, 'r, 'z, 'cb) server_life) io" where
  "auth_main lib log = main_program lib log ''auth-service'' 50052"

definition user_main :: "('s, 'e, 'r, 'z) libraries \<Rightarrow> 'l log_lib \<Rightarrow> 'n yaml \<Rightarrow> (string \<Rightarrow> string option)
    \<Rightarrow> ('l main_world, int + ('s, 'e, 'r, 'z, 'cb) server_life) io" where
  "user_main lib log = main_program lib log ''user-service'' 50051"

subsection \<open>The parts keep to themselves\<close>

text \<open>What \<open>Run\<close> and \<open>Shutdown\<close> look at in a server; \<open>Initialize\<close> does not touch it.\<close>

definition life_part :: "('s, 'e, 'r, 'z, 'cb) GrpcServer \<Rightarrow> nat \<times> bool option \<times> bool \<times> bool \<times> monitor_pc option" where
  "life_part s = (gs_config s, gs_server s, gs_running s, gs_shutdown_requested s, gs_shutdown_monitor_thread s)"

abbreviation life_is :: "nat \<times> bool option \<times> bool \<times> bool \<times> monitor_pc option \<Rightarrow> ('s, 'e, 'r, 'z, 'cb) GrpcServer \<Rightarrow> bool" where
  "life_is l s \<equiv> life_part s = l"

lemma life_rules:
  "leaves m (life_is l) (life_is l) \<Longrightarrow> (\<And>a. leaves (f a) (life_is l) (life_is l)) \<Longrightarrow> leaves (bindE m f) (life_is l) (life_is l)"
  "leaves (lift v) (life_is l) (life_is l)"
  "(\<And>s. life_part (h s) = life_part s) \<Longrightarrow> leaves (modify h) (life_is l) (life_is l)"
  "(\<And>c s. life_part (p c s) = life_part s) \<Longrightarrow> leaves (zoom g p inner) (life_is l) (life_is l)"
  "leaves (ret b) (life_is l) (life_is l)"
  "leaves m (life_is l) (life_is l) \<Longrightarrow> leaves n (life_is l) (life_is l) \<Longrightarrow> leaves (if c then m else n) (life_is l) (life_is l)"
  by (blast intro: leaves_bindE)
    (auto simp: leaves_def lift_def modify_def zoom_def ret_def split: prod.splits)

lemma life_try_catch:
  "leaves m (life_is l) (life_is l) \<Longrightarrow> leaves (try_catch m (\<lambda>_. ret a)) (life_is l) (life_is l)"
  by (simp add: leaves_def snd_try_catch_ret)

lemma Init_steps_life:
  "leaves (InitInfrastructure lib config) (life_is l) (life_is l)"
  "leaves InitRepositories (life_is l) (life_is l)"
  "leaves (InitServices lib config) (life_is l) (life_is l)"
  "leaves InitHandlers (life_is l) (life_is l)"
  "leaves (InitServiceDiscovery lib config) (life_is l) (life_is l)"
  unfolding InitInfrastructure_def InitRepositories_def InitServices_def InitHandlers_def InitServiceDiscovery_def
  by (intro life_rules life_try_catch; simp add: life_part_def)+

lemma Initialize_life:
  assumes "Initialize lib config s = (r, s')"
  shows "life_part s' = life_part s"
proof -
  have "leaves (Initialize lib config) (life_is (life_part s)) (life_is (life_part s))"
    unfolding Initialize_def by (intro life_rules life_try_catch Init_steps_life)
  then show ?thesis using assms by (auto simp: leaves_def dest!: spec [of _ s])
qed

lemma not_started_life_of:
  assumes "life_part s = life_part s0" and "GrpcServer_new (Some a) = Inr s0"
  shows "not_started (life_of s)" "gs_config (life_of s) = a" "GrpcServer.truncate (life_of s) = s"
  using assms by (auto simp: not_started_def life_of_def life_part_def GrpcServer_new_def GrpcServer.defs)
lemma env_set_log [simp]:
  "cfg_log (env_set getenv n (\<lambda>v. cfg_mysql_update (f1 v)) c) = cfg_log c"
  "cfg_log (env_set getenv n (\<lambda>v. cfg_redis_update (f2 v)) c) = cfg_log c"
  "cfg_log (env_set getenv n (\<lambda>v. cfg_zookeeper_update (f3 v)) c) = cfg_log c"
  "cfg_log (env_set getenv n (\<lambda>v. cfg_security_update (f4 v)) c) = cfg_log c"
  "cfg_log (env_set getenv n (\<lambda>v. cfg_sms_update (f5 v)) c) = cfg_log c"
  "cfg_log (env_set getenv n (\<lambda>v. cfg_login_update (f6 v)) c) = cfg_log c"
  "cfg_log (env_set getenv n (\<lambda>v. cfg_password_update (f7 v)) c) = cfg_log c"
  by (simp_all add: env_set_def split: option.splits)

text \<open>No variable of the environment reaches the logger.\<close>

lemma main_config_log: "cfg_log (main_config name port getenv config) = cfg_log config"
  by (simp add: main_config_def LoadFromEnv_def)

text \<open>The file system and spdlog throw only what can be caught.\<close>

definition log_lib_ok :: "'l log_lib \<Rightarrow> bool" where
  "log_lib_ok lib \<longleftrightarrow> catchable (ll_console lib) \<and> (\<forall>p. catchable (ll_exists lib p)) \<and> (\<forall>p. catchable (ll_create_directories lib p))
     \<and> (\<forall>p. catchable (ll_absolute lib p)) \<and> (\<forall>p n k. catchable (ll_rotating_file lib p n k))
     \<and> (\<forall>q n. catchable (ll_init_thread_pool lib q n)) \<and> (\<forall>n. catchable (ll_make_logger lib n)) \<and> (\<forall>n. catchable (ll_flush_every lib n))"

lemma catchable_log_rules:
  "catchable m \<Longrightarrow> catchable (on_env m)" "catchable (modify f)" "catchable (set_default_logger g)" "catchable (set_initialized b)"
  by (auto simp: catchable_def on_env_def zoom_def modify_def set_default_logger_def set_initialized_def split: prod.splits)

lemma Logger_Init_returns:
  assumes "log_lib_ok lib"
  obtains g where "Logger_Init lib dir_path filename level max_size max_files console_output s = (Inr (), g)"
    and "lg_initialized s \<Longrightarrow> g = s"
    and "lg_initialized g \<Longrightarrow> \<not> lg_initialized s \<Longrightarrow>
      \<exists>d. lg_default g = Some d \<and> set_up dir_path filename level max_size max_files console_output d"
proof -
  note ok = assms [unfolded log_lib_ok_def]
  have "catchable (make_console lib console_output)" "catchable (make_directory lib dir_path)"
    "catchable (console_only lib level sinks)" "catchable (async_logger lib full_path level max_size max_files sinks)" for sinks full_path
    unfolding make_console_def make_directory_def console_only_def async_logger_def
    using ok by (auto intro!: catchable_bindE catchable_log_rules)
  then have body: "catchable (bindE (make_console lib console_output) (\<lambda>sinks.
       bindE (make_directory lib dir_path) (\<lambda>dir.
       if \<not> dir then console_only lib level sinks
       else async_logger lib (path_append dir_path filename) level max_size max_files sinks)))"
    by (auto intro!: catchable_bindE)
  obtain r g where run: "Logger_Init lib dir_path filename level max_size max_files console_output s = (r, g)" by fastforce
  then have "r \<noteq> Inl Terminate"
    using body by (auto simp: Logger_Init_def bindE_asks catchable_def try_catch_def ret_def split: if_splits prod.splits sum.splits)
  then have "r = Inr ()" using Logger_Init_safe(1) [OF run] by simp
  with run Logger_Init_safe(2,3) [OF run] that show thesis by blast
qed

definition logging :: "LogConfig \<Rightarrow> 'l log_state \<Rightarrow> bool" where
  "logging c g \<longleftrightarrow> (lg_initialized g \<longrightarrow> (\<exists>d. lg_default g = Some d \<and> set_up (log_path c) (log_filename c) (log_level c)
     (log_max_size c) (log_max_files c) (log_console_output c) d))"

lemma init_logger_run:
  assumes "log_lib_ok log" and "logging c (mw_log w)"
  obtains g where "init_logger log c w = (Inr (), w\<lparr>mw_log := g\<rparr>)" and "logging c g"
proof (rule Logger_Init_returns [OF assms(1), of "log_path c" "log_filename c" "log_level c" "log_max_size c" "log_max_files c"
      "log_console_output c" "mw_log w"])
  fix g
  assume g: "Logger_Init log (log_path c) (log_filename c) (log_level c) (log_max_size c) (log_max_files c) (log_console_output c) (mw_log w) = (Inr (), g)"
    "lg_initialized (mw_log w) \<Longrightarrow> g = mw_log w"
    "lg_initialized g \<Longrightarrow> \<not> lg_initialized (mw_log w) \<Longrightarrow> \<exists>d. lg_default g = Some d \<and>
       set_up (log_path c) (log_filename c) (log_level c) (log_max_size c) (log_max_files c) (log_console_output c) d"
  have "logging c g" using g(2,3) assms(2) by (cases "lg_initialized (mw_log w)") (auto simp: logging_def)
  then show thesis using that [of g] g(1) by (simp add: init_logger_def on_log_def zoom_def)
qed

lemma ensure_logger_run:
  assumes "log_lib_ok log" and "logging c (mw_log w)"
  obtains g where "ensure_logger log c w = (Inr (), w\<lparr>mw_log := g\<rparr>)" and "logging c g"
proof (cases "lg_initialized (mw_log w)")
  case True
  then show ?thesis using that [of "mw_log w"] assms(2) by (simp add: ensure_logger_def bindE_asks ret_def)
next
  case False
  from init_logger_run [OF assms] obtain g where g: "init_logger log c w = (Inr (), w\<lparr>mw_log := g\<rparr>)" "logging c g" .
  let ?g = "LOG log level_info ''Logger initialized by GrpcServer (fallback)'' g"
  have "logging c ?g" using g(2) by (simp add: logging_def LOG_def)
  moreover have "ensure_logger log c w = (Inr (), w\<lparr>mw_log := ?g\<rparr>)"
    using False g(1) by (simp add: ensure_logger_def bindE_asks bindE_Inr on_log_def zoom_def modify_def)
  ultimately show ?thesis using that by blast
qed

lemma LoadFromFile_catchable: "LoadFromFile yaml path \<noteq> Inl Terminate"
proof -
  have "ValidateConfig config \<noteq> Inl Terminate" for config
    by (auto simp: ValidateConfig_def validate_zookeeper_def reject_if_def split: if_splits)
  then show ?thesis by (auto simp: LoadFromFile_def split: sum.splits)
qed

text \<open>With a file that loads, the program comes to \<open>Initialize\<close> on a new server with the configuration of the file, the
  environment, and the name and port of the program.\<close>

lemma main_program_loaded:
  fixes s :: "('s, 'e, 'r, 'z, 'cb) GrpcServer"
  assumes "log_lib_ok log" and "\<not> lg_initialized g" and load: "LoadFromFile yaml (config_path getenv) = Inr config"
    and s: "GrpcServer_new (Some 0) = Inr s"
    and init: "Initialize lib (main_config name port getenv config) s = (Inr ok, s')"
  obtains g' where "main_program lib log name port yaml getenv \<lparr>mw_store = [], mw_log = g\<rparr> =
      (Inr (if ok then Inr (life_of s') else Inl 1), \<lparr>mw_store = [main_config name port getenv config], mw_log = g'\<rparr>)"
    and "logging (cfg_log config) g'"
proof -
  let ?c = "main_config name port getenv config"
  have "logging (cfg_log config) (mw_log \<lparr>mw_store = [], mw_log = g\<rparr>)" using assms(2) by (simp add: logging_def)
  from init_logger_run [OF assms(1) this] obtain g1 where
    g1: "init_logger log (cfg_log config) \<lparr>mw_store = [], mw_log = g\<rparr> = (Inr (), \<lparr>mw_store = [], mw_log = g1\<rparr>)"
    "logging (cfg_log config) g1" by auto
  have build: "on_store (main_build name port getenv config) \<lparr>mw_store = [], mw_log = g1\<rparr> = (Inr s, \<lparr>mw_store = [?c], mw_log = g1\<rparr>)"
    using main_build_run [of "[]" s name port getenv config] s by (simp add: on_store_def zoom_def)
  have zero: "gs_config s = 0" using s by (auto simp: GrpcServer_new_def)
  have "logging (cfg_log ?c) (mw_log \<lparr>mw_store = [?c], mw_log = g1\<rparr>)" using g1(2) by (simp add: main_config_log)
  from ensure_logger_run [OF assms(1) this] obtain g2 where
    g2: "ensure_logger log (cfg_log ?c) \<lparr>mw_store = [?c], mw_log = g1\<rparr> = (Inr (), \<lparr>mw_store = [?c], mw_log = g2\<rparr>)"
    "logging (cfg_log config) g2" by (auto simp: main_config_log)
  have "main_program lib log name port yaml getenv \<lparr>mw_store = [], mw_log = g\<rparr> =
      (Inr (if ok then Inr (life_of s') else Inl 1), \<lparr>mw_store = [?c], mw_log = g2\<rparr>)"
    unfolding main_program_def load
    by (rule try_catch_Inr)
      (simp add: lift_def bindE_def [of "\<lambda>w. (Inr config, w)"] bindE_Inr [of "init_logger log (cfg_log config)", OF g1(1)] bindE_Inr [of "on_store _", OF build] bindE_asks zero
        bindE_Inr [of "ensure_logger log (cfg_log ?c)", OF g2(1)] init ret_def)
  then show thesis using that g2(2) by blast
qed

text \<open>C22: a main program always comes to an end or to a server it can run. A file that does not load or is not valid
  gives the status 1 and touches nothing. Otherwise the program logs, if it logs at all, to what the section for the
  log of the file asks for (no variable of the environment changes that); it hands a server over to \<open>Run\<close> exactly
  if MySQL and Redis can be reached with the configuration of the file, the environment, and the name and the port
  of the program (else the status is 1), and that server is completely wired and in the state in which its life begins
  (\<^verbatim>\<open>Server_Life\<close>).\<close>

theorem main_program_starts:
  fixes lib :: "('s, 'e, 'r, 'z) libraries"
  assumes "log_lib_ok log" and "\<not> lg_initialized g"
  shows "\<exists>(out :: int + ('s, 'e, 'r, 'z, 'cb) server_life) w'.
    main_program lib log name port yaml getenv \<lparr>mw_store = [], mw_log = g\<rparr> = (Inr out, w') \<and>
    (case LoadFromFile yaml (config_path getenv) of
       Inl _ \<Rightarrow> out = Inl 1 \<and> w' = \<lparr>mw_store = [], mw_log = g\<rparr>
     | Inr config \<Rightarrow>
         mw_store w' = [main_config name port getenv config] \<and> logging (cfg_log config) (mw_log w') \<and>
         (case out of
            Inl status \<Rightarrow> status = 1 \<and> \<not> (\<exists>p r. infrastructure lib (main_config name port getenv config) p r)
          | Inr s \<Rightarrow> not_started s \<and> gs_config s = 0 \<and>
              (\<exists>p r. infrastructure lib (main_config name port getenv config) p r
                 \<and> wired lib (main_config name port getenv config) p r (GrpcServer.truncate s))))"
proof (cases "LoadFromFile yaml (config_path getenv)")
  case (Inl e)
  then have "e \<noteq> Terminate" using LoadFromFile_catchable by auto
  then show ?thesis using Inl by (simp add: main_program_def try_catch_def lift_def bindE_def [of "\<lambda>w. (Inl e, w)"] ret_def)
next
  case (Inr config)
  let ?c = "main_config name port getenv config"
  obtain s :: "('s, 'e, 'r, 'z, 'cb) GrpcServer" where s: "GrpcServer_new (Some 0) = Inr s"
    by (simp add: GrpcServer_new_def)
  from Initialize_outcome [OF s, of lib ?c] obtain ok s' where init: "Initialize lib ?c s = (Inr ok, s')"
    and ok: "ok \<longleftrightarrow> (\<exists>p r. infrastructure lib ?c p r)" "\<forall>p r. infrastructure lib ?c p r \<longrightarrow> wired lib ?c p r s'" by blast
  note life = not_started_life_of [OF Initialize_life [OF init] s]
  from main_program_loaded [OF assms Inr s init] obtain g' where
    run: "main_program lib log name port yaml getenv \<lparr>mw_store = [], mw_log = g\<rparr> =
      (Inr (if ok then Inr (life_of s') else Inl 1), \<lparr>mw_store = [?c], mw_log = g'\<rparr>)" "logging (cfg_log config) g'" .
  show ?thesis
    by (rule exI, rule exI, rule conjI [OF run(1)]) (use Inr ok life run(2) in \<open>auto split: if_splits\<close>)
qed

text \<open>A logger that keeps what it writes in memory.\<close>

definition mem_log :: "(log_sink \<times> level_enum \<times> string) list log_lib" where
  "mem_log = \<lparr>ll_console = ret (), ll_exists = \<lambda>_. ret True, ll_create_directories = \<lambda>_. ret True, ll_absolute = ret,
     ll_rotating_file = \<lambda>_ _ _. ret (), ll_init_thread_pool = \<lambda>_ _. ret (), ll_make_logger = \<lambda>_. ret (),
     ll_flush_every = \<lambda>_. ret (), ll_write = \<lambda>k l msg e. e @ [(k, l, msg)], ll_flush = \<lambda>e. e, ll_shutdown = \<lambda>e. e\<rparr>"

lemma mem_log_ok: "log_lib_ok mem_log"
  by (simp add: log_lib_ok_def mem_log_def)

lemma default_pool: "\<exists>p. new_pool mysql_accepting (main_config name port (\<lambda>_. None) Config_default) = Inr p"
proof -
  have start: "pool_of mysql_accepting = pool_state [] 0 MySQLConfig_default []"
    by (simp add: pool_state_def pool_of_def mysql_accepting_def mysql_refusing_def mysql.defs pool.defs)
  have pool_update: "pool_state hs n c i\<lparr>pl_config := c', pl_idle := i'\<rparr> = pool_state hs n c' i'" for hs n c i c' i'
    by (simp add: pool_state_def)
  have config: "cfg_mysql (main_config name port (\<lambda>_. None) Config_default) = MySQLConfig_default"
    by (simp add: main_config_def LoadFromEnv_def env_set_def Config_default_def)
  show ?thesis
    unfolding new_pool_def start
    by (simp add: TemplateConnectionPool_new_def config MySQLConfig_default_def eval_nat_numeral pool_update pool_state_new pool_state_sel bindE_def ret_def)
qed

theorem main_program_starts_witness:
  "\<exists>(s :: (nat list \<times> nat, unit, string \<rightharpoonup> string, mem_nodes, unit) server_life) w'.
     main_program demo_libs mem_log ''auth-service'' 50052 empty_yaml (\<lambda>_. None)
       \<lparr>mw_store = [], mw_log = \<lparr>lg_initialized = False, lg_default = None, lg_env = []\<rparr>\<rparr> = (Inr (Inr s), w')
     \<and> not_started s"
proof -
  let ?c = "main_config ''auth-service'' 50052 (\<lambda>_. None) Config_default"
  obtain p where p: "new_pool mysql_accepting ?c = Inr p" using default_pool by blast
  have up: "infrastructure demo_libs ?c p (redis_mem Map.empty)"
    using p by (simp add: infrastructure_def demo_libs_def RedisClient_new_def RedisClient_make_def Let_def
        RedisClient_Ping_def redis_try_def redis_mem_def)
  have "\<not> lg_initialized \<lparr>lg_initialized = False, lg_default = None, lg_env = []\<rparr>" by simp
  from main_program_starts [OF mem_log_ok this, of demo_libs "''auth-service''" 50052 empty_yaml "\<lambda>_. None"]
  obtain out :: "int + (nat list \<times> nat, unit, string \<rightharpoonup> string, mem_nodes, unit) server_life" and w' where
    run: "main_program demo_libs mem_log ''auth-service'' 50052 empty_yaml (\<lambda>_. None)
       \<lparr>mw_store = [], mw_log = \<lparr>lg_initialized = False, lg_default = None, lg_env = []\<rparr>\<rparr> = (Inr out, w')"
    and out: "case out of Inl status \<Rightarrow> status = 1 \<and> \<not> (\<exists>p r. infrastructure demo_libs ?c p r)
      | Inr s \<Rightarrow> not_started s \<and> gs_config s = 0 \<and> (\<exists>p r. infrastructure demo_libs ?c p r \<and> wired demo_libs ?c p r (GrpcServer.truncate s))"
    unfolding empty_yaml_loads sum.case by blast
  show ?thesis
  proof (cases out)
    case (Inl status)
    then show ?thesis using out up by simp
  next
    case (Inr s)
    then show ?thesis using run out by auto
  qed
qed


end
