(* ===== verification/Result_Owner.thy ===== *)
theory Result_Owner
  imports MySQL
begin

section \<open>Who frees a result set\<close>

text \<open>
  Constructor, destructor and moves of \<open>MySQLResult\<close> (\<open>src/db/mysql_result.cpp\<close>) on the objects of a program: an
  object is at an address, and owns a result set of the C library by its handle. A result set is open from the
  query that made it until \<open>mysql_free_result\<close>; freeing it again, or reading a row of it afterwards, is undefined
  behaviour (\<open>None\<close>). Shown: whatever a program does with its objects, no behaviour is undefined, and when the last
  object is gone no result set is open.
\<close>

subsection \<open>Objects and operations\<close>

text \<open>\<open>ro_row\<close> is the result set into which \<open>current_row_\<close> and \<open>lengths_\<close> point.\<close>

record result_obj =
  ro_result :: "nat option"
  ro_row :: "nat option"
  ro_field_count :: nat
  ro_col_name_map :: "string \<rightharpoonup> nat"

record result_heap =
  rh_objs :: "nat \<rightharpoonup> result_obj"
  rh_open :: "nat \<Rightarrow> (string list \<times> nat) option"

definition mysql_free_result :: "nat \<Rightarrow> result_heap \<Rightarrow> result_heap option" where
  "mysql_free_result r w = (if rh_open w r = None then None else Some (w\<lparr>rh_open := (rh_open w)(r := None)\<rparr>))"

definition put_obj :: "nat \<Rightarrow> result_obj \<Rightarrow> result_heap \<Rightarrow> result_heap" where
  "put_obj a ob w = w\<lparr>rh_objs := (rh_objs w)(a \<mapsto> ob)\<rparr>"

text \<open>What a moved-from object is left with.\<close>

definition moved_from :: "result_obj \<Rightarrow> result_obj" where
  "moved_from ob = ob\<lparr>ro_result := None, ro_row := None, ro_field_count := 0, ro_col_name_map := Map.empty\<rparr>"

text \<open>The constructor reads the names and the number of the columns of a result set that is open.\<close>

definition result_construct :: "nat \<Rightarrow> nat option \<Rightarrow> result_heap \<Rightarrow> result_heap option" where
  "result_construct a res w = (case res of
       None \<Rightarrow> Some (put_obj a \<lparr>ro_result = None, ro_row = None, ro_field_count = 0, ro_col_name_map = Map.empty\<rparr> w)
     | Some r \<Rightarrow> (case rh_open w r of
         None \<Rightarrow> None
       | Some (names, _) \<Rightarrow> Some (put_obj a \<lparr>ro_result = Some r, ro_row = None, ro_field_count = length names,
           ro_col_name_map = BuildColumnMap names\<rparr> w)))"

definition result_destroy :: "nat \<Rightarrow> result_heap \<Rightarrow> result_heap option" where
  "result_destroy a w = (case rh_objs w a of
       None \<Rightarrow> None
     | Some ob \<Rightarrow> map_option (\<lambda>w. w\<lparr>rh_objs := (rh_objs w)(a := None)\<rparr>)
         (case ro_result ob of Some r \<Rightarrow> mysql_free_result r w | None \<Rightarrow> Some w))"

definition result_move :: "nat \<Rightarrow> nat \<Rightarrow> result_heap \<Rightarrow> result_heap option" where
  "result_move a other w = (case rh_objs w other of
       None \<Rightarrow> None
     | Some ob \<Rightarrow> Some (put_obj other (moved_from ob) (put_obj a ob w)))"

definition result_move_assign :: "nat \<Rightarrow> nat \<Rightarrow> result_heap \<Rightarrow> result_heap option" where
  "result_move_assign a other w = (case (rh_objs w a, rh_objs w other) of
       (Some self, Some ob) \<Rightarrow>
         if other = a then Some w
         else Option.bind (case ro_result self of Some r \<Rightarrow> mysql_free_result r w | None \<Rightarrow> Some w)
           (\<lambda>w. Some (put_obj other (moved_from ob) (put_obj a ob w)))
     | _ \<Rightarrow> None)"

text \<open>\<open>Next\<close>: \<open>mysql_fetch_row\<close> gives a row of the result set until there is none.\<close>

definition result_next :: "nat \<Rightarrow> result_heap \<Rightarrow> result_heap option" where
  "result_next a w = (case rh_objs w a of
       None \<Rightarrow> None
     | Some ob \<Rightarrow> (case ro_result ob of
         None \<Rightarrow> Some w
       | Some r \<Rightarrow> (case rh_open w r of
           None \<Rightarrow> None
         | Some (names, 0) \<Rightarrow> Some (put_obj a (ob\<lparr>ro_row := None\<rparr>) w)
         | Some (names, Suc n) \<Rightarrow> Some (put_obj a (ob\<lparr>ro_row := Some r\<rparr>) (w\<lparr>rh_open := (rh_open w)(r \<mapsto> (names, n))\<rparr>)))))"

text \<open>Reading a field goes through the row: \<open>CheckColumn\<close> throws where there is no row, and a row of a result set that
  is closed dangles.\<close>

definition result_read :: "nat \<Rightarrow> result_heap \<Rightarrow> result_heap option" where
  "result_read a w = (case rh_objs w a of
       None \<Rightarrow> None
     | Some ob \<Rightarrow> (case ro_row ob of None \<Rightarrow> Some w | Some r \<Rightarrow> if rh_open w r = None then None else Some w))"

subsection \<open>Programs\<close>

text \<open>A query gives the library a new result set, or none; its result is put into a new object.\<close>

datatype result_op = Query nat "(nat \<times> string list \<times> nat) option" | Move nat nat | MoveAssign nat nat
  | NextRow nat | ReadField nat | Destroy nat

fun result_step :: "result_op \<Rightarrow> result_heap \<Rightarrow> result_heap option" where
  "result_step (Query a None) w = result_construct a None w"
| "result_step (Query a (Some (r, names, rows))) w = result_construct a (Some r) (w\<lparr>rh_open := (rh_open w)(r \<mapsto> (names, rows))\<rparr>)"
| "result_step (Move a other) w = result_move a other w"
| "result_step (MoveAssign a other) w = result_move_assign a other w"
| "result_step (NextRow a) w = result_next a w"
| "result_step (ReadField a) w = result_read a w"
| "result_step (Destroy a) w = result_destroy a w"

text \<open>What the language and the library guarantee: an object is made where none lives and used where one lives, and
  a new result set is none of the open ones.\<close>

fun result_legal :: "result_op \<Rightarrow> result_heap \<Rightarrow> bool" where
  "result_legal (Query a res) w \<longleftrightarrow> rh_objs w a = None \<and> (case res of Some (r, _) \<Rightarrow> rh_open w r = None | None \<Rightarrow> True)"
| "result_legal (Move a other) w \<longleftrightarrow> rh_objs w a = None \<and> rh_objs w other \<noteq> None"
| "result_legal (MoveAssign a other) w \<longleftrightarrow> rh_objs w a \<noteq> None \<and> rh_objs w other \<noteq> None"
| "result_legal (NextRow a) w \<longleftrightarrow> rh_objs w a \<noteq> None"
| "result_legal (ReadField a) w \<longleftrightarrow> rh_objs w a \<noteq> None"
| "result_legal (Destroy a) w \<longleftrightarrow> rh_objs w a \<noteq> None"

fun result_run :: "result_op list \<Rightarrow> result_heap \<Rightarrow> result_heap option" where
  "result_run [] w = Some w"
| "result_run (op # ops) w = Option.bind (result_step op w) (result_run ops)"

fun result_program :: "result_op list \<Rightarrow> result_heap \<Rightarrow> bool" where
  "result_program [] w \<longleftrightarrow> True"
| "result_program (op # ops) w \<longleftrightarrow> result_legal op w \<and> (\<forall>w'. result_step op w = Some w' \<longrightarrow> result_program ops w')"

subsection \<open>Ownership\<close>

text \<open>Every open result set has exactly one owner, and a row belongs to the result set its object owns.\<close>

definition owned :: "result_heap \<Rightarrow> bool" where
  "owned w \<longleftrightarrow>
     (\<forall>a ob r. rh_objs w a = Some ob \<longrightarrow> ro_result ob = Some r \<longrightarrow> rh_open w r \<noteq> None) \<and>
     (\<forall>a b oa ob r. rh_objs w a = Some oa \<longrightarrow> rh_objs w b = Some ob \<longrightarrow> ro_result oa = Some r \<longrightarrow> ro_result ob = Some r \<longrightarrow> a = b) \<and>
     (\<forall>r. rh_open w r \<noteq> None \<longrightarrow> (\<exists>a ob. rh_objs w a = Some ob \<and> ro_result ob = Some r)) \<and>
     (\<forall>a ob r. rh_objs w a = Some ob \<longrightarrow> ro_row ob = Some r \<longrightarrow> ro_result ob = Some r)"

lemma ownedI:
  assumes "\<And>a ob r. rh_objs w a = Some ob \<Longrightarrow> ro_result ob = Some r \<Longrightarrow> rh_open w r \<noteq> None"
    and "\<And>a b oa ob r. rh_objs w a = Some oa \<Longrightarrow> rh_objs w b = Some ob \<Longrightarrow> ro_result oa = Some r \<Longrightarrow> ro_result ob = Some r \<Longrightarrow> a = b"
    and "\<And>r. rh_open w r \<noteq> None \<Longrightarrow> \<exists>a ob. rh_objs w a = Some ob \<and> ro_result ob = Some r"
    and "\<And>a ob r. rh_objs w a = Some ob \<Longrightarrow> ro_row ob = Some r \<Longrightarrow> ro_result ob = Some r"
  shows "owned w"
  unfolding owned_def using assms by blast

lemma ownedD:
  assumes "owned w"
  shows "rh_objs w a = Some ob \<Longrightarrow> ro_result ob = Some r \<Longrightarrow> rh_open w r \<noteq> None"
    and "rh_objs w a = Some oa \<Longrightarrow> rh_objs w b = Some ob \<Longrightarrow> ro_result oa = Some r \<Longrightarrow> ro_result ob = Some r \<Longrightarrow> a = b"
    and "rh_open w r \<noteq> None \<Longrightarrow> \<exists>a ob. rh_objs w a = Some ob \<and> ro_result ob = Some r"
    and "rh_objs w a = Some ob \<Longrightarrow> ro_row ob = Some r \<Longrightarrow> ro_result ob = Some r"
  using assms unfolding owned_def by blast+

text \<open>Freeing what an object owns takes the object out of the game.\<close>

definition without :: "nat \<Rightarrow> result_heap \<Rightarrow> result_heap" where
  "without a w = w\<lparr>rh_objs := (rh_objs w)(a := None)\<rparr>"

lemma owned_free:
  assumes "owned w" and "rh_objs w a = Some ob"
  obtains w' where "(case ro_result ob of Some r \<Rightarrow> mysql_free_result r w | None \<Rightarrow> Some w) = Some w'"
    and "rh_objs w' = rh_objs w" and "owned (without a w')"
proof (cases "ro_result ob")
  case None
  then have "owned (without a w)"
    using assms by (intro ownedI) (auto simp: without_def dest: ownedD split: if_splits, metis ownedD(3) option.distinct(1) option.inject)
  then show ?thesis using that [of w] None by simp
next
  case (Some r)
  let ?w = "w\<lparr>rh_open := (rh_open w)(r := None)\<rparr>"
  have "owned (without a ?w)"
  proof (rule ownedI)
    show "rh_open (without a ?w) q \<noteq> None" if "rh_objs (without a ?w) b = Some oa" "ro_result oa = Some q" for b oa q
      using that ownedD(1) [OF assms(1)] ownedD(2) [OF assms(1) assms(2) _ Some] by (auto simp: without_def split: if_splits)
    show "\<exists>b oa. rh_objs (without a ?w) b = Some oa \<and> ro_result oa = Some q" if "rh_open (without a ?w) q \<noteq> None" for q
    proof -
      from that have "q \<noteq> r" "rh_open w q \<noteq> None" by (auto simp: without_def split: if_splits)
      from ownedD(3) [OF assms(1) this(2)] obtain b oa where b: "rh_objs w b = Some oa" "ro_result oa = Some q" by blast
      with \<open>q \<noteq> r\<close> Some assms(2) have "b \<noteq> a" by auto
      with b show ?thesis by (intro exI [of _ b] exI [of _ oa]) (simp add: without_def)
    qed
  qed (auto simp: without_def dest: ownedD(2) [OF assms(1)] ownedD(4) [OF assms(1)] split: if_splits)
  moreover have "rh_open w r \<noteq> None" using ownedD(1) [OF assms Some] .
  ultimately show ?thesis using that [of ?w] Some by (simp add: mysql_free_result_def)
qed

text \<open>A result set changes hands: from an object that keeps nothing, into one that is not there.\<close>

lemma owned_hand_over:
  assumes "owned (without a w)" and "rh_objs w other = Some ob" and "other \<noteq> a"
  shows "owned (put_obj other (moved_from ob) (put_obj a ob w))"
proof (rule ownedI)
  let ?w = "put_obj other (moved_from ob) (put_obj a ob w)"
  have ob: "rh_objs (without a w) other = Some ob" using assms(2,3) by (simp add: without_def)
  have at: "rh_objs ?w b = Some q \<Longrightarrow> ro_result q = Some r \<Longrightarrow>
      (b = a \<and> q = ob) \<or> (b \<noteq> a \<and> b \<noteq> other \<and> rh_objs (without a w) b = Some q)" for b q r
    by (auto simp: put_obj_def moved_from_def without_def split: if_splits)
  have opn: "rh_open ?w = rh_open (without a w)" by (simp add: put_obj_def without_def)
  show "rh_open ?w r \<noteq> None" if "rh_objs ?w b = Some q" "ro_result q = Some r" for b q r
    using at [OF that] that(2) ownedD(1) [OF assms(1)] ob unfolding opn by blast
  show "b = c" if "rh_objs ?w b = Some p" "rh_objs ?w c = Some q" "ro_result p = Some r" "ro_result q = Some r" for b c p q r
    using at [OF that(1,3)] at [OF that(2,4)] that(3,4) ownedD(2) [OF assms(1)] ob by blast
  show "\<exists>b q. rh_objs ?w b = Some q \<and> ro_result q = Some r" if open_r: "rh_open ?w r \<noteq> None" for r
  proof -
    from ownedD(3) [OF assms(1)] open_r obtain b q where q: "rh_objs (without a w) b = Some q" "ro_result q = Some r"
      unfolding opn by blast
    then have "b \<noteq> a" by (auto simp: without_def)
    then show ?thesis using q ob assms(3)
      by (cases "b = other") (auto simp: put_obj_def without_def intro: exI [of _ a] exI [of _ b])
  qed
  show "ro_result q = Some r" if "rh_objs ?w b = Some q" "ro_row q = Some r" for b q r
    using that ownedD(4) [OF assms(1), of b q r] ownedD(4) [OF assms(1) ob, of r]
    by (auto simp: put_obj_def moved_from_def without_def split: if_splits)
qed

lemma without_absent: "rh_objs w a = None \<Longrightarrow> without a w = w"
  by (cases w) (auto simp: without_def)

lemma owned_query:
  assumes "owned w" and "rh_objs w a = None" and "rh_open w r = None" and "ro_result ob = Some r" and "ro_row ob = None"
  shows "owned (put_obj a ob (w\<lparr>rh_open := (rh_open w)(r \<mapsto> v)\<rparr>))"
proof (rule ownedI)
  let ?w = "put_obj a ob (w\<lparr>rh_open := (rh_open w)(r \<mapsto> v)\<rparr>)"
  show "\<exists>b q. rh_objs ?w b = Some q \<and> ro_result q = Some s" if "rh_open ?w s \<noteq> None" for s
  proof (cases "s = r")
    case True
    then show ?thesis using assms(4) by (intro exI [of _ a] exI [of _ ob]) (simp add: put_obj_def)
  next
    case False
    then have "rh_open w s \<noteq> None" using that by (simp add: put_obj_def)
    from ownedD(3) [OF assms(1) this] obtain b q where b: "rh_objs w b = Some q" "ro_result q = Some s" by blast
    with assms(2) have "b \<noteq> a" by auto
    with b show ?thesis by (intro exI [of _ b] exI [of _ q]) (simp add: put_obj_def)
  qed
qed (use assms in \<open>auto simp: put_obj_def dest: ownedD split: if_splits\<close>)

lemma owned_same_result:
  assumes "owned w" and "rh_objs w a = Some ob" and "ro_result ob' = ro_result ob"
    and "ro_row ob' = None \<or> ro_row ob' = ro_result ob" and "\<And>r. f r = None \<longleftrightarrow> rh_open w r = None"
  shows "owned (put_obj a ob' (w\<lparr>rh_open := f\<rparr>))"
proof (rule ownedI)
  let ?w = "put_obj a ob' (w\<lparr>rh_open := f\<rparr>)"
  have at: "\<exists>q'. rh_objs w b = Some q' \<and> ro_result q' = ro_result q" if "rh_objs ?w b = Some q" for b q
    using that assms(2,3) by (auto simp: put_obj_def split: if_splits)
  have opn: "rh_open ?w r = None \<longleftrightarrow> rh_open w r = None" for r using assms(5) by (simp add: put_obj_def)
  show "rh_open ?w r \<noteq> None" if "rh_objs ?w b = Some q" "ro_result q = Some r" for b q r
    using at [OF that(1)] that(2) ownedD(1) [OF assms(1)] unfolding opn by metis
  show "b = c" if "rh_objs ?w b = Some p" "rh_objs ?w c = Some q" "ro_result p = Some r" "ro_result q = Some r" for b c p q r
    using at [OF that(1)] at [OF that(2)] that(3,4) ownedD(2) [OF assms(1)] by metis
  show "\<exists>b q. rh_objs ?w b = Some q \<and> ro_result q = Some r" if "rh_open ?w r \<noteq> None" for r
  proof -
    from that have "rh_open w r \<noteq> None" unfolding opn .
    from ownedD(3) [OF assms(1) this] obtain b q where b: "rh_objs w b = Some q" "ro_result q = Some r" by blast
    then show ?thesis using assms(2,3)
      by (cases "b = a") (auto simp: put_obj_def intro: exI [of _ a] exI [of _ b])
  qed
  show "ro_result q = Some r" if "rh_objs ?w b = Some q" "ro_row q = Some r" for b q r
    using that assms(3,4) ownedD(4) [OF assms(1), of b q r] by (auto simp: put_obj_def split: if_splits)
qed

text \<open>Each operation is defined where it is legal, and keeps the ownership.\<close>

lemma owned_Query:
  assumes "owned w" and "result_legal (Query a res) w"
  shows "\<exists>w'. result_step (Query a res) w = Some w' \<and> owned w'"
proof (cases res)
  case None
  have "owned (put_obj a \<lparr>ro_result = None, ro_row = None, ro_field_count = 0, ro_col_name_map = Map.empty\<rparr> w)"
    using assms by (intro ownedI) (auto simp: put_obj_def dest: ownedD split: if_splits, metis ownedD(3) option.distinct(1))
  then show ?thesis using None by (simp add: result_construct_def)
next
  case (Some x)
  obtain r names rows where x: "x = (r, names, rows)" by (cases x)
  with Some assms(2) have "rh_objs w a = None" "rh_open w r = None" by auto
  from owned_query [OF assms(1) this] show ?thesis using Some x by (simp add: result_construct_def)
qed

lemma owned_Move:
  assumes "owned w" and "result_legal (Move a other) w"
  shows "\<exists>w'. result_step (Move a other) w = Some w' \<and> owned w'"
proof -
  obtain ob where ob: "rh_objs w a = None" "rh_objs w other = Some ob" using assms(2) by auto
  then have "owned (put_obj other (moved_from ob) (put_obj a ob w))"
    using assms(1) by (intro owned_hand_over) (auto simp: without_absent)
  then show ?thesis using ob by (simp add: result_move_def)
qed

lemma owned_MoveAssign:
  assumes "owned w" and "result_legal (MoveAssign a other) w"
  shows "\<exists>w'. result_step (MoveAssign a other) w = Some w' \<and> owned w'"
proof -
  obtain self ob where ob: "rh_objs w a = Some self" "rh_objs w other = Some ob" using assms(2) by auto
  show ?thesis
  proof (cases "other = a")
    case True
    then show ?thesis using ob assms(1) by (simp add: result_move_assign_def)
  next
    case False
    from owned_free [OF assms(1) ob(1)] obtain w' where
      w': "(case ro_result self of Some r \<Rightarrow> mysql_free_result r w | None \<Rightarrow> Some w) = Some w'" "rh_objs w' = rh_objs w" "owned (without a w')" .
    from owned_hand_over [OF w'(3) _ False, of ob] w'(1,2) show ?thesis using ob False by (simp add: result_move_assign_def)
  qed
qed

lemma owned_NextRow:
  assumes "owned w" and "result_legal (NextRow a) w"
  shows "\<exists>w'. result_step (NextRow a) w = Some w' \<and> owned w'"
proof -
  obtain ob where ob: "rh_objs w a = Some ob" using assms(2) by auto
  consider "ro_result ob = None" | r names where "ro_result ob = Some r" "rh_open w r = Some (names, 0)"
    | r names k where "ro_result ob = Some r" "rh_open w r = Some (names, Suc k)"
    using ownedD(1) [OF assms(1) ob] by (metis not0_implies_Suc option.exhaust surj_pair)
  then show ?thesis
  proof cases
    case 1
    then show ?thesis using ob assms(1) by (simp add: result_next_def)
  next
    case 2
    have "owned (put_obj a (ob\<lparr>ro_row := None\<rparr>) (w\<lparr>rh_open := rh_open w\<rparr>))"
      by (rule owned_same_result [OF assms(1) ob]) simp_all
    then show ?thesis using ob 2 by (simp add: result_next_def)
  next
    case 3
    have "owned (put_obj a (ob\<lparr>ro_row := Some r\<rparr>) (w\<lparr>rh_open := (rh_open w)(r \<mapsto> (names, k))\<rparr>))"
      by (rule owned_same_result [OF assms(1) ob]) (use 3 in auto)
    then show ?thesis using ob 3 by (simp add: result_next_def)
  qed
qed

lemma owned_Destroy:
  assumes "owned w" and "result_legal (Destroy a) w"
  shows "\<exists>w'. result_step (Destroy a) w = Some w' \<and> owned w'"
proof -
  obtain ob where ob: "rh_objs w a = Some ob" using assms(2) by auto
  from owned_free [OF assms(1) ob] obtain w' where
    "(case ro_result ob of Some r \<Rightarrow> mysql_free_result r w | None \<Rightarrow> Some w) = Some w'" "rh_objs w' = rh_objs w" "owned (without a w')" .
  then show ?thesis using ob by (simp add: result_destroy_def without_def)
qed

lemma owned_ReadField:
  assumes "owned w" and "result_legal (ReadField a) w"
  shows "\<exists>w'. result_step (ReadField a) w = Some w' \<and> owned w'"
  using assms by (auto simp: result_read_def dest: ownedD split: option.splits)

lemma owned_step: "owned w \<Longrightarrow> result_legal op w \<Longrightarrow> \<exists>w'. result_step op w = Some w' \<and> owned w'"
  by (cases op) (blast intro: owned_Query owned_Move owned_MoveAssign owned_NextRow owned_ReadField owned_Destroy)+

text \<open>From an empty heap, every program of these operations runs with no undefined behaviour, and when its last object
  is destroyed every result set is freed, each exactly once.\<close>

lemma results_freed_once:
  assumes "owned w" and "result_program ops w"
  shows "\<exists>w'. result_run ops w = Some w' \<and> owned w' \<and> (rh_objs w' = Map.empty \<longrightarrow> rh_open w' = (\<lambda>_. None))"
  using assms
proof (induction ops arbitrary: w)
  case Nil
  have "rh_open w r = None" if "rh_objs w = Map.empty" for r
    using that ownedD(3) [OF Nil.prems(1), of r] by (cases "rh_open w r") auto
  then show ?case using Nil by auto
next
  case (Cons op ops)
  then obtain w1 where w1: "result_step op w = Some w1" "owned w1" using owned_step by force
  with Cons.prems(2) Cons.IH [of w1] show ?case by simp
qed

lemma owned_empty: "owned \<lparr>rh_objs = Map.empty, rh_open = \<lambda>_. None\<rparr>"
  by (simp add: owned_def)

text \<open>A moved-from object has no row, so every access to a field throws, and destroying it frees nothing.\<close>

lemma moved_from_empty: "ro_row (moved_from ob) = None" "ro_result (moved_from ob) = None"
  by (simp_all add: moved_from_def)

end
