(* ===== verification/Spec2Isabelle.thy ===== *)
theory Spec2Isabelle
  imports Errors Config Entities Validator Base64 Json Password Jwt Redis Sms MySQL Pool World User_Db
    Token_Repository Interfaces Auth_Service User_Service Sessions Proto_Converter Handlers Cleanup_Task
    Zk_Client Discovery Clients Grpc_Server Server_Life Server_Builder Sql_Tables Accounts Revocation
    Time_Utils Logger Main_Programs Result_Owner
begin

text \<open>
  \<^bold>\<open>The user service, verified.\<close> The program is a pair of gRPC servers in C++ for accounts:
  registration and login by password or by a code sent to a mobile phone, JSON Web Tokens with
  refresh sessions, the management of accounts by their owner and by administrators, and the
  registration of the servers in ZooKeeper. Accounts and sessions are rows of MySQL, codes and
  counters are keys of Redis. A remote call comes in at a handler, which authenticates it,
  checks its arguments and calls a service; the services use the repositories over a pool of
  database connections, the cache, the token service and the SMS service; the answer is a wire
  message made from a \<open>Result\<close>.

  \<^bold>\<open>How code becomes definitions.\<close> An operation of an object is a function on the state of that
  object that returns a result or an exception together with the new state (\<open>('w, 'a) io\<close> of
  \<^verbatim>\<open>Prelude\<close>, sequenced by \<open>bindE\<close>; \<open>try_catch\<close> is a \<open>catch\<close> of \<open>std::exception\<close>); what was
  changed before an exception stays changed. A class is a \<open>record\<close>, an \<open>enum class\<close> a \<open>datatype\<close>,
  a byte string a \<open>string\<close>, \<open>int\<close> and \<open>int64_t\<close> are integers with \<open>wrap32\<close> and \<open>wrap64\<close> where the
  code computes, \<open>std::map\<close> is a sorted association list. Chinese messages are written as their
  UTF-8 bytes. Code outside the repository is a parameter: the MySQL and ZooKeeper C libraries,
  redis-plus-plus, OpenSSL, libuuid, the clock, the random numbers, the YAML and JSON libraries
  and the time zone are functions in a record (\<open>sys\<close>, \<open>mysql_api\<close>, the Redis record,
  \<open>zookeeper\<close>) or arguments, and what a theorem needs of them is a named hypothesis
  (\<open>redis_documented\<close>, \<open>redis_prompt\<close>, \<open>zoo_prompt\<close>, ...), instantiated in the witnesses by
  an implementation in memory. What an operation logs is left out.

  \<^bold>\<open>The theories.\<close>
  \<^item> \<^verbatim>\<open>Prelude\<close>, \<^verbatim>\<open>Cpp_Strings\<close>: computations, machine integers, the C++ string functions and maps.
  \<^item> \<^verbatim>\<open>Errors\<close> (\<open>include/common/error_codes.h\<close>, \<open>result.h\<close>), \<^verbatim>\<open>Entities\<close> (\<open>include/entity\<close>,
    \<open>auth_type.h\<close>), \<^verbatim>\<open>Config\<close> (\<open>include/config\<close>, \<open>src/config\<close>), \<^verbatim>\<open>Validator\<close>
    (\<open>include/common/validator.h\<close>; \<open>std::regex\<close> by derivatives): the data. Shown: loading gives only
    configurations that pass every check, printing hides the secrets, the validators accept exactly
    what their policy says, pages partition the records.
  \<^item> \<^verbatim>\<open>Password\<close>, \<^verbatim>\<open>Base64\<close>, \<^verbatim>\<open>Json\<close>, \<^verbatim>\<open>Jwt\<close> (\<open>password_helper.h\<close>, \<open>uuid.h\<close>, \<open>src/auth/jwt_service.cpp\<close>):
    salted hashes, the codings and the tokens. Shown: round trips; the accumulator loop that
    overflows computes the textbook coding; exactly which tokens are accepted (signed, naming no other issuer
    and kind and no expiry that has passed; what a token does not claim is not asked for). The interface \<open>dotted_armor\<close> is what tokens need of a coding.
  \<^item> \<^verbatim>\<open>Redis\<close>, \<^verbatim>\<open>Sms\<close> (\<open>src/cache\<close>, \<open>src/auth/sms_service.cpp\<close>): the cache behind the interfaces
    \<open>kv_cache\<close> (what holds whatever fails) and \<open>kv_live\<close> (a cache that answers); the codes on
    top of them. Shown: \<open>VerifyCaptcha\<close> refines an abstract specification, brute force is bounded,
    sending is throttled, keys never collide.
  \<^item> \<^verbatim>\<open>MySQL\<close>, \<^verbatim>\<open>Pool\<close> (\<open>src/db/mysql_connection.cpp\<close>, \<open>mysql_result.cpp\<close>,
    \<open>include/pool/connection_pool.h\<close>): connecting with retries, building statements, results, and
    the pool under any interleaving of its threads. Shown: no injection, no leaked handle,
    bounded retries, connections are never shared. \<^verbatim>\<open>Result_Owner\<close> has the life of \<open>MySQLResult\<close> objects
    (construction, moves, destruction): every result set is freed exactly once.
  \<^item> \<^verbatim>\<open>World\<close>, \<^verbatim>\<open>Interfaces\<close>: the state the server shares between the services, the methods they
    call on one another and the objects \<open>src/server/grpc_server.cpp\<close> makes; the cache laws are
    interpreted again on the whole state (\<open>cache\<close>, \<open>live_cache\<close>, over \<open>member_lens\<close>).
  \<^item> \<^verbatim>\<open>User_Db\<close>, \<^verbatim>\<open>Token_Repository\<close> (\<open>src/db/user_db.cpp\<close>, \<open>src/auth/token_repository.cpp\<close>): the
    tables. Shown: rows are read as the users they stand for; no exception leaves an operation.
  \<^item> \<^verbatim>\<open>Auth_Service\<close>, \<^verbatim>\<open>User_Service\<close>, \<^verbatim>\<open>Sessions\<close> (\<open>src/services\<close>): the services. Shown: what a
    login, a refresh or a change of password has checked when it succeeds, what the token that
    was answered is worth, how often a password can be tried, that no hash is answered.
  \<^item> \<^verbatim>\<open>Proto_Converter\<close>, \<^verbatim>\<open>Handlers\<close> (\<open>include/common/proto_converter.h\<close>, \<open>src/handlers\<close>,
    \<open>include/auth/jwt_authenticator.h\<close>): messages and remote calls. Shown: who may call what
    (interface \<open>authenticator\<close>), that an answer is complete if it says success and blank if not
    (interface \<open>response_message\<close>), and what survives the conversion.
  \<^item> \<^verbatim>\<open>Cleanup_Task\<close> (\<open>src/auth/token_cleanup_task.cpp\<close>): the worker thread as a step relation.
    Shown: it is never overwritten while joinable, and \<open>Stop\<close> returns.
  \<^item> \<^verbatim>\<open>Zk_Client\<close>, \<^verbatim>\<open>Discovery\<close> (\<open>src/discovery\<close>): the ZooKeeper client with its watches and events,
    the registry and the discoverer over the interface \<open>znode_store\<close>. Shown: what is registered
    is found until it is unregistered, selection by weight is proportional, and a selected
    instance is valid whatever the server does.
  \<^item> \<^verbatim>\<open>Clients\<close> (\<open>src/client\<close>, \<open>include/client\<close>): the remote clients, the stubs with the channel
    being a parameter. Shown: through a channel that delivers to the handlers, a method of a
    client answers what the service answered, error codes outside the enumeration (\<open>unlisted\<close>)
    included.
  \<^item> \<^verbatim>\<open>Grpc_Server\<close>, \<^verbatim>\<open>Server_Life\<close>, \<^verbatim>\<open>Server_Builder\<close> (\<open>src/server\<close>, \<open>include/server\<close>): the object that makes
    all the others; its life as a step relation of the owner, the monitor thread and any number of
    calls of \<open>Shutdown\<close>; the builder over a store of shared configurations, and the servers the
    two main programs build. Shown: what initialization gives, that a requested shutdown ends the
    server, how a request is lost, which source of a setting wins, that the two programs fit.
  \<^item> \<^verbatim>\<open>Logger\<close>, \<^verbatim>\<open>Main_Programs\<close> (\<open>src/common/logger.cpp\<close>, \<open>include/common/logger.h\<close>, \<open>auth_main.cpp\<close>, \<open>user_main.cpp\<close>):
    the set-up of the log with the file system and spdlog as parameters, and \<open>main\<close> from the file to
    the call of \<open>Run\<close>, composed of the theories above. Shown: \<open>Init\<close> contains every failure and sets up what was
    asked for or nothing, which records are written where, and that a program ends with status 1 or hands
    \<open>Run\<close> a wired server in the first state of \<^verbatim>\<open>Server_Life\<close>.
  \<^item> \<^verbatim>\<open>Time_Utils\<close> (\<open>include/common/time_utils.h\<close>): times as text over the Gregorian calendar. Shown: \<open>gmtime_r\<close> and
    \<open>timegm\<close> are inverse, which times survive being written and read, and from how many days on
    \<open>FutureDaysString\<close> wraps.
  \<^item> \<^verbatim>\<open>Sql_Tables\<close>, \<^verbatim>\<open>Accounts\<close>, \<^verbatim>\<open>Revocation\<close>: the authentication service with everything below it, over
    time. \<open>sql_server\<close> is the hypothesis that the MySQL server reads the text it is sent by its rules
    for literals and executes the statements of the two repositories on the tables of
    \<open>scripts/init_db.sql\<close>; a total-correctness logic (\<open>runs\<close>) carries it through the pool, the
    connection guards and the exceptions up to the services, one rule per operation. Shown: who
    registers can log in, a reset password takes effect everywhere, a revoked refresh token stays
    revoked under any sequence of calls that does not hand the same token out again. \<open>mem_pool\<close> is a server in memory that meets the hypothesis.
  \<^item> This theory: properties that span the services, and behaviour the comments do not tell.

  \<^bold>\<open>Bounds.\<close> No definition runs on fuel. Loops are structural recursions, or have a measure
  (retries left, characters left); the waits of the pool, of the cleanup task, of the
  server and of ZooKeeper are steps of their environment. Where a theorem says that something returns, the whole
  computation is shown to give that result, or the number of steps is bounded.

  \<^bold>\<open>Not modelled.\<close> The exit status after \<open>Run\<close>, and signals that arrive before it beyond the finding on them
  (calls of \<open>Shutdown\<close> are steps of \<^verbatim>\<open>Server_Life\<close>); \<open>include/common/proto_utils.h\<close>, which no file includes and
  which names message packages that the \<open>.proto\<close> files no longer declare; \<open>client_exception.h\<close>, which nothing
  includes; tests, scripts and the vendored JSON library. Outside \<^verbatim>\<open>Sql_Tables\<close> and the
  theories on it, theorems about rows speak of what the statement returned, whatever the server
  does; the statements for pages, counts and deletions of accounts are given no meaning. Of the gRPC library only the documented
  life of a server and what a channel delivers. Memory safety and data races are outside the
  model, except where interleavings are explicit (\<^verbatim>\<open>Pool\<close>, \<^verbatim>\<open>Cleanup_Task\<close>, \<^verbatim>\<open>Server_Life\<close>).
\<close>

section \<open>Properties that span components\<close>

text \<open>C3: Nothing that needs a verification code is done without it: whatever fails or expires on the
  way, logging in by code, registering, resetting a password or deleting an account succeeds only
  if, when it was called, the cache held exactly the given code for that purpose and that mobile
  number (for a deletion, the number the user table has for the account).\<close>

theorem code_operations_need_code:
  fixes w w' :: "('s, 'e, 'r) world"
  assumes "redis_documented V (w_redis w)"
  shows "(LoginByCode (auth_service config) mobile c w = (Inr r, w') \<longrightarrow> IsOk r
      \<longrightarrow> cached V w (CaptchaKey Login mobile) = Some c)
    \<and> (AuthService_Register (auth_service config) mobile c pw name w = (Inr r, w') \<longrightarrow> IsOk r
      \<longrightarrow> cached V w (CaptchaKey Register mobile) = Some c)
    \<and> (AuthService_ResetPassword (auth_service config) mobile c pw w = (Inr r', w') \<longrightarrow> IsOk r'
      \<longrightarrow> cached V w (CaptchaKey ResetPassword mobile) = Some c)
    \<and> (UserService_DeleteUser (user_service config) uuid c w = (Inr r', w') \<longrightarrow> IsOk r'
      \<longrightarrow> (\<exists>res user w1. UserDB_FindByUUID uuid w = (Inr res, w1) \<and> data res = Some user
            \<and> cached V w (CaptchaKey DeleteUser (u_mobile user)) = Some c))"
proof (intro conjI impI)
  have sound: "cached V x (CaptchaKey scene m) = Some c"
    if "redis_documented V (w_redis x)" "VerifyCaptcha redis_cli sms scene m c x = (Inr q, y)" "IsOk q"
    for x y :: "('s, 'e, 'r) world" and scene m q sms
    using cache.VerifyCaptcha_sound [of V, OF that] by (simp add: cached_def)
  show "cached V w (CaptchaKey Login mobile) = Some c"
    if "LoginByCode (auth_service config) mobile c w = (Inr r, w')" "IsOk r"
    using that unfolding LoginByCode_def
    by (auto simp: sms_service_def dest!: require_IsOk [OF _ that(2)] bindV_IsOk [OF _ that(2)] intro: sound [OF assms])
  show "cached V w (CaptchaKey Register mobile) = Some c"
    if "AuthService_Register (auth_service config) mobile c pw name w = (Inr r, w')" "IsOk r"
    using that unfolding AuthService_Register_def
    by (auto simp: sms_service_def dest!: require_IsOk [OF _ that(2)] bindV_IsOk [OF _ that(2)] intro: sound [OF assms])
  show "cached V w (CaptchaKey ResetPassword mobile) = Some c"
    if "AuthService_ResetPassword (auth_service config) mobile c pw w = (Inr r', w')" "IsOk r'"
    using that unfolding AuthService_ResetPassword_def
    by (auto simp: sms_service_def dest!: require_IsOk [OF _ that(2)] bindV_IsOk [OF _ that(2)] intro: sound [OF assms])
  show "\<exists>res user w1. UserDB_FindByUUID uuid w = (Inr res, w1) \<and> data res = Some user
      \<and> cached V w (CaptchaKey DeleteUser (u_mobile user)) = Some c"
    if run: "UserService_DeleteUser (user_service config) uuid c w = (Inr r', w')" and ok: "IsOk r'"
  proof -
    have "uuid \<noteq> []" using run ok by (auto simp: UserService_DeleteUser_def no_user_id_def ret_def)
    then obtain res user w1 q y where 1: "UserDB_FindByUUID uuid w = (Inr res, w1)" "data res = Some user"
      and 2: "VerifyCaptcha redis_cli (cfg_sms config) DeleteUser (u_mobile user) c w1 = (Inr q, y)" "IsOk q"
      using run unfolding UserService_DeleteUser_def
      by (auto simp: sms_service_def user_db_def dest!: require_IsOk [OF _ ok] bindR_IsOk [OF _ ok] bindV_IsOk [OF _ ok])
    have "w_redis w1 = w_redis w" using off_cacheD [OF off_cache_find(3) 1(1)] by simp
    then show ?thesis using sound [OF _ 2] assms 1 by (auto simp: cached_def)
  qed
qed

definition world_code :: "(nat list \<times> nat, unit, string \<rightharpoonup> string) world" where
  "world_code = (world_row 0)\<lparr>w_redis := redis_mem [CaptchaKey Login ''13800138000'' \<mapsto> ''123456'']\<rparr>"

lemma login_code_example:
  "\<exists>r w'. LoginByCode (auth_service config_once) ''13800138000'' ''123456'' world_code = (Inr r, w') \<and> IsOk r"
proof -
  let ?m = "''13800138000''" and ?V = "\<lambda>s :: string \<rightharpoonup> string. s" and ?S = "auth_service config_once"
  let ?v = "[CaptchaKey Login ?m \<mapsto> ''123456'']"
  have sms: "cfg_sms config_once = SmsConfig_default" by (simp add: config_once_def Config_default_def)
  have live: "redis_documented ?V (w_redis world_code) \<and> redis_prompt ?V (\<lambda>_. True) (w_redis world_code)"
    and view: "rc_state (w_redis world_code) = ?v"
    using redis_mem_alive [of ?v] by (simp_all add: world_code_def redis_alive_def)
  have inv: "sms_inv SmsConfig_default ?v"
    by (auto simp: sms_inv_def attempts_def SmsConfig_default_def)
  obtain q w1 where 1: "VerifyCaptcha redis_cli SmsConfig_default Login ?m ''123456'' world_code = (Inr q, w1)"
    "redis_documented ?V (w_redis w1) \<and> redis_prompt ?V (\<lambda>_. True) (w_redis w1)"
    "(w_pool w1, w_sys w1) = (w_pool world_code, w_sys world_code)" "code q = Ok"
    using live_cache.VerifyCaptcha_live [where V = ?V and up = "\<lambda>_. True" and w = world_code
        and config = SmsConfig_default and scene = Login and mobile = ?m and c = "''123456''"]
      live view inv sms_config_default_ok
    by (auto simp: verify_spec_def)
  have p1: "w_pool w1 = row_pool user_row [7]" "w_sys w1 = sys_example 0"
    using 1(3) by (simp_all add: world_code_def world_row_def)
  have f: "UserDB_FindByMobile ?m w1 = (Inr (Result_Ok user_row), w1)"
    unfolding UserDB_FindByMobile_def by (rule FindByField_row [OF p1(1) user_row_facts(1)]) simp
  obtain w2 where 2: "ClearLoginFailure ?S ?m w1 = (Inr (), w2)" "(w_pool w2, w_sys w2) = (w_pool w1, w_sys w1)"
    using cache_live(3) [of ?V "\<lambda>_. True" w1 ?S ?m] 1(2) by (auto simp: cache_alive_def)
  obtain tokens where 3: "issue_tokens ?S user_row w2 =
      (Inr (Result_Ok \<lparr>auth_user = user_row\<lparr>u_password_hash := []\<rparr>, auth_tokens = tokens\<rparr>), w2)"
    using issue_tokens_row [of w2 user_row 0 config_once user_row] p1 2(2) by auto
  have fmt: "IsValidVerifyCode ''123456'' SmsConfig_default = None" by code_simp
  show ?thesis
    using 1(1,4) f 2(1) 3 user_row_facts(2)
    by (simp add: LoginByCode_def require_def formats_example fmt sms sms_service_def bindV_def bindE_def user_db_def
        ret_def IsOk_def)
qed

theorem code_operations_need_code_witness:
  "\<exists>r w'. LoginByCode (auth_service config_once) ''13800138000'' ''123456'' world_code = (Inr r, w') \<and> IsOk r
    \<and> cached (\<lambda>s. s) world_code (CaptchaKey Login ''13800138000'') = Some ''123456''"
proof -
  obtain r w' where run: "LoginByCode (auth_service config_once) ''13800138000'' ''123456'' world_code = (Inr r, w')" "IsOk r"
    using login_code_example by blast
  have "redis_documented (\<lambda>s. s) (w_redis world_code)"
    using redis_mem_alive [of "[CaptchaKey Login ''13800138000'' \<mapsto> ''123456'']"]
    by (simp add: world_code_def redis_alive_def)
  from code_operations_need_code [OF this, of config_once "''13800138000''" "''123456''" r w'] run
  show ?thesis by blast
qed


section \<open>Behaviour the comments do not tell\<close>

text \<open>An update of an account does not depend on the mobile number it is given: the statement does
  not write that column.\<close>

lemma update_ignores_mobile: "UserDB_Update (u\<lparr>u_mobile := m\<rparr>) = UserDB_Update u"
  by (simp add: UserDB_Update_def)

text \<open>A registration that passes every other check is refused without a display name, before the code
  is looked at.\<close>

lemma registration_needs_name:
  assumes "IsValidMobile mobile = None" and "IsValidPassword pw (cfg_password (as_config this)) = None"
    and "IsValidVerifyCode c (cfg_sms (as_config this)) = None"
  shows "\<exists>msg. AuthService_Register this mobile c pw [] w = (Inr (Result_Fail InvalidArgument msg), w)"
  using assms by (auto simp: AuthService_Register_def require_def IsValidDisplayName_def ret_def)

text \<open>The role in the answer of a token validation is whatever the memory held, never the one of the
  token.\<close>

lemma validation_role_indeterminate:
  assumes "ValidateAccessToken indeterminate this t w = (Inr (Result_Ok v), w')"
  shows "v_role v = indeterminate"
  using assms by (auto simp: ValidateAccessToken_def bindR_Ok_iff ret_def split: if_splits)


text \<open>C38: No operation on the two tables lets an exception out, whatever the MySQL server does: each
  gives a value with the code \<open>Ok\<close> or an error code without a value, and the operations on sessions
  do not touch the cache. Deleting a session that does not exist is a success. (The end of the
  program in the destructor of a connection guard is the one exception.)\<close>

theorem repositories_settle:
  "settles (UserDB_Create u) \<and> settles (UserDB_FindById i) \<and> settles (UserDB_FindByUUID s)
    \<and> settles (UserDB_FindByMobile s) \<and> settles (UserDB_Update u) \<and> settles (UserDB_Delete i)
    \<and> settles (UserDB_DeleteByUUID s) \<and> settles (UserDB_FindAll_page p s) \<and> settles (UserDB_FindAll q)
    \<and> settles (UserDB_ExistsByMobile s) \<and> settles (UserDB_Count q)
    \<and> settles (SaveRefreshToken i t n) \<and> settles (FindByTokenHash t) \<and> settles (IsTokenValid t)
    \<and> settles (CountActiveSessionsByUserId i) \<and> settles (DeleteByTokenHash t) \<and> settles (DeleteByUserId i)
    \<and> settles CleanExpiredTokens
    \<and> gives (\<lambda>r. code r \<noteq> UserNotFound \<and> code r \<noteq> TokenInvalid) (DeleteByTokenHash t)
    \<and> off_cache (SaveRefreshToken i t n) \<and> off_cache (DeleteByTokenHash t) \<and> off_cache (DeleteByUserId i)"
  by (intro conjI settles_Create settles_find settles_change settles_pages settles_Save settles_sessions
      off_cache_Save off_cache_sessions delete_session_idempotent)

text \<open>C39: Whatever the collaborators do, no answer of the two services carries a password hash: where
  registration or a login gives an account, or the user service gives one account or a list of
  them, the hash is blank. A list of users comes with a page number from 1 on and a page size
  between 1 and 100.\<close>

theorem answers_hide_password_hash:
  fixes this :: "'w AuthService" and users :: "'w UserService"
  shows "(gives (\<lambda>r. case data r of None \<Rightarrow> True | Some a \<Rightarrow> u_password_hash (auth_user a) = []) (AuthService_Register this mobile verify_code pw name)
    \<and> gives (\<lambda>r. case data r of None \<Rightarrow> True | Some a \<Rightarrow> u_password_hash (auth_user a) = []) (LoginByPassword this mobile pw)
    \<and> gives (\<lambda>r. case data r of None \<Rightarrow> True | Some a \<Rightarrow> u_password_hash (auth_user a) = []) (LoginByCode this mobile verify_code))
    \<and> gives (\<lambda>r. case data r of None \<Rightarrow> True | Some u \<Rightarrow> u_password_hash u = []) (GetCurrentUser users uuid)
    \<and> gives (\<lambda>r. case data r of None \<Rightarrow> True | Some u \<Rightarrow> u_password_hash u = []) (GetUser users uuid)
    \<and> gives (\<lambda>r. case data r of None \<Rightarrow> True | Some u \<Rightarrow> u_password_hash u = []) (UpdateUser users uuid new_name)
    \<and> gives (\<lambda>r. case data r of None \<Rightarrow> True | Some l \<Rightarrow> list_all (\<lambda>u. u_password_hash u = []) (lu_users l)
        \<and> 1 \<le> pr_page (lu_page_res l)
        \<and> 1 \<le> pr_page_size (lu_page_res l) \<and> pr_page_size (lu_page_res l) \<le> 100)
      (ListUsers users mobile_filter disabled_filter pg pg_size)"
  by (rule conjI) (rule auth_hides_password_hash user_service_answers)+

end
